(* ===== verification/Prelude.thy ===== *)
theory Prelude
  imports Main "HOL-Library.Word"
begin

text \<open>
  Shared ground of the development: machine-integer types, error returns, the Zephyr
  kernel services the firmware uses (uptime clock, cycle counter, work items), and the
  collections and generic lemmas the component theories share.

  Every component keeps its static variables in a record that extends \<open>kern\<close>, so an
  operation of a component is a function on \<open>'a\<close>-schemes of its record and applies
  unchanged to the record of the whole firmware.
\<close>

unbundle bit_operations_syntax

section \<open>Machine integers and error returns\<close>

type_synonym u8 = "8 word"
type_synonym u16 = "16 word"
type_synonym u32 = "32 word"
type_synonym i8 = "8 word"   \<comment> \<open>read with \<open>sint\<close>\<close>
type_synonym i16 = "16 word" \<comment> \<open>read with \<open>sint\<close>\<close>
type_synonym i32 = "32 word" \<comment> \<open>read with \<open>sint\<close>\<close>

text \<open>A C function returning \<open>0\<close> or \<open>-E...\<close>: \<open>None\<close> is 0.\<close>

datatype errno =
    EIO | EACCES | EAGAIN | ENOMEM | EBUSY | ENODEV | EINVAL | ENODATA
  | EMSGSIZE | ENOTCONN | ETIMEDOUT

type_synonym rc = "errno option"

lemma int_eq_uint_iff [simp]:
  "int n = uint w \<longleftrightarrow> n = unat w" "uint w = int n \<longleftrightarrow> unat w = n"
  by (metis of_nat_eq_iff uint_nat)+

section \<open>Collections\<close>

named_theorems frames \<open>fields an operation leaves alone\<close>
named_theorems clock_simps \<open>32-bit clock comparisons\<close>

section \<open>The Zephyr kernel services\<close>

text \<open>Every \<open>k_work\<close> and \<open>k_work_delayable\<close> item of the firmware.\<close>

datatype work =
    NegotiateWork | IdleCheckWork | PostHopBurstWork | HopRetryWork | HopWork
  | CoopHopOfferWork | CoopHopCommitWork
  | RxWork | AdaptiveRetryWork
  | BeaconWork | VerifyWork
  | HidRetryWork | IpRetryWork nat
  | ShellExecWork | ShellPollWork | InactivityWork | OutDrainWork
  | StdoutFlushWork | BgPollWork
  | BenchTxWork | BenchCompleteWork | BenchResultPollWork | BenchResultTimeoutWork
  | BootProfileCheckWork

text \<open>
  \<open>uptime\<close> is \<open>k_uptime_get\<close> (64-bit in Zephyr, so it does not wrap in practice);
  \<open>cycles\<close> is the hardware cycle counter; \<open>sched w\<close> is the uptime at which a pending
  work item is due, \<open>None\<close> when it is not pending.
\<close>

record kern =
  uptime :: nat
  cycles :: u32
  sched :: "work \<Rightarrow> nat option"

definition k_uptime_get_32 :: "'a kern_scheme \<Rightarrow> u32" where
  "k_uptime_get_32 s = of_nat (uptime s)"

definition k_work_reschedule :: "work \<Rightarrow> nat \<Rightarrow> 'a kern_scheme \<Rightarrow> 'a kern_scheme" where
  "k_work_reschedule w ms s = s\<lparr>sched := (sched s)(w := Some (uptime s + ms))\<rparr>"

definition k_work_submit :: "work \<Rightarrow> 'a kern_scheme \<Rightarrow> 'a kern_scheme" where
  "k_work_submit w s =
     (if sched s w = None then s\<lparr>sched := (sched s)(w := Some (uptime s))\<rparr> else s)"

definition k_work_cancel :: "work \<Rightarrow> 'a kern_scheme \<Rightarrow> 'a kern_scheme" where
  "k_work_cancel w s = s\<lparr>sched := (sched s)(w := None)\<rparr>"

definition pending :: "work \<Rightarrow> 'a kern_scheme \<Rightarrow> bool" where
  "pending w s \<longleftrightarrow> sched s w \<noteq> None"

lemma kern_frames [simp, frames]:
  "uptime (k_work_reschedule w ms s) = uptime s"
  "cycles (k_work_reschedule w ms s) = cycles s"
  "kern.more (k_work_reschedule w ms s) = kern.more s"
  "uptime (k_work_submit w s) = uptime s"
  "cycles (k_work_submit w s) = cycles s"
  "kern.more (k_work_submit w s) = kern.more s"
  "uptime (k_work_cancel w s) = uptime s"
  "cycles (k_work_cancel w s) = cycles s"
  "kern.more (k_work_cancel w s) = kern.more s"
  by (simp_all add: k_work_reschedule_def k_work_submit_def k_work_cancel_def)

lemma k_uptime_frames [simp, frames]:
  "k_uptime_get_32 (k_work_reschedule w ms s) = k_uptime_get_32 s"
  "k_uptime_get_32 (k_work_submit w s) = k_uptime_get_32 s"
  "k_uptime_get_32 (k_work_cancel w s) = k_uptime_get_32 s"
  by (simp_all add: k_uptime_get_32_def)

lemma sched_simps [simp]:
  "sched (k_work_reschedule w ms s) = (sched s)(w := Some (uptime s + ms))"
  "sched (k_work_cancel w s) = (sched s)(w := None)"
  "sched (k_work_submit w s) =
     (if sched s w = None then (sched s)(w := Some (uptime s)) else sched s)"
  by (simp_all add: k_work_reschedule_def k_work_submit_def k_work_cancel_def)

lemma pending_simps [simp]:
  "pending v (k_work_reschedule w ms s) \<longleftrightarrow> v = w \<or> pending v s"
  "pending v (k_work_submit w s) \<longleftrightarrow> v = w \<or> pending v s"
  "pending v (k_work_cancel w s) \<longleftrightarrow> v \<noteq> w \<and> pending v s"
  by (auto simp: pending_def)

section \<open>Wrap-safe clock comparisons\<close>

text \<open>
  The comparison \<open>(int32_t)(deadline - now) > 0\<close> used for every deadline of the firmware,
  and the non-zero stamp \<open>(now == 0) ? 1 : now\<close>.
\<close>

definition deadline_ahead :: "u32 \<Rightarrow> u32 \<Rightarrow> bool" where
  "deadline_ahead deadline now \<longleftrightarrow> 0 < sint (deadline - now)"

definition stamp :: "u32 \<Rightarrow> u32" where
  "stamp now = (if now = 0 then 1 else now)"

lemma stamp_neq_0 [simp]: "stamp now \<noteq> 0"
  by (simp add: stamp_def)

lemma sint_by_cases:
  "sint (x :: 'a::len word) =
     (if uint x < 2 ^ (LENGTH('a) - 1) then uint x else uint x - 2 ^ LENGTH('a))"
proof -
  obtain n where n: "LENGTH('a) = Suc n" by (cases "LENGTH('a)") auto
  have lt: "uint x < 2 * 2 ^ n" using uint_lt2p [of x] by (simp add: n)
  have "sint x = take_bit (Suc n) (uint x + 2 ^ n) - 2 ^ n"
    by (simp add: sint_uint n signed_take_bit_eq_take_bit_shift)
  also have "take_bit (Suc n) (uint x + 2 ^ n) =
      (if uint x < 2 ^ n then uint x + 2 ^ n else uint x + 2 ^ n - 2 * 2 ^ n)"
  proof (cases "uint x < 2 ^ n")
    case False
    have "(uint x + 2 ^ n) mod (2 * 2 ^ n) = (uint x + 2 ^ n - 2 * 2 ^ n) mod (2 * 2 ^ n)"
      by (rule minus_mod_self2 [symmetric])
    also have "\<dots> = uint x + 2 ^ n - 2 * 2 ^ n"
      using False lt by (intro mod_pos_pos_trivial) auto
    finally show ?thesis using False by (simp add: take_bit_eq_mod)
  qed (simp add: take_bit_eq_mod)
  finally show ?thesis by (simp add: n)
qed

lemma sint_pos_iff: "0 < sint (x :: u32) \<longleftrightarrow> 0 < uint x \<and> uint x < 2 ^ 31"
  using uint_lt2p [of x] by (auto simp: sint_by_cases)

text \<open>A deadline set \<open>h\<close> ms ahead is pending for exactly the next \<open>h\<close> ms.\<close>

lemma deadline_ahead_iff [clock_simps]:
  "deadline_ahead d now \<longleftrightarrow> 0 < uint (d - now) \<and> uint (d - now) < 2 ^ 31"
  by (simp add: deadline_ahead_def sint_pos_iff)

lemma deadline_ahead_self [simp]: "\<not> deadline_ahead now now"
  by (simp add: deadline_ahead_def)

lemma deadline_window:
  assumes "h < 2 ^ 31" "e < 2 ^ 31"
  shows "deadline_ahead (of_nat t + of_nat h) (of_nat t + of_nat e) \<longleftrightarrow> e < h"
proof -
  have "(of_nat t + of_nat h :: u32) - (of_nat t + of_nat e) = word_of_int (int h - int e)"
    by simp
  then have "uint ((of_nat t + of_nat h :: u32) - (of_nat t + of_nat e)) = (int h - int e) mod 2 ^ 32"
    by (simp only: uint_word_of_int) simp
  also have "\<dots> = (if e \<le> h then int h - int e else int h - int e + 2 ^ 32)"
  proof (cases "e \<le> h")
    case False
    have "(int h - int e) mod 2 ^ 32 = (int h - int e + 2 ^ 32) mod 2 ^ 32"
      by (rule mod_add_self2 [symmetric])
    also have "\<dots> = int h - int e + 2 ^ 32"
      using False assms by (intro mod_pos_pos_trivial) auto
    finally show ?thesis using False by simp
  qed (use assms in \<open>auto intro!: mod_pos_pos_trivial\<close>)
  finally show ?thesis using assms by (auto simp: deadline_ahead_iff)
qed

text \<open>The other clock idiom: \<open>(uint32_t)(now - stamp) >= limit\<close>.\<close>

lemma elapsed_unat:
  "e < 2 ^ 32 \<Longrightarrow> unat ((of_nat t + of_nat e :: u32) - of_nat t) = e"
  by (simp add: unat_of_nat take_bit_eq_mod)

section \<open>The xorshift32 generator\<close>

text \<open>
  Both pseudo-random sources of the firmware (the channel picker and the retransmit-delay
  jitter) step the same generator: \<open>x ^= x << 13; x ^= x >> 17; x ^= x << 5\<close>.
\<close>

definition xorshift32 :: "u32 \<Rightarrow> u32" where
  "xorshift32 x0 =
     (let x1 = x0 XOR push_bit 13 x0;
          x2 = x1 XOR drop_bit 17 x1
      in x2 XOR push_bit 5 x2)"

lemma xor_push_bit_eq_0:
  assumes "0 < n" "(x :: 'a::len word) XOR push_bit n x = 0"
  shows "x = 0"
proof (rule bit_word_eqI)
  fix i assume "i < LENGTH('a)"
  then show "bit x i = bit (0 :: 'a word) i"
  proof (induction i rule: less_induct)
    case (less i)
    have "bit x i = bit (push_bit n x) i"
      using arg_cong [OF assms(2), of "\<lambda>w. bit w i"] by (simp add: bit_xor_iff)
    then have "bit x i = (n \<le> i \<and> bit x (i - n))"
      using less.prems by (simp add: bit_push_bit_iff)
    moreover have "n \<le> i \<Longrightarrow> \<not> bit x (i - n)"
      using less.IH [of "i - n"] less.prems assms(1) by auto
    ultimately show ?case by auto
  qed
qed

lemma xor_drop_bit_eq_0:
  assumes "0 < n" "(x :: 'a::len word) XOR drop_bit n x = 0"
  shows "x = 0"
proof (rule bit_word_eqI)
  fix i assume "i < LENGTH('a)"
  then show "bit x i = bit (0 :: 'a word) i"
  proof (induction "LENGTH('a) - i" arbitrary: i rule: less_induct)
    case less
    have "bit x i = bit (drop_bit n x) i"
      using arg_cong [OF assms(2), of "\<lambda>w. bit w i"] by (simp add: bit_xor_iff)
    then have "bit x i = bit x (n + i)"
      by (simp add: bit_drop_bit_eq)
    moreover have "\<not> bit x (n + i)"
    proof (cases "n + i < LENGTH('a)")
      case True
      then show ?thesis using less.hyps [of "n + i"] assms(1) by auto
    qed (auto dest: bit_imp_le_length)
    ultimately show ?case by simp
  qed
qed

text \<open>The generator never falls into its fixed point 0, so it is seeded only once.\<close>

lemma xorshift32_nonzero: "x \<noteq> 0 \<Longrightarrow> xorshift32 x \<noteq> 0"
  unfolding xorshift32_def Let_def
  by (meson xor_push_bit_eq_0 xor_drop_bit_eq_0 zero_less_numeral)

end
