(* ===== verification/Config.thy ===== *)
theory Config
  imports Prelude
begin

text \<open>
  The build configuration: \<open>src/Kconfig\<close> and \<open>src/shell/Kconfig\<close>. One record field per option
  the modelled code reads, without the \<open>CONFIG_ZMK_ESB_ENDPOINT_\<close> prefix (and without the
  \<open>CHANNEL_\<close> of the hop options); \<open>kcfg\<close> is an argument of every definition that reads an
  option, so the theorems hold for every configuration, or for every one that satisfies
  \<open>valid_kcfg\<close>: the Kconfig ranges and dependencies, the build assertions of
  \<open>channel_hop_ep.c\<close> and \<open>esb_transport.c\<close>. \<open>NKRO\<close> selects the N-key rollover HID report
  (otherwise HKRO). Durations are naturals; \<open>msec\<close> reads one as the \<open>uint32_t\<close> it is compared as.
\<close>

record kcfg =
  CHANNEL_HOP :: bool
  COOP_HOP :: bool
  RENDEZVOUS :: bool
  ADAPTIVE_RETRY :: bool
  CRITICAL_MAX_RETRANSMIT :: bool
  HID_NOACK :: bool
  NKRO :: bool
  SHELL_RELAY :: bool
  SHELL_BG_POLL :: bool
  BENCH :: bool
  ADAPTIVE_RETRY_INTERVAL_MS :: nat
  ADAPTIVE_RETRY_EWMA_LOW :: nat
  ADAPTIVE_RETRY_EWMA_HIGH :: nat
  ADAPTIVE_RETRY_COUNT_MIN :: nat
  ADAPTIVE_RETRY_COUNT_MAX :: nat
  ESB_MAX_PAYLOAD_LENGTH :: nat
  ESB_TX_FIFO_SIZE :: nat
  ESB_RX_FIFO_SIZE :: nat
  RETRANSMIT_COUNT :: nat
  RETRANSMIT_DELAY_US :: nat
  POINTER_RETRANSMIT_COUNT :: nat
  POINTER_MOTION_RING_SIZE :: nat
  POINTER_REFUND_STALE_MS :: nat
  POINTER_INFLIGHT_CAP :: nat
  CRITICAL_RETRANSMIT_COUNT :: nat
  CRIT_OVERRIDE_RING_SIZE :: nat
  BEACON_INTERVAL_MS :: nat
  BEACON_INITIAL_DELAY_MS :: nat
  VERIFY_INTERVAL_MS :: nat
  BOOT_CHECK_DELAY_MS :: nat
  BLE_QUIESCE_MS :: nat
  CTRL_MSGQ_DEPTH :: nat
  TX_FAIL_WARN_THRESHOLD :: nat
  TX_FAIL_ERR_THRESHOLD :: nat
  HID_QUIET_KB_QUEUE_DEPTH :: nat
  HID_QUIET_CONS_QUEUE_DEPTH :: nat
  HID_QUIET_RETRY_MS :: nat
  IP_PENDING_BTN_QUEUE :: nat
  IP_QUIET_RETRY_MS :: nat
  HOP_RETRY_DELAY_MS :: nat
  HOP_TX_FAIL_WINDOW_MS :: nat
  HOP_WEAK_LINK_MS :: nat
  HOP_POST_QUIET_MS :: nat
  MOTION_MAX_STALE_MS :: nat
  QUARANTINE_MS :: nat
  QUARANTINE_MIN_DISTANCE :: nat
  NEGOTIATE_INTERVAL_MS :: nat
  NEGOTIATE_RETRY_MS :: nat
  REQUEST_BURST_COUNT :: nat
  IDLE_THRESHOLD_MS :: nat
  POST_BURST_COUNT :: nat
  POST_BURST_INTERVAL_MS :: nat
  POST_BURST_RENDEZVOUS_EVERY :: nat
  RENDEZVOUS_TIMEOUT_MS :: nat
  RENDEZVOUS_FALLBACK_MS :: nat
  HOP_COOLDOWN_MS :: nat
  LINK_QUALITY_WINDOW :: nat
  NOACK_RING_SIZE :: nat
  LINK_DEGRADED_THRESHOLD :: nat
  LINK_DEGRADED_REARM :: nat
  LINK_DEGRADED_FAST_THRESHOLD :: nat
  COOP_HOP_HOP_IN_MS :: nat
  COOP_HOP_COOLDOWN_MS :: nat
  COOP_HOP_QUARANTINE_MS :: nat
  FLUSH_QUIET_MS :: nat
  FLUSH_FORCE_MS :: nat
  BENCH_DURATION_S :: nat
  BENCH_RESULT_POLL_MS :: nat
  BENCH_RESULT_TIMEOUT_MS :: nat
  SHELL_POLL_INTERVAL_MS :: nat
  SHELL_INACTIVITY_S :: nat
  SHELL_CMD_BUF_SIZE :: nat
  SHELL_OUT_BUF_SIZE :: nat
  SHELL_STDOUT_COALESCE_BYTES :: nat
  SHELL_STDOUT_COALESCE_MS :: nat
  SHELL_BG_POLL_MS :: nat
  SHELL_BG_POLL_ACTIVITY_THRESHOLD_MS :: nat
  SHELL_INITIAL_POLL_DELAY_MS :: nat
  SHELL_STOP_NUDGE_COOLDOWN_MS :: nat

definition msec :: "nat \<Rightarrow> u32" where
  "msec n = of_nat n"

text \<open>The defaults of the Kconfig files, with the shell relay and the benchmark left out.\<close>

definition default_kcfg :: kcfg where
  "default_kcfg = \<lparr>
    CHANNEL_HOP = True,
    COOP_HOP = True,
    RENDEZVOUS = True,
    ADAPTIVE_RETRY = True,
    CRITICAL_MAX_RETRANSMIT = False,
    HID_NOACK = False,
    NKRO = False,
    SHELL_RELAY = False,
    SHELL_BG_POLL = True,
    BENCH = False,
    ADAPTIVE_RETRY_INTERVAL_MS = 35,
    ADAPTIVE_RETRY_EWMA_LOW = 15,
    ADAPTIVE_RETRY_EWMA_HIGH = 45,
    ADAPTIVE_RETRY_COUNT_MIN = 2,
    ADAPTIVE_RETRY_COUNT_MAX = 12,
    ESB_MAX_PAYLOAD_LENGTH = 32,
    ESB_TX_FIFO_SIZE = 8,
    ESB_RX_FIFO_SIZE = 8,
    RETRANSMIT_COUNT = 5,
    RETRANSMIT_DELAY_US = 570,
    POINTER_RETRANSMIT_COUNT = 2,
    POINTER_MOTION_RING_SIZE = 24,
    POINTER_REFUND_STALE_MS = 100,
    POINTER_INFLIGHT_CAP = 5,
    CRITICAL_RETRANSMIT_COUNT = 15,
    CRIT_OVERRIDE_RING_SIZE = 8,
    BEACON_INTERVAL_MS = 50,
    BEACON_INITIAL_DELAY_MS = 10,
    VERIFY_INTERVAL_MS = 250,
    BOOT_CHECK_DELAY_MS = 650,
    BLE_QUIESCE_MS = 50,
    CTRL_MSGQ_DEPTH = 5,
    TX_FAIL_WARN_THRESHOLD = 3,
    TX_FAIL_ERR_THRESHOLD = 5,
    HID_QUIET_KB_QUEUE_DEPTH = 8,
    HID_QUIET_CONS_QUEUE_DEPTH = 4,
    HID_QUIET_RETRY_MS = 1,
    IP_PENDING_BTN_QUEUE = 4,
    IP_QUIET_RETRY_MS = 1,
    HOP_RETRY_DELAY_MS = 5,
    HOP_TX_FAIL_WINDOW_MS = 32,
    HOP_WEAK_LINK_MS = 80,
    HOP_POST_QUIET_MS = 2,
    MOTION_MAX_STALE_MS = 100,
    QUARANTINE_MS = 300000,
    QUARANTINE_MIN_DISTANCE = 5,
    NEGOTIATE_INTERVAL_MS = 60000,
    NEGOTIATE_RETRY_MS = 50,
    REQUEST_BURST_COUNT = 2,
    IDLE_THRESHOLD_MS = 50,
    POST_BURST_COUNT = 2,
    POST_BURST_INTERVAL_MS = 15,
    POST_BURST_RENDEZVOUS_EVERY = 4,
    RENDEZVOUS_TIMEOUT_MS = 10,
    RENDEZVOUS_FALLBACK_MS = 200,
    HOP_COOLDOWN_MS = 250,
    LINK_QUALITY_WINDOW = 32,
    NOACK_RING_SIZE = 8,
    LINK_DEGRADED_THRESHOLD = 10,
    LINK_DEGRADED_REARM = 2,
    LINK_DEGRADED_FAST_THRESHOLD = 4,
    COOP_HOP_HOP_IN_MS = 4,
    COOP_HOP_COOLDOWN_MS = 2500,
    COOP_HOP_QUARANTINE_MS = 30000,
    FLUSH_QUIET_MS = 2,
    FLUSH_FORCE_MS = 5,
    BENCH_DURATION_S = 10,
    BENCH_RESULT_POLL_MS = 50,
    BENCH_RESULT_TIMEOUT_MS = 1500,
    SHELL_POLL_INTERVAL_MS = 20,
    SHELL_INACTIVITY_S = 60,
    SHELL_CMD_BUF_SIZE = 256,
    SHELL_OUT_BUF_SIZE = 2048,
    SHELL_STDOUT_COALESCE_BYTES = 32,
    SHELL_STDOUT_COALESCE_MS = 5,
    SHELL_BG_POLL_MS = 100,
    SHELL_BG_POLL_ACTIVITY_THRESHOLD_MS = 5000,
    SHELL_INITIAL_POLL_DELAY_MS = 20,
    SHELL_STOP_NUDGE_COOLDOWN_MS = 5000\<rparr>"

definition power_of_two :: "nat \<Rightarrow> bool" where
  "power_of_two n \<longleftrightarrow> n \<in> {1, 2, 4, 8, 16, 32, 64, 128}"

text \<open>The \<open>range\<close> lines.\<close>

definition kcfg_ranges :: "kcfg \<Rightarrow> bool" where
  "kcfg_ranges c \<longleftrightarrow>
     10 \<le> ADAPTIVE_RETRY_INTERVAL_MS c \<and> ADAPTIVE_RETRY_INTERVAL_MS c \<le> 5000 \<and>
     10 \<le> ADAPTIVE_RETRY_EWMA_LOW c \<and> ADAPTIVE_RETRY_EWMA_LOW c \<le> 100 \<and>
     11 \<le> ADAPTIVE_RETRY_EWMA_HIGH c \<and> ADAPTIVE_RETRY_EWMA_HIGH c \<le> 200 \<and>
     ADAPTIVE_RETRY_COUNT_MIN c \<le> 15 \<and>
     ADAPTIVE_RETRY_COUNT_MAX c \<le> 15 \<and>
     1 \<le> ESB_MAX_PAYLOAD_LENGTH c \<and> ESB_MAX_PAYLOAD_LENGTH c \<le> 32 \<and>
     RETRANSMIT_COUNT c \<le> 15 \<and>
     POINTER_RETRANSMIT_COUNT c \<le> 15 \<and>
     2 \<le> POINTER_MOTION_RING_SIZE c \<and> POINTER_MOTION_RING_SIZE c \<le> 64 \<and>
     1 \<le> POINTER_REFUND_STALE_MS c \<and> POINTER_REFUND_STALE_MS c \<le> 5000 \<and>
     1 \<le> POINTER_INFLIGHT_CAP c \<and> POINTER_INFLIGHT_CAP c \<le> 32 \<and>
     CRITICAL_RETRANSMIT_COUNT c \<le> 15 \<and>
     2 \<le> CRIT_OVERRIDE_RING_SIZE c \<and> CRIT_OVERRIDE_RING_SIZE c \<le> 64 \<and>
     10 \<le> BEACON_INTERVAL_MS c \<and> BEACON_INTERVAL_MS c \<le> 1000 \<and>
     BEACON_INITIAL_DELAY_MS c \<le> 500 \<and>
     50 \<le> VERIFY_INTERVAL_MS c \<and> VERIFY_INTERVAL_MS c \<le> 2000 \<and>
     100 \<le> BOOT_CHECK_DELAY_MS c \<and> BOOT_CHECK_DELAY_MS c \<le> 10000 \<and>
     BLE_QUIESCE_MS c \<le> 1000 \<and>
     2 \<le> CTRL_MSGQ_DEPTH c \<and> CTRL_MSGQ_DEPTH c \<le> 16 \<and>
     1 \<le> TX_FAIL_WARN_THRESHOLD c \<and> TX_FAIL_WARN_THRESHOLD c \<le> 100 \<and>
     1 \<le> TX_FAIL_ERR_THRESHOLD c \<and> TX_FAIL_ERR_THRESHOLD c \<le> 100 \<and>
     1 \<le> HID_QUIET_KB_QUEUE_DEPTH c \<and> HID_QUIET_KB_QUEUE_DEPTH c \<le> 64 \<and>
     1 \<le> HID_QUIET_CONS_QUEUE_DEPTH c \<and> HID_QUIET_CONS_QUEUE_DEPTH c \<le> 64 \<and>
     1 \<le> HID_QUIET_RETRY_MS c \<and> HID_QUIET_RETRY_MS c \<le> 50 \<and>
     1 \<le> IP_PENDING_BTN_QUEUE c \<and> IP_PENDING_BTN_QUEUE c \<le> 32 \<and>
     1 \<le> IP_QUIET_RETRY_MS c \<and> IP_QUIET_RETRY_MS c \<le> 50 \<and>
     1 \<le> HOP_RETRY_DELAY_MS c \<and> HOP_RETRY_DELAY_MS c \<le> 100 \<and>
     2 \<le> HOP_TX_FAIL_WINDOW_MS c \<and> HOP_TX_FAIL_WINDOW_MS c \<le> 1000 \<and>
     HOP_WEAK_LINK_MS c \<le> 5000 \<and>
     HOP_POST_QUIET_MS c \<le> 1000 \<and>
     1 \<le> MOTION_MAX_STALE_MS c \<and> MOTION_MAX_STALE_MS c \<le> 5000 \<and>
     1000 \<le> QUARANTINE_MS c \<and> QUARANTINE_MS c \<le> 600000 \<and>
     QUARANTINE_MIN_DISTANCE c \<le> 20 \<and>
     500 \<le> NEGOTIATE_INTERVAL_MS c \<and> NEGOTIATE_INTERVAL_MS c \<le> 60000 \<and>
     20 \<le> NEGOTIATE_RETRY_MS c \<and> NEGOTIATE_RETRY_MS c \<le> 5000 \<and>
     1 \<le> REQUEST_BURST_COUNT c \<and> REQUEST_BURST_COUNT c \<le> 50 \<and>
     50 \<le> IDLE_THRESHOLD_MS c \<and> IDLE_THRESHOLD_MS c \<le> 60000 \<and>
     POST_BURST_COUNT c \<le> 50 \<and>
     5 \<le> POST_BURST_INTERVAL_MS c \<and> POST_BURST_INTERVAL_MS c \<le> 1000 \<and>
     POST_BURST_RENDEZVOUS_EVERY c \<le> 50 \<and>
     1 \<le> RENDEZVOUS_TIMEOUT_MS c \<and> RENDEZVOUS_TIMEOUT_MS c \<le> 50 \<and>
     RENDEZVOUS_FALLBACK_MS c \<le> 10000 \<and>
     HOP_COOLDOWN_MS c \<le> 10000 \<and>
     8 \<le> LINK_QUALITY_WINDOW c \<and> LINK_QUALITY_WINDOW c \<le> 32 \<and>
     2 \<le> NOACK_RING_SIZE c \<and> NOACK_RING_SIZE c \<le> 64 \<and>
     1 \<le> LINK_DEGRADED_THRESHOLD c \<and> LINK_DEGRADED_THRESHOLD c \<le> 32 \<and>
     LINK_DEGRADED_REARM c \<le> 32 \<and>
     LINK_DEGRADED_FAST_THRESHOLD c \<le> 8 \<and>
     2 \<le> COOP_HOP_HOP_IN_MS c \<and> COOP_HOP_HOP_IN_MS c \<le> 50 \<and>
     100 \<le> COOP_HOP_COOLDOWN_MS c \<and> COOP_HOP_COOLDOWN_MS c \<le> 30000 \<and>
     100 \<le> COOP_HOP_QUARANTINE_MS c \<and> COOP_HOP_QUARANTINE_MS c \<le> 600000 \<and>
     FLUSH_QUIET_MS c \<le> 100 \<and>
     1 \<le> FLUSH_FORCE_MS c \<and> FLUSH_FORCE_MS c \<le> 500 \<and>
     1 \<le> BENCH_DURATION_S c \<and> BENCH_DURATION_S c \<le> 60 \<and>
     10 \<le> BENCH_RESULT_POLL_MS c \<and> BENCH_RESULT_POLL_MS c \<le> 500 \<and>
     100 \<le> BENCH_RESULT_TIMEOUT_MS c \<and> BENCH_RESULT_TIMEOUT_MS c \<le> 10000 \<and>
     5 \<le> SHELL_POLL_INTERVAL_MS c \<and> SHELL_POLL_INTERVAL_MS c \<le> 500 \<and>
     SHELL_INACTIVITY_S c \<le> 3600 \<and>
     16 \<le> SHELL_STDOUT_COALESCE_BYTES c \<and> SHELL_STDOUT_COALESCE_BYTES c \<le> 256 \<and>
     1 \<le> SHELL_STDOUT_COALESCE_MS c \<and> SHELL_STDOUT_COALESCE_MS c \<le> 100 \<and>
     100 \<le> SHELL_BG_POLL_MS c \<and> SHELL_BG_POLL_MS c \<le> 5000 \<and>
     SHELL_BG_POLL_ACTIVITY_THRESHOLD_MS c \<le> 3600000 \<and>
     5 \<le> SHELL_INITIAL_POLL_DELAY_MS c \<and> SHELL_INITIAL_POLL_DELAY_MS c \<le> 500 \<and>
     50 \<le> SHELL_STOP_NUDGE_COOLDOWN_MS c \<and> SHELL_STOP_NUDGE_COOLDOWN_MS c \<le> 60000"

text \<open>The \<open>depends on\<close> lines, the build assertions and the sizes the arrays need.\<close>

definition kcfg_deps :: "kcfg \<Rightarrow> bool" where
  "kcfg_deps c \<longleftrightarrow>
     (COOP_HOP c \<longrightarrow> CHANNEL_HOP c) \<and> (RENDEZVOUS c \<longrightarrow> CHANNEL_HOP c) \<and>
     (ADAPTIVE_RETRY c \<longrightarrow> CHANNEL_HOP c)"

definition kcfg_asserts :: "kcfg \<Rightarrow> bool" where
  "kcfg_asserts c \<longleftrightarrow>
     (HOP_WEAK_LINK_MS c = 0 \<or> HOP_TX_FAIL_WINDOW_MS c < HOP_WEAK_LINK_MS c) \<and>
     (RENDEZVOUS_FALLBACK_MS c = 0 \<or> RENDEZVOUS_FALLBACK_MS c < HOP_COOLDOWN_MS c) \<and>
     HOP_POST_QUIET_MS c \<le> MOTION_MAX_STALE_MS c \<and>
     NEGOTIATE_RETRY_MS c < NEGOTIATE_INTERVAL_MS c \<and>
     RENDEZVOUS_TIMEOUT_MS c < POST_BURST_INTERVAL_MS c \<and>
     power_of_two (CRIT_OVERRIDE_RING_SIZE c) \<and> power_of_two (NOACK_RING_SIZE c) \<and>
     0 < ESB_TX_FIFO_SIZE c \<and> 0 < ESB_RX_FIFO_SIZE c \<and>
     0 < SHELL_CMD_BUF_SIZE c \<and> 0 < SHELL_OUT_BUF_SIZE c"

definition valid_kcfg :: "kcfg \<Rightarrow> bool" where
  "valid_kcfg c \<longleftrightarrow> kcfg_ranges c \<and> kcfg_deps c \<and> kcfg_asserts c"

lemma default_kcfg_simps [simp]:
  "CHANNEL_HOP default_kcfg = True"
  "COOP_HOP default_kcfg = True"
  "RENDEZVOUS default_kcfg = True"
  "ADAPTIVE_RETRY default_kcfg = True"
  "CRITICAL_MAX_RETRANSMIT default_kcfg = False"
  "HID_NOACK default_kcfg = False"
  "NKRO default_kcfg = False"
  "SHELL_RELAY default_kcfg = False"
  "SHELL_BG_POLL default_kcfg = True"
  "BENCH default_kcfg = False"
  "ADAPTIVE_RETRY_INTERVAL_MS default_kcfg = 35"
  "ADAPTIVE_RETRY_EWMA_LOW default_kcfg = 15"
  "ADAPTIVE_RETRY_EWMA_HIGH default_kcfg = 45"
  "ADAPTIVE_RETRY_COUNT_MIN default_kcfg = 2"
  "ADAPTIVE_RETRY_COUNT_MAX default_kcfg = 12"
  "ESB_MAX_PAYLOAD_LENGTH default_kcfg = 32"
  "ESB_TX_FIFO_SIZE default_kcfg = 8"
  "ESB_RX_FIFO_SIZE default_kcfg = 8"
  "RETRANSMIT_COUNT default_kcfg = 5"
  "RETRANSMIT_DELAY_US default_kcfg = 570"
  "POINTER_RETRANSMIT_COUNT default_kcfg = 2"
  "POINTER_MOTION_RING_SIZE default_kcfg = 24"
  "POINTER_REFUND_STALE_MS default_kcfg = 100"
  "POINTER_INFLIGHT_CAP default_kcfg = 5"
  "CRITICAL_RETRANSMIT_COUNT default_kcfg = 15"
  "CRIT_OVERRIDE_RING_SIZE default_kcfg = 8"
  "BEACON_INTERVAL_MS default_kcfg = 50"
  "BEACON_INITIAL_DELAY_MS default_kcfg = 10"
  "VERIFY_INTERVAL_MS default_kcfg = 250"
  "BOOT_CHECK_DELAY_MS default_kcfg = 650"
  "BLE_QUIESCE_MS default_kcfg = 50"
  "CTRL_MSGQ_DEPTH default_kcfg = 5"
  "TX_FAIL_WARN_THRESHOLD default_kcfg = 3"
  "TX_FAIL_ERR_THRESHOLD default_kcfg = 5"
  "HID_QUIET_KB_QUEUE_DEPTH default_kcfg = 8"
  "HID_QUIET_CONS_QUEUE_DEPTH default_kcfg = 4"
  "HID_QUIET_RETRY_MS default_kcfg = 1"
  "IP_PENDING_BTN_QUEUE default_kcfg = 4"
  "IP_QUIET_RETRY_MS default_kcfg = 1"
  "HOP_RETRY_DELAY_MS default_kcfg = 5"
  "HOP_TX_FAIL_WINDOW_MS default_kcfg = 32"
  "HOP_WEAK_LINK_MS default_kcfg = 80"
  "HOP_POST_QUIET_MS default_kcfg = 2"
  "MOTION_MAX_STALE_MS default_kcfg = 100"
  "QUARANTINE_MS default_kcfg = 300000"
  "QUARANTINE_MIN_DISTANCE default_kcfg = 5"
  "NEGOTIATE_INTERVAL_MS default_kcfg = 60000"
  "NEGOTIATE_RETRY_MS default_kcfg = 50"
  "REQUEST_BURST_COUNT default_kcfg = 2"
  "IDLE_THRESHOLD_MS default_kcfg = 50"
  "POST_BURST_COUNT default_kcfg = 2"
  "POST_BURST_INTERVAL_MS default_kcfg = 15"
  "POST_BURST_RENDEZVOUS_EVERY default_kcfg = 4"
  "RENDEZVOUS_TIMEOUT_MS default_kcfg = 10"
  "RENDEZVOUS_FALLBACK_MS default_kcfg = 200"
  "HOP_COOLDOWN_MS default_kcfg = 250"
  "LINK_QUALITY_WINDOW default_kcfg = 32"
  "NOACK_RING_SIZE default_kcfg = 8"
  "LINK_DEGRADED_THRESHOLD default_kcfg = 10"
  "LINK_DEGRADED_REARM default_kcfg = 2"
  "LINK_DEGRADED_FAST_THRESHOLD default_kcfg = 4"
  "COOP_HOP_HOP_IN_MS default_kcfg = 4"
  "COOP_HOP_COOLDOWN_MS default_kcfg = 2500"
  "COOP_HOP_QUARANTINE_MS default_kcfg = 30000"
  "FLUSH_QUIET_MS default_kcfg = 2"
  "FLUSH_FORCE_MS default_kcfg = 5"
  "BENCH_DURATION_S default_kcfg = 10"
  "BENCH_RESULT_POLL_MS default_kcfg = 50"
  "BENCH_RESULT_TIMEOUT_MS default_kcfg = 1500"
  "SHELL_POLL_INTERVAL_MS default_kcfg = 20"
  "SHELL_INACTIVITY_S default_kcfg = 60"
  "SHELL_CMD_BUF_SIZE default_kcfg = 256"
  "SHELL_OUT_BUF_SIZE default_kcfg = 2048"
  "SHELL_STDOUT_COALESCE_BYTES default_kcfg = 32"
  "SHELL_STDOUT_COALESCE_MS default_kcfg = 5"
  "SHELL_BG_POLL_MS default_kcfg = 100"
  "SHELL_BG_POLL_ACTIVITY_THRESHOLD_MS default_kcfg = 5000"
  "SHELL_INITIAL_POLL_DELAY_MS default_kcfg = 20"
  "SHELL_STOP_NUDGE_COOLDOWN_MS default_kcfg = 5000"
  by (simp_all add: default_kcfg_def)

lemma default_kcfg_valid [simp]: "valid_kcfg default_kcfg"
  by (simp add: valid_kcfg_def kcfg_ranges_def kcfg_deps_def kcfg_asserts_def power_of_two_def)

end
