(* ===== verification/ChannelHop.thy ===== *)
theory ChannelHop
  imports Prelude
begin

text \<open>
  Channel quarantine and channel selection: \<open>src/esb/channel_hop.c\<close> and
  \<open>include/zmk_esb/channel_hop.h\<close>. The clock reading the C code takes inside each
  function is the argument \<open>now\<close>; the candidate buffer is the list of accepted channels
  in scan order; the loops are recursive functions in the shape of the C loops, and are
  then shown equal to their set specification \<open>clear_of\<close>.
\<close>

definition CHANNEL_HOP_CHANNEL_COUNT :: nat where
  "CHANNEL_HOP_CHANNEL_COUNT = 101"

definition CHANNEL_HOP_INVALID :: u8 where
  "CHANNEL_HOP_INVALID = 0xFF"

lemmas chop_consts = CHANNEL_HOP_CHANNEL_COUNT_def CHANNEL_HOP_INVALID_def

section \<open>State\<close>

record quarantine_state =
  expires_at :: "u32 list"

record chop = kern +
  m_prng_state :: u32

definition wf_quarantine :: "quarantine_state \<Rightarrow> bool" where
  "wf_quarantine q \<longleftrightarrow> length (expires_at q) = CHANNEL_HOP_CHANNEL_COUNT"

section \<open>The pseudo-random generator\<close>

definition prng_next :: "'a chop_scheme \<Rightarrow> u32 \<times> 'a chop_scheme" where
  "prng_next s =
     (let seeded =
            (if m_prng_state s = 0
             then (let x = k_uptime_get_32 s XOR (cycles s * 2654435761)
                   in if x = 0 then 0xdeadbeef else x)
             else m_prng_state s);
          x = xorshift32 seeded
      in (x, s\<lparr>m_prng_state := x\<rparr>))"

section \<open>Quarantine\<close>

definition quarantine_reset :: "quarantine_state \<Rightarrow> quarantine_state" where
  "quarantine_reset q = q\<lparr>expires_at := replicate CHANNEL_HOP_CHANNEL_COUNT 0\<rparr>"

definition quarantine_add :: "u32 \<Rightarrow> quarantine_state \<Rightarrow> u8 \<Rightarrow> u32 \<Rightarrow> quarantine_state" where
  "quarantine_add now q channel hold_ms =
     (if CHANNEL_HOP_CHANNEL_COUNT \<le> unat channel then q
      else let new_expiry = now + hold_ms in
        if expires_at q ! unat channel < new_expiry
        then q\<lparr>expires_at := (expires_at q)[unat channel := new_expiry]\<rparr>
        else q)"

definition quarantine_is :: "u32 \<Rightarrow> quarantine_state \<Rightarrow> u8 \<Rightarrow> bool" where
  "quarantine_is now q channel =
     (if CHANNEL_HOP_CHANNEL_COUNT \<le> unat channel then True
      else let e = expires_at q ! unat channel in
        if e = 0 then False else deadline_ahead e now)"

function count_from :: "u32 \<Rightarrow> quarantine_state \<Rightarrow> nat \<Rightarrow> u8 \<Rightarrow> u8" where
  "count_from now q ch n =
     (if ch < CHANNEL_HOP_CHANNEL_COUNT
      then count_from now q (Suc ch) (if quarantine_is now q (of_nat ch) then n + 1 else n)
      else n)"
  by pat_completeness auto
termination
  by (relation "measure (\<lambda>(now, q, ch, n). CHANNEL_HOP_CHANNEL_COUNT - ch)") auto

declare count_from.simps [simp del]

definition quarantine_count :: "u32 \<Rightarrow> quarantine_state \<Rightarrow> u8" where
  "quarantine_count now q = count_from now q 0 0"

section \<open>Picking a channel\<close>

function within_loop :: "u32 \<Rightarrow> quarantine_state \<Rightarrow> int \<Rightarrow> int \<Rightarrow> int \<Rightarrow> bool" where
  "within_loop now q channel i hi =
     (if hi < i then False
      else if i < 0 \<or> int CHANNEL_HOP_CHANNEL_COUNT \<le> i
        then within_loop now q channel (i + 1) hi
      else if i = channel then within_loop now q channel (i + 1) hi
      else if quarantine_is now q (of_int i) then True
      else within_loop now q channel (i + 1) hi)"
  by pat_completeness auto
termination
  by (relation "measure (\<lambda>(now, q, channel, i, hi). nat (hi + 1 - i))") auto

declare within_loop.simps [simp del]

definition within_distance_of_quarantine ::
    "u32 \<Rightarrow> quarantine_state \<Rightarrow> u8 \<Rightarrow> u8 \<Rightarrow> bool" where
  "within_distance_of_quarantine now q channel distance =
     (let lo = int (unat channel) - int (unat distance);
          hi = int (unat channel) + int (unat distance)
      in within_loop now q (int (unat channel)) lo hi)"

text \<open>The four \<open>continue\<close> tests of the candidate loop of \<open>channel_hop_pick\<close>.\<close>

definition acceptable :: "u32 \<Rightarrow> quarantine_state \<Rightarrow> nat \<Rightarrow> u8 \<Rightarrow> u8 \<Rightarrow> bool" where
  "acceptable now q d avoid_channel ch =
     (if quarantine_is now q ch then False
      else if ch = avoid_channel then False
      else if 0 < d \<and> within_distance_of_quarantine now q ch (of_nat d) then False
      else if 0 < d \<and> unat avoid_channel < CHANNEL_HOP_CHANNEL_COUNT \<and>
              \<bar>int (unat ch) - int (unat avoid_channel)\<bar> \<le> int d then False
      else True)"

function candidates_from :: "u32 \<Rightarrow> quarantine_state \<Rightarrow> nat \<Rightarrow> u8 \<Rightarrow> nat \<Rightarrow> u8 list" where
  "candidates_from now q d avoid_channel ch =
     (if ch < CHANNEL_HOP_CHANNEL_COUNT
      then (if acceptable now q d avoid_channel (of_nat ch)
            then of_nat ch # candidates_from now q d avoid_channel (Suc ch)
            else candidates_from now q d avoid_channel (Suc ch))
      else [])"
  by pat_completeness auto
termination
  by (relation "measure (\<lambda>(now, q, d, a, ch). CHANNEL_HOP_CHANNEL_COUNT - ch)") auto

declare candidates_from.simps [simp del]

text \<open>The outer loop: the distance is relaxed by one until some channel is acceptable.\<close>

fun pick_at :: "quarantine_state \<Rightarrow> nat \<Rightarrow> u8 \<Rightarrow> 'a chop_scheme \<Rightarrow> u8 \<times> 'a chop_scheme" where
  "pick_at q d avoid_channel s =
     (let candidates = candidates_from (k_uptime_get_32 s) q d avoid_channel 0;
          count = length candidates
      in if 0 < count
         then (let (r, s') = prng_next s in (candidates ! unat (r mod of_nat count), s'))
         else (case d of
                 0 \<Rightarrow> (CHANNEL_HOP_INVALID, s)
               | Suc d' \<Rightarrow> pick_at q d' avoid_channel s))"

declare pick_at.simps [simp del]

definition channel_hop_pick ::
    "quarantine_state \<Rightarrow> u8 \<Rightarrow> u8 \<Rightarrow> 'a chop_scheme \<Rightarrow> u8 \<times> 'a chop_scheme" where
  "channel_hop_pick q min_distance avoid_channel s =
     pick_at q (unat min_distance) avoid_channel s"

section \<open>The loops against their specification\<close>

text \<open>
  \<open>blocked\<close> holds the quarantined channels and the channel to avoid; a channel is clear at
  distance \<open>d\<close> when it is on the band and further than \<open>d\<close> from every blocked channel.
\<close>

definition blocked :: "u32 \<Rightarrow> quarantine_state \<Rightarrow> u8 \<Rightarrow> int set" where
  "blocked now q avoid =
     {int c | c. c < CHANNEL_HOP_CHANNEL_COUNT \<and> quarantine_is now q (of_nat c)} \<union>
     (if unat avoid < CHANNEL_HOP_CHANNEL_COUNT then {int (unat avoid)} else {})"

definition clear_of :: "u32 \<Rightarrow> quarantine_state \<Rightarrow> u8 \<Rightarrow> nat \<Rightarrow> nat \<Rightarrow> bool" where
  "clear_of now q avoid d c \<longleftrightarrow>
     c < CHANNEL_HOP_CHANNEL_COUNT \<and> (\<forall>b \<in> blocked now q avoid. int d < \<bar>int c - b\<bar>)"

lemma within_loop_iff:
  "within_loop now q c i hi \<longleftrightarrow>
     (\<exists>j. i \<le> j \<and> j \<le> hi \<and> 0 \<le> j \<and> j < int CHANNEL_HOP_CHANNEL_COUNT \<and> j \<noteq> c \<and>
          quarantine_is now q (of_int j))"
proof (induction now q c i hi rule: within_loop.induct)
  case (1 now q c i hi)
  have split: "(\<exists>j. i \<le> j \<and> P j) \<longleftrightarrow> P i \<or> (\<exists>j. i + 1 \<le> j \<and> P j)" for P
    by (metis add.commute zless_imp_add1_zle less_le_not_le order_refl zle_add1_eq_le linorder_not_less nle_le)
  show ?case
    using 1 by (subst within_loop.simps, subst split) auto
qed

lemma candidates_from_eq:
  "candidates_from now q d a ch =
     map of_nat (filter (\<lambda>c. acceptable now q d a (of_nat c)) [ch..<CHANNEL_HOP_CHANNEL_COUNT])"
proof (induction now q d a ch rule: candidates_from.induct)
  case (1 now q d a ch)
  then show ?case
    by (subst candidates_from.simps) (simp add: upt_conv_Cons)
qed

lemma count_from_eq:
  "count_from now q ch n =
     n + of_nat (length (filter (\<lambda>c. quarantine_is now q (of_nat c)) [ch..<CHANNEL_HOP_CHANNEL_COUNT]))"
proof (induction now q ch n rule: count_from.induct)
  case (1 now q ch n)
  then show ?case
    by (subst count_from.simps) (simp add: upt_conv_Cons algebra_simps)
qed

lemma unat_of_nat_channel [simp]:
  "c < CHANNEL_HOP_CHANNEL_COUNT \<Longrightarrow> unat (of_nat c :: u8) = c"
  by (simp add: unat_of_nat take_bit_eq_mod CHANNEL_HOP_CHANNEL_COUNT_def)

lemma clear_of_iff:
  "clear_of now q a d c \<longleftrightarrow> c < CHANNEL_HOP_CHANNEL_COUNT \<and>
     (\<forall>b < CHANNEL_HOP_CHANNEL_COUNT. quarantine_is now q (of_nat b) \<longrightarrow> int d < \<bar>int c - int b\<bar>) \<and>
     (unat a < CHANNEL_HOP_CHANNEL_COUNT \<longrightarrow> int d < \<bar>int c - int (unat a)\<bar>)"
  by (auto simp: clear_of_def blocked_def)

lemma acceptable_iff_clear:
  assumes c: "c < CHANNEL_HOP_CHANNEL_COUNT" and d: "d < 256"
  shows "acceptable now q d a (of_nat c) \<longleftrightarrow> clear_of now q a d c"
proof -
  have dd: "unat (of_nat d :: u8) = d" using d by (simp add: unat_of_nat take_bit_eq_mod)
  have within: "within_distance_of_quarantine now q (of_nat c) (of_nat d) \<longleftrightarrow>
      (\<exists>b. b < CHANNEL_HOP_CHANNEL_COUNT \<and> quarantine_is now q (of_nat b) \<and>
           b \<noteq> c \<and> \<bar>int c - int b\<bar> \<le> int d)" (is "?L \<longleftrightarrow> ?R")
  proof
    assume ?L
    then obtain j where "int c - int d \<le> j" "j \<le> int c + int d" "0 \<le> j"
        "j < int CHANNEL_HOP_CHANNEL_COUNT" "j \<noteq> int c" "quarantine_is now q (of_int j)"
      using c dd by (auto simp: within_distance_of_quarantine_def within_loop_iff)
    then show ?R by (intro exI [of _ "nat j"]) auto
  next
    assume ?R
    then obtain b where "b < CHANNEL_HOP_CHANNEL_COUNT" "quarantine_is now q (of_nat b)"
        "b \<noteq> c" "\<bar>int c - int b\<bar> \<le> int d" by blast
    then show ?L
      using c dd by (auto simp: within_distance_of_quarantine_def within_loop_iff
          intro!: exI [of _ "int b"])
  qed
  have avoid: "of_nat c = a \<longleftrightarrow> unat a < CHANNEL_HOP_CHANNEL_COUNT \<and> unat a = c"
    using c by auto
  have cc: "unat (of_nat c :: u8) = c" using c by simp
  show ?thesis
  proof (cases "d = 0")
    case True
    then show ?thesis
      using c avoid by (auto simp: acceptable_def clear_of_iff)
  next
    case False
    have self: "\<not> int d < \<bar>int c - int c\<bar>" by simp
    have near: "\<not> ?R \<longleftrightarrow> (\<forall>b < CHANNEL_HOP_CHANNEL_COUNT. quarantine_is now q (of_nat b) \<longrightarrow>
        b \<noteq> c \<longrightarrow> int d < \<bar>int c - int b\<bar>)"
      by (auto simp: linorder_not_le)
    have "acceptable now q d a (of_nat c) \<longleftrightarrow>
        \<not> quarantine_is now q (of_nat c) \<and> of_nat c \<noteq> a \<and> \<not> ?R \<and>
        (unat a < CHANNEL_HOP_CHANNEL_COUNT \<longrightarrow> int d < \<bar>int c - int (unat a)\<bar>)"
      using False unfolding acceptable_def within cc by (auto simp: linorder_not_le)
    also have "\<dots> \<longleftrightarrow> clear_of now q a d c"
      using c self unfolding near clear_of_iff avoid by metis
    finally show ?thesis .
  qed
qed

lemma candidates_set:
  "d < 256 \<Longrightarrow>
     r \<in> set (candidates_from now q d a 0) \<longleftrightarrow>
     unat r < CHANNEL_HOP_CHANNEL_COUNT \<and> clear_of now q a d (unat r)"
  using acceptable_iff_clear [of "unat r" d now q a]
  by (auto simp: candidates_from_eq acceptable_iff_clear intro!: image_eqI [of _ _ "unat r"])

lemma candidates_empty_iff:
  "d < 256 \<Longrightarrow> candidates_from now q d a 0 = [] \<longleftrightarrow> (\<nexists>c. clear_of now q a d c)"
  by (auto simp: candidates_from_eq acceptable_iff_clear filter_empty_conv clear_of_def)

lemma prng_next_frames [simp, frames]:
  "uptime (snd (prng_next s)) = uptime s"
  "cycles (snd (prng_next s)) = cycles s"
  "sched (snd (prng_next s)) = sched s"
  "chop.more (snd (prng_next s)) = chop.more s"
  by (simp_all add: prng_next_def Let_def)

lemma prng_next_nonzero: "fst (prng_next s) \<noteq> 0 \<and> m_prng_state (snd (prng_next s)) \<noteq> 0"
  by (simp add: prng_next_def Let_def xorshift32_nonzero)

lemma nth_mod_in_set:
  assumes "xs \<noteq> []" "length xs < 256"
  shows "xs ! unat ((r :: u32) mod of_nat (length xs)) \<in> set xs"
proof -
  have "unat (of_nat (length xs) :: u32) = length xs"
    using assms(2) by (simp add: unat_of_nat take_bit_eq_mod)
  then have "unat (r mod of_nat (length xs)) < length xs"
    using assms(1) by (simp add: unat_mod)
  then show ?thesis by simp
qed

lemma candidates_length: "length (candidates_from now q d a 0) < 256"
proof -
  have "length (candidates_from now q d a 0) \<le> CHANNEL_HOP_CHANNEL_COUNT"
    by (simp add: candidates_from_eq length_filter_le [THEN order_trans])
  then show ?thesis by (simp add: CHANNEL_HOP_CHANNEL_COUNT_def)
qed

lemma pick_at_cases:
  assumes "d < 256" "pick_at q d a s = (r, s')"
  shows "(r = CHANNEL_HOP_INVALID \<and> s' = s \<and>
            (\<forall>d' \<le> d. \<nexists>c. clear_of (k_uptime_get_32 s) q a d' c)) \<or>
         (s' = snd (prng_next s) \<and>
            (\<exists>d0 \<le> d. clear_of (k_uptime_get_32 s) q a d0 (unat r) \<and>
               (\<forall>d'. d0 < d' \<and> d' \<le> d \<longrightarrow> (\<nexists>c. clear_of (k_uptime_get_32 s) q a d' c))))"
  using assms
proof (induction q d a s rule: pick_at.induct)
  case (1 q d a s)
  let ?cs = "candidates_from (k_uptime_get_32 s) q d a 0"
  show ?case
  proof (cases "?cs = []")
    case False
    obtain x s1 where p: "prng_next s = (x, s1)" by fastforce
    with False "1.prems"(2) have r: "r = ?cs ! unat (x mod of_nat (length ?cs))" "s' = s1"
      by (auto simp: pick_at.simps [of q d a s] Let_def)
    have "r \<in> set ?cs"
      unfolding r by (rule nth_mod_in_set [OF False candidates_length])
    then have "clear_of (k_uptime_get_32 s) q a d (unat r)"
      using candidates_set [OF "1.prems"(1)] by blast
    then show ?thesis using p r(2) by (intro disjI2) auto
  next
    case True
    then have none: "\<nexists>c. clear_of (k_uptime_get_32 s) q a d c"
      using candidates_empty_iff [OF "1.prems"(1)] by simp
    show ?thesis
    proof (cases d)
      case 0
      with True "1.prems"(2) none show ?thesis
        by (auto simp: pick_at.simps [of q 0 a s] Let_def)
    next
      case (Suc d')
      with True "1.prems"(2) have "pick_at q d' a s = (r, s')"
        by (simp add: pick_at.simps [of q "Suc d'" a s])
      from "1.IH" [OF refl refl _ Suc _ this] True Suc "1.prems"(1) none
      show ?thesis by (simp add: le_Suc_eq) (metis le_SucI)
    qed
  qed
qed

lemma channel_hop_pick_frames:
  "channel_hop_pick q m a s = (r, s') \<Longrightarrow> s' = s \<or> s' = snd (prng_next s)"
  unfolding channel_hop_pick_def
  using pick_at_cases [of "unat m" q a s r s'] unsigned_less [of m] by auto

lemma clear_of_mono: "clear_of now q a d c \<Longrightarrow> d' \<le> d \<Longrightarrow> clear_of now q a d' c"
  unfolding clear_of_def by fastforce

lemma clear_of_0_iff:
  "clear_of now q a 0 c \<longleftrightarrow>
     c < CHANNEL_HOP_CHANNEL_COUNT \<and> \<not> quarantine_is now q (of_nat c) \<and> unat a \<noteq> c"
proof -
  have ua: "int c = uint a \<longleftrightarrow> unat a = c" by (metis of_nat_eq_iff uint_nat)
  show ?thesis
    using ua by (auto simp: clear_of_def blocked_def)
qed

lemma pick_good:
  assumes "channel_hop_pick q m a s = (r, s')" and "r \<noteq> CHANNEL_HOP_INVALID"
  obtains d where "d \<le> unat m" "clear_of (k_uptime_get_32 s) q a d (unat r)"
    "\<forall>d'. d < d' \<and> d' \<le> unat m \<longrightarrow> (\<nexists>c. clear_of (k_uptime_get_32 s) q a d' c)"
proof -
  have "unat m < 256" using unsigned_less [of m] by simp
  with assms that show ?thesis
    unfolding channel_hop_pick_def by (auto dest!: pick_at_cases)
qed

lemma pick_channel:
  assumes "channel_hop_pick q m a s = (r, s')" and "r \<noteq> CHANNEL_HOP_INVALID"
  shows "unat r < CHANNEL_HOP_CHANNEL_COUNT" "\<not> quarantine_is (k_uptime_get_32 s) q r" "r \<noteq> a"
proof -
  have "clear_of (k_uptime_get_32 s) q a 0 (unat r)"
    using assms by (auto elim!: pick_good intro: clear_of_mono)
  then show "unat r < CHANNEL_HOP_CHANNEL_COUNT" "\<not> quarantine_is (k_uptime_get_32 s) q r" "r \<noteq> a"
    by (auto simp: clear_of_0_iff)
qed

lemma pick_gives_up_iff:
  "fst (channel_hop_pick q m a s) = CHANNEL_HOP_INVALID \<longleftrightarrow>
     (\<forall>c < CHANNEL_HOP_CHANNEL_COUNT. quarantine_is (k_uptime_get_32 s) q (of_nat c) \<or> unat a = c)"
proof -
  obtain r s' where p: "channel_hop_pick q m a s = (r, s')" by fastforce
  have m: "unat m < 256" using unsigned_less [of m] by simp
  note cases = pick_at_cases [OF m p [unfolded channel_hop_pick_def]]
  show ?thesis
  proof (cases "r = CHANNEL_HOP_INVALID")
    case True
    have "\<not> clear_of (k_uptime_get_32 s) q a d (unat r)" for d
      by (simp add: True clear_of_def chop_consts)
    with cases have "\<nexists>c. clear_of (k_uptime_get_32 s) q a 0 c" by blast
    with True p show ?thesis by (auto simp: clear_of_0_iff)
  next
    case False
    note good = pick_channel [OF p False]
    from good have "(of_nat (unat r) :: u8) = r" "unat a \<noteq> unat r"
      by (auto simp: word_unat_eq_iff)
    with good have "\<not> (\<forall>c < CHANNEL_HOP_CHANNEL_COUNT.
        quarantine_is (k_uptime_get_32 s) q (of_nat c) \<or> unat a = c)" by metis
    with False p show ?thesis by simp
  qed
qed

lemma quarantine_is_out_of_range [simp]:
  "CHANNEL_HOP_CHANNEL_COUNT \<le> unat c \<Longrightarrow> quarantine_is now q c"
  by (simp add: quarantine_is_def)

lemma quarantine_add_other [simp]:
  "c \<noteq> ch \<Longrightarrow> quarantine_is now' (quarantine_add now q ch h) c = quarantine_is now' q c"
  by (auto simp: quarantine_add_def quarantine_is_def Let_def nth_list_update word_unat_eq_iff)

lemma wf_quarantine_ops [simp]:
  "wf_quarantine (quarantine_reset q)"
  "wf_quarantine (quarantine_add now q ch h) = wf_quarantine q"
  by (simp_all add: wf_quarantine_def quarantine_reset_def quarantine_add_def Let_def)

lemma quarantine_reset_is [simp]:
  "unat c < CHANNEL_HOP_CHANNEL_COUNT \<Longrightarrow> \<not> quarantine_is now (quarantine_reset q) c"
  by (simp add: quarantine_is_def quarantine_reset_def)

lemma unat_of_nat_u32: "n < 2 ^ 32 \<Longrightarrow> unat (of_nat n :: u32) = n"
  by (simp add: unat_of_nat take_bit_eq_mod)

section \<open>The quarantine interface of the hop manager\<close>

text \<open>
  What the hop manager relies on: the store keeps its shape, a channel added for \<open>h\<close> ms is
  barred for \<open>h\<close> ms (before the 32-bit clock wraps), other channels are left alone, and the
  picker never returns a barred channel or the channel to leave.
\<close>

locale channel_store =
  fixes reset :: "'q \<Rightarrow> 'q"
    and add :: "u32 \<Rightarrow> 'q \<Rightarrow> u8 \<Rightarrow> u32 \<Rightarrow> 'q"
    and barred :: "u32 \<Rightarrow> 'q \<Rightarrow> u8 \<Rightarrow> bool"
    and wf :: "'q \<Rightarrow> bool"
    and expiry :: "'q \<Rightarrow> u8 \<Rightarrow> u32"
    and on_band :: "u8 \<Rightarrow> bool"
  assumes wf_reset: "wf (reset q)"
    and wf_add: "wf q \<Longrightarrow> wf (add now q c hold)"
    and reset_free: "on_band c \<Longrightarrow> \<not> barred now (reset q) c"
    and off_band: "\<not> on_band c \<Longrightarrow> barred now q c"
    and add_other: "c \<noteq> d \<Longrightarrow> barred now' (add now q d hold) c = barred now' q c"
    and add_same: "\<lbrakk>wf q; on_band c; 0 < h; h < 2 ^ 31; t + h < 2 ^ 32; e < 2 ^ 31;
                    unat (expiry q c) \<le> t + h\<rbrakk> \<Longrightarrow>
                   barred (of_nat t + of_nat e) (add (of_nat t) q c (of_nat h)) c \<longleftrightarrow> e < h"
begin

text \<open>Two channels quarantined one after the other are both barred: the pair left by a
  hop and by the revert that follows it.\<close>

lemma add_two:
  assumes "wf q" "on_band c" "on_band d" "c \<noteq> d" "0 < h" "h < 2 ^ 31" "t + h < 2 ^ 32"
    "unat (expiry q c) \<le> t + h" "unat (expiry (add (of_nat t) q c (of_nat h)) d) \<le> t + h" "e < h"
  shows "barred (of_nat t + of_nat e) (add (of_nat t) (add (of_nat t) q c (of_nat h)) d (of_nat h)) c \<and>
         barred (of_nat t + of_nat e) (add (of_nat t) (add (of_nat t) q c (of_nat h)) d (of_nat h)) d"
  using assms less_trans [OF assms(10,6)]
  by (auto simp: add_other add_same wf_add)

lemma add_mono_other:
  "barred now' q c \<Longrightarrow> c \<noteq> d \<Longrightarrow> barred now' (add now q d h) c"
  by (simp add: add_other)

end

locale channel_picker = channel_store reset add barred wf expiry on_band
  for reset :: "'q \<Rightarrow> 'q" and add and barred and wf and expiry and on_band +
  fixes pick :: "'q \<Rightarrow> u8 \<Rightarrow> u8 \<Rightarrow> 's \<Rightarrow> u8 \<times> 's"
    and now :: "'s \<Rightarrow> u32"
    and none :: u8
  assumes none_off_band: "\<not> on_band none"
    and pick_ok: "pick q m a s = (r, s') \<Longrightarrow> r \<noteq> none \<Longrightarrow>
                    on_band r \<and> \<not> barred (now s) q r \<and> r \<noteq> a"
    and pick_now: "pick q m a s = (r, s') \<Longrightarrow> now s' = now s"
begin

lemma pick_moves: "pick q m a s = (r, s') \<Longrightarrow> on_band a \<Longrightarrow> r \<noteq> a"
  using pick_ok none_off_band by (cases "r = none") auto

text \<open>A channel that has just been quarantined is not picked while its hold lasts.\<close>

lemma pick_avoids_added:
  assumes "wf q" "on_band c" "0 < h" "h < 2 ^ 31" "t + h < 2 ^ 32"
    "unat (expiry q c) \<le> t + h" "e < h" "now s = of_nat t + of_nat e"
    "pick (add (of_nat t) q c (of_nat h)) m a s = (r, s')"
  shows "r \<noteq> c"
proof
  assume "r = c"
  then have "r \<noteq> none" using assms(2) none_off_band by auto
  with assms(9) have "\<not> barred (now s) (add (of_nat t) q c (of_nat h)) r"
    by (blast dest: pick_ok)
  with assms less_trans [OF assms(7,4)] \<open>r = c\<close> show False by (simp add: add_same)
qed

end

lemma quarantine_add_same:
  assumes "wf_quarantine q" "unat c < CHANNEL_HOP_CHANNEL_COUNT" "0 < h" "h < 2 ^ 31"
    "t + h < 2 ^ 32" "e < 2 ^ 31" "unat (expires_at q ! unat c) \<le> t + h"
  shows "quarantine_is (of_nat t + of_nat e) (quarantine_add (of_nat t) q c (of_nat h)) c \<longleftrightarrow> e < h"
proof -
  have th: "(of_nat t :: u32) + of_nat h = of_nat (t + h)" by simp
  have nz: "(of_nat (t + h) :: u32) \<noteq> 0"
    using assms(3,5) unat_of_nat_u32 [of "t + h"] by fastforce
  have "expires_at (quarantine_add (of_nat t) q c (of_nat h)) ! unat c = of_nat (t + h)"
    using assms unat_of_nat_u32 [OF assms(5)]
    by (auto simp: quarantine_add_def wf_quarantine_def th word_less_nat_alt Let_def
        simp del: of_nat_add intro: word_unat_eq_iff [THEN iffD2])
  with assms nz show ?thesis
    by (simp add: quarantine_is_def deadline_window)
qed

interpretation cs: channel_picker quarantine_reset quarantine_add quarantine_is wf_quarantine
  "\<lambda>q c. expires_at q ! unat c" "\<lambda>c. unat c < CHANNEL_HOP_CHANNEL_COUNT"
  channel_hop_pick k_uptime_get_32 CHANNEL_HOP_INVALID
proof unfold_locales
  show "\<not> unat CHANNEL_HOP_INVALID < CHANNEL_HOP_CHANNEL_COUNT" by (simp add: chop_consts)
next
  fix q m a and s s' :: "'a chop_scheme" and r
  assume p: "channel_hop_pick q m a s = (r, s')"
  then show "k_uptime_get_32 s' = k_uptime_get_32 s"
    by (auto dest!: channel_hop_pick_frames simp: k_uptime_get_32_def)
  assume "r \<noteq> CHANNEL_HOP_INVALID"
  with p show "unat r < CHANNEL_HOP_CHANNEL_COUNT \<and> \<not> quarantine_is (k_uptime_get_32 s) q r \<and> r \<noteq> a"
    by (simp add: pick_channel)
qed (simp_all add: quarantine_add_same)

section \<open>Properties\<close>

text \<open>
  C1. A channel picked for a hop is on the band, is not quarantined, is not the channel to
  avoid, and keeps the largest distance from every blocked channel that any channel can
  keep: with \<open>d\<close> the distance it was accepted at, no channel of the band is clear at a
  larger distance within the requested minimum.
\<close>

theorem channel_hop_pick_optimal:
  assumes "channel_hop_pick q m a s = (r, s')" and "r \<noteq> CHANNEL_HOP_INVALID"
  shows "unat r < CHANNEL_HOP_CHANNEL_COUNT \<and> \<not> quarantine_is (k_uptime_get_32 s) q r \<and> r \<noteq> a \<and>
    (\<exists>d \<le> unat m. clear_of (k_uptime_get_32 s) q a d (unat r) \<and>
       (\<forall>d'. d < d' \<and> d' \<le> unat m \<longrightarrow> (\<nexists>c. clear_of (k_uptime_get_32 s) q a d' c)))"
  using pick_channel [OF assms] assms by (elim pick_good) blast+

text \<open>
  C2. The picker gives up exactly when it has to: it returns \<open>CHANNEL_HOP_INVALID\<close> iff every
  channel of the band is quarantined or is the channel to avoid.
\<close>

theorem channel_hop_pick_invalid_iff:
  "fst (channel_hop_pick q m a s) = CHANNEL_HOP_INVALID \<longleftrightarrow>
     (\<forall>c < CHANNEL_HOP_CHANNEL_COUNT. quarantine_is (k_uptime_get_32 s) q (of_nat c) \<or> unat a = c)"
  by (rule pick_gives_up_iff)

text \<open>A store with channel 40 quarantined, and a clock one second later.\<close>

definition q_example :: quarantine_state where
  "q_example = quarantine_add 1000 (quarantine_reset \<lparr>expires_at = []\<rparr>) 40 300000"

definition chop_example :: chop where
  "chop_example = \<lparr>uptime = 2000, cycles = 7, sched = (\<lambda>_. None), m_prng_state = 1\<rparr>"

theorem channel_hop_pick_invalid_iff_witness:
  "fst (channel_hop_pick q_example 5 78 chop_example) \<noteq> CHANNEL_HOP_INVALID"
proof -
  have "\<not> quarantine_is (k_uptime_get_32 chop_example) q_example (of_nat 0)"
    by (simp add: q_example_def chop_consts)
  then show ?thesis
    unfolding channel_hop_pick_invalid_iff by (auto simp: chop_consts intro!: exI [of _ 0])
qed

theorem channel_hop_pick_optimal_witness:
  "\<exists>r s'. channel_hop_pick q_example 5 78 chop_example = (r, s') \<and> r \<noteq> CHANNEL_HOP_INVALID \<and>
     unat r < CHANNEL_HOP_CHANNEL_COUNT \<and> \<not> quarantine_is (k_uptime_get_32 chop_example) q_example r"
proof -
  obtain r s' where p: "channel_hop_pick q_example 5 78 chop_example = (r, s')" by fastforce
  have "\<not> quarantine_is (k_uptime_get_32 chop_example) q_example (of_nat 0)"
    by (simp add: q_example_def chop_consts)
  then have "fst (channel_hop_pick q_example 5 78 chop_example) \<noteq> CHANNEL_HOP_INVALID"
    unfolding pick_gives_up_iff by (auto simp: chop_consts intro!: exI [of _ 0])
  with p have "r \<noteq> CHANNEL_HOP_INVALID" by simp
  from channel_hop_pick_optimal [OF p this] p this show ?thesis by blast
qed

text \<open>
  Quarantining a channel for \<open>h\<close> ms at uptime \<open>t\<close> bars it for exactly the next \<open>h\<close> ms
  and changes the verdict of no other channel, as long as the 32-bit clock does not wrap
  inside the hold and the channel held no later expiry.
\<close>

theorem quarantine_holds:
  assumes "wf_quarantine q" "unat c < CHANNEL_HOP_CHANNEL_COUNT" "0 < h" "h < 2 ^ 31"
    "t + h < 2 ^ 32" "e < 2 ^ 31" "unat (expires_at q ! unat c) \<le> t + h"
  shows "(quarantine_is (of_nat t + of_nat e) (quarantine_add (of_nat t) q c (of_nat h)) c \<longleftrightarrow> e < h) \<and>
         (\<forall>d. d = c \<or> quarantine_is now (quarantine_add (of_nat t) q c (of_nat h)) d =
                       quarantine_is now q d)"
  using cs.add_same [OF assms] cs.add_other by metis

theorem quarantine_holds_witness:
  "quarantine_is (of_nat 1000 + of_nat 29999)
     (quarantine_add (of_nat 1000) (quarantine_reset \<lparr>expires_at = []\<rparr>) 40 (of_nat 30000)) 40"
proof -
  have "wf_quarantine (quarantine_reset \<lparr>expires_at = []\<rparr>)"
    "unat (40 :: u8) < CHANNEL_HOP_CHANNEL_COUNT"
    "unat (expires_at (quarantine_reset \<lparr>expires_at = []\<rparr>) ! unat (40 :: u8)) \<le> 1000 + 30000"
    by (simp_all add: quarantine_reset_def CHANNEL_HOP_CHANNEL_COUNT_def wf_quarantine_def)
  from quarantine_holds [OF this(1,2) _ _ _ _ this(3), of 29999] show ?thesis by simp
qed

text \<open>
  The expiry comparison of \<open>quarantine_add\<close> is numeric, not wrap-safe: once the 32-bit
  uptime has wrapped, a stale expiry of the previous epoch, long past for \<open>quarantine_is\<close>,
  still outweighs every new expiry below it, so the call stores nothing and a channel that
  is being left as bad stays free to be picked again.
\<close>

theorem quarantine_add_stale_epoch:
  assumes "unat c < CHANNEL_HOP_CHANNEL_COUNT"
    and "now + hold \<le> expires_at q ! unat c"
    and "\<not> deadline_ahead (expires_at q ! unat c) now"
  shows "quarantine_add now q c hold = q \<and> \<not> quarantine_is now (quarantine_add now q c hold) c"
  using assms by (auto simp: quarantine_add_def quarantine_is_def Let_def)

theorem quarantine_add_stale_epoch_witness:
  "let q = \<lparr>expires_at = (replicate 101 0)[40 := 0xFFFF0000]\<rparr>
   in \<not> quarantine_is 1000 (quarantine_add 1000 q 40 300000) 40"
proof -
  define q where "q = \<lparr>expires_at = (replicate 101 0)[40 := (0xFFFF0000 :: u32)]\<rparr>"
  have e: "expires_at q ! unat (40 :: u8) = 0xFFFF0000" by (simp add: q_def)
  have "unat (40 :: u8) < CHANNEL_HOP_CHANNEL_COUNT"
    by (simp add: CHANNEL_HOP_CHANNEL_COUNT_def)
  moreover have "(1000 :: u32) + 300000 \<le> expires_at q ! unat (40 :: u8)"
    unfolding e by simp
  moreover have "\<not> deadline_ahead (expires_at q ! unat (40 :: u8)) 1000"
    unfolding e by (simp add: deadline_ahead_def)
  ultimately have "\<not> quarantine_is 1000 (quarantine_add 1000 q 40 300000) 40"
    using quarantine_add_stale_epoch by blast
  then show ?thesis by (simp add: q_def Let_def)
qed

text \<open>
  The generator is seeded at most once: whatever the state, a draw leaves a non-zero
  generator state and returns a non-zero word.
\<close>

theorem prng_never_stuck:
  "m_prng_state (snd (prng_next s)) \<noteq> 0 \<and> fst (prng_next s) = m_prng_state (snd (prng_next s))"
  using prng_next_nonzero [of s] by (simp add: prng_next_def Let_def)

end
