(* ===== verification/Esb.thy ===== *)
theory Esb
  imports Config ChannelHop
begin

text \<open>
  The vendored Enhanced ShockBurst library, \<open>vendor/nrf-esb/subsys/esb.c\<close>, as far as the
  firmware depends on it: the TX and RX FIFOs, the protocol state, the retransmit counter
  and the functions of its API the firmware calls. Radio, timer, PPI and front-end registers
  are left out; what the hardware decides (whether an acknowledgement arrived, and with which
  payload) is an argument of the radio event functions. \<open>CONFIG_ESB_NEVER_DISABLE_TX\<close> is on
  and \<open>CONFIG_ESB_FAST_SWITCHING\<close> and \<open>CONFIG_ESB_FAST_CHANNEL_SWITCHING\<close> are off, as
  \<open>src/Kconfig\<close> fixes them, and \<open>CONFIG_ESB_PIPE_COUNT\<close> is its default 2.
\<close>

section \<open>Ring buffers\<close>

text \<open>\<open>struct payload_tx_fifo\<close> and \<open>struct payload_rx_fifo\<close> have this shape.\<close>

record 'a ring =
  rslots :: "'a list"
  rback :: nat
  rfront :: nat
  rcount :: nat

definition ring_bump :: "nat \<Rightarrow> nat \<Rightarrow> nat" where
  "ring_bump cap i = (if cap \<le> Suc i then 0 else Suc i)"

definition ring_push :: "nat \<Rightarrow> 'a \<Rightarrow> 'a ring \<Rightarrow> 'a ring" where
  "ring_push cap x r =
     r\<lparr>rslots := (rslots r)[rback r := x], rback := ring_bump cap (rback r), rcount := Suc (rcount r)\<rparr>"

definition ring_pop :: "nat \<Rightarrow> 'a ring \<Rightarrow> 'a ring" where
  "ring_pop cap r =
     (if rcount r = 0 then r
      else r\<lparr>rcount := rcount r - 1, rfront := ring_bump cap (rfront r)\<rparr>)"

definition ring_clear :: "'a ring \<Rightarrow> 'a ring" where
  "ring_clear r = r\<lparr>rback := 0, rfront := 0, rcount := 0\<rparr>"

definition ring_head :: "'a ring \<Rightarrow> 'a" where
  "ring_head r = rslots r ! rfront r"

definition ring_full :: "nat \<Rightarrow> 'a ring \<Rightarrow> bool" where
  "ring_full cap r \<longleftrightarrow> cap \<le> rcount r"

definition ring_wf :: "nat \<Rightarrow> 'a ring \<Rightarrow> bool" where
  "ring_wf cap r \<longleftrightarrow> 0 < cap \<and> length (rslots r) = cap \<and> rfront r < cap \<and> rcount r \<le> cap \<and>
     rback r = (rfront r + rcount r) mod cap"

text \<open>The abstract queue: the occupied slots from the front, oldest first.\<close>

definition ring_list :: "'a ring \<Rightarrow> 'a list" where
  "ring_list r = map (\<lambda>i. rslots r ! ((rfront r + i) mod length (rslots r))) [0..<rcount r]"

lemma ring_bump_mod: "0 < cap \<Longrightarrow> i < cap \<Longrightarrow> ring_bump cap i = Suc i mod cap"
  by (cases "Suc i = cap") (auto simp: ring_bump_def)

lemma ring_list_clear [simp]: "ring_list (ring_clear r) = []"
  by (simp add: ring_list_def ring_clear_def)

lemma ring_wf_clear: "ring_wf cap r \<Longrightarrow> ring_wf cap (ring_clear r)"
  by (auto simp: ring_wf_def ring_clear_def)

lemma length_ring_list [simp]: "length (ring_list r) = rcount r"
  by (simp add: ring_list_def)

lemma mod_sum_inj:
  assumes "0 < cap" "i < cap" "j < cap" "(f + i) mod cap = (f + j) mod cap"
  shows "i = (j :: nat)"
proof -
  have "(int f + int i) mod int cap = (int f + int j) mod int cap"
    using assms(4) by (metis of_nat_add of_nat_mod)
  then have "int i mod int cap = int j mod int cap"
    by (metis add_diff_cancel_left' mod_diff_left_eq)
  then show ?thesis using assms by (simp flip: of_nat_mod)
qed

lemma ring_list_push:
  assumes "ring_wf cap r" "rcount r < cap"
  shows "ring_list (ring_push cap x r) = ring_list r @ [x]"
proof -
  have "rback r \<noteq> (rfront r + i) mod cap" if "i < rcount r" for i
    using assms that mod_sum_inj [of cap i "rcount r" "rfront r"] by (auto simp: ring_wf_def)
  then have "map (\<lambda>i. (rslots r)[rback r := x] ! ((rfront r + i) mod cap)) [0..<rcount r] = ring_list r"
    using assms by (auto simp: ring_list_def ring_wf_def)
  with assms show ?thesis
    by (auto simp: ring_list_def ring_push_def ring_wf_def)
qed

lemma ring_wf_push: "ring_wf cap r \<Longrightarrow> rcount r < cap \<Longrightarrow> ring_wf cap (ring_push cap x r)"
  by (auto simp: ring_wf_def ring_push_def ring_bump_mod mod_Suc_eq)

lemma ring_list_pop:
  assumes "ring_wf cap r"
  shows "ring_list (ring_pop cap r) = tl (ring_list r)"
proof (cases "rcount r")
  case 0
  then show ?thesis by (simp add: ring_pop_def ring_list_def)
next
  case (Suc n)
  have "map (\<lambda>i. rslots r ! ((ring_bump cap (rfront r) + i) mod cap)) [0..<n] =
        map (\<lambda>i. rslots r ! ((rfront r + Suc i) mod cap)) [0..<n]"
    using assms by (auto simp: ring_bump_mod ring_wf_def mod_add_left_eq)
  moreover have "[0..<Suc n] = 0 # map Suc [0..<n]"
    by (simp add: upt_conv_Cons map_Suc_upt del: upt_Suc)
  ultimately show ?thesis
    using assms Suc by (simp add: ring_pop_def ring_list_def ring_wf_def comp_def del: upt_Suc)
qed

lemma ring_wf_pop: "ring_wf cap r \<Longrightarrow> ring_wf cap (ring_pop cap r)"
  by (auto simp: ring_wf_def ring_pop_def ring_bump_mod mod_Suc_eq mod_add_left_eq
      simp flip: add_Suc gr0_conv_Suc) (auto simp: mod_add_left_eq gr0_conv_Suc)

lemma ring_head_list:
  assumes "ring_wf cap r" "0 < rcount r"
  shows "ring_head r = hd (ring_list r)"
proof -
  have "hd (ring_list r) = ring_list r ! 0"
    using assms(2) by (intro hd_conv_nth) (simp flip: length_greater_0_conv)
  with assms show ?thesis by (simp add: ring_head_def ring_list_def ring_wf_def)
qed

text \<open>The contract the firmware relies on: a FIFO with a fixed capacity.\<close>

locale bounded_fifo =
  fixes cap :: nat
    and wf :: "'q \<Rightarrow> bool"
    and contents :: "'q \<Rightarrow> 'e list"
    and push :: "'e \<Rightarrow> 'q \<Rightarrow> 'q"
    and pop :: "'q \<Rightarrow> 'q"
    and clear :: "'q \<Rightarrow> 'q"
  assumes bounded: "wf q \<Longrightarrow> length (contents q) \<le> cap"
    and wf_push: "wf q \<Longrightarrow> length (contents q) < cap \<Longrightarrow> wf (push x q)"
    and contents_push: "wf q \<Longrightarrow> length (contents q) < cap \<Longrightarrow>
                          contents (push x q) = contents q @ [x]"
    and wf_pop: "wf q \<Longrightarrow> wf (pop q)"
    and contents_pop: "wf q \<Longrightarrow> contents (pop q) = tl (contents q)"
    and wf_clear: "wf q \<Longrightarrow> wf (clear q)"
    and contents_clear: "contents (clear q) = []"
begin

primrec push_all :: "'e list \<Rightarrow> 'q \<Rightarrow> 'q" where
  "push_all [] q = q"
| "push_all (x # xs) q = push_all xs (push x q)"

primrec pop_n :: "nat \<Rightarrow> 'q \<Rightarrow> 'q" where
  "pop_n 0 q = q"
| "pop_n (Suc n) q = pop_n n (pop q)"

lemma push_all: "wf q \<Longrightarrow> length (contents q) + length xs \<le> cap \<Longrightarrow>
    wf (push_all xs q) \<and> contents (push_all xs q) = contents q @ xs"
  by (induction xs arbitrary: q) (simp_all add: wf_push contents_push)

lemma pop_n: "wf q \<Longrightarrow> wf (pop_n n q) \<and> contents (pop_n n q) = drop n (contents q)"
  by (induction n arbitrary: q) (simp_all add: wf_pop contents_pop drop_Suc)

text \<open>First in, first out: after a clear, what is pushed comes out in order.\<close>

lemma fifo_order:
  assumes "wf q" "length xs \<le> cap"
  shows "contents (pop_n n (push_all xs (clear q))) = drop n xs"
  using push_all [of "clear q" xs] pop_n [of "push_all xs (clear q)" n] assms
  by (simp add: wf_clear contents_clear)

end

interpretation fifo: bounded_fifo cap "ring_wf cap" ring_list "ring_push cap" "ring_pop cap" ring_clear
  by unfold_locales
    (simp_all add: ring_wf_push ring_list_push ring_wf_pop ring_list_pop ring_wf_clear, simp add: ring_wf_def)

section \<open>State\<close>

text \<open>
  \<open>struct esb_payload\<close>; its \<open>length\<close> field is the length of \<open>pl_data\<close>. A PDU in the air is
  the dynamic-length one: the \<open>no_ack\<close> bit is set when an acknowledgement is wanted.
\<close>

record esb_payload =
  pl_pipe :: u8
  pl_noack :: bool
  pl_pid :: u8
  pl_rssi :: i8
  pl_data :: "u8 list"

record esb_pdu =
  pdu_pid :: u8
  pdu_no_ack :: bool
  pdu_data :: "u8 list"

datatype esb_mode = ESB_MODE_PTX | ESB_MODE_PRX
datatype esb_tx_mode = ESB_TXMODE_AUTO | ESB_TXMODE_MANUAL | ESB_TXMODE_MANUAL_START

record esb_config =
  cfg_mode :: esb_mode
  retransmit_delay :: u16
  retransmit_count :: u16
  tx_mode :: esb_tx_mode
  payload_length :: u8
  selective_auto_ack :: bool
  use_fast_ramp_up :: bool

datatype esb_state =
    ESB_STATE_IDLE | ESB_STATE_PTX_TX | ESB_STATE_PTX_TX_ACK | ESB_STATE_PTX_RX_ACK
  | ESB_STATE_PRX | ESB_STATE_PRX_SEND_ACK | ESB_STATE_PTX_TXIDLE

text \<open>The functions the \<open>on_radio_disabled\<close> pointer is set to.\<close>

datatype radio_handler = NoHandler | OnDisabledTx | OnDisabledTxWaitForAck
  | OnDisabledRx | OnDisabledRxAck

record pipe_info =
  pi_crc :: u16
  pi_pid :: u8
  pi_ack_payload :: bool

definition ESB_PIPE_COUNT :: nat where "ESB_PIPE_COUNT = 2"
definition PID_MAX :: u8 where "PID_MAX = 3"
definition RETRANSMIT_DELAY_MIN :: u16 where "RETRANSMIT_DELAY_MIN = 435"

lemmas esb_consts = ESB_PIPE_COUNT_def PID_MAX_def RETRANSMIT_DELAY_MIN_def

text \<open>
  The three bits of \<open>interrupt_flags\<close> are the \<open>int_\<close> fields. A \<open>payload_wrap\<close> of the PRX is
  the index of its TX FIFO slot (\<open>p_payload\<close> points at the slot of the same index), so the
  list \<open>ack_pl_wrap_pipe\<close> hangs from a pipe is a list of slot indices, head first.
  \<open>radio_txaddress\<close> and \<open>radio_frequency\<close> are the two radio registers that outlive a call:
  the address and the channel (above 2400 MHz) of the running transaction.
\<close>

record esb = chop +
  esb_initialized :: bool
  esb_cfg :: esb_config
  m_esb_state :: esb_state
  tx_fifo :: "esb_payload ring"
  rx_fifo :: "esb_payload ring"
  tx_payload_buffer :: esb_pdu
  on_radio_disabled :: radio_handler
  tx_noack_timer :: bool
  esb_pids :: "u8 list"
  rx_pipe_info :: "pipe_info list"
  ack_in_use :: "bool list"
  ack_pl_wrap_pipe :: "nat list list"
  int_tx_success :: bool
  int_tx_failed :: bool
  int_rx_received :: bool
  retransmits_remaining :: u32
  last_tx_attempts :: u32
  base_addr_p0 :: "u8 list"
  base_addr_p1 :: "u8 list"
  pipe_prefixes :: "u8 list"
  num_pipes :: u8
  rx_pipes_enabled :: u8
  rf_channel :: u8
  radio_txaddress :: u8
  radio_frequency :: u8

section \<open>FIFOs\<close>

definition reset_fifos :: "'a esb_scheme \<Rightarrow> 'a esb_scheme" where
  "reset_fifos s = s\<lparr>tx_fifo := ring_clear (tx_fifo s), rx_fifo := ring_clear (rx_fifo s)\<rparr>"

definition clear_ack_wraps :: "kcfg \<Rightarrow> 'a esb_scheme \<Rightarrow> 'a esb_scheme" where
  "clear_ack_wraps c s =
     s\<lparr>ack_in_use := replicate (ESB_TX_FIFO_SIZE c) False,
       ack_pl_wrap_pipe := replicate ESB_PIPE_COUNT []\<rparr>"

definition empty_payload :: esb_payload where
  "empty_payload = \<lparr>pl_pipe = 0, pl_noack = False, pl_pid = 0, pl_rssi = 0, pl_data = []\<rparr>"

definition initialize_fifos :: "kcfg \<Rightarrow> 'a esb_scheme \<Rightarrow> 'a esb_scheme" where
  "initialize_fifos c s =
     (let s = reset_fifos s;
          s = s\<lparr>tx_fifo := (tx_fifo s)\<lparr>rslots := replicate (ESB_TX_FIFO_SIZE c) empty_payload\<rparr>,
                rx_fifo := (rx_fifo s)\<lparr>rslots := replicate (ESB_RX_FIFO_SIZE c) empty_payload\<rparr>\<rparr>
      in clear_ack_wraps c s)"

definition tx_fifo_remove_last :: "kcfg \<Rightarrow> 'a esb_scheme \<Rightarrow> 'a esb_scheme" where
  "tx_fifo_remove_last c s = s\<lparr>tx_fifo := ring_pop (ESB_TX_FIFO_SIZE c) (tx_fifo s)\<rparr>"

text \<open>\<open>rssi\<close> is the sample the radio took while receiving.\<close>

definition rx_fifo_push_rfbuf ::
    "kcfg \<Rightarrow> esb_pdu \<Rightarrow> i8 \<Rightarrow> u8 \<Rightarrow> u8 \<Rightarrow> 'a esb_scheme \<Rightarrow> bool \<times> 'a esb_scheme" where
  "rx_fifo_push_rfbuf c rx rssi pipe pid s =
     (if ESB_RX_FIFO_SIZE c \<le> rcount (rx_fifo s) then (False, s)
      else if ESB_MAX_PAYLOAD_LENGTH c < length (pdu_data rx) then (False, s)
      else (True, s\<lparr>rx_fifo := ring_push (ESB_RX_FIFO_SIZE c)
              \<lparr>pl_pipe = pipe, pl_noack = \<not> pdu_no_ack rx, pl_pid = pid, pl_rssi = rssi,
               pl_data = pdu_data rx\<rparr> (rx_fifo s)\<rparr>))"

section \<open>The transmitter\<close>

definition start_tx_transaction :: "'a esb_scheme \<Rightarrow> 'a esb_scheme" where
  "start_tx_transaction s =
     (let s = s\<lparr>last_tx_attempts := 1\<rparr>;
          current_payload = ring_head (tx_fifo s);
          ack = (\<not> pl_noack current_payload \<or> \<not> selective_auto_ack (esb_cfg s));
          s = s\<lparr>tx_payload_buffer :=
                  \<lparr>pdu_pid = pl_pid current_payload,
                   pdu_no_ack = \<not> pl_noack current_payload,
                   pdu_data = pl_data current_payload\<rparr>,
                radio_txaddress := pl_pipe current_payload,
                radio_frequency := rf_channel s\<rparr>
      in if ack
         then s\<lparr>retransmits_remaining := ucast (retransmit_count (esb_cfg s)),
                on_radio_disabled := OnDisabledTx,
                m_esb_state := ESB_STATE_PTX_TX_ACK\<rparr>
         else s\<lparr>tx_noack_timer := True,
                on_radio_disabled := NoHandler,
                m_esb_state := ESB_STATE_PTX_TX\<rparr>)"

definition on_radio_end_tx_noack :: "kcfg \<Rightarrow> 'a esb_scheme \<Rightarrow> 'a esb_scheme" where
  "on_radio_end_tx_noack c s =
     (let s = s\<lparr>tx_noack_timer := False\<rparr>;
          s = s\<lparr>int_tx_success := True\<rparr>;
          s = tx_fifo_remove_last c s
      in if rcount (tx_fifo s) = 0
         then s\<lparr>m_esb_state := ESB_STATE_PTX_TXIDLE\<rparr>
         else start_tx_transaction s)"

definition on_radio_disabled_tx :: "'a esb_scheme \<Rightarrow> 'a esb_scheme" where
  "on_radio_disabled_tx s =
     s\<lparr>on_radio_disabled := OnDisabledTxWaitForAck, m_esb_state := ESB_STATE_PTX_RX_ACK\<rparr>"

text \<open>The payload of an acknowledgement goes to the RX FIFO.\<close>

definition receive_ack_payload :: "kcfg \<Rightarrow> esb_pdu \<Rightarrow> i8 \<Rightarrow> 'a esb_scheme \<Rightarrow> 'a esb_scheme" where
  "receive_ack_payload c rx_pdu rssi s =
     (if 0 < length (pdu_data rx_pdu)
      then (case rx_fifo_push_rfbuf c rx_pdu rssi (radio_txaddress s) (pdu_pid rx_pdu) s of
              (ok, s) \<Rightarrow> if ok then s\<lparr>int_rx_received := True\<rparr> else s)
      else s)"

definition next_transaction :: "'a esb_scheme \<Rightarrow> 'a esb_scheme" where
  "next_transaction s =
     (if rcount (tx_fifo s) = 0 \<or> tx_mode (esb_cfg s) = ESB_TXMODE_MANUAL
      then s\<lparr>m_esb_state := ESB_STATE_IDLE\<rparr>
      else start_tx_transaction s)"

text \<open>\<open>rx\<close> is the acknowledgement received with a good CRC, if any.\<close>

definition on_radio_disabled_tx_wait_for_ack ::
    "kcfg \<Rightarrow> esb_pdu option \<Rightarrow> i8 \<Rightarrow> 'a esb_scheme \<Rightarrow> 'a esb_scheme" where
  "on_radio_disabled_tx_wait_for_ack c rx rssi s =
     (case rx of
        Some rx_pdu \<Rightarrow>
          next_transaction
            (receive_ack_payload c rx_pdu rssi
              (tx_fifo_remove_last c
                (s\<lparr>int_tx_success := True,
                   last_tx_attempts :=
                     ucast (retransmit_count (esb_cfg s)) - retransmits_remaining s + 1\<rparr>)))
      | None \<Rightarrow>
          if retransmits_remaining s = 0
          then s\<lparr>retransmits_remaining := retransmits_remaining s - 1,
                 last_tx_attempts := ucast (retransmit_count (esb_cfg s)) + 1,
                 int_tx_failed := True,
                 m_esb_state := ESB_STATE_IDLE\<rparr>
          else s\<lparr>retransmits_remaining := retransmits_remaining s - 1,
                 on_radio_disabled := OnDisabledTx,
                 m_esb_state := ESB_STATE_PTX_TX_ACK\<rparr>)"

section \<open>The receiver\<close>

text \<open>\<open>clear_events_restart_rx\<close> touches only radio registers, so it leaves the state alone.\<close>

definition on_radio_disabled_rx_dpl ::
    "bool \<Rightarrow> nat \<Rightarrow> esb_pdu \<Rightarrow> 'a esb_scheme \<Rightarrow> 'a esb_scheme" where
  "on_radio_disabled_rx_dpl retransmit_payload pipe rx_pdu s =
     (let queue = ack_pl_wrap_pipe s ! pipe;
          set_ack = (\<lambda>b s. s\<lparr>rx_pipe_info := (rx_pipe_info s)[pipe :=
                        (rx_pipe_info s ! pipe)\<lparr>pi_ack_payload := b\<rparr>]\<rparr>);
          (current, s) =
            (if 0 < rcount (tx_fifo s) \<and> queue \<noteq> []
             then if pi_ack_payload (rx_pipe_info s ! pipe) \<and> \<not> retransmit_payload
                  then (let s = s\<lparr>ack_in_use := (ack_in_use s)[hd queue := False],
                                 ack_pl_wrap_pipe := (ack_pl_wrap_pipe s)[pipe := tl queue],
                                 tx_fifo := (tx_fifo s)\<lparr>rcount := rcount (tx_fifo s) - 1\<rparr>,
                                 int_tx_success := True\<rparr>
                        in (if 0 < rcount (tx_fifo s) \<and> tl queue \<noteq> []
                            then Some (hd (tl queue)) else None, s))
                  else (Some (hd queue), s)
             else (None, s));
          (payload, s) =
            (case current of
               Some i \<Rightarrow> (pl_data (rslots (tx_fifo s) ! i), set_ack True s)
             | None \<Rightarrow> ([], set_ack False s))
      in s\<lparr>tx_payload_buffer :=
             \<lparr>pdu_pid = pdu_pid rx_pdu, pdu_no_ack = pdu_no_ack rx_pdu, pdu_data = payload\<rparr>\<rparr>)"

text \<open>The acknowledgement, when one is wanted, and the push of a new packet.\<close>

definition answer_packet :: "bool \<Rightarrow> nat \<Rightarrow> esb_pdu \<Rightarrow> 'a esb_scheme \<Rightarrow> 'a esb_scheme" where
  "answer_packet retransmit_payload pipe rx_pdu s =
     (if \<not> selective_auto_ack (esb_cfg s) \<or> pdu_no_ack rx_pdu
      then (on_radio_disabled_rx_dpl retransmit_payload pipe rx_pdu s)
             \<lparr>m_esb_state := ESB_STATE_PRX_SEND_ACK,
              radio_txaddress := of_nat pipe,
              on_radio_disabled := OnDisabledRxAck\<rparr>
      else s)"

definition deliver_packet :: "kcfg \<Rightarrow> esb_pdu \<Rightarrow> i8 \<Rightarrow> nat \<Rightarrow> 'a esb_scheme \<Rightarrow> 'a esb_scheme" where
  "deliver_packet c rx_pdu rssi pipe s =
     (case rx_fifo_push_rfbuf c rx_pdu rssi (of_nat pipe) (pdu_pid rx_pdu) s of
        (ok, s) \<Rightarrow> if ok then s\<lparr>int_rx_received := True\<rparr> else s)"

text \<open>
  \<open>rx\<close> is the packet received with a good CRC, if any, \<open>pipe\<close> the pipe it matched and \<open>crc\<close>
  the CRC the radio read.
\<close>

definition on_radio_disabled_rx ::
    "kcfg \<Rightarrow> esb_pdu option \<Rightarrow> i8 \<Rightarrow> nat \<Rightarrow> u16 \<Rightarrow> 'a esb_scheme \<Rightarrow> 'a esb_scheme" where
  "on_radio_disabled_rx c rx rssi pipe crc s =
     (case rx of
        None \<Rightarrow> s
      | Some rx_pdu \<Rightarrow>
          if ESB_RX_FIFO_SIZE c \<le> rcount (rx_fifo s) then s
          else
            (let info = rx_pipe_info s ! pipe;
                 retransmit_payload = (crc = pi_crc info \<and> pdu_pid rx_pdu = pi_pid info);
                 s = s\<lparr>rx_pipe_info := (rx_pipe_info s)[pipe :=
                          info\<lparr>pi_pid := pdu_pid rx_pdu, pi_crc := crc\<rparr>]\<rparr>;
                 s = answer_packet retransmit_payload pipe rx_pdu s
             in if retransmit_payload then s else deliver_packet c rx_pdu rssi pipe s))"

definition on_radio_disabled_rx_ack :: "'a esb_scheme \<Rightarrow> 'a esb_scheme" where
  "on_radio_disabled_rx_ack s =
     s\<lparr>on_radio_disabled := OnDisabledRx, m_esb_state := ESB_STATE_PRX\<rparr>"

section \<open>Interrupts\<close>

definition radio_irq_handler ::
    "kcfg \<Rightarrow> esb_pdu option \<Rightarrow> i8 \<Rightarrow> nat \<Rightarrow> u16 \<Rightarrow> 'a esb_scheme \<Rightarrow> 'a esb_scheme" where
  "radio_irq_handler c rx rssi pipe crc s =
     (case on_radio_disabled s of
        NoHandler \<Rightarrow> s
      | OnDisabledTx \<Rightarrow> on_radio_disabled_tx s
      | OnDisabledTxWaitForAck \<Rightarrow> on_radio_disabled_tx_wait_for_ack c rx rssi s
      | OnDisabledRx \<Rightarrow> on_radio_disabled_rx c rx rssi pipe crc s
      | OnDisabledRxAck \<Rightarrow> on_radio_disabled_rx_ack s)"

definition esb_timer_handler :: "kcfg \<Rightarrow> 'a esb_scheme \<Rightarrow> 'a esb_scheme" where
  "esb_timer_handler c s = (if tx_noack_timer s then on_radio_end_tx_noack c s else s)"

datatype esb_evt_id = ESB_EVENT_TX_SUCCESS | ESB_EVENT_TX_FAILED | ESB_EVENT_RX_RECEIVED

record esb_evt =
  evt_id :: esb_evt_id
  tx_attempts :: u32

definition get_and_clear_irqs :: "'a esb_scheme \<Rightarrow> (bool \<times> bool \<times> bool) \<times> 'a esb_scheme" where
  "get_and_clear_irqs s =
     ((int_tx_success s, int_tx_failed s, int_rx_received s),
      s\<lparr>int_tx_success := False, int_tx_failed := False, int_rx_received := False\<rparr>)"

text \<open>\<open>handler\<close> is the application's \<open>event_handler\<close>.\<close>

definition esb_evt_irq_handler ::
    "(esb_evt \<Rightarrow> 'a esb_scheme \<Rightarrow> 'a esb_scheme) \<Rightarrow> 'a esb_scheme \<Rightarrow> 'a esb_scheme" where
  "esb_evt_irq_handler handler s =
     (let attempts = last_tx_attempts s;
          ((ok, failed, rx), s) = get_and_clear_irqs s;
          s = (if ok then handler \<lparr>evt_id = ESB_EVENT_TX_SUCCESS, tx_attempts = attempts\<rparr> s else s);
          s = (if failed then handler \<lparr>evt_id = ESB_EVENT_TX_FAILED, tx_attempts = attempts\<rparr> s else s)
      in if rx then handler \<lparr>evt_id = ESB_EVENT_RX_RECEIVED, tx_attempts = attempts\<rparr> s else s)"

section \<open>The API\<close>

definition esb_disable :: "'a esb_scheme \<Rightarrow> 'a esb_scheme" where
  "esb_disable s =
     (let s = s\<lparr>m_esb_state := ESB_STATE_IDLE, esb_initialized := False\<rparr>;
          s = reset_fifos s
      in s\<lparr>rx_pipe_info := replicate ESB_PIPE_COUNT \<lparr>pi_crc = 0, pi_pid = 0, pi_ack_payload = False\<rparr>,
           esb_pids := replicate ESB_PIPE_COUNT 0\<rparr>)"

text \<open>\<open>hw\<close> is the outcome of the timer and PPI initialisation.\<close>

definition esb_init :: "kcfg \<Rightarrow> rc \<Rightarrow> esb_config \<Rightarrow> 'a esb_scheme \<Rightarrow> rc \<times> 'a esb_scheme" where
  "esb_init c hw config s =
     (let s = (if esb_initialized s then esb_disable s else s);
          s = s\<lparr>esb_cfg := config\<rparr>;
          s = s\<lparr>int_tx_success := False, int_tx_failed := False, int_rx_received := False\<rparr>;
          s = s\<lparr>rx_pipe_info := replicate ESB_PIPE_COUNT \<lparr>pi_crc = 0, pi_pid = 0, pi_ack_payload = False\<rparr>,
                esb_pids := replicate ESB_PIPE_COUNT 0\<rparr>;
          s = initialize_fifos c s
      in case hw of
           Some err \<Rightarrow> (Some err, s)
         | None \<Rightarrow> (None, s\<lparr>m_esb_state := ESB_STATE_IDLE, esb_initialized := True\<rparr>))"

definition esb_is_idle :: "'a esb_scheme \<Rightarrow> bool" where
  "esb_is_idle s \<longleftrightarrow> m_esb_state s = ESB_STATE_IDLE"

fun find_free :: "nat \<Rightarrow> bool list \<Rightarrow> nat option" where
  "find_free i [] = None"
| "find_free i (u # us) = (if \<not> u then Some i else find_free (Suc i) us)"

definition find_free_payload_cont :: "'a esb_scheme \<Rightarrow> nat option" where
  "find_free_payload_cont s = find_free 0 (ack_in_use s)"

definition next_pid :: "u8 \<Rightarrow> 'a esb_scheme \<Rightarrow> u8" where
  "next_pid pipe s = (esb_pids s ! unat pipe + 1) mod (PID_MAX + 1)"

definition esb_write_payload :: "kcfg \<Rightarrow> esb_payload \<Rightarrow> 'a esb_scheme \<Rightarrow> rc \<times> 'a esb_scheme" where
  "esb_write_payload c payload s =
     (if \<not> esb_initialized s then (Some EACCES, s)
      else if length (pl_data payload) = 0 \<or> ESB_MAX_PAYLOAD_LENGTH c < length (pl_data payload)
        then (Some EMSGSIZE, s)
      else if ESB_TX_FIFO_SIZE c \<le> rcount (tx_fifo s) then (Some ENOMEM, s)
      else if ESB_PIPE_COUNT \<le> unat (pl_pipe payload) then (Some EINVAL, s)
      else
        (let pid = next_pid (pl_pipe payload) s;
             pipe = unat (pl_pipe payload);
             s = (if cfg_mode (esb_cfg s) = ESB_MODE_PTX
                  then s\<lparr>esb_pids := (esb_pids s)[pipe := pid],
                         tx_fifo := ring_push (ESB_TX_FIFO_SIZE c) (payload\<lparr>pl_pid := pid\<rparr>) (tx_fifo s)\<rparr>
                  else (case find_free_payload_cont s of
                          None \<Rightarrow> s
                        | Some i \<Rightarrow>
                            s\<lparr>ack_in_use := (ack_in_use s)[i := True],
                              esb_pids := (esb_pids s)[pipe := pid],
                              ack_pl_wrap_pipe := (ack_pl_wrap_pipe s)[pipe := ack_pl_wrap_pipe s ! pipe @ [i]],
                              tx_fifo := (tx_fifo s)\<lparr>rslots := (rslots (tx_fifo s))[i := payload\<lparr>pl_pid := pid\<rparr>],
                                                     rcount := Suc (rcount (tx_fifo s))\<rparr>\<rparr>));
             s = (if cfg_mode (esb_cfg s) = ESB_MODE_PTX \<and> tx_mode (esb_cfg s) = ESB_TXMODE_AUTO \<and>
                     (m_esb_state s = ESB_STATE_IDLE \<or> m_esb_state s = ESB_STATE_PTX_TXIDLE)
                  then start_tx_transaction s else s)
         in (None, s)))"

definition esb_read_rx_payload ::
    "kcfg \<Rightarrow> 'a esb_scheme \<Rightarrow> (errno + esb_payload) \<times> 'a esb_scheme" where
  "esb_read_rx_payload c s =
     (if \<not> esb_initialized s then (Inl EACCES, s)
      else if rcount (rx_fifo s) = 0 then (Inl ENODATA, s)
      else (Inr (ring_head (rx_fifo s)), s\<lparr>rx_fifo := ring_pop (ESB_RX_FIFO_SIZE c) (rx_fifo s)\<rparr>))"

definition esb_start_tx :: "'a esb_scheme \<Rightarrow> rc \<times> 'a esb_scheme" where
  "esb_start_tx s =
     (if m_esb_state s \<noteq> ESB_STATE_IDLE then (Some EBUSY, s)
      else if rcount (tx_fifo s) = 0 then (Some ENODATA, s)
      else (None, start_tx_transaction s))"

definition esb_start_rx :: "'a esb_scheme \<Rightarrow> rc \<times> 'a esb_scheme" where
  "esb_start_rx s =
     (if m_esb_state s \<noteq> ESB_STATE_IDLE then (Some EBUSY, s)
      else (None, s\<lparr>on_radio_disabled := OnDisabledRx, m_esb_state := ESB_STATE_PRX,
                    radio_frequency := rf_channel s\<rparr>))"

definition esb_stop_rx :: "'a esb_scheme \<Rightarrow> rc \<times> 'a esb_scheme" where
  "esb_stop_rx s =
     (if m_esb_state s \<noteq> ESB_STATE_PRX \<and> m_esb_state s \<noteq> ESB_STATE_PRX_SEND_ACK then (Some EINVAL, s)
      else (None, s\<lparr>on_radio_disabled := NoHandler, m_esb_state := ESB_STATE_IDLE\<rparr>))"

definition esb_flush_tx :: "kcfg \<Rightarrow> 'a esb_scheme \<Rightarrow> rc \<times> 'a esb_scheme" where
  "esb_flush_tx c s =
     (if \<not> esb_initialized s then (Some EACCES, s)
      else (None, clear_ack_wraps c (s\<lparr>tx_fifo := ring_clear (tx_fifo s)\<rparr>)))"

definition esb_pop_tx :: "kcfg \<Rightarrow> 'a esb_scheme \<Rightarrow> rc \<times> 'a esb_scheme" where
  "esb_pop_tx c s =
     (if \<not> esb_initialized s then (Some EACCES, s)
      else if rcount (tx_fifo s) = 0 then (Some ENODATA, s)
      else (None, s\<lparr>tx_fifo := (tx_fifo s)\<lparr>rback := ring_bump (ESB_TX_FIFO_SIZE c) (rback (tx_fifo s)),
                                           rcount := rcount (tx_fifo s) - 1\<rparr>\<rparr>))"

definition esb_tx_full :: "kcfg \<Rightarrow> 'a esb_scheme \<Rightarrow> bool" where
  "esb_tx_full c s \<longleftrightarrow> ring_full (ESB_TX_FIFO_SIZE c) (tx_fifo s)"

definition esb_flush_rx :: "'a esb_scheme \<Rightarrow> rc \<times> 'a esb_scheme" where
  "esb_flush_rx s =
     (if \<not> esb_initialized s then (Some EACCES, s)
      else (None, s\<lparr>rx_fifo := ring_clear (rx_fifo s),
                    rx_pipe_info := replicate ESB_PIPE_COUNT
                      \<lparr>pi_crc = 0, pi_pid = 0, pi_ack_payload = False\<rparr>\<rparr>))"

definition esb_set_base_address_0 :: "u8 list \<Rightarrow> 'a esb_scheme \<Rightarrow> rc \<times> 'a esb_scheme" where
  "esb_set_base_address_0 addr s =
     (if m_esb_state s \<noteq> ESB_STATE_IDLE then (Some EBUSY, s)
      else (None, s\<lparr>base_addr_p0 := take 4 addr\<rparr>))"

definition esb_set_base_address_1 :: "u8 list \<Rightarrow> 'a esb_scheme \<Rightarrow> rc \<times> 'a esb_scheme" where
  "esb_set_base_address_1 addr s =
     (if m_esb_state s \<noteq> ESB_STATE_IDLE then (Some EBUSY, s)
      else (None, s\<lparr>base_addr_p1 := take 4 addr\<rparr>))"

definition esb_set_prefixes :: "u8 list \<Rightarrow> u8 \<Rightarrow> 'a esb_scheme \<Rightarrow> rc \<times> 'a esb_scheme" where
  "esb_set_prefixes prefixes n s =
     (if m_esb_state s \<noteq> ESB_STATE_IDLE then (Some EBUSY, s)
      else if ESB_PIPE_COUNT < unat n then (Some EINVAL, s)
      else (None, s\<lparr>pipe_prefixes := take (unat n) prefixes @ drop (unat n) (pipe_prefixes s),
                    num_pipes := n,
                    rx_pipes_enabled := drop_bit (8 - unat n) 0xFF\<rparr>))"

definition esb_update_prefix :: "u8 \<Rightarrow> u8 \<Rightarrow> 'a esb_scheme \<Rightarrow> rc \<times> 'a esb_scheme" where
  "esb_update_prefix pipe prefix s =
     (if m_esb_state s \<noteq> ESB_STATE_IDLE then (Some EBUSY, s)
      else if ESB_PIPE_COUNT \<le> unat pipe then (Some EINVAL, s)
      else (None, s\<lparr>pipe_prefixes := (pipe_prefixes s)[unat pipe := prefix]\<rparr>))"

definition esb_enable_pipes :: "u8 \<Rightarrow> 'a esb_scheme \<Rightarrow> rc \<times> 'a esb_scheme" where
  "esb_enable_pipes enable_mask s =
     (let all_pipes = drop_bit (8 - ESB_PIPE_COUNT) 0xFF
      in if m_esb_state s \<noteq> ESB_STATE_IDLE then (Some EBUSY, s)
         else if enable_mask OR all_pipes \<noteq> all_pipes then (Some EINVAL, s)
         else (None, s\<lparr>rx_pipes_enabled := enable_mask\<rparr>))"

definition esb_set_rf_channel :: "u32 \<Rightarrow> 'a esb_scheme \<Rightarrow> rc \<times> 'a esb_scheme" where
  "esb_set_rf_channel channel s =
     (if 100 < channel then (Some EINVAL, s)
      else if m_esb_state s \<noteq> ESB_STATE_IDLE then (Some EBUSY, s)
      else (None, s\<lparr>rf_channel := ucast channel\<rparr>))"

definition esb_get_rf_channel :: "'a esb_scheme \<Rightarrow> u32" where
  "esb_get_rf_channel s = ucast (rf_channel s)"

definition esb_set_retransmit_delay :: "u16 \<Rightarrow> 'a esb_scheme \<Rightarrow> rc \<times> 'a esb_scheme" where
  "esb_set_retransmit_delay delay s =
     (if m_esb_state s \<noteq> ESB_STATE_IDLE then (Some EBUSY, s)
      else if delay < RETRANSMIT_DELAY_MIN then (Some EINVAL, s)
      else (None, s\<lparr>esb_cfg := (esb_cfg s)\<lparr>retransmit_delay := delay\<rparr>\<rparr>))"

definition esb_set_retransmit_count :: "u16 \<Rightarrow> 'a esb_scheme \<Rightarrow> rc \<times> 'a esb_scheme" where
  "esb_set_retransmit_count count s =
     (if m_esb_state s \<noteq> ESB_STATE_IDLE then (Some EBUSY, s)
      else (None, s\<lparr>esb_cfg := (esb_cfg s)\<lparr>retransmit_count := count\<rparr>\<rparr>))"

definition esb_reuse_pid :: "u8 \<Rightarrow> 'a esb_scheme \<Rightarrow> rc \<times> 'a esb_scheme" where
  "esb_reuse_pid pipe s =
     (if m_esb_state s \<noteq> ESB_STATE_IDLE then (Some EBUSY, s)
      else if ESB_PIPE_COUNT \<le> unat pipe then (Some EINVAL, s)
      else (None, s\<lparr>esb_pids := (esb_pids s)[unat pipe :=
                       (esb_pids s ! unat pipe + PID_MAX) mod (PID_MAX + 1)]\<rparr>))"

section \<open>The transmitter's invariant\<close>

text \<open>
  A radio set up by the endpoint: PTX with automatic transmission, both FIFOs well formed,
  and the interrupt handler that is installed is the one the protocol state expects.
\<close>

definition ptx_inv :: "kcfg \<Rightarrow> 'a esb_scheme \<Rightarrow> bool" where
  "ptx_inv c s \<longleftrightarrow>
     cfg_mode (esb_cfg s) = ESB_MODE_PTX \<and> tx_mode (esb_cfg s) = ESB_TXMODE_AUTO \<and>
     ring_wf (ESB_TX_FIFO_SIZE c) (tx_fifo s) \<and> ring_wf (ESB_RX_FIFO_SIZE c) (rx_fifo s) \<and>
     unat (rf_channel s) \<le> 100 \<and>
     m_esb_state s \<notin> {ESB_STATE_PRX, ESB_STATE_PRX_SEND_ACK} \<and>
     on_radio_disabled s \<notin> {OnDisabledRx, OnDisabledRxAck} \<and>
     (m_esb_state s = ESB_STATE_PTX_TX_ACK \<longrightarrow> on_radio_disabled s = OnDisabledTx) \<and>
     (m_esb_state s = ESB_STATE_PTX_RX_ACK \<longrightarrow> on_radio_disabled s = OnDisabledTxWaitForAck)"

text \<open>The packets waiting in the transmit FIFO, and those waiting to be read.\<close>

abbreviation tx_queue :: "'a esb_scheme \<Rightarrow> esb_payload list" where
  "tx_queue s \<equiv> ring_list (tx_fifo s)"

abbreviation rx_queue :: "'a esb_scheme \<Rightarrow> esb_payload list" where
  "rx_queue s \<equiv> ring_list (rx_fifo s)"

lemma rcount_0_iff: "rcount r = 0 \<longleftrightarrow> ring_list r = []"
  by (metis length_ring_list length_0_conv)

lemma start_tx_frames [simp, frames]:
  "tx_fifo (start_tx_transaction s) = tx_fifo s"
  "rx_fifo (start_tx_transaction s) = rx_fifo s"
  "esb_cfg (start_tx_transaction s) = esb_cfg s"
  "rf_channel (start_tx_transaction s) = rf_channel s"
  "esb_initialized (start_tx_transaction s) = esb_initialized s"
  "int_tx_success (start_tx_transaction s) = int_tx_success s"
  "int_tx_failed (start_tx_transaction s) = int_tx_failed s"
  "int_rx_received (start_tx_transaction s) = int_rx_received s"
  "esb_pids (start_tx_transaction s) = esb_pids s"
  "uptime (start_tx_transaction s) = uptime s"
  "sched (start_tx_transaction s) = sched s"
  "m_prng_state (start_tx_transaction s) = m_prng_state s"
  "esb.more (start_tx_transaction s) = esb.more s"
  by (simp_all add: start_tx_transaction_def Let_def)

lemma start_tx_buffer [simp]:
  "tx_payload_buffer (start_tx_transaction s) =
     (let p = ring_head (tx_fifo s)
      in \<lparr>pdu_pid = pl_pid p, pdu_no_ack = \<not> pl_noack p, pdu_data = pl_data p\<rparr>)"
  by (simp add: start_tx_transaction_def Let_def)

text \<open>The packet on the air for a payload.\<close>

definition pdu_of :: "esb_payload \<Rightarrow> esb_pdu" where
  "pdu_of x = \<lparr>pdu_pid = pl_pid x, pdu_no_ack = \<not> pl_noack x, pdu_data = pl_data x\<rparr>"

lemma ptx_inv_start_tx: "ptx_inv c s \<Longrightarrow> ptx_inv c (start_tx_transaction s)"
  by (auto simp: ptx_inv_def start_tx_transaction_def Let_def)

lemma rx_push_ok:
  assumes "ring_wf (ESB_RX_FIFO_SIZE c) (rx_fifo s)" "rx_fifo_push_rfbuf c rx rssi pipe pid s = (ok, s')"
  shows "ring_wf (ESB_RX_FIFO_SIZE c) (rx_fifo s') \<and>
    rx_queue s' = rx_queue s @ (if ok then [\<lparr>pl_pipe = pipe, pl_noack = \<not> pdu_no_ack rx,
                       pl_pid = pid, pl_rssi = rssi, pl_data = pdu_data rx\<rparr>] else [])"
  using assms
  by (auto simp: rx_fifo_push_rfbuf_def ring_list_push ring_wf_push split: if_splits)

lemma rx_push_frames:
  "rx_fifo_push_rfbuf c rx rssi pipe pid s = (ok, s') \<Longrightarrow> s' = s\<lparr>rx_fifo := rx_fifo s'\<rparr>"
  by (auto simp: rx_fifo_push_rfbuf_def split: if_splits)

lemma ptx_inv_remove_last: "ptx_inv c s \<Longrightarrow> ptx_inv c (tx_fifo_remove_last c s)"
  by (auto simp: ptx_inv_def tx_fifo_remove_last_def ring_wf_pop)

lemma ptx_inv_flags [simp]:
  "ptx_inv c (s\<lparr>int_tx_success := b\<rparr>) = ptx_inv c s"
  "ptx_inv c (s\<lparr>int_tx_failed := b\<rparr>) = ptx_inv c s"
  "ptx_inv c (s\<lparr>int_rx_received := b\<rparr>) = ptx_inv c s"
  "ptx_inv c (s\<lparr>last_tx_attempts := n\<rparr>) = ptx_inv c s"
  "ptx_inv c (s\<lparr>retransmits_remaining := n\<rparr>) = ptx_inv c s"
  "ptx_inv c (s\<lparr>tx_noack_timer := b\<rparr>) = ptx_inv c s"
  by (simp_all add: ptx_inv_def)

lemma ptx_inv_rx_push:
  assumes "ptx_inv c s" "rx_fifo_push_rfbuf c rx rssi pipe pid s = (ok, s')"
  shows "ptx_inv c s'"
proof -
  have "s' = s\<lparr>rx_fifo := rx_fifo s'\<rparr>" by (rule rx_push_frames [OF assms(2)])
  moreover have "ring_wf (ESB_RX_FIFO_SIZE c) (rx_fifo s')"
    using rx_push_ok [OF _ assms(2)] assms(1) by (simp add: ptx_inv_def)
  moreover have "ptx_inv c (s\<lparr>rx_fifo := r\<rparr>)" if "ring_wf (ESB_RX_FIFO_SIZE c) r" for r
    using assms(1) that by (simp add: ptx_inv_def)
  ultimately show ?thesis by metis
qed

lemma ptx_inv_idle: "ptx_inv c s \<Longrightarrow> ptx_inv c (s\<lparr>m_esb_state := ESB_STATE_IDLE\<rparr>)"
  by (simp add: ptx_inv_def)

lemma ptx_inv_receive_ack: "ptx_inv c s \<Longrightarrow> ptx_inv c (receive_ack_payload c p rssi s)"
  unfolding receive_ack_payload_def
  by (auto split: prod.splits dest: ptx_inv_rx_push)

lemma ptx_inv_next: "ptx_inv c s \<Longrightarrow> ptx_inv c (next_transaction s)"
  unfolding next_transaction_def using ptx_inv_start_tx ptx_inv_idle by auto

lemma ptx_inv_txidle: "ptx_inv c s \<Longrightarrow> ptx_inv c (s\<lparr>m_esb_state := ESB_STATE_PTX_TXIDLE\<rparr>)"
  by (simp add: ptx_inv_def)

lemma ptx_inv_wait_for_ack:
  assumes "ptx_inv c s"
  shows "ptx_inv c (on_radio_disabled_tx_wait_for_ack c rx rssi s)"
proof (cases rx)
  case None
  then show ?thesis using assms
    by (simp add: on_radio_disabled_tx_wait_for_ack_def ptx_inv_def)
next
  case (Some p)
  have "ptx_inv c (s\<lparr>int_tx_success := True, last_tx_attempts := n\<rparr>)" for n
    using assms by simp
  with Some show ?thesis
    by (simp add: on_radio_disabled_tx_wait_for_ack_def ptx_inv_next ptx_inv_receive_ack
        ptx_inv_remove_last)
qed

lemma ptx_inv_interrupts:
  assumes "ptx_inv c s"
  shows "ptx_inv c (radio_irq_handler c rx rssi pipe crc s)" "ptx_inv c (esb_timer_handler c s)"
proof -
  have "ptx_inv c (on_radio_disabled_tx s)"
    using assms by (simp add: ptx_inv_def on_radio_disabled_tx_def)
  moreover have "on_radio_disabled s \<noteq> OnDisabledRx" "on_radio_disabled s \<noteq> OnDisabledRxAck"
    using assms by (auto simp: ptx_inv_def)
  ultimately show "ptx_inv c (radio_irq_handler c rx rssi pipe crc s)"
    using assms by (auto simp: radio_irq_handler_def ptx_inv_wait_for_ack split: radio_handler.splits)
  have "ptx_inv c (tx_fifo_remove_last c (s\<lparr>tx_noack_timer := False, int_tx_success := True\<rparr>))"
    (is "ptx_inv c ?t") using assms by (intro ptx_inv_remove_last) simp
  then have "ptx_inv c (?t\<lparr>m_esb_state := ESB_STATE_PTX_TXIDLE\<rparr>)" "ptx_inv c (start_tx_transaction ?t)"
    by (simp_all add: ptx_inv_txidle ptx_inv_start_tx)
  then show "ptx_inv c (esb_timer_handler c s)"
    using assms unfolding esb_timer_handler_def on_radio_end_tx_noack_def Let_def by simp
qed

lemma write_ptx:
  assumes "ptx_inv c s" "esb_write_payload c p s = (err, s')"
  shows "err = (if \<not> esb_initialized s then Some EACCES
       else if pl_data p = [] \<or> ESB_MAX_PAYLOAD_LENGTH c < length (pl_data p) then Some EMSGSIZE
       else if length (tx_queue s) = ESB_TX_FIFO_SIZE c then Some ENOMEM
       else if ESB_PIPE_COUNT \<le> unat (pl_pipe p) then Some EINVAL else None)"
    and "ptx_inv c s'"
    and "tx_queue s' = tx_queue s @ (if err = None then [p\<lparr>pl_pid := next_pid (pl_pipe p) s\<rparr>] else [])"
    and "err \<noteq> None \<longrightarrow> s' = s"
    and "err = None \<longrightarrow> m_esb_state s' \<noteq> ESB_STATE_IDLE"
    and "m_esb_state s \<notin> {ESB_STATE_IDLE, ESB_STATE_PTX_TXIDLE} \<longrightarrow>
           m_esb_state s' = m_esb_state s \<and> tx_payload_buffer s' = tx_payload_buffer s \<and>
           radio_frequency s' = radio_frequency s \<and> on_radio_disabled s' = on_radio_disabled s"
    and "rx_fifo s' = rx_fifo s" "esb_initialized s' = esb_initialized s" "esb_cfg s' = esb_cfg s"
        "rf_channel s' = rf_channel s"
proof -
  have wf: "ring_wf (ESB_TX_FIFO_SIZE c) (tx_fifo s)" "cfg_mode (esb_cfg s) = ESB_MODE_PTX"
    "tx_mode (esb_cfg s) = ESB_TXMODE_AUTO"
    using assms(1) by (simp_all add: ptx_inv_def)
  then have le: "rcount (tx_fifo s) \<le> ESB_TX_FIFO_SIZE c" by (simp add: ring_wf_def)
  show "err = (if \<not> esb_initialized s then Some EACCES
       else if pl_data p = [] \<or> ESB_MAX_PAYLOAD_LENGTH c < length (pl_data p) then Some EMSGSIZE
       else if length (tx_queue s) = ESB_TX_FIFO_SIZE c then Some ENOMEM
       else if ESB_PIPE_COUNT \<le> unat (pl_pipe p) then Some EINVAL else None)"
    using assms(2) le by (auto simp: esb_write_payload_def Let_def split: if_splits)
  show "err \<noteq> None \<longrightarrow> s' = s"
    using assms(2) by (auto simp: esb_write_payload_def Let_def split: if_splits)
  define q where "q = p\<lparr>pl_pid := next_pid (pl_pipe p) s\<rparr>"
  define s1 where "s1 = s\<lparr>esb_pids := (esb_pids s)[unat (pl_pipe p) := next_pid (pl_pipe p) s],
                          tx_fifo := ring_push (ESB_TX_FIFO_SIZE c) q (tx_fifo s)\<rparr>"
  have s': "s' = (if m_esb_state s = ESB_STATE_IDLE \<or> m_esb_state s = ESB_STATE_PTX_TXIDLE
                  then start_tx_transaction s1 else s1) \<and> rcount (tx_fifo s) < ESB_TX_FIFO_SIZE c"
    if "err = None"
    using assms(2) wf that by (auto simp: esb_write_payload_def s1_def q_def Let_def split: if_splits)
  have inv1: "ptx_inv c s1 \<and> tx_queue s1 = tx_queue s @ [q]"
    if "rcount (tx_fifo s) < ESB_TX_FIFO_SIZE c"
    using that assms(1) by (simp add: s1_def ptx_inv_def ring_wf_push ring_list_push)
  have started: "m_esb_state (start_tx_transaction t) \<noteq> ESB_STATE_IDLE" for t :: "'a esb_scheme"
    by (simp add: start_tx_transaction_def Let_def)
  have fr: "rx_fifo s1 = rx_fifo s" "esb_initialized s1 = esb_initialized s" "esb_cfg s1 = esb_cfg s"
    "rf_channel s1 = rf_channel s" "m_esb_state s1 = m_esb_state s"
    "tx_payload_buffer s1 = tx_payload_buffer s" "radio_frequency s1 = radio_frequency s"
    "on_radio_disabled s1 = on_radio_disabled s"
    by (simp_all add: s1_def)
  note facts = s' inv1 started fr ptx_inv_start_tx [of c s1] q_def
  show "ptx_inv c s'" "tx_queue s' = tx_queue s @ (if err = None then [p\<lparr>pl_pid := next_pid (pl_pipe p) s\<rparr>] else [])"
    "err = None \<longrightarrow> m_esb_state s' \<noteq> ESB_STATE_IDLE"
    "m_esb_state s \<notin> {ESB_STATE_IDLE, ESB_STATE_PTX_TXIDLE} \<longrightarrow>
           m_esb_state s' = m_esb_state s \<and> tx_payload_buffer s' = tx_payload_buffer s \<and>
           radio_frequency s' = radio_frequency s \<and> on_radio_disabled s' = on_radio_disabled s"
    "rx_fifo s' = rx_fifo s" "esb_initialized s' = esb_initialized s" "esb_cfg s' = esb_cfg s"
    "rf_channel s' = rf_channel s"
    using facts assms(1) \<open>err \<noteq> None \<longrightarrow> s' = s\<close> by (cases err; simp split: if_splits)+
qed

lemma ptx_inv_api:
  assumes "ptx_inv c s"
  shows "ptx_inv c (snd (esb_write_payload c p s))"
    and "ptx_inv c (snd (esb_flush_tx c s))"
    and "ptx_inv c (snd (esb_read_rx_payload c s))"
    and "ptx_inv c (snd (esb_flush_rx s))"
    and "ptx_inv c (snd (esb_set_rf_channel channel s))"
    and "ptx_inv c (snd (esb_set_retransmit_delay delay s))"
    and "ptx_inv c (snd (esb_set_retransmit_count count s))"
    and "ptx_inv c (snd (esb_set_base_address_0 addr s))"
    and "ptx_inv c (snd (esb_set_base_address_1 addr s))"
    and "ptx_inv c (snd (esb_set_prefixes prefixes n s))"
    and "ptx_inv c (snd (esb_start_tx s))"
proof -
  show "ptx_inv c (snd (esb_write_payload c p s))"
    using write_ptx(2) [OF assms, of p] by (metis prod.collapse)
  have "unat (ucast channel :: u8) \<le> 100" if "\<not> 100 < channel"
  proof -
    have "unat channel \<le> 100" using that by (simp add: word_less_nat_alt linorder_not_less)
    then show ?thesis by (simp add: unsigned_ucast_eq take_bit_eq_mod)
  qed
  then show "ptx_inv c (snd (esb_set_rf_channel channel s))"
    using assms by (simp add: esb_set_rf_channel_def ptx_inv_def)
  show "ptx_inv c (snd (esb_flush_tx c s))"
    using assms by (simp add: esb_flush_tx_def clear_ack_wraps_def ptx_inv_def ring_wf_clear)
  show "ptx_inv c (snd (esb_read_rx_payload c s))"
    using assms by (simp add: esb_read_rx_payload_def ptx_inv_def ring_wf_pop)
  show "ptx_inv c (snd (esb_flush_rx s))"
    using assms by (simp add: esb_flush_rx_def ptx_inv_def ring_wf_clear)
  show "ptx_inv c (snd (esb_start_tx s))"
    using assms by (simp add: esb_start_tx_def ptx_inv_start_tx)
qed (use assms in \<open>simp_all add: esb_set_retransmit_delay_def esb_set_retransmit_count_def
    esb_set_base_address_0_def esb_set_base_address_1_def esb_set_prefixes_def ptx_inv_def\<close>)

section \<open>Properties\<close>

text \<open>Setting the radio up and down.\<close>

lemma ptx_inv_setup:
  assumes "ptx_inv c s"
  shows "ptx_inv c (esb_disable s)"
    and "cfg_mode config = ESB_MODE_PTX \<Longrightarrow> tx_mode config = ESB_TXMODE_AUTO \<Longrightarrow> ptx_inv c (snd (esb_init c hw config s))"
proof -
  show d: "ptx_inv c (esb_disable s)"
    using assms by (simp add: ptx_inv_def esb_disable_def reset_fifos_def ring_wf_clear Let_def)
  define t where "t = (if esb_initialized s then esb_disable s else s)"
  have t: "ptx_inv c t" using assms d by (simp add: t_def)
  then have "0 < ESB_TX_FIFO_SIZE c" "0 < ESB_RX_FIFO_SIZE c" by (auto simp: ptx_inv_def ring_wf_def)
  then show "ptx_inv c (snd (esb_init c hw config s))"
    if "cfg_mode config = ESB_MODE_PTX" "tx_mode config = ESB_TXMODE_AUTO"
    using that t by (auto simp: esb_init_def ptx_inv_def initialize_fifos_def reset_fifos_def ring_clear_def ring_wf_def
        clear_ack_wraps_def Let_def simp flip: t_def split: option.splits)
qed

text \<open>A radio as \<open>esb_init\<close> leaves it, with one option changed by each example that needs it.\<close>

definition ptx_config :: esb_config where
  "ptx_config = \<lparr>cfg_mode = ESB_MODE_PTX, retransmit_delay = 570, retransmit_count = 5,
     tx_mode = ESB_TXMODE_AUTO, payload_length = 32, selective_auto_ack = False,
     use_fast_ramp_up = True\<rparr>"

definition esb_example :: esb where
  "esb_example = \<lparr>uptime = 2000, cycles = 7, sched = (\<lambda>_. None), m_prng_state = 1,
     esb_initialized = True, esb_cfg = ptx_config, m_esb_state = ESB_STATE_IDLE,
     tx_fifo = \<lparr>rslots = replicate 8 empty_payload, rback = 0, rfront = 0, rcount = 0\<rparr>,
     rx_fifo = \<lparr>rslots = replicate 8 empty_payload, rback = 0, rfront = 0, rcount = 0\<rparr>,
     tx_payload_buffer = \<lparr>pdu_pid = 0, pdu_no_ack = True, pdu_data = []\<rparr>,
     on_radio_disabled = NoHandler, tx_noack_timer = False, esb_pids = [0, 0],
     rx_pipe_info = replicate 2 \<lparr>pi_crc = 0, pi_pid = 0, pi_ack_payload = False\<rparr>,
     ack_in_use = replicate 8 False, ack_pl_wrap_pipe = [[], []],
     int_tx_success = False, int_tx_failed = False, int_rx_received = False,
     retransmits_remaining = 0, last_tx_attempts = 0,
     base_addr_p0 = [], base_addr_p1 = [], pipe_prefixes = [], num_pipes = 2, rx_pipes_enabled = 3,
     rf_channel = 78, radio_txaddress = 0, radio_frequency = 78\<rparr>"

definition pkt_example :: "u8 list \<Rightarrow> esb_payload" where
  "pkt_example bs = \<lparr>pl_pipe = 1, pl_noack = False, pl_pid = 0, pl_rssi = 0, pl_data = bs\<rparr>"

lemma esb_example_inv: "ptx_inv default_kcfg esb_example"
  by (simp add: ptx_inv_def esb_example_def ptx_config_def ring_wf_def)

text \<open>
  Writing a payload is refused with the documented error and without effect when the radio
  is off, the length is out of range, the FIFO is full or the pipe does not exist; otherwise it
  is queued behind every packet already waiting, under the next packet id of its pipe, and the
  transmitter is running afterwards.
\<close>

theorem esb_write_payload_queues:
  assumes "ptx_inv c s" "esb_write_payload c p s = (err, s')"
  shows "err = (if \<not> esb_initialized s then Some EACCES
       else if pl_data p = [] \<or> ESB_MAX_PAYLOAD_LENGTH c < length (pl_data p) then Some EMSGSIZE
       else if length (tx_queue s) = ESB_TX_FIFO_SIZE c then Some ENOMEM
       else if ESB_PIPE_COUNT \<le> unat (pl_pipe p) then Some EINVAL else None) \<and>
    (err \<noteq> None \<longrightarrow> s' = s) \<and>
    (err = None \<longrightarrow> tx_queue s' = tx_queue s @ [p\<lparr>pl_pid := next_pid (pl_pipe p) s\<rparr>] \<and>
                    m_esb_state s' \<noteq> ESB_STATE_IDLE)"
  using write_ptx [OF assms] by auto

lemma esb_example_write:
  assumes "length bs \<noteq> 0" "length bs \<le> 32"
  obtains s' where "esb_write_payload default_kcfg (pkt_example bs) esb_example = (None, s')"
proof (rule that)
  have "fst (esb_write_payload default_kcfg (pkt_example bs) esb_example) = None"
    using assms by (simp add: esb_write_payload_def esb_example_def pkt_example_def ESB_PIPE_COUNT_def
        Let_def)
  then show "esb_write_payload default_kcfg (pkt_example bs) esb_example =
      (None, snd (esb_write_payload default_kcfg (pkt_example bs) esb_example))"
    by (metis prod.collapse)
qed

theorem esb_write_payload_queues_witness:
  "\<exists>s'. esb_write_payload default_kcfg (pkt_example [1, 2]) esb_example = (None, s') \<and>
        tx_queue s' = [(pkt_example [1, 2])\<lparr>pl_pid := 1\<rparr>]"
proof -
  obtain s' where w: "esb_write_payload default_kcfg (pkt_example [1, 2]) esb_example = (None, s')"
    by (rule esb_example_write [of "[1, 2]"]) auto
  have "next_pid (pl_pipe (pkt_example [1, 2])) esb_example = 1" "tx_queue esb_example = []"
    by (simp_all add: next_pid_def esb_example_def pkt_example_def PID_MAX_def ring_list_def)
  with esb_write_payload_queues [OF esb_example_inv w] w show ?thesis by auto
qed

text \<open>
  One attempt that stays unanswered: the end of the transmission, then the end of the wait for
  the acknowledgement.
\<close>

definition unanswered :: "kcfg \<Rightarrow> 'a esb_scheme \<Rightarrow> 'a esb_scheme" where
  "unanswered c s = radio_irq_handler c None 0 0 0 (radio_irq_handler c None 0 0 0 s)"

lemma unanswered_step:
  assumes "on_radio_disabled s = OnDisabledTx"
  shows "unanswered c s =
     (if retransmits_remaining s = 0
      then s\<lparr>on_radio_disabled := OnDisabledTxWaitForAck,
             retransmits_remaining := retransmits_remaining s - 1,
             last_tx_attempts := ucast (retransmit_count (esb_cfg s)) + 1,
             int_tx_failed := True, m_esb_state := ESB_STATE_IDLE\<rparr>
      else s\<lparr>retransmits_remaining := retransmits_remaining s - 1,
             m_esb_state := ESB_STATE_PTX_TX_ACK\<rparr>)"
  using assms by (simp add: unanswered_def radio_irq_handler_def on_radio_disabled_tx_def
      on_radio_disabled_tx_wait_for_ack_def)

lemma unanswered_many:
  assumes "on_radio_disabled s = OnDisabledTx" "m_esb_state s = ESB_STATE_PTX_TX_ACK"
    "k \<le> unat (retransmits_remaining s)"
  shows "(unanswered c ^^ k) s =
     s\<lparr>retransmits_remaining := retransmits_remaining s - of_nat k\<rparr>"
  using assms(3)
proof (induction k)
  case (Suc k)
  have "k < 2 ^ 32"
    using Suc.prems unsigned_less [of "retransmits_remaining s", where 'a = nat] by simp
  then have "unat (of_nat k :: u32) = k" by (rule unat_of_nat_u32)
  then have "unat (retransmits_remaining s - of_nat k) = unat (retransmits_remaining s) - k"
    using Suc.prems by (simp add: unat_sub word_le_nat_alt)
  then have "retransmits_remaining s - of_nat k \<noteq> 0"
    using Suc.prems by (metis unat_0 Suc_le_lessD zero_less_diff less_irrefl)
  then show ?case
    using Suc assms(1,2) by (simp add: unanswered_step diff_diff_eq add.commute)
qed simp

lemma start_tx_ack:
  assumes "\<not> pl_noack (ring_head (tx_fifo s)) \<or> \<not> selective_auto_ack (esb_cfg s)"
  shows "on_radio_disabled (start_tx_transaction s) = OnDisabledTx"
    and "m_esb_state (start_tx_transaction s) = ESB_STATE_PTX_TX_ACK"
    and "retransmits_remaining (start_tx_transaction s) = ucast (retransmit_count (esb_cfg s))"
  using assms by (simp_all add: start_tx_transaction_def Let_def)

text \<open>
  C10. The retransmission budget is exact: a transaction that is never answered is attempted
  \<open>retransmit_count + 1\<close> times. After fewer attempts the transmitter is still trying and has
  reported nothing; after that many it is idle, reports TX_FAILED with that number of
  attempts, and the packet is still at the head of the transmit FIFO.
\<close>

theorem esb_attempts_exact:
  assumes "\<not> pl_noack (ring_head (tx_fifo s)) \<or> \<not> selective_auto_ack (esb_cfg s)"
    and "\<not> int_tx_failed s" and "n = unat (retransmit_count (esb_cfg s))"
  shows "(\<forall>k \<le> n. m_esb_state ((unanswered c ^^ k) (start_tx_transaction s)) = ESB_STATE_PTX_TX_ACK \<and>
                  \<not> int_tx_failed ((unanswered c ^^ k) (start_tx_transaction s))) \<and>
    (let s' = (unanswered c ^^ Suc n) (start_tx_transaction s)
     in m_esb_state s' = ESB_STATE_IDLE \<and> int_tx_failed s' \<and>
        unat (last_tx_attempts s') = Suc n \<and> tx_fifo s' = tx_fifo s)"
proof -
  let ?t = "start_tx_transaction s"
  note t = start_tx_ack [OF assms(1)]
  have n: "unat (retransmits_remaining ?t) = n" and n16: "n < 2 ^ 16"
    using t(3) assms(3) unsigned_less [of "retransmit_count (esb_cfg s)", where 'a = nat]
    by (simp_all add: unsigned_ucast_eq take_bit_eq_mod)
  have k: "(unanswered c ^^ k) ?t = ?t\<lparr>retransmits_remaining := retransmits_remaining ?t - of_nat k\<rparr>"
    if "k \<le> n" for k
    using unanswered_many [OF t(1,2), of k c] that n by simp
  have "retransmits_remaining ?t = of_nat n"
    by (simp flip: n)
  moreover have "unat (ucast (retransmit_count (esb_cfg s)) + 1 :: u32) = Suc n"
    using n16 assms(3)
    by (simp add: unat_word_ariths unsigned_ucast_eq take_bit_eq_mod)
  ultimately show ?thesis
    using assms(2) t k [of n] by (auto simp: k unanswered_step Let_def)
qed

theorem esb_attempts_exact_witness:
  "\<exists>s :: esb. int_tx_failed ((unanswered default_kcfg ^^ 6) (start_tx_transaction s))"
proof -
  have "\<not> selective_auto_ack (esb_cfg esb_example)" "\<not> int_tx_failed esb_example"
    "(5 :: nat) = unat (retransmit_count (esb_cfg esb_example))"
    by (simp_all add: esb_example_def ptx_config_def)
  from esb_attempts_exact [OF disjI2 [OF this(1)] this(2,3), of default_kcfg]
  show ?thesis by (intro exI [of _ esb_example]) (simp add: Let_def)
qed

text \<open>
  A packet whose retransmissions are exhausted is not given up: the TX_FAILED report leaves
  it at the head of the FIFO, and the next write, of any packet, puts the failed one back on
  the air first, as a new transaction.
\<close>

theorem esb_failed_packet_resent_first:
  assumes "ptx_inv c s" "m_esb_state s = ESB_STATE_PTX_RX_ACK" "retransmits_remaining s = 0"
    "tx_queue s = old # rest" "esb_initialized s"
    and "esb_write_payload c p (radio_irq_handler c None rssi pipe crc s) = (None, s')"
  shows "tx_queue s' = old # rest @ [p\<lparr>pl_pid := next_pid (pl_pipe p) s\<rparr>] \<and>
    pdu_data (tx_payload_buffer s') = pl_data old \<and> pdu_pid (tx_payload_buffer s') = pl_pid old"
proof -
  let ?f = "radio_irq_handler c None rssi pipe crc s"
  have h: "on_radio_disabled s = OnDisabledTxWaitForAck" using assms(1,2) by (simp add: ptx_inv_def)
  have f: "m_esb_state ?f = ESB_STATE_IDLE" "tx_fifo ?f = tx_fifo s" "esb_pids ?f = esb_pids s"
    using h assms(3) by (simp_all add: radio_irq_handler_def on_radio_disabled_tx_wait_for_ack_def)
  have inv: "ptx_inv c ?f" by (rule ptx_inv_interrupts(1) [OF assms(1)])
  have q: "tx_queue s' = old # rest @ [p\<lparr>pl_pid := next_pid (pl_pipe p) s\<rparr>]"
    using write_ptx(3) [OF inv assms(6)] f assms(4) by (simp add: next_pid_def)
  have started: "\<exists>t. s' = start_tx_transaction t"
    using assms(6) f(1) inv by (auto simp: esb_write_payload_def ptx_inv_def Let_def split: if_splits)
  then obtain t where t: "s' = start_tx_transaction t" by blast
  have "ring_head (tx_fifo s') = old"
    using ring_head_list [of "ESB_TX_FIFO_SIZE c" "tx_fifo s'"] write_ptx(2) [OF inv assms(6)] q
    by (simp add: ptx_inv_def flip: length_ring_list)
  then have "pdu_data (tx_payload_buffer s') = pl_data old \<and> pdu_pid (tx_payload_buffer s') = pl_pid old"
    unfolding t by (simp add: Let_def)
  with q show ?thesis by blast
qed

text \<open>
  Flushing while a transaction is on the air does not cancel it: when a new packet is
  written before the acknowledgement of the old one arrives, that acknowledgement removes the
  new packet and reports it as sent, although it was never loaded into the radio.
\<close>

theorem esb_flush_in_flight_drops_next:
  assumes "ptx_inv c s" "m_esb_state s = ESB_STATE_PTX_RX_ACK" "esb_initialized s"
    and "esb_write_payload c p (snd (esb_flush_tx c s)) = (None, s1)"
    and "s2 = radio_irq_handler c (Some ack) rssi pipe crc s1" and "pdu_data ack = []"
  shows "tx_queue s1 = [p\<lparr>pl_pid := next_pid (pl_pipe p) s\<rparr>] \<and>
    tx_payload_buffer s2 = tx_payload_buffer s \<and> int_tx_success s2 \<and>
    tx_queue s2 = [] \<and> m_esb_state s2 = ESB_STATE_IDLE"
proof -
  let ?f = "snd (esb_flush_tx c s)"
  have f: "m_esb_state ?f = ESB_STATE_PTX_RX_ACK" "tx_queue ?f = []" "esb_pids ?f = esb_pids s"
    "tx_payload_buffer ?f = tx_payload_buffer s" "on_radio_disabled ?f = on_radio_disabled s"
    using assms(2,3) by (simp_all add: esb_flush_tx_def clear_ack_wraps_def)
  have inv: "ptx_inv c ?f" using ptx_inv_api(2) [OF assms(1)] .
  note w = write_ptx [OF inv assms(4)]
  have s1: "tx_queue s1 = [p\<lparr>pl_pid := next_pid (pl_pipe p) s\<rparr>]" "m_esb_state s1 = ESB_STATE_PTX_RX_ACK"
    "tx_payload_buffer s1 = tx_payload_buffer s" "on_radio_disabled s1 = OnDisabledTxWaitForAck"
    "ptx_inv c s1"
    using w f assms(1,2) by (simp_all add: next_pid_def ptx_inv_def)
  then have "tx_queue (tx_fifo_remove_last c s1) = []"
    by (simp add: tx_fifo_remove_last_def ptx_inv_def ring_list_pop)
  then have "rcount (tx_fifo (tx_fifo_remove_last c s1)) = 0"
    by (simp add: rcount_0_iff)
  with s1 assms(6) show ?thesis
    unfolding assms(5) radio_irq_handler_def
    by (simp add: on_radio_disabled_tx_wait_for_ack_def receive_ack_payload_def next_transaction_def
        tx_fifo_remove_last_def rcount_0_iff)
qed

text \<open>A transmitter that waits for the last acknowledgement of a packet.\<close>

definition inflight_example :: esb where
  "inflight_example = esb_example
     \<lparr>tx_fifo := \<lparr>rslots = (replicate 8 empty_payload)[0 := pkt_example [1]], rback = 1, rfront = 0, rcount = 1\<rparr>,
      m_esb_state := ESB_STATE_PTX_RX_ACK, on_radio_disabled := OnDisabledTxWaitForAck\<rparr>"

lemma inflight_example:
  "ptx_inv default_kcfg inflight_example" "m_esb_state inflight_example = ESB_STATE_PTX_RX_ACK"
  "retransmits_remaining inflight_example = 0" "esb_initialized inflight_example"
  "tx_queue inflight_example = [pkt_example [1]]" "esb_pids inflight_example = [0, 0]"
  by (simp_all add: inflight_example_def esb_example_def ptx_inv_def ptx_config_def ring_wf_def
      ring_list_def)

lemma write_succeeds:
  assumes "ptx_inv c s" "esb_initialized s" "pl_data p \<noteq> []" "length (pl_data p) \<le> ESB_MAX_PAYLOAD_LENGTH c"
    "length (tx_queue s) < ESB_TX_FIFO_SIZE c" "unat (pl_pipe p) < ESB_PIPE_COUNT"
  shows "\<exists>s'. esb_write_payload c p s = (None, s')"
proof -
  obtain err s' where w: "esb_write_payload c p s = (err, s')" by fastforce
  have "err = None" using write_ptx(1) [OF assms(1) w] assms(2-6) by auto
  with w show ?thesis by blast
qed

theorem esb_failed_packet_resent_first_witness:
  "\<exists>s'. tx_queue s' = [pkt_example [1], (pkt_example [2])\<lparr>pl_pid := 1\<rparr>] \<and>
        pdu_data (tx_payload_buffer (s' :: esb)) = [1]"
proof -
  note ex = inflight_example
  let ?f = "radio_irq_handler default_kcfg None 0 0 0 inflight_example"
  have "ptx_inv default_kcfg ?f" by (rule ptx_inv_interrupts(1) [OF ex(1)])
  moreover have "esb_initialized ?f" "tx_queue ?f = [pkt_example [1]]"
    using ex by (simp_all add: radio_irq_handler_def ptx_inv_def on_radio_disabled_tx_wait_for_ack_def
        split: radio_handler.splits)
  ultimately have "\<exists>s'. esb_write_payload default_kcfg (pkt_example [2]) ?f = (None, s')"
    by (intro write_succeeds) (auto simp: pkt_example_def ESB_PIPE_COUNT_def)
  then obtain s' where w: "esb_write_payload default_kcfg (pkt_example [2]) ?f = (None, s')"
    by blast
  have "next_pid (pl_pipe (pkt_example [2])) inflight_example = 1"
    by (simp add: next_pid_def ex(6) pkt_example_def PID_MAX_def)
  with esb_failed_packet_resent_first [OF ex(1,2,3,5,4) w] show ?thesis
    by (auto simp: pkt_example_def)
qed

theorem esb_flush_in_flight_drops_next_witness:
  "\<exists>s1 s2. tx_queue s1 = [(pkt_example [2])\<lparr>pl_pid := 1\<rparr>] \<and>
      s2 = radio_irq_handler default_kcfg (Some \<lparr>pdu_pid = 0, pdu_no_ack = True, pdu_data = []\<rparr>) 0 1 0 (s1 :: esb) \<and>
      tx_queue s2 = [] \<and> int_tx_success s2"
proof -
  note ex = inflight_example
  let ?f = "snd (esb_flush_tx default_kcfg inflight_example)"
  have "ptx_inv default_kcfg ?f" by (rule ptx_inv_api(2) [OF ex(1)])
  moreover have "esb_initialized ?f" "tx_queue ?f = []"
    using ex by (simp_all add: esb_flush_tx_def clear_ack_wraps_def)
  ultimately have "\<exists>s'. esb_write_payload default_kcfg (pkt_example [2]) ?f = (None, s')"
    by (intro write_succeeds) (auto simp: pkt_example_def ESB_PIPE_COUNT_def)
  then obtain s1 where w: "esb_write_payload default_kcfg (pkt_example [2]) ?f = (None, s1)"
    by blast
  have "next_pid (pl_pipe (pkt_example [2])) inflight_example = 1"
    by (simp add: next_pid_def ex(6) pkt_example_def PID_MAX_def)
  with esb_flush_in_flight_drops_next [OF ex(1,2,4) w refl,
      of "\<lparr>pdu_pid = 0, pdu_no_ack = True, pdu_data = []\<rparr>"]
  show ?thesis by auto
qed

text \<open>What building an acknowledgement leaves alone.\<close>

lemma rx_dpl_frames:
  assumes "pipe < length (rx_pipe_info s)"
  shows "rx_fifo (on_radio_disabled_rx_dpl b pipe p s) = rx_fifo s"
    "esb_cfg (on_radio_disabled_rx_dpl b pipe p s) = esb_cfg s"
    "int_rx_received (on_radio_disabled_rx_dpl b pipe p s) = int_rx_received s"
    "length (rx_pipe_info (on_radio_disabled_rx_dpl b pipe p s)) = length (rx_pipe_info s)"
    "pi_crc (rx_pipe_info (on_radio_disabled_rx_dpl b pipe p s) ! pipe) = pi_crc (rx_pipe_info s ! pipe)"
    "pi_pid (rx_pipe_info (on_radio_disabled_rx_dpl b pipe p s) ! pipe) = pi_pid (rx_pipe_info s ! pipe)"
  using assms by (simp_all add: on_radio_disabled_rx_dpl_def Let_def split: option.splits)

lemma answer_packet_frames:
  assumes "pipe < length (rx_pipe_info s)"
  shows "rx_fifo (answer_packet b pipe p s) = rx_fifo s"
    "length (rx_pipe_info (answer_packet b pipe p s)) = length (rx_pipe_info s)"
    "pi_crc (rx_pipe_info (answer_packet b pipe p s) ! pipe) = pi_crc (rx_pipe_info s ! pipe)"
    "pi_pid (rx_pipe_info (answer_packet b pipe p s) ! pipe) = pi_pid (rx_pipe_info s ! pipe)"
  by (simp_all add: answer_packet_def rx_dpl_frames [OF assms])

lemma deliver_packet_frames:
  "rx_pipe_info (deliver_packet c p rssi pipe s) = rx_pipe_info s"
  "rcount (rx_fifo s) < ESB_RX_FIFO_SIZE c \<Longrightarrow> length (pdu_data p) \<le> ESB_MAX_PAYLOAD_LENGTH c \<Longrightarrow>
     rx_fifo (deliver_packet c p rssi pipe s) = ring_push (ESB_RX_FIFO_SIZE c)
       \<lparr>pl_pipe = of_nat pipe, pl_noack = \<not> pdu_no_ack p, pl_pid = pdu_pid p, pl_rssi = rssi,
        pl_data = pdu_data p\<rparr> (rx_fifo s)"
  by (simp_all add: deliver_packet_def rx_fifo_push_rfbuf_def)

lemma on_radio_disabled_rx_records:
  assumes "rcount (rx_fifo s) < ESB_RX_FIFO_SIZE c" "pipe < length (rx_pipe_info s)"
    "s' = on_radio_disabled_rx c (Some p) rssi pipe crc s"
  shows "pi_crc (rx_pipe_info s' ! pipe) = crc \<and> pi_pid (rx_pipe_info s' ! pipe) = pdu_pid p \<and>
         length (rx_pipe_info s') = length (rx_pipe_info s)"
  using assms
  by (simp add: on_radio_disabled_rx_def Let_def deliver_packet_frames answer_packet_frames)

lemma on_radio_disabled_rx_fifo:
  assumes "rcount (rx_fifo s) < ESB_RX_FIFO_SIZE c" "pipe < length (rx_pipe_info s)"
    "length (pdu_data p) \<le> ESB_MAX_PAYLOAD_LENGTH c"
  shows "rx_fifo (on_radio_disabled_rx c (Some p) rssi pipe crc s) =
    (if crc = pi_crc (rx_pipe_info s ! pipe) \<and> pdu_pid p = pi_pid (rx_pipe_info s ! pipe)
     then rx_fifo s
     else ring_push (ESB_RX_FIFO_SIZE c) \<lparr>pl_pipe = of_nat pipe, pl_noack = \<not> pdu_no_ack p,
            pl_pid = pdu_pid p, pl_rssi = rssi, pl_data = pdu_data p\<rparr> (rx_fifo s))"
  using assms
  by (simp add: on_radio_disabled_rx_def Let_def deliver_packet_frames answer_packet_frames)

text \<open>
  A retransmission is acknowledged but not delivered twice: after a packet has been taken
  with a free slot in the receive FIFO, receiving the same packet again (same packet id and
  CRC on the same pipe) leaves the receive FIFO as it is, whatever was read from it meanwhile;
  the first copy is delivered exactly once, behind what was already waiting.
\<close>

theorem esb_prx_no_duplicates:
  assumes "ring_wf (ESB_RX_FIFO_SIZE c) (rx_fifo s)" "rcount (rx_fifo s) < ESB_RX_FIFO_SIZE c"
    "pipe < length (rx_pipe_info s)" "length (pdu_data p) \<le> ESB_MAX_PAYLOAD_LENGTH c"
    "crc \<noteq> pi_crc (rx_pipe_info s ! pipe) \<or> pdu_pid p \<noteq> pi_pid (rx_pipe_info s ! pipe)"
    and "s1 = on_radio_disabled_rx c (Some p) rssi pipe crc s"
    and "rx_pipe_info s2 = rx_pipe_info s1" "rcount (rx_fifo s2) < ESB_RX_FIFO_SIZE c"
  shows "rx_queue s1 = rx_queue s @ [\<lparr>pl_pipe = of_nat pipe, pl_noack = \<not> pdu_no_ack p,
           pl_pid = pdu_pid p, pl_rssi = rssi, pl_data = pdu_data p\<rparr>] \<and>
         rx_fifo (on_radio_disabled_rx c (Some p) rssi' pipe crc s2) = rx_fifo s2"
proof
  show "rx_queue s1 = rx_queue s @ [\<lparr>pl_pipe = of_nat pipe, pl_noack = \<not> pdu_no_ack p,
           pl_pid = pdu_pid p, pl_rssi = rssi, pl_data = pdu_data p\<rparr>]"
    using assms(1-6) by (auto simp: on_radio_disabled_rx_fifo ring_list_push)
  have "pi_crc (rx_pipe_info s2 ! pipe) = crc" "pi_pid (rx_pipe_info s2 ! pipe) = pdu_pid p"
    "pipe < length (rx_pipe_info s2)"
    using on_radio_disabled_rx_records [OF assms(2,3,6)] assms(3,7) by simp_all
  then show "rx_fifo (on_radio_disabled_rx c (Some p) rssi' pipe crc s2) = rx_fifo s2"
    using assms(4,8) by (simp add: on_radio_disabled_rx_fifo)
qed

theorem esb_prx_no_duplicates_witness:
  "let p = \<lparr>pdu_pid = 1, pdu_no_ack = True, pdu_data = [7]\<rparr>;
       s1 = on_radio_disabled_rx default_kcfg (Some p) 0 1 0xBEEF esb_example
   in rx_fifo (on_radio_disabled_rx default_kcfg (Some p) 0 1 0xBEEF s1) = rx_fifo s1"
proof -
  define p where "p = \<lparr>pdu_pid = 1, pdu_no_ack = True, pdu_data = [7 :: u8]\<rparr>"
  define s1 where "s1 = on_radio_disabled_rx default_kcfg (Some p) 0 1 0xBEEF esb_example"
  have pre: "ring_wf (ESB_RX_FIFO_SIZE default_kcfg) (rx_fifo esb_example)"
    "rcount (rx_fifo esb_example) < ESB_RX_FIFO_SIZE default_kcfg"
    "1 < length (rx_pipe_info esb_example)"
    "length (pdu_data p) \<le> ESB_MAX_PAYLOAD_LENGTH default_kcfg"
    "0xBEEF \<noteq> pi_crc (rx_pipe_info esb_example ! 1) \<or> pdu_pid p \<noteq> pi_pid (rx_pipe_info esb_example ! 1)"
    by (simp_all add: esb_example_def ring_wf_def p_def)
  have "rx_fifo s1 = ring_push (ESB_RX_FIFO_SIZE default_kcfg)
      \<lparr>pl_pipe = 1, pl_noack = \<not> pdu_no_ack p, pl_pid = pdu_pid p, pl_rssi = 0, pl_data = pdu_data p\<rparr>
      (rx_fifo esb_example)"
    unfolding s1_def on_radio_disabled_rx_fifo [OF pre(2,3,4)] using pre(5) by auto
  then have "rcount (rx_fifo s1) < ESB_RX_FIFO_SIZE default_kcfg"
    by (simp add: ring_push_def esb_example_def)
  from esb_prx_no_duplicates [OF pre s1_def refl this, of 0] show ?thesis
    by (simp add: Let_def s1_def p_def)
qed

end
