(* ===== verification/Protocol.thy ===== *)
theory Protocol
  imports Config
begin

text \<open>
  The wire protocol, \<open>include/zmk_esb/protocol.h\<close>: packet type bytes, the packed structures
  as a datatype with its byte layout \<open>encode\<close>, and the field accesses the receivers make on
  the bytes they get. A packed structure is its bytes in declaration order; multi-byte fields
  are little endian. \<open>device_id\<close> fields are six bytes.
\<close>

section \<open>Constants\<close>

definition ESB_PIPE_PAIRING :: u8 where "ESB_PIPE_PAIRING = 0"
definition ESB_PIPE_DATA :: u8 where "ESB_PIPE_DATA = 1"

definition ESB_PKT_BEACON :: u8 where "ESB_PKT_BEACON = 0x01"
definition ESB_PKT_PAIR_REQ :: u8 where "ESB_PKT_PAIR_REQ = 0x02"
definition ESB_PKT_PAIR_RESP :: u8 where "ESB_PKT_PAIR_RESP = 0x03"
definition ESB_PKT_HID_REPORT :: u8 where "ESB_PKT_HID_REPORT = 0x06"
definition ESB_PKT_DISCONNECT :: u8 where "ESB_PKT_DISCONNECT = 0x07"
definition ESB_PKT_SHELL_REQ :: u8 where "ESB_PKT_SHELL_REQ = 0x08"
definition ESB_PKT_SHELL_STOP :: u8 where "ESB_PKT_SHELL_STOP = 0x09"
definition ESB_PKT_SHELL_DATA :: u8 where "ESB_PKT_SHELL_DATA = 0x0A"
definition ESB_PKT_SHELL_POLL :: u8 where "ESB_PKT_SHELL_POLL = 0x0B"
definition ESB_PKT_BENCH_PING :: u8 where "ESB_PKT_BENCH_PING = 0x0C"
definition ESB_PKT_BENCH_STOP :: u8 where "ESB_PKT_BENCH_STOP = 0x0D"
definition ESB_PKT_BENCH_RESULT :: u8 where "ESB_PKT_BENCH_RESULT = 0x0E"
definition ESB_PKT_SHELL_BG_POLL :: u8 where "ESB_PKT_SHELL_BG_POLL = 0x0F"
definition ESB_PKT_VERIFY_REQ :: u8 where "ESB_PKT_VERIFY_REQ = 0x10"
definition ESB_PKT_VERIFY_RESP :: u8 where "ESB_PKT_VERIFY_RESP = 0x11"
definition ESB_PKT_SHELL_START :: u8 where "ESB_PKT_SHELL_START = 0x12"
definition ESB_PKT_RESYNC :: u8 where "ESB_PKT_RESYNC = 0x13"
definition ESB_PKT_CHANNEL_HOP_PROPOSAL :: u8 where "ESB_PKT_CHANNEL_HOP_PROPOSAL = 0x14"
definition ESB_PKT_CHANNEL_HOP_CONFIRM :: u8 where "ESB_PKT_CHANNEL_HOP_CONFIRM = 0x15"
definition ESB_PKT_CHANNEL_HOP_REQUEST :: u8 where "ESB_PKT_CHANNEL_HOP_REQUEST = 0x16"
definition ESB_PKT_IDLE :: u8 where "ESB_PKT_IDLE = 0x17"
definition ESB_PKT_HOP_OFFER :: u8 where "ESB_PKT_HOP_OFFER = 0x18"
definition ESB_PKT_HOP_ACCEPT :: u8 where "ESB_PKT_HOP_ACCEPT = 0x19"
definition ESB_PKT_LINK_STATS :: u8 where "ESB_PKT_LINK_STATS = 0x1A"

definition ESB_REPORT_KEYBOARD :: u8 where "ESB_REPORT_KEYBOARD = 0x00"
definition ESB_REPORT_CONSUMER :: u8 where "ESB_REPORT_CONSUMER = 0x01"
definition ESB_REPORT_MOUSE :: u8 where "ESB_REPORT_MOUSE = 0x02"

definition ESB_CAP_KEYBOARD :: u8 where "ESB_CAP_KEYBOARD = 1"
definition ESB_CAP_CONSUMER :: u8 where "ESB_CAP_CONSUMER = 2"
definition ESB_CAP_MOUSE :: u8 where "ESB_CAP_MOUSE = 4"

lemmas pipe_consts = ESB_PIPE_PAIRING_def ESB_PIPE_DATA_def

lemmas pkt_consts =
  ESB_PKT_BEACON_def
  ESB_PKT_PAIR_REQ_def
  ESB_PKT_PAIR_RESP_def
  ESB_PKT_HID_REPORT_def
  ESB_PKT_DISCONNECT_def
  ESB_PKT_SHELL_REQ_def
  ESB_PKT_SHELL_STOP_def
  ESB_PKT_SHELL_DATA_def
  ESB_PKT_SHELL_POLL_def
  ESB_PKT_BENCH_PING_def
  ESB_PKT_BENCH_STOP_def
  ESB_PKT_BENCH_RESULT_def
  ESB_PKT_SHELL_BG_POLL_def
  ESB_PKT_VERIFY_REQ_def
  ESB_PKT_VERIFY_RESP_def
  ESB_PKT_SHELL_START_def
  ESB_PKT_RESYNC_def
  ESB_PKT_CHANNEL_HOP_PROPOSAL_def
  ESB_PKT_CHANNEL_HOP_CONFIRM_def
  ESB_PKT_CHANNEL_HOP_REQUEST_def
  ESB_PKT_IDLE_def
  ESB_PKT_HOP_OFFER_def
  ESB_PKT_HOP_ACCEPT_def
  ESB_PKT_LINK_STATS_def
  ESB_REPORT_KEYBOARD_def ESB_REPORT_CONSUMER_def ESB_REPORT_MOUSE_def

text \<open>\<open>ESB_MAX_PAYLOAD_LEN\<close> and \<open>ESB_PKT_DATA_MAX\<close>.\<close>

definition ESB_MAX_PAYLOAD_LEN :: "kcfg \<Rightarrow> nat" where
  "ESB_MAX_PAYLOAD_LEN c = ESB_MAX_PAYLOAD_LENGTH c"

definition ESB_PKT_DATA_MAX :: "kcfg \<Rightarrow> nat" where
  "ESB_PKT_DATA_MAX c = ESB_MAX_PAYLOAD_LENGTH c - 2"

section \<open>Little-endian fields\<close>

definition le16 :: "u16 \<Rightarrow> u8 list" where
  "le16 w = [ucast w, ucast (drop_bit 8 w)]"

definition of_le16 :: "u8 list \<Rightarrow> u16" where
  "of_le16 bs = ucast (bs ! 0) OR push_bit 8 (ucast (bs ! 1))"

definition le32 :: "u32 \<Rightarrow> u8 list" where
  "le32 w = [ucast w, ucast (drop_bit 8 w), ucast (drop_bit 16 w), ucast (drop_bit 24 w)]"

definition of_le32 :: "u8 list \<Rightarrow> u32" where
  "of_le32 bs = ucast (bs ! 0) OR push_bit 8 (ucast (bs ! 1)) OR
                push_bit 16 (ucast (bs ! 2)) OR push_bit 24 (ucast (bs ! 3))"

lemma of_le16_le16 [simp]: "of_le16 (le16 w) = w"
  by (rule bit_word_eqI)
    (auto simp: of_le16_def le16_def bit_simps dest: bit_imp_le_length)

lemma of_le32_le32 [simp]: "of_le32 (le32 w) = w"
proof (rule bit_word_eqI)
  fix n assume "n < LENGTH(32)"
  then consider "n < 8" | "8 \<le> n" "n < 16" | "16 \<le> n" "n < 24" | "24 \<le> n" "n < 32"
    by fastforce
  then show "bit (of_le32 (le32 w)) n = bit w n"
    by cases (auto simp: of_le32_def le32_def bit_simps)
qed

lemma length_le [simp]: "length (le16 w) = 2" "length (le32 v) = 4"
  by (simp_all add: le16_def le32_def)

section \<open>Packets\<close>

datatype esb_pkt =
    PktBeacon "u8 list" u8
  | PktPairReq "u8 list"
  | PktPairResp "u8 list" u8
  | PktHidReport u8 "u8 list"
  | PktDisconnect
  | PktShellReq
  | PktShellStop
  | PktShellPoll
  | PktShellBgPoll
  | PktShellStart
  | PktShellData u8 "u8 list"
  | PktVerifyReq "u8 list"
  | PktVerifyResp "u8 list"
  | PktResync
  | PktBenchPing u8 "u8 list"
  | PktBenchStop
  | PktBenchResult i8 i8 i8 u32
  | PktHopProposal u8 u8
  | PktHopConfirm u8 u8
  | PktHopRequest
  | PktIdle
  | PktHopOffer u8 u8 u8
  | PktHopAccept u8 u8 u8
  | PktLinkStats i8 i8

fun encode :: "esb_pkt \<Rightarrow> u8 list" where
  "encode (PktBeacon device_id caps) = ESB_PKT_BEACON # device_id @ [caps]"
| "encode (PktPairReq device_id) = ESB_PKT_PAIR_REQ # device_id"
| "encode (PktPairResp device_id caps) = ESB_PKT_PAIR_RESP # device_id @ [caps]"
| "encode (PktHidReport report_type bytes) = ESB_PKT_HID_REPORT # report_type # bytes"
| "encode PktDisconnect = [ESB_PKT_DISCONNECT]"
| "encode PktShellReq = [ESB_PKT_SHELL_REQ]"
| "encode PktShellStop = [ESB_PKT_SHELL_STOP]"
| "encode PktShellPoll = [ESB_PKT_SHELL_POLL]"
| "encode PktShellBgPoll = [ESB_PKT_SHELL_BG_POLL]"
| "encode PktShellStart = [ESB_PKT_SHELL_START]"
| "encode (PktShellData len bytes) = ESB_PKT_SHELL_DATA # len # bytes"
| "encode (PktVerifyReq device_id) = ESB_PKT_VERIFY_REQ # device_id"
| "encode (PktVerifyResp device_id) = ESB_PKT_VERIFY_RESP # device_id"
| "encode PktResync = [ESB_PKT_RESYNC]"
| "encode (PktBenchPing seq random) = ESB_PKT_BENCH_PING # seq # random"
| "encode PktBenchStop = [ESB_PKT_BENCH_STOP]"
| "encode (PktBenchResult avg mn mx rx_count) = ESB_PKT_BENCH_RESULT # avg # mn # mx # le32 rx_count"
| "encode (PktHopProposal proposed current) = [ESB_PKT_CHANNEL_HOP_PROPOSAL, proposed, current]"
| "encode (PktHopConfirm agreed accepted) = [ESB_PKT_CHANNEL_HOP_CONFIRM, agreed, accepted]"
| "encode PktHopRequest = [ESB_PKT_CHANNEL_HOP_REQUEST]"
| "encode PktIdle = [ESB_PKT_IDLE]"
| "encode (PktHopOffer target hop_in_ms seq) = [ESB_PKT_HOP_OFFER, target, hop_in_ms, seq]"
| "encode (PktHopAccept agreed accepted seq) = [ESB_PKT_HOP_ACCEPT, agreed, accepted, seq]"
| "encode (PktLinkStats rssi_last rssi_ewma) = [ESB_PKT_LINK_STATS, rssi_last, rssi_ewma]"

text \<open>\<open>sizeof\<close> of the packed structures with no trailing array.\<close>

definition sizeof_id_pkt :: nat where "sizeof_id_pkt = 7"
definition sizeof_beacon :: nat where "sizeof_beacon = 8"
definition sizeof_confirm :: nat where "sizeof_confirm = 3"
definition sizeof_proposal :: nat where "sizeof_proposal = 3"
definition sizeof_accept :: nat where "sizeof_accept = 4"
definition sizeof_link_stats :: nat where "sizeof_link_stats = 3"
definition sizeof_bench_result :: nat where "sizeof_bench_result = 8"

lemmas sizeof_consts = sizeof_id_pkt_def sizeof_beacon_def sizeof_confirm_def sizeof_proposal_def
  sizeof_accept_def sizeof_link_stats_def sizeof_bench_result_def

text \<open>Field accesses, at the byte offset of the packed structure.\<close>

definition pkt_type :: "u8 list \<Rightarrow> u8" where "pkt_type bs = bs ! 0"
definition pkt_byte :: "nat \<Rightarrow> u8 list \<Rightarrow> u8" where "pkt_byte off bs = bs ! off"
definition pkt_device_id :: "u8 list \<Rightarrow> u8 list" where "pkt_device_id bs = take 6 (drop 1 bs)"
definition pkt_rx_count :: "u8 list \<Rightarrow> u32" where "pkt_rx_count bs = of_le32 (drop 4 bs)"

lemmas pkt_fields = pkt_type_def pkt_byte_def pkt_device_id_def pkt_rx_count_def

lemma encode_nonempty [simp]: "encode p \<noteq> []" "0 < length (encode p)"
  by (cases p; simp)+

end
