(* ===== verification/HopEp.thy ===== *)
theory HopEp
  imports Esb Protocol
begin

text \<open>
  The endpoint's channel-hop manager, \<open>src/esb/channel_hop_ep.c\<close>, first part: its state and the
  operations that do not transmit (interrupt hooks, link state, packet handlers, getters). The
  work functions, which use the transport, are in \<open>HopWork\<close>. A function compiled out by
  \<open>CONFIG_ZMK_ESB_ENDPOINT_CHANNEL_HOP\<close> is the empty stub of the \<open>#else\<close> branch.
\<close>

section \<open>State\<close>

datatype coop_hop_state = COOP_IDLE | COOP_OFFERED | COOP_ARMED

record hop = esb +
  m_quarantine :: quarantine_state
  m_committed_next :: u8
  m_link_up :: bool
  m_committed_synced :: bool
  m_prev_channel :: u8
  m_active :: bool
  m_post_hop_burst_remaining :: u8
  m_pending_candidate :: u8
  m_request_burst_remaining :: u8
  m_hop_cooldown_until :: u32
  m_last_link_event_ms :: u32
  m_rendezvous_fallback_pending :: bool
  m_coop_hop_state :: coop_hop_state
  m_coop_hop_target :: u8
  m_coop_hop_seq :: u8
  m_last_tx_was_offer :: bool
  m_coop_hop_cooldown_until :: u32

section \<open>Cooldowns and activity\<close>

definition hop_cooldown_active :: "'a hop_scheme \<Rightarrow> bool" where
  "hop_cooldown_active s =
     (if m_hop_cooldown_until s = 0 then False
      else deadline_ahead (m_hop_cooldown_until s) (k_uptime_get_32 s))"

definition coop_hop_cooldown_active :: "'a hop_scheme \<Rightarrow> bool" where
  "coop_hop_cooldown_active s =
     (if m_coop_hop_cooldown_until s = 0 then False
      else deadline_ahead (m_coop_hop_cooldown_until s) (k_uptime_get_32 s))"

definition enter_active_state :: "kcfg \<Rightarrow> bool \<Rightarrow> 'a hop_scheme \<Rightarrow> 'a hop_scheme" where
  "enter_active_state c send_initial_proposal s =
     (if m_active s then k_work_reschedule IdleCheckWork (IDLE_THRESHOLD_MS c) s
      else
        (let s = s\<lparr>m_active := True\<rparr>;
             s = k_work_reschedule IdleCheckWork (IDLE_THRESHOLD_MS c) s
         in if send_initial_proposal then k_work_reschedule NegotiateWork 0 s
            else k_work_reschedule NegotiateWork (NEGOTIATE_RETRY_MS c) s))"

definition coop_hop_abort :: "'a hop_scheme \<Rightarrow> 'a hop_scheme" where
  "coop_hop_abort s =
     (let s = k_work_cancel CoopHopOfferWork s;
          s = k_work_cancel CoopHopCommitWork s
      in s\<lparr>m_coop_hop_state := COOP_IDLE, m_last_tx_was_offer := False\<rparr>)"

section \<open>Initialisation and link state\<close>

definition channel_hop_ep_init :: "kcfg \<Rightarrow> 'a hop_scheme \<Rightarrow> 'a hop_scheme" where
  "channel_hop_ep_init c s =
     (if \<not> CHANNEL_HOP c then s else
     (let s = s\<lparr>m_quarantine := quarantine_reset (m_quarantine s),
                m_committed_next := CHANNEL_HOP_INVALID,
                m_committed_synced := False,
                m_prev_channel := CHANNEL_HOP_INVALID,
                m_active := False,
                m_post_hop_burst_remaining := 0,
                m_hop_cooldown_until := 0,
                m_last_link_event_ms := 0\<rparr>;
          s = (if RENDEZVOUS c then s\<lparr>m_rendezvous_fallback_pending := False\<rparr> else s);
          s = s\<lparr>m_request_burst_remaining := 0\<rparr>
      in if COOP_HOP c
         then s\<lparr>m_coop_hop_state := COOP_IDLE,
                m_coop_hop_target := CHANNEL_HOP_INVALID,
                m_coop_hop_seq := 0,
                m_last_tx_was_offer := False,
                m_coop_hop_cooldown_until := 0\<rparr>
         else s))"

definition channel_hop_ep_on_connected :: "kcfg \<Rightarrow> 'a hop_scheme \<Rightarrow> 'a hop_scheme" where
  "channel_hop_ep_on_connected c s =
     (if \<not> CHANNEL_HOP c then s
      else enter_active_state c True (s\<lparr>m_link_up := True\<rparr>))"

definition channel_hop_ep_on_disconnected :: "kcfg \<Rightarrow> 'a hop_scheme \<Rightarrow> 'a hop_scheme" where
  "channel_hop_ep_on_disconnected c s =
     (if \<not> CHANNEL_HOP c then s else
     (let s = s\<lparr>m_link_up := False,
                m_active := False,
                m_committed_next := CHANNEL_HOP_INVALID,
                m_committed_synced := False,
                m_prev_channel := CHANNEL_HOP_INVALID,
                m_post_hop_burst_remaining := 0,
                m_hop_cooldown_until := 0,
                m_last_link_event_ms := 0\<rparr>;
          s = (if RENDEZVOUS c then s\<lparr>m_rendezvous_fallback_pending := False\<rparr> else s);
          s = s\<lparr>m_request_burst_remaining := 0\<rparr>;
          s = (if COOP_HOP c then s\<lparr>m_coop_hop_cooldown_until := 0\<rparr> else s);
          s = k_work_cancel NegotiateWork s;
          s = k_work_cancel IdleCheckWork s;
          s = k_work_cancel PostHopBurstWork s;
          s = k_work_cancel HopRetryWork s
      in if COOP_HOP c then coop_hop_abort s else s))"

definition channel_hop_ep_note_user_tx :: "kcfg \<Rightarrow> 'a hop_scheme \<Rightarrow> 'a hop_scheme" where
  "channel_hop_ep_note_user_tx c s =
     (if \<not> CHANNEL_HOP c then s
      else if \<not> m_link_up s then s
      else enter_active_state c False s)"

section \<open>Interrupt hooks\<close>

definition channel_hop_ep_on_link_degraded_isr :: "kcfg \<Rightarrow> 'a hop_scheme \<Rightarrow> 'a hop_scheme" where
  "channel_hop_ep_on_link_degraded_isr c s =
     (if \<not> m_link_up s \<or> \<not> m_active s then s
      else if m_coop_hop_state s \<noteq> COOP_IDLE then s
      else if hop_cooldown_active s \<or> coop_hop_cooldown_active s then s
      else k_work_reschedule CoopHopOfferWork 0 (s\<lparr>m_coop_hop_state := COOP_OFFERED\<rparr>))"

text \<open>The fallback inside the cooldown: the link has been silent long enough to go looking
  for the dongle on the rendezvous channel.\<close>

definition rendezvous_fallback :: "kcfg \<Rightarrow> 'a hop_scheme \<Rightarrow> 'a hop_scheme" where
  "rendezvous_fallback c s =
     (if RENDEZVOUS c \<and> 0 < RENDEZVOUS_FALLBACK_MS c \<and> m_last_link_event_ms s \<noteq> 0 \<and>
         \<not> m_rendezvous_fallback_pending s
      then (let elapsed = k_uptime_get_32 s - m_last_link_event_ms s
            in if msec (RENDEZVOUS_FALLBACK_MS c) \<le> elapsed
               then k_work_submit HopWork (s\<lparr>m_rendezvous_fallback_pending := True\<rparr>)
               else s)
      else s)"

definition tx_fail_trigger :: "kcfg \<Rightarrow> 'a hop_scheme \<Rightarrow> 'a hop_scheme" where
  "tx_fail_trigger c s =
     (if \<not> m_active s then s
      else if hop_cooldown_active s then rendezvous_fallback c s
      else k_work_submit HopWork s)"

definition channel_hop_ep_on_tx_fail_isr :: "kcfg \<Rightarrow> 'a hop_scheme \<Rightarrow> 'a hop_scheme" where
  "channel_hop_ep_on_tx_fail_isr c s =
     (if \<not> CHANNEL_HOP c then s
      else if COOP_HOP c \<and> m_last_tx_was_offer s
      then (let s = s\<lparr>m_last_tx_was_offer := False\<rparr>
            in if m_coop_hop_state s = COOP_OFFERED
               then s\<lparr>m_coop_hop_state := COOP_IDLE\<rparr>
               else tx_fail_trigger c s)
      else tx_fail_trigger c s)"

definition channel_hop_ep_on_tx_success_isr :: "kcfg \<Rightarrow> 'a hop_scheme \<Rightarrow> 'a hop_scheme" where
  "channel_hop_ep_on_tx_success_isr c s =
     (if \<not> CHANNEL_HOP c then s else
     (let s = (if COOP_HOP c \<and> m_last_tx_was_offer s
               then (let s = s\<lparr>m_last_tx_was_offer := False\<rparr>
                     in if m_coop_hop_state s = COOP_OFFERED
                        then k_work_reschedule CoopHopCommitWork (COOP_HOP_HOP_IN_MS c)
                               (s\<lparr>m_coop_hop_state := COOP_ARMED\<rparr>)
                        else s)
               else s)
      in s\<lparr>m_prev_channel := CHANNEL_HOP_INVALID,
           m_last_link_event_ms := stamp (k_uptime_get_32 s)\<rparr>))"

section \<open>Packets from the dongle\<close>

definition on_hop_accept :: "u8 list \<Rightarrow> 'a hop_scheme \<Rightarrow> 'a hop_scheme" where
  "on_hop_accept bs s =
     (if length bs < sizeof_accept then s
      else if pkt_byte 3 bs \<noteq> m_coop_hop_seq s then s
      else if m_coop_hop_state s \<noteq> COOP_OFFERED \<and> m_coop_hop_state s \<noteq> COOP_ARMED then s
      else if CHANNEL_HOP_CHANNEL_COUNT \<le> unat (pkt_byte 1 bs) then s
      else if pkt_byte 1 bs \<noteq> m_coop_hop_target s then s\<lparr>m_coop_hop_target := pkt_byte 1 bs\<rparr>
      else s)"

definition on_hop_confirm :: "kcfg \<Rightarrow> u8 list \<Rightarrow> 'a hop_scheme \<Rightarrow> 'a hop_scheme" where
  "on_hop_confirm c bs s =
     (if length bs < sizeof_confirm then s
      else if pkt_type bs \<noteq> ESB_PKT_CHANNEL_HOP_CONFIRM then s
      else if CHANNEL_HOP_CHANNEL_COUNT \<le> unat (pkt_byte 1 bs) then s
      else
        (let was_missing = (m_committed_next s = CHANNEL_HOP_INVALID);
             s = s\<lparr>m_committed_next := pkt_byte 1 bs, m_committed_synced := True,
                   m_request_burst_remaining := 0\<rparr>
         in if was_missing \<and> m_link_up s \<and> m_active s
            then k_work_reschedule NegotiateWork (NEGOTIATE_INTERVAL_MS c) s
            else s))"

definition channel_hop_ep_on_rx :: "kcfg \<Rightarrow> u8 list \<Rightarrow> 'a hop_scheme \<Rightarrow> 'a hop_scheme" where
  "channel_hop_ep_on_rx c bs s =
     (if \<not> CHANNEL_HOP c then s
      else if length bs < 1 then s
      else if COOP_HOP c \<and> pkt_type bs = ESB_PKT_HOP_ACCEPT then on_hop_accept bs s
      else on_hop_confirm c bs s)"

definition channel_hop_ep_on_request :: "kcfg \<Rightarrow> 'a hop_scheme \<Rightarrow> 'a hop_scheme" where
  "channel_hop_ep_on_request c s =
     (if \<not> CHANNEL_HOP c then s
      else if \<not> m_link_up s then s
      else
        (let s = s\<lparr>m_request_burst_remaining := of_nat (REQUEST_BURST_COUNT c),
                   m_committed_synced := False\<rparr>;
             s = k_work_reschedule NegotiateWork 0 s
         in channel_hop_ep_on_tx_fail_isr c s))"

section \<open>Getters\<close>

definition channel_hop_ep_is_active :: "kcfg \<Rightarrow> 'a hop_scheme \<Rightarrow> bool" where
  "channel_hop_ep_is_active c s = (if CHANNEL_HOP c then m_active s else False)"

definition channel_hop_ep_get_committed :: "kcfg \<Rightarrow> 'a hop_scheme \<Rightarrow> u8" where
  "channel_hop_ep_get_committed c s =
     (if CHANNEL_HOP c then m_committed_next s else CHANNEL_HOP_INVALID)"

definition channel_hop_ep_get_quarantine_count :: "kcfg \<Rightarrow> 'a hop_scheme \<Rightarrow> u8" where
  "channel_hop_ep_get_quarantine_count c s =
     (if CHANNEL_HOP c then quarantine_count (k_uptime_get_32 s) (m_quarantine s) else 0)"

definition channel_hop_ep_is_quarantined :: "kcfg \<Rightarrow> 'a hop_scheme \<Rightarrow> u8 \<Rightarrow> bool" where
  "channel_hop_ep_is_quarantined c s channel =
     (if CHANNEL_HOP c then quarantine_is (k_uptime_get_32 s) (m_quarantine s) channel else False)"

section \<open>The invariant of the hop manager\<close>

text \<open>
  Every remembered channel is on the band or \<open>CHANNEL_HOP_INVALID\<close>; the endpoint is active
  only while the link is up; and a cooperative handshake is in progress only while it is
  active. The last clause needs \<open>COOP_HOP\<close> for the teardown to be compiled in.
\<close>

definition channel_ok :: "u8 \<Rightarrow> bool" where
  "channel_ok ch \<longleftrightarrow> ch = CHANNEL_HOP_INVALID \<or> unat ch < CHANNEL_HOP_CHANNEL_COUNT"

definition hop_inv :: "kcfg \<Rightarrow> 'a hop_scheme \<Rightarrow> bool" where
  "hop_inv c s \<longleftrightarrow>
     wf_quarantine (m_quarantine s) \<and> channel_ok (m_committed_next s) \<and>
     channel_ok (m_prev_channel s) \<and> channel_ok (m_pending_candidate s) \<and>
     channel_ok (m_coop_hop_target s) \<and>
     (m_active s \<longrightarrow> m_link_up s) \<and>
     (COOP_HOP c \<longrightarrow> m_coop_hop_state s \<noteq> COOP_IDLE \<longrightarrow> m_active s)"

lemma channel_ok_invalid [simp]: "channel_ok CHANNEL_HOP_INVALID"
  by (simp add: channel_ok_def)

lemma hop_work_frames [simp, frames]:
  "m_quarantine (k_work_reschedule w ms s) = m_quarantine s"
  "m_committed_next (k_work_reschedule w ms s) = m_committed_next s"
  "m_link_up (k_work_reschedule w ms s) = m_link_up s"
  "m_committed_synced (k_work_reschedule w ms s) = m_committed_synced s"
  "m_prev_channel (k_work_reschedule w ms s) = m_prev_channel s"
  "m_active (k_work_reschedule w ms s) = m_active s"
  "m_post_hop_burst_remaining (k_work_reschedule w ms s) = m_post_hop_burst_remaining s"
  "m_pending_candidate (k_work_reschedule w ms s) = m_pending_candidate s"
  "m_request_burst_remaining (k_work_reschedule w ms s) = m_request_burst_remaining s"
  "m_hop_cooldown_until (k_work_reschedule w ms s) = m_hop_cooldown_until s"
  "m_last_link_event_ms (k_work_reschedule w ms s) = m_last_link_event_ms s"
  "m_rendezvous_fallback_pending (k_work_reschedule w ms s) = m_rendezvous_fallback_pending s"
  "m_coop_hop_state (k_work_reschedule w ms s) = m_coop_hop_state s"
  "m_coop_hop_target (k_work_reschedule w ms s) = m_coop_hop_target s"
  "m_coop_hop_seq (k_work_reschedule w ms s) = m_coop_hop_seq s"
  "m_last_tx_was_offer (k_work_reschedule w ms s) = m_last_tx_was_offer s"
  "m_coop_hop_cooldown_until (k_work_reschedule w ms s) = m_coop_hop_cooldown_until s"
  by (simp_all add: k_work_reschedule_def)

lemma hop_cancel_frames [simp, frames]:
  "m_quarantine (k_work_cancel w s) = m_quarantine s"
  "m_committed_next (k_work_cancel w s) = m_committed_next s"
  "m_link_up (k_work_cancel w s) = m_link_up s"
  "m_committed_synced (k_work_cancel w s) = m_committed_synced s"
  "m_prev_channel (k_work_cancel w s) = m_prev_channel s"
  "m_active (k_work_cancel w s) = m_active s"
  "m_post_hop_burst_remaining (k_work_cancel w s) = m_post_hop_burst_remaining s"
  "m_pending_candidate (k_work_cancel w s) = m_pending_candidate s"
  "m_request_burst_remaining (k_work_cancel w s) = m_request_burst_remaining s"
  "m_hop_cooldown_until (k_work_cancel w s) = m_hop_cooldown_until s"
  "m_last_link_event_ms (k_work_cancel w s) = m_last_link_event_ms s"
  "m_rendezvous_fallback_pending (k_work_cancel w s) = m_rendezvous_fallback_pending s"
  "m_coop_hop_state (k_work_cancel w s) = m_coop_hop_state s"
  "m_coop_hop_target (k_work_cancel w s) = m_coop_hop_target s"
  "m_coop_hop_seq (k_work_cancel w s) = m_coop_hop_seq s"
  "m_last_tx_was_offer (k_work_cancel w s) = m_last_tx_was_offer s"
  "m_coop_hop_cooldown_until (k_work_cancel w s) = m_coop_hop_cooldown_until s"
  by (simp_all add: k_work_cancel_def)

lemma hop_submit_frames [simp, frames]:
  "m_quarantine (k_work_submit w s) = m_quarantine s"
  "m_committed_next (k_work_submit w s) = m_committed_next s"
  "m_link_up (k_work_submit w s) = m_link_up s"
  "m_committed_synced (k_work_submit w s) = m_committed_synced s"
  "m_prev_channel (k_work_submit w s) = m_prev_channel s"
  "m_active (k_work_submit w s) = m_active s"
  "m_post_hop_burst_remaining (k_work_submit w s) = m_post_hop_burst_remaining s"
  "m_pending_candidate (k_work_submit w s) = m_pending_candidate s"
  "m_hop_cooldown_until (k_work_submit w s) = m_hop_cooldown_until s"
  "m_last_link_event_ms (k_work_submit w s) = m_last_link_event_ms s"
  "m_rendezvous_fallback_pending (k_work_submit w s) = m_rendezvous_fallback_pending s"
  "m_coop_hop_state (k_work_submit w s) = m_coop_hop_state s"
  "m_coop_hop_target (k_work_submit w s) = m_coop_hop_target s"
  "m_coop_hop_seq (k_work_submit w s) = m_coop_hop_seq s"
  "m_last_tx_was_offer (k_work_submit w s) = m_last_tx_was_offer s"
  by (simp_all add: k_work_submit_def)

lemma hop_inv_work [simp]:
  "hop_inv c (k_work_reschedule w ms s) = hop_inv c s"
  "hop_inv c (k_work_submit w s) = hop_inv c s"
  "hop_inv c (k_work_cancel w s) = hop_inv c s"
  by (simp_all add: hop_inv_def)

lemma hop_inv_updates [simp]:
  "hop_inv c (s\<lparr>m_committed_synced := b\<rparr>) = hop_inv c s"
  "hop_inv c (s\<lparr>m_post_hop_burst_remaining := n\<rparr>) = hop_inv c s"
  "hop_inv c (s\<lparr>m_request_burst_remaining := n\<rparr>) = hop_inv c s"
  "hop_inv c (s\<lparr>m_hop_cooldown_until := d\<rparr>) = hop_inv c s"
  "hop_inv c (s\<lparr>m_last_link_event_ms := d\<rparr>) = hop_inv c s"
  "hop_inv c (s\<lparr>m_rendezvous_fallback_pending := b\<rparr>) = hop_inv c s"
  "hop_inv c (s\<lparr>m_last_tx_was_offer := b\<rparr>) = hop_inv c s"
  "hop_inv c (s\<lparr>m_coop_hop_seq := n\<rparr>) = hop_inv c s"
  "hop_inv c (s\<lparr>m_coop_hop_cooldown_until := d\<rparr>) = hop_inv c s"
  by (simp_all add: hop_inv_def)

lemma hop_inv_channels [intro]:
  "hop_inv c s \<Longrightarrow> hop_inv c (s\<lparr>m_prev_channel := CHANNEL_HOP_INVALID\<rparr>)"
  "hop_inv c s \<Longrightarrow> hop_inv c (s\<lparr>m_committed_next := CHANNEL_HOP_INVALID\<rparr>)"
  "hop_inv c s \<Longrightarrow> hop_inv c (s\<lparr>m_pending_candidate := CHANNEL_HOP_INVALID\<rparr>)"
  "hop_inv c s \<Longrightarrow> hop_inv c (s\<lparr>m_coop_hop_state := COOP_IDLE\<rparr>)"
  by (simp_all add: hop_inv_def)

lemma hop_inv_enter_active:
  "hop_inv c s \<Longrightarrow> m_link_up s \<Longrightarrow> hop_inv c (enter_active_state c b s)"
  by (simp add: hop_inv_def enter_active_state_def Let_def)

lemma hop_inv_connected: "hop_inv c s \<Longrightarrow> hop_inv c (channel_hop_ep_on_connected c s)"
proof -
  assume "hop_inv c s"
  then have "hop_inv c (s\<lparr>m_link_up := True\<rparr>)" by (simp add: hop_inv_def)
  with \<open>hop_inv c s\<close> show ?thesis
    by (simp add: channel_hop_ep_on_connected_def hop_inv_enter_active)
qed

lemma coop_hop_abort_frames [simp, frames]:
  "m_quarantine (coop_hop_abort s) = m_quarantine s"
  "m_committed_next (coop_hop_abort s) = m_committed_next s"
  "m_link_up (coop_hop_abort s) = m_link_up s"
  "m_prev_channel (coop_hop_abort s) = m_prev_channel s"
  "m_active (coop_hop_abort s) = m_active s"
  "m_pending_candidate (coop_hop_abort s) = m_pending_candidate s"
  "m_coop_hop_target (coop_hop_abort s) = m_coop_hop_target s"
  "m_coop_hop_state (coop_hop_abort s) = COOP_IDLE"
  "m_last_tx_was_offer (coop_hop_abort s) = False"
  by (simp_all add: coop_hop_abort_def Let_def)

lemma hop_inv_disconnected: "hop_inv c s \<Longrightarrow> hop_inv c (channel_hop_ep_on_disconnected c s)"
  by (simp add: channel_hop_ep_on_disconnected_def hop_inv_def Let_def)

lemma hop_inv_note_user_tx: "hop_inv c s \<Longrightarrow> hop_inv c (channel_hop_ep_note_user_tx c s)"
  by (simp add: channel_hop_ep_note_user_tx_def hop_inv_enter_active)

lemma hop_inv_link_degraded: "hop_inv c s \<Longrightarrow> hop_inv c (channel_hop_ep_on_link_degraded_isr c s)"
  by (simp add: channel_hop_ep_on_link_degraded_isr_def) (simp add: hop_inv_def)

lemma hop_inv_tx_fail_trigger: "hop_inv c s \<Longrightarrow> hop_inv c (tx_fail_trigger c s)"
  by (simp add: tx_fail_trigger_def rendezvous_fallback_def Let_def)

lemma hop_inv_tx_fail: "hop_inv c s \<Longrightarrow> hop_inv c (channel_hop_ep_on_tx_fail_isr c s)"
  by (simp add: channel_hop_ep_on_tx_fail_isr_def hop_inv_tx_fail_trigger Let_def hop_inv_channels)

lemma hop_inv_tx_success: "hop_inv c s \<Longrightarrow> hop_inv c (channel_hop_ep_on_tx_success_isr c s)"
  by (simp add: channel_hop_ep_on_tx_success_isr_def Let_def) (simp add: hop_inv_def)

lemma hop_inv_on_rx: "hop_inv c s \<Longrightarrow> hop_inv c (channel_hop_ep_on_rx c bs s)"
  by (simp add: channel_hop_ep_on_rx_def on_hop_accept_def on_hop_confirm_def Let_def)
    (simp add: hop_inv_def channel_ok_def)

lemma hop_inv_on_request: "hop_inv c s \<Longrightarrow> hop_inv c (channel_hop_ep_on_request c s)"
  by (simp add: channel_hop_ep_on_request_def hop_inv_tx_fail Let_def)

lemmas hop_inv_hooks = hop_inv_connected hop_inv_disconnected hop_inv_note_user_tx
  hop_inv_link_degraded hop_inv_tx_fail hop_inv_tx_success hop_inv_on_rx hop_inv_on_request

end
