(* ===== verification/EventRing.thy ===== *)
theory EventRing
  imports Esb
begin

text \<open>
  The byte-counted rings of \<open>src/esb/esb_transport.c\<close> (\<open>m_recent_noack\<close> and
  \<open>m_recent_critical_override\<close> with their \<open>_head\<close> and \<open>_tail\<close> counters): one slot is written per
  send and one is read per transmission event. They are shown to be bounded queues in spite of
  the counters wrapping, because the depth is a power of two.
\<close>

section \<open>Operations\<close>

record 'a event_ring =
  er_buf :: "'a list"
  er_head :: u8
  er_tail :: u8

text \<open>A ring whose depth is a power of two, indexed by a byte counter and a mask.\<close>

definition er_slot :: "nat \<Rightarrow> u8 \<Rightarrow> nat" where
  "er_slot sz i = unat (i AND of_nat (sz - 1))"

definition er_push :: "nat \<Rightarrow> 'b \<Rightarrow> 'b event_ring \<Rightarrow> 'b event_ring" where
  "er_push sz x r =
     r\<lparr>er_buf := (er_buf r)[er_slot sz (er_head r) := x], er_head := er_head r + 1\<rparr>"

definition er_empty :: "'b event_ring \<Rightarrow> bool" where
  "er_empty r \<longleftrightarrow> er_tail r = er_head r"

definition er_front :: "nat \<Rightarrow> 'b event_ring \<Rightarrow> 'b" where
  "er_front sz r = er_buf r ! er_slot sz (er_tail r)"

definition er_pop :: "'b event_ring \<Rightarrow> 'b event_ring" where
  "er_pop r = (if er_empty r then r else r\<lparr>er_tail := er_tail r + 1\<rparr>)"

definition er_drain :: "'b event_ring \<Rightarrow> 'b event_ring" where
  "er_drain r = r\<lparr>er_tail := er_head r\<rparr>"

section \<open>The byte-counted rings as bounded queues\<close>

definition er_list :: "nat \<Rightarrow> 'b event_ring \<Rightarrow> 'b list" where
  "er_list sz r = map (\<lambda>i. er_buf r ! ((unat (er_tail r) + i) mod sz)) [0..<unat (er_head r - er_tail r)]"

definition er_wf :: "nat \<Rightarrow> 'b event_ring \<Rightarrow> bool" where
  "er_wf sz r \<longleftrightarrow> power_of_two sz \<and> length (er_buf r) = sz \<and> unat (er_head r - er_tail r) \<le> sz"

lemma power_of_two_cases:
  assumes "power_of_two sz"
  obtains n where "sz = 2 ^ n" "n < 8"
  using assms by (auto simp: power_of_two_def intro: that [of 0] that [of 1] that [of 2] that [of 3]
      that [of 4] that [of 5] that [of 6] that [of 7])

lemma er_slot_mod:
  assumes "power_of_two sz"
  shows "er_slot sz x = unat x mod sz"
proof -
  obtain n where n: "sz = 2 ^ n" "n < 8" using power_of_two_cases [OF assms] .
  have "(of_nat (2 ^ n - 1) :: u8) = mask n"
    by (simp add: mask_eq_exp_minus_1 of_nat_diff)
  then have "x AND of_nat (sz - 1) = take_bit n x"
    by (simp only: n take_bit_eq_mask)
  then have "er_slot sz x = take_bit n (unat x)"
    by (simp only: er_slot_def unsigned_take_bit_eq)
  then show ?thesis by (simp add: n take_bit_eq_mod)
qed

lemma unat_add_mod:
  assumes "power_of_two sz"
  shows "unat ((x :: u8) + of_nat i) mod sz = (unat x + i) mod sz"
proof -
  obtain n where n: "sz = 2 ^ n" "n < 8" using power_of_two_cases [OF assms] .
  have "sz dvd 256" using le_imp_power_dvd [of n 8 "2 :: nat"] n by simp
  then show ?thesis
    by (simp add: unat_word_ariths unat_of_nat take_bit_eq_mod mod_mod_cancel mod_add_right_eq)
qed

lemma unat_inc: "unat (x :: u8) < 255 \<Longrightarrow> unat (x + 1) = Suc (unat x)"
  by (simp add: unat_word_ariths)

lemma power_of_two_bound: "power_of_two sz \<Longrightarrow> 0 < sz \<and> sz \<le> 128"
  by (auto simp: power_of_two_def)

lemma length_er_list [simp]: "length (er_list sz r) = unat (er_head r - er_tail r)"
  by (simp add: er_list_def)

lemma er_empty_iff: "er_empty r \<longleftrightarrow> er_list sz r = []"
proof -
  have "er_list sz r = [] \<longleftrightarrow> unat (er_head r - er_tail r) = 0"
    by (metis length_er_list length_0_conv)
  then show ?thesis by (auto simp: er_empty_def unat_eq_zero)
qed

lemma er_count_push:
  assumes "er_wf sz r" "unat (er_head r - er_tail r) < sz"
  shows "unat (er_head r + 1 - er_tail r) = Suc (unat (er_head r - er_tail r))"
proof -
  have "er_head r + 1 - er_tail r = (er_head r - er_tail r) + 1" by simp
  moreover have "unat (er_head r - er_tail r) < 255"
    using assms power_of_two_bound [of sz] by (auto simp: er_wf_def)
  ultimately show ?thesis by (metis unat_inc)
qed

lemma er_list_push:
  assumes "er_wf sz r" "length (er_list sz r) < sz"
  shows "er_wf sz (er_push sz x r) \<and> er_list sz (er_push sz x r) = er_list sz r @ [x]"
proof -
  let ?n = "unat (er_head r - er_tail r)"
  have p: "power_of_two sz" "0 < sz" and len: "length (er_buf r) = sz"
    using assms power_of_two_bound by (auto simp: er_wf_def)
  have h: "unat (er_head r) mod sz = (unat (er_tail r) + ?n) mod sz"
    using unat_add_mod [OF p(1), of "er_tail r" ?n] by simp
  have ne: "(unat (er_tail r) + ?n) mod sz \<noteq> (unat (er_tail r) + i) mod sz" if "i < ?n" for i
    using that assms(2) mod_sum_inj [OF p(2), of ?n i] by auto
  have "er_list sz (er_push sz x r) = er_list sz r @ [x]"
    using ne len p assms er_count_push [OF assms(1)]
    by (simp add: er_list_def er_push_def er_slot_mod h nth_list_update)
  moreover have "er_wf sz (er_push sz x r)"
    using assms er_count_push [OF assms(1)] by (simp add: er_wf_def er_push_def)
  ultimately show ?thesis by blast
qed

lemma er_count_pop:
  assumes "\<not> er_empty r"
  shows "unat (er_head r - er_tail r) = Suc (unat (er_head r - (er_tail r + 1)))"
proof -
  have "er_head r - er_tail r \<noteq> 0" using assms by (auto simp: er_empty_def)
  then have "unat (er_head r - er_tail r - 1) = unat (er_head r - er_tail r) - 1"
    "unat (er_head r - er_tail r) \<noteq> 0"
    by (simp_all add: unat_minus_one unat_eq_zero)
  then show ?thesis by (simp add: diff_diff_eq)
qed

lemma er_list_pop:
  assumes "er_wf sz r"
  shows "er_wf sz (er_pop r) \<and> er_list sz (er_pop r) = tl (er_list sz r)"
proof (cases "er_empty r")
  case True
  then show ?thesis using assms er_empty_iff [of r sz] by (simp add: er_pop_def)
next
  case False
  let ?m = "unat (er_head r - (er_tail r + 1))"
  have p: "power_of_two sz" using assms by (simp add: er_wf_def)
  note n = er_count_pop [OF False]
  have "(unat (er_tail r + 1) + i) mod sz = (unat (er_tail r) + Suc i) mod sz" for i
  proof -
    have "(unat (er_tail r + 1) + i) mod sz = (unat (er_tail r + of_nat 1) mod sz + i) mod sz"
      by (simp add: mod_add_left_eq)
    also have "\<dots> = (unat (er_tail r) + 1 + i) mod sz"
      by (simp only: unat_add_mod [OF p] mod_add_left_eq)
    finally show ?thesis by simp
  qed
  then have "er_list sz (er_pop r) = tl (er_list sz r)"
    using False unfolding er_list_def er_pop_def n
    by (simp add: upt_conv_Cons comp_def flip: map_Suc_upt del: upt_Suc)
  moreover have "er_wf sz (er_pop r)"
    using assms False n by (simp add: er_wf_def er_pop_def)
  ultimately show ?thesis by blast
qed

lemma er_front_hd: "er_wf sz r \<Longrightarrow> \<not> er_empty r \<Longrightarrow> er_front sz r = hd (er_list sz r)"
  using er_count_pop [of r]
  by (simp add: er_front_def er_list_def er_slot_mod er_wf_def upt_conv_Cons del: upt_Suc)

lemma er_list_drain: "er_list sz (er_drain r) = []" "er_wf sz r \<Longrightarrow> er_wf sz (er_drain r)"
  by (simp_all add: er_list_def er_drain_def er_wf_def)

interpretation sends: bounded_fifo sz "er_wf sz" "er_list sz" "er_push sz" er_pop er_drain
  by unfold_locales (auto simp: er_list_push er_list_pop er_list_drain, simp add: er_wf_def)

end
