(* ===== verification/Transport.thy ===== *)
theory Transport
  imports HopEp EventRing "HOL-Library.While_Combinator"
begin

text \<open>
  The ESB transport of the endpoint, \<open>src/esb/esb_transport.c\<close>: per-send bookkeeping rings, motion
  refunds, link quality, adaptive retransmission, channel switching and the send paths. The
  radio event callback and the receive work are in \<open>TransportEvt\<close>.

  The two byte-counted rings (noack flags, critical overrides) are a buffer with its two
  counters; the motion ring has 32-bit counters. The fields of the refund pool are 32-bit words
  whose sums wrap around; a delta of a report is sign-extended (\<open>scast\<close>) before it is added.
  \<open>m_jitter_rng_addr\<close> is the address the jitter generator is seeded with, \<open>ppi_chen\<close> the PPI
  channel-enable register and \<open>radio_vector_esb\<close> whether the RADIO interrupt vector points to the
  ESB handler. Registers and clock calibration that no code of the repository reads back are
  left out.
\<close>

section \<open>State\<close>

record pointer_motion =
  pm_dx :: i16
  pm_dy :: i16
  pm_scroll_x :: i16
  pm_scroll_y :: i16
  pm_overrode :: bool

record motion_refund =
  rf_dx :: i32
  rf_dy :: i32
  rf_scroll_x :: i32
  rf_scroll_y :: i32
  rf_stamp_ms :: u32

record addr_state =
  ad_base0 :: "u8 list"
  ad_base1 :: "u8 list"
  ad_prefixes :: "u8 list"
  ad_channel :: u8
  ad_boot_channel :: u8
  ad_configured :: bool

text \<open>The books of the sends, then what is known of the link and the radio slot.\<close>

record tport_send = hop +
  m_cb_set :: bool
  m_addr :: addr_state
  m_sync_tx_done :: nat
  m_sync_tx_in_progress :: bool
  m_sync_tx_result_success :: bool
  t_rx_buf :: "u8 list"
  t_rx_len :: u8
  tx_ok_count :: u32
  tx_fail_count :: u32
  tx_retried_count :: u32
  tx_exhausted_count :: u32
  consecutive_tx_fail :: u32
  m_hid_tx_count :: u32
  m_hid_tx_bucket_count :: u32
  m_hid_tx_bucket_ms :: u32
  m_hid_tx_rate_hz :: u16
  m_recent_critical_override :: "bool event_ring"
  m_recent_motion :: "pointer_motion list"
  m_recent_motion_head :: u32
  m_recent_motion_tail :: u32
  m_motion_refund :: motion_refund
  m_pointer_inflight_count :: u8
  m_adaptive_retransmit_count :: u8

record tport = tport_send +
  m_first_fail_ms :: u32
  m_last_tx_success_ms :: u32
  m_tx_quiet_until_ms :: u32
  m_link_quality_window :: u32
  m_link_quality_count :: u8
  m_link_quality_ewma_x10 :: u16
  m_recent_noack :: "bool event_ring"
  m_link_degraded_armed :: bool
  m_last_activity_ms :: u32
  m_activity_seen :: bool
  m_last_tx_event_ms :: u32
  m_jitter_rng :: u32
  m_jitter_rng_addr :: u32
  m_peer_rssi_last :: i8
  m_peer_rssi_ewma :: i8
  m_peer_rssi_valid :: bool
  ppi_chen :: u32
  saved_bt_ll_ppi_chen :: u32
  bt_ll_suspended :: bool
  hfclk_held :: bool
  m_ram_vtor_installed :: bool
  radio_vector_esb :: bool

section \<open>Retransmit-delay jitter\<close>

definition jittered_retransmit_delay :: "kcfg \<Rightarrow> 'a tport_scheme \<Rightarrow> u16 \<times> 'a tport_scheme" where
  "jittered_retransmit_delay c s =
     (let seeded = (if m_jitter_rng s = 0
                    then (let seed = k_uptime_get_32 s XOR m_jitter_rng_addr s
                          in if seed = 0 then 0xA3C59B1D else seed)
                    else m_jitter_rng s);
          rng = xorshift32 seeded;
          base = RETRANSMIT_DELAY_US c;
          span = int (base div 8);
          off = sint (ucast (rng AND 0xFF) :: 8 word);
          delta = (if 0 \<le> span * off then (span * off) div 128 else - ((- (span * off)) div 128));
          d = int base + delta;
          d = (if d < 100 then 100 else d);
          d = (if 65535 < d then 65535 else d)
      in (word_of_int d, s\<lparr>m_jitter_rng := rng\<rparr>))"

section \<open>Activity\<close>

definition note_activity :: "'a tport_scheme \<Rightarrow> 'a tport_scheme" where
  "note_activity s = s\<lparr>m_last_activity_ms := k_uptime_get_32 s, m_activity_seen := True\<rparr>"

definition esb_transport_ms_since_activity :: "'a tport_scheme \<Rightarrow> u32" where
  "esb_transport_ms_since_activity s =
     (if \<not> m_activity_seen s then 0xFFFFFFFF else k_uptime_get_32 s - m_last_activity_ms s)"

section \<open>Rings of the last sends\<close>

definition consume_recent_noack :: "kcfg \<Rightarrow> 'a tport_scheme \<Rightarrow> bool \<times> 'a tport_scheme" where
  "consume_recent_noack c s =
     (if er_empty (m_recent_noack s) then (False, s)
      else (er_front (NOACK_RING_SIZE c) (m_recent_noack s),
            s\<lparr>m_recent_noack := er_pop (m_recent_noack s)\<rparr>))"

definition consume_recent_override :: "kcfg \<Rightarrow> 'a tport_scheme \<Rightarrow> bool \<times> 'a tport_scheme" where
  "consume_recent_override c s =
     (if er_empty (m_recent_critical_override s) then (False, s)
      else (er_front (CRIT_OVERRIDE_RING_SIZE c) (m_recent_critical_override s),
            s\<lparr>m_recent_critical_override := er_pop (m_recent_critical_override s)\<rparr>))"

section \<open>Link quality\<close>

definition link_quality_mask :: "kcfg \<Rightarrow> u32" where
  "link_quality_mask c =
     (if LINK_QUALITY_WINDOW c < 32 then push_bit (LINK_QUALITY_WINDOW c) 1 - 1 else 0xFFFFFFFF)"

definition link_quality_shift_window :: "kcfg \<Rightarrow> bool \<Rightarrow> 'a tport_scheme \<Rightarrow> 'a tport_scheme" where
  "link_quality_shift_window c retry_bit s =
     (let old_window = m_link_quality_window s;
          dropped_bit = (if LINK_QUALITY_WINDOW c < 32
                         then drop_bit (LINK_QUALITY_WINDOW c - 1) old_window AND 1 \<noteq> 0
                         else drop_bit 31 old_window AND 1 \<noteq> 0);
          new_window = (push_bit 1 old_window OR (if retry_bit then 1 else 0)) AND link_quality_mask c;
          s = s\<lparr>m_link_quality_window := new_window\<rparr>
      in if retry_bit \<and> \<not> dropped_bit
         then s\<lparr>m_link_quality_count := m_link_quality_count s + 1\<rparr>
         else if \<not> retry_bit \<and> dropped_bit
         then s\<lparr>m_link_quality_count := m_link_quality_count s - 1\<rparr>
         else s)"

definition ewma_step :: "u16 \<Rightarrow> u8 \<Rightarrow> u16" where
  "ewma_step ewma attempts =
     (let a10 = ucast attempts * 10 :: u16
      in ucast ((ucast ewma * 7 + ucast a10 :: u32) div 8))"

definition link_quality_record :: "kcfg \<Rightarrow> u8 \<Rightarrow> bool \<Rightarrow> 'a tport_scheme \<Rightarrow> 'a tport_scheme" where
  "link_quality_record c attempts retry_bit s =
     (let s = link_quality_shift_window c retry_bit s
      in s\<lparr>m_link_quality_ewma_x10 := ewma_step (m_link_quality_ewma_x10 s) attempts\<rparr>)"

section \<open>Adaptive retransmission\<close>

definition adaptive_retry_target :: "kcfg \<Rightarrow> 'a tport_scheme \<Rightarrow> u8" where
  "adaptive_retry_target c s =
     (let ewma = unat (m_link_quality_ewma_x10 s)
      in if ewma \<le> ADAPTIVE_RETRY_EWMA_LOW c then of_nat (ADAPTIVE_RETRY_COUNT_MIN c)
         else if ADAPTIVE_RETRY_EWMA_HIGH c \<le> ewma then of_nat (ADAPTIVE_RETRY_COUNT_MAX c)
         else (let span = of_nat (ADAPTIVE_RETRY_EWMA_HIGH c) - of_nat (ADAPTIVE_RETRY_EWMA_LOW c) :: u32;
                   into = of_nat ewma - of_nat (ADAPTIVE_RETRY_EWMA_LOW c) :: u32;
                   delta = (into * (of_nat (ADAPTIVE_RETRY_COUNT_MAX c) -
                                    of_nat (ADAPTIVE_RETRY_COUNT_MIN c))) div span
               in ucast (of_nat (ADAPTIVE_RETRY_COUNT_MIN c) + delta)))"

definition adaptive_retry_work_fn :: "kcfg \<Rightarrow> 'a tport_scheme \<Rightarrow> 'a tport_scheme" where
  "adaptive_retry_work_fn c s =
     (let want = adaptive_retry_target c s;
          s = (if want \<noteq> m_adaptive_retransmit_count s
               then (case esb_set_retransmit_count (ucast want) s of
                       (None, s) \<Rightarrow> s\<lparr>m_adaptive_retransmit_count := want\<rparr>
                     | (Some _, s) \<Rightarrow> s)
               else s)
      in k_work_reschedule AdaptiveRetryWork (ADAPTIVE_RETRY_INTERVAL_MS c) s)"

definition restore_retransmit_count :: "kcfg \<Rightarrow> 'a tport_scheme \<Rightarrow> 'a tport_scheme" where
  "restore_retransmit_count c s =
     (let restore = (if CHANNEL_HOP c \<and> ADAPTIVE_RETRY c then m_adaptive_retransmit_count s
                     else of_nat (RETRANSMIT_COUNT c))
      in snd (esb_set_retransmit_count (ucast restore) s))"

section \<open>Pointer motion\<close>

record esb_mouse_body =
  mb_buttons :: u8
  mb_d_x :: i16
  mb_d_y :: i16
  mb_d_scroll_y :: i16
  mb_d_scroll_x :: i16

definition mouse_body_size :: nat where "mouse_body_size = 9"

definition is_mouse_report :: "u8 list \<Rightarrow> bool" where
  "is_mouse_report bs \<longleftrightarrow>
     2 + mouse_body_size \<le> length bs \<and> bs ! 0 = ESB_PKT_HID_REPORT \<and> bs ! 1 = ESB_REPORT_MOUSE"

text \<open>\<open>mouse_body_of\<close> casts the packet bytes from offset 2; \<open>put_mouse_body\<close> is the view back.\<close>

definition mouse_body_of :: "u8 list \<Rightarrow> esb_mouse_body" where
  "mouse_body_of bs =
     \<lparr>mb_buttons = bs ! 2,
      mb_d_x = of_le16 (take 2 (drop 3 bs)),
      mb_d_y = of_le16 (take 2 (drop 5 bs)),
      mb_d_scroll_y = of_le16 (take 2 (drop 7 bs)),
      mb_d_scroll_x = of_le16 (take 2 (drop 9 bs))\<rparr>"

definition mouse_body_bytes :: "esb_mouse_body \<Rightarrow> u8 list" where
  "mouse_body_bytes b =
     mb_buttons b # le16 (mb_d_x b) @ le16 (mb_d_y b) @ le16 (mb_d_scroll_y b) @ le16 (mb_d_scroll_x b)"

definition put_mouse_body :: "esb_mouse_body \<Rightarrow> u8 list \<Rightarrow> u8 list" where
  "put_mouse_body b bs = take 2 bs @ mouse_body_bytes b @ drop 11 bs"

definition has_motion :: "esb_mouse_body \<Rightarrow> bool" where
  "has_motion b \<longleftrightarrow> mb_d_x b OR mb_d_y b OR mb_d_scroll_x b OR mb_d_scroll_y b \<noteq> 0"

definition sat16 :: "i32 \<Rightarrow> i16" where
  "sat16 v = (if 32767 < sint v then 32767 else if sint v < -32768 then -32768 else ucast v)"

definition zero_refund :: motion_refund where
  "zero_refund = \<lparr>rf_dx = 0, rf_dy = 0, rf_scroll_x = 0, rf_scroll_y = 0, rf_stamp_ms = 0\<rparr>"

definition refund_empty :: "motion_refund \<Rightarrow> bool" where
  "refund_empty r \<longleftrightarrow> rf_dx r OR rf_dy r OR rf_scroll_x r OR rf_scroll_y r = 0"

definition refund_stale :: "kcfg \<Rightarrow> 'a tport_scheme \<Rightarrow> bool" where
  "refund_stale c s \<longleftrightarrow>
     rf_stamp_ms (m_motion_refund s) \<noteq> 0 \<and>
     msec (POINTER_REFUND_STALE_MS c) \<le> k_uptime_get_32 s - rf_stamp_ms (m_motion_refund s)"

definition motion_refund_apply ::
    "kcfg \<Rightarrow> esb_mouse_body \<Rightarrow> 'a tport_scheme \<Rightarrow> esb_mouse_body \<times> 'a tport_scheme" where
  "motion_refund_apply c body s =
     (if refund_stale c s then (body, s\<lparr>m_motion_refund := zero_refund\<rparr>)
      else if refund_empty (m_motion_refund s) then (body, s)
      else
        (let r = m_motion_refund s;
             total_dx = scast (mb_d_x body) + rf_dx r;
             total_dy = scast (mb_d_y body) + rf_dy r;
             total_sx = scast (mb_d_scroll_x body) + rf_scroll_x r;
             total_sy = scast (mb_d_scroll_y body) + rf_scroll_y r;
             body = body\<lparr>mb_d_x := sat16 total_dx, mb_d_y := sat16 total_dy,
                         mb_d_scroll_x := sat16 total_sx, mb_d_scroll_y := sat16 total_sy\<rparr>;
             r = r\<lparr>rf_dx := total_dx - scast (mb_d_x body), rf_dy := total_dy - scast (mb_d_y body),
                   rf_scroll_x := total_sx - scast (mb_d_scroll_x body),
                   rf_scroll_y := total_sy - scast (mb_d_scroll_y body)\<rparr>;
             r = (if refund_empty r then r\<lparr>rf_stamp_ms := 0\<rparr> else r)
         in (body, s\<lparr>m_motion_refund := r\<rparr>)))"

definition motion_record :: "esb_mouse_body option \<Rightarrow> bool \<Rightarrow> pointer_motion" where
  "motion_record body overrode =
     (case body of
        Some b \<Rightarrow> \<lparr>pm_dx = mb_d_x b, pm_dy = mb_d_y b, pm_scroll_x = mb_d_scroll_x b,
                   pm_scroll_y = mb_d_scroll_y b, pm_overrode = overrode\<rparr>
      | None \<Rightarrow> \<lparr>pm_dx = 0, pm_dy = 0, pm_scroll_x = 0, pm_scroll_y = 0, pm_overrode = overrode\<rparr>)"

definition motion_ring_push ::
    "kcfg \<Rightarrow> esb_mouse_body option \<Rightarrow> bool \<Rightarrow> 'a tport_scheme \<Rightarrow> 'a tport_scheme" where
  "motion_ring_push c body overrode s =
     (let slot = unat (m_recent_motion_head s) mod POINTER_MOTION_RING_SIZE c;
          s = s\<lparr>m_recent_motion := (m_recent_motion s)[slot := motion_record body overrode]\<rparr>;
          s = (if (case body of Some b \<Rightarrow> has_motion b | None \<Rightarrow> False) \<and>
                  m_pointer_inflight_count s < 255
               then s\<lparr>m_pointer_inflight_count := m_pointer_inflight_count s + 1\<rparr> else s)
      in s\<lparr>m_recent_motion_head := m_recent_motion_head s + 1\<rparr>)"

definition pm_has_motion :: "pointer_motion \<Rightarrow> bool" where
  "pm_has_motion r \<longleftrightarrow> pm_dx r OR pm_dy r OR pm_scroll_x r OR pm_scroll_y r \<noteq> 0"

definition add_refund :: "pointer_motion \<Rightarrow> u32 \<Rightarrow> motion_refund \<Rightarrow> motion_refund" where
  "add_refund rec now r =
     (let r = r\<lparr>rf_dx := rf_dx r + scast (pm_dx rec), rf_dy := rf_dy r + scast (pm_dy rec),
                rf_scroll_x := rf_scroll_x r + scast (pm_scroll_x rec),
                rf_scroll_y := rf_scroll_y r + scast (pm_scroll_y rec)\<rparr>
      in if rf_stamp_ms r = 0 then r\<lparr>rf_stamp_ms := stamp now\<rparr> else r)"

definition motion_ring_consume :: "kcfg \<Rightarrow> bool \<Rightarrow> 'a tport_scheme \<Rightarrow> 'a tport_scheme" where
  "motion_ring_consume c failed s =
     (if m_recent_motion_tail s = m_recent_motion_head s then s
      else
        (let slot = unat (m_recent_motion_tail s) mod POINTER_MOTION_RING_SIZE c;
             rec = m_recent_motion s ! slot;
             s = s\<lparr>m_recent_motion_tail := m_recent_motion_tail s + 1\<rparr>;
             s = (if pm_has_motion rec \<and> 0 < m_pointer_inflight_count s
                  then s\<lparr>m_pointer_inflight_count := m_pointer_inflight_count s - 1\<rparr> else s);
             s = (if failed \<and> pm_has_motion rec
                  then s\<lparr>m_motion_refund := add_refund rec (k_uptime_get_32 s) (m_motion_refund s)\<rparr>
                  else s)
         in if pm_overrode rec then restore_retransmit_count c s else s))"

section \<open>Flushing\<close>

definition esb_flush_tx_and_reset :: "kcfg \<Rightarrow> 'a tport_scheme \<Rightarrow> 'a tport_scheme" where
  "esb_flush_tx_and_reset c s =
     (let s = snd (esb_flush_tx c s);
          s = (if CHANNEL_HOP c then s\<lparr>m_recent_noack := er_drain (m_recent_noack s)\<rparr> else s);
          s = (if CRITICAL_MAX_RETRANSMIT c
               then s\<lparr>m_recent_critical_override := er_drain (m_recent_critical_override s)\<rparr> else s);
          s = s\<lparr>m_recent_motion_tail := m_recent_motion_head s, m_pointer_inflight_count := 0\<rparr>
      in restore_retransmit_count c s)"

text \<open>
  The wait of \<open>esb_transport_flush_tx\<close>: \<open>sleep\<close> is one \<open>k_sleep(K_MSEC(1))\<close>, during which the
  clock advances and interrupts and other threads run.
\<close>

definition flush_may_stop :: "kcfg \<Rightarrow> u32 \<Rightarrow> 'a tport_scheme \<Rightarrow> bool" where
  "flush_may_stop c start s \<longleftrightarrow>
     (let now = k_uptime_get_32 s;
          since_evt = (if m_last_tx_event_ms s = 0 then 0xFFFFFFFF else now - m_last_tx_event_ms s)
      in msec (FLUSH_QUIET_MS c) \<le> since_evt \<or> msec (FLUSH_FORCE_MS c) \<le> now - start)"

definition flush_wait ::
    "kcfg \<Rightarrow> ('a tport_scheme \<Rightarrow> 'a tport_scheme) \<Rightarrow> 'a tport_scheme \<Rightarrow> 'a tport_scheme option" where
  "flush_wait c sleep s =
     while_option (\<lambda>t. \<not> flush_may_stop c (k_uptime_get_32 s) t) sleep s"

definition esb_transport_flush_tx ::
    "kcfg \<Rightarrow> ('a tport_scheme \<Rightarrow> 'a tport_scheme) \<Rightarrow> 'a tport_scheme \<Rightarrow> 'a tport_scheme option" where
  "esb_transport_flush_tx c sleep s =
     map_option (esb_flush_tx_and_reset c)
       (if 0 < FLUSH_QUIET_MS c then flush_wait c sleep s else Some s)"

section \<open>Setup and channel switching\<close>

definition esb_init_and_configure :: "kcfg \<Rightarrow> rc \<Rightarrow> 'a tport_scheme \<Rightarrow> rc \<times> 'a tport_scheme" where
  "esb_init_and_configure c hw s =
     (let cfg = \<lparr>cfg_mode = ESB_MODE_PTX,
                 retransmit_delay = of_nat (RETRANSMIT_DELAY_US c),
                 retransmit_count = of_nat (RETRANSMIT_COUNT c),
                 tx_mode = ESB_TXMODE_AUTO,
                 payload_length = of_nat (ESB_MAX_PAYLOAD_LEN c),
                 selective_auto_ack = HID_NOACK c,
                 use_fast_ramp_up = True\<rparr>
      in case esb_init c hw cfg s of
           (Some err, s) \<Rightarrow> (Some err, s)
         | (None, s) \<Rightarrow>
             (if ad_configured (m_addr s)
              then (let s = snd (esb_set_base_address_0 (ad_base0 (m_addr s)) s);
                        s = snd (esb_set_base_address_1 (ad_base1 (m_addr s)) s);
                        s = snd (esb_set_prefixes (ad_prefixes (m_addr s)) 2 s);
                        s = snd (esb_set_rf_channel (ucast (ad_channel (m_addr s))) s)
                    in (None, s))
              else (None, s)))"

definition esb_transport_init :: "kcfg \<Rightarrow> 'a tport_scheme \<Rightarrow> 'a tport_scheme" where
  "esb_transport_init c s =
     (let s = s\<lparr>m_cb_set := True\<rparr>;
          s = (if RENDEZVOUS c then s\<lparr>m_sync_tx_done := 0\<rparr> else s);
          s = s\<lparr>m_ram_vtor_installed := True\<rparr>
      in if CHANNEL_HOP c then s\<lparr>m_link_quality_ewma_x10 := 10\<rparr> else s)"

definition esb_transport_set_addresses ::
    "u8 list \<Rightarrow> u8 list \<Rightarrow> u8 list \<Rightarrow> u8 \<Rightarrow> 'a tport_scheme \<Rightarrow> 'a tport_scheme" where
  "esb_transport_set_addresses base0 base1 prefixes channel s =
     s\<lparr>m_addr := \<lparr>ad_base0 = take 4 base0, ad_base1 = take 4 base1, ad_prefixes = take 8 prefixes,
                  ad_channel = channel, ad_boot_channel = channel, ad_configured = True\<rparr>\<rparr>"

definition esb_transport_get_channel :: "'a tport_scheme \<Rightarrow> u8" where
  "esb_transport_get_channel s = ad_channel (m_addr s)"

definition esb_transport_get_rendezvous_channel :: "'a tport_scheme \<Rightarrow> u8" where
  "esb_transport_get_rendezvous_channel s = ad_boot_channel (m_addr s)"

text \<open>The bookkeeping a switched channel starts from.\<close>

definition reset_link_history :: "kcfg \<Rightarrow> 'a tport_scheme \<Rightarrow> 'a tport_scheme" where
  "reset_link_history c s =
     (let s = s\<lparr>m_first_fail_ms := 0, m_last_tx_success_ms := 0, m_link_quality_window := 0,
                m_link_quality_count := 0, m_link_quality_ewma_x10 := 10\<rparr>;
          s = (if COOP_HOP c then s\<lparr>m_link_degraded_armed := False\<rparr> else s);
          s = s\<lparr>m_motion_refund := zero_refund\<rparr>
      in s\<lparr>m_tx_quiet_until_ms := stamp (k_uptime_get_32 s + msec (HOP_POST_QUIET_MS c))\<rparr>)"

definition esb_transport_set_channel :: "kcfg \<Rightarrow> u8 \<Rightarrow> 'a tport_scheme \<Rightarrow> rc \<times> 'a tport_scheme" where
  "esb_transport_set_channel c channel s =
     (if \<not> ad_configured (m_addr s) then (Some ENODEV, s)
      else
        (case esb_set_rf_channel (ucast channel) (esb_flush_tx_and_reset c s) of
           (Some err, s) \<Rightarrow> (Some err, s)
         | (None, s) \<Rightarrow>
             (let s = s\<lparr>m_addr := (m_addr s)\<lparr>ad_channel := channel\<rparr>,
                        consecutive_tx_fail := 0, m_peer_rssi_valid := False\<rparr>
              in (None, if CHANNEL_HOP c then reset_link_history c s else s))))"

definition esb_transport_reset_consecutive_fail :: "'a tport_scheme \<Rightarrow> 'a tport_scheme" where
  "esb_transport_reset_consecutive_fail s = s\<lparr>consecutive_tx_fail := 0\<rparr>"

section \<open>Observation\<close>

definition esb_transport_on_rx_link_stats :: "u8 list \<Rightarrow> 'a tport_scheme \<Rightarrow> 'a tport_scheme" where
  "esb_transport_on_rx_link_stats bs s =
     (if length bs < sizeof_link_stats then s
      else s\<lparr>m_peer_rssi_last := pkt_byte 1 bs, m_peer_rssi_ewma := pkt_byte 2 bs,
             m_peer_rssi_valid := True\<rparr>)"

definition esb_transport_get_peer_rssi :: "'a tport_scheme \<Rightarrow> (i8 \<times> i8) option" where
  "esb_transport_get_peer_rssi s =
     (if \<not> m_peer_rssi_valid s then None else Some (m_peer_rssi_last s, m_peer_rssi_ewma s))"

definition esb_transport_is_quiet :: "kcfg \<Rightarrow> 'a tport_scheme \<Rightarrow> bool" where
  "esb_transport_is_quiet c s =
     (if RENDEZVOUS c \<and> m_sync_tx_in_progress s then True
      else CHANNEL_HOP c \<and> m_tx_quiet_until_ms s \<noteq> 0 \<and>
           deadline_ahead (m_tx_quiet_until_ms s) (k_uptime_get_32 s))"

definition esb_transport_pointer_backpressure :: "kcfg \<Rightarrow> 'a tport_scheme \<Rightarrow> bool" where
  "esb_transport_pointer_backpressure c s \<longleftrightarrow>
     POINTER_INFLIGHT_CAP c \<le> unat (m_pointer_inflight_count s)"

definition esb_transport_get_per_stats :: "'a tport_scheme \<Rightarrow> u32 \<times> u32 \<times> u32" where
  "esb_transport_get_per_stats s = (tx_ok_count s, tx_retried_count s, tx_exhausted_count s)"

definition HID_RATE_BUCKET_MS :: u32 where "HID_RATE_BUCKET_MS = 1000"
definition HID_RATE_STALE_MS :: u32 where "HID_RATE_STALE_MS = 2000"

definition esb_transport_get_hid_tx_stats :: "'a tport_scheme \<Rightarrow> u32 \<times> u16" where
  "esb_transport_get_hid_tx_stats s =
     (m_hid_tx_count s,
      if m_hid_tx_bucket_ms s = 0 \<or> HID_RATE_STALE_MS < k_uptime_get_32 s - m_hid_tx_bucket_ms s
      then 0 else m_hid_tx_rate_hz s)"

definition esb_transport_get_link_quality :: "kcfg \<Rightarrow> 'a tport_scheme \<Rightarrow> u8 \<times> u16" where
  "esb_transport_get_link_quality c s =
     (if CHANNEL_HOP c then (m_link_quality_count s, m_link_quality_ewma_x10 s) else (0, 10))"

definition esb_transport_deinit :: "'a tport_scheme \<Rightarrow> 'a tport_scheme" where
  "esb_transport_deinit s = s\<lparr>m_addr := (m_addr s)\<lparr>ad_configured := False\<rparr>\<rparr>"

section \<open>Sending\<close>

text \<open>\<open>first_is t bs\<close> is the C condition \<open>(len >= 1) && data[0] == t\<close>.\<close>

definition first_is :: "u8 \<Rightarrow> u8 list \<Rightarrow> bool" where
  "first_is ty bs \<longleftrightarrow> 1 \<le> length bs \<and> bs ! 0 = ty"

definition is_shell_send :: "u8 list \<Rightarrow> bool" where
  "is_shell_send bs \<longleftrightarrow> first_is ESB_PKT_SHELL_DATA bs \<or> first_is ESB_PKT_SHELL_POLL bs \<or>
     first_is ESB_PKT_SHELL_STOP bs"

definition is_user_traffic :: "u8 list \<Rightarrow> bool" where
  "is_user_traffic bs \<longleftrightarrow> first_is ESB_PKT_HID_REPORT bs \<or> first_is ESB_PKT_SHELL_DATA bs \<or>
     first_is ESB_PKT_SHELL_POLL bs \<or> first_is ESB_PKT_SHELL_START bs \<or> first_is ESB_PKT_SHELL_STOP bs"

definition is_critical :: "u8 list \<Rightarrow> bool" where
  "is_critical bs \<longleftrightarrow> first_is ESB_PKT_BEACON bs \<or> first_is ESB_PKT_PAIR_RESP bs \<or>
     first_is ESB_PKT_DISCONNECT bs \<or> first_is ESB_PKT_VERIFY_REQ bs \<or>
     first_is ESB_PKT_CHANNEL_HOP_PROPOSAL bs \<or> first_is ESB_PKT_HOP_OFFER bs \<or>
     first_is ESB_PKT_IDLE bs"

definition send_noack :: "kcfg \<Rightarrow> u8 \<Rightarrow> u8 list \<Rightarrow> bool" where
  "send_noack c pipe bs \<longleftrightarrow>
     HID_NOACK c \<and> pipe = 1 \<and> 2 \<le> length bs \<and> bs ! 0 = ESB_PKT_HID_REPORT \<and> bs ! 1 = ESB_REPORT_MOUSE"

definition hid_tx_account :: "u8 list \<Rightarrow> 'a tport_scheme \<Rightarrow> 'a tport_scheme" where
  "hid_tx_account bs s =
     (if first_is ESB_PKT_HID_REPORT bs
      then
        (let s = s\<lparr>m_hid_tx_count := m_hid_tx_count s + 1,
                   m_hid_tx_bucket_count := m_hid_tx_bucket_count s + 1\<rparr>;
             now = k_uptime_get_32 s
         in if m_hid_tx_bucket_ms s = 0 then s\<lparr>m_hid_tx_bucket_ms := now\<rparr>
            else if HID_RATE_BUCKET_MS \<le> now - m_hid_tx_bucket_ms s
            then s\<lparr>m_hid_tx_rate_hz := (if 65535 < m_hid_tx_bucket_count s then 65535
                                        else ucast (m_hid_tx_bucket_count s)),
                   m_hid_tx_bucket_count := 0, m_hid_tx_bucket_ms := now\<rparr>
            else s)
      else s)"

definition critical_ring_push :: "kcfg \<Rightarrow> u8 list \<Rightarrow> 'a tport_scheme \<Rightarrow> 'a tport_scheme" where
  "critical_ring_push c bs s =
     (let s = s\<lparr>m_recent_critical_override :=
                  er_push (CRIT_OVERRIDE_RING_SIZE c) (is_critical bs) (m_recent_critical_override s)\<rparr>
      in if is_critical bs
         then snd (esb_set_retransmit_count (of_nat (CRITICAL_RETRANSMIT_COUNT c)) s) else s)"

text \<open>The refund, the override and the ring slot of a pointer report; other sends push a zero slot.\<close>

definition pointer_prepare ::
    "kcfg \<Rightarrow> bool \<Rightarrow> u8 list \<Rightarrow> 'a tport_scheme \<Rightarrow> u8 list \<times> 'a tport_scheme" where
  "pointer_prepare c noack bs s =
     (if is_mouse_report bs
      then
        (let (body, s) = motion_refund_apply c (mouse_body_of bs) s;
             pointer_override = (has_motion body \<and> mb_buttons body = 0 \<and> \<not> noack);
             s = (if pointer_override
                  then snd (esb_set_retransmit_count (of_nat (POINTER_RETRANSMIT_COUNT c)) s) else s)
         in (put_mouse_body body bs, motion_ring_push c (Some body) pointer_override s))
      else (bs, motion_ring_push c None False s))"

text \<open>The part of \<open>esb_transport_send\<close> after the drops, from the full-FIFO test on.\<close>

definition send_admitted :: "kcfg \<Rightarrow> u8 \<Rightarrow> u8 list \<Rightarrow> 'a tport_scheme \<Rightarrow> rc \<times> 'a tport_scheme" where
  "send_admitted c pipe bs s =
     (let noack = send_noack c pipe bs
      in if esb_tx_full c s \<and> is_shell_send bs then (Some ENOMEM, s)
         else
           (let s = (if esb_tx_full c s then esb_flush_tx_and_reset c s else s);
                s = (if CHANNEL_HOP c
                     then s\<lparr>m_recent_noack := er_push (NOACK_RING_SIZE c) noack (m_recent_noack s)\<rparr>
                     else s);
                s = (if \<not> first_is ESB_PKT_SHELL_BG_POLL bs then note_activity s else s);
                s = hid_tx_account bs s;
                s = (if is_user_traffic bs then channel_hop_ep_note_user_tx c s else s);
                s = (if CRITICAL_MAX_RETRANSMIT c then critical_ring_push c bs s else s);
                (bytes, s) = pointer_prepare c noack bs s
            in esb_write_payload c
                 \<lparr>pl_pipe = pipe, pl_noack = noack, pl_pid = 0, pl_rssi = 0, pl_data = bytes\<rparr> s))"

definition esb_transport_send :: "kcfg \<Rightarrow> u8 \<Rightarrow> u8 list \<Rightarrow> 'a tport_scheme \<Rightarrow> rc \<times> 'a tport_scheme" where
  "esb_transport_send c pipe bs s =
     (if ESB_MAX_PAYLOAD_LEN c < length bs then (Some EMSGSIZE, s)
      else if RENDEZVOUS c \<and> m_sync_tx_in_progress s then (None, s)
      else
        (let (delay, s) = jittered_retransmit_delay c s;
             s = snd (esb_set_retransmit_delay delay s)
         in if CHANNEL_HOP c \<and> m_tx_quiet_until_ms s \<noteq> 0 \<and>
               deadline_ahead (m_tx_quiet_until_ms s) (k_uptime_get_32 s)
            then (None, s)
            else send_admitted c pipe bs
                   (if CHANNEL_HOP c \<and> m_tx_quiet_until_ms s \<noteq> 0 then s\<lparr>m_tx_quiet_until_ms := 0\<rparr> else s)))"

text \<open>
  \<open>wait\<close> is what happens while the caller is blocked on the semaphore: interrupts run and the
  clock advances, until the semaphore is given or the timeout elapses.
\<close>

definition k_sem_take_done ::
    "('a tport_scheme \<Rightarrow> 'a tport_scheme) \<Rightarrow> 'a tport_scheme \<Rightarrow> bool \<times> 'a tport_scheme" where
  "k_sem_take_done wait s =
     (let s = wait s
      in if 0 < m_sync_tx_done s then (True, s\<lparr>m_sync_tx_done := m_sync_tx_done s - 1\<rparr>)
         else (False, s))"

definition esb_transport_send_blocking ::
    "kcfg \<Rightarrow> ('a tport_scheme \<Rightarrow> 'a tport_scheme) \<Rightarrow> u8 \<Rightarrow> u8 \<Rightarrow> u8 list \<Rightarrow> 'a tport_scheme \<Rightarrow>
     rc \<times> 'a tport_scheme" where
  "esb_transport_send_blocking c wait channel pipe bs s =
     (if ESB_MAX_PAYLOAD_LEN c < length bs then (Some EMSGSIZE, s)
      else if \<not> ad_configured (m_addr s) then (Some ENODEV, s)
      else if m_sync_tx_in_progress s then (Some EBUSY, s)
      else
        (case esb_set_rf_channel (ucast channel) (esb_flush_tx_and_reset c s) of
           (Some err, s) \<Rightarrow> (Some err, s)
         | (None, s) \<Rightarrow>
             (let s = s\<lparr>m_sync_tx_done := 0, m_sync_tx_result_success := False,
                        m_sync_tx_in_progress := True\<rparr>
              in case esb_write_payload c
                        \<lparr>pl_pipe = pipe, pl_noack = False, pl_pid = 0, pl_rssi = 0, pl_data = bs\<rparr> s of
                   (Some err, s) \<Rightarrow>
                     (let s = s\<lparr>m_sync_tx_in_progress := False\<rparr>;
                          s = snd (esb_set_rf_channel (ucast (ad_channel (m_addr s))) s)
                      in (Some err, s))
                 | (None, s) \<Rightarrow>
                     (let (taken, s) = k_sem_take_done wait s;
                          s = snd (esb_set_rf_channel (ucast (ad_channel (m_addr s))) s)
                      in if \<not> taken then (Some ETIMEDOUT, s\<lparr>m_sync_tx_in_progress := False\<rparr>)
                         else (if m_sync_tx_result_success s then None else Some EIO, s)))))"

section \<open>Radio slot\<close>

definition BT_LL_PPI_MASK :: u32 where "BT_LL_PPI_MASK = 0x02CFFFC0"

definition bt_ll_suspend :: "'a tport_scheme \<Rightarrow> 'a tport_scheme" where
  "bt_ll_suspend s =
     (if bt_ll_suspended s then s
      else s\<lparr>saved_bt_ll_ppi_chen := ppi_chen s AND BT_LL_PPI_MASK,
             ppi_chen := ppi_chen s AND NOT BT_LL_PPI_MASK,
             bt_ll_suspended := True\<rparr>)"

definition bt_ll_resume :: "'a tport_scheme \<Rightarrow> 'a tport_scheme" where
  "bt_ll_resume s =
     (if \<not> bt_ll_suspended s then s
      else s\<lparr>ppi_chen := ppi_chen s OR saved_bt_ll_ppi_chen s, bt_ll_suspended := False\<rparr>)"

text \<open>\<open>hf\<close> is the outcome of starting the HF clock.\<close>

definition hfxo_request :: "rc \<Rightarrow> 'a tport_scheme \<Rightarrow> rc \<times> 'a tport_scheme" where
  "hfxo_request hf s =
     (if hfclk_held s then (None, s)
      else (hf, if hf = None then s\<lparr>hfclk_held := True\<rparr> else s))"

definition hfxo_release :: "'a tport_scheme \<Rightarrow> 'a tport_scheme" where
  "hfxo_release s = (if \<not> hfclk_held s then s else s\<lparr>hfclk_held := False\<rparr>)"

definition esb_transport_on_slot_start ::
    "kcfg \<Rightarrow> rc \<Rightarrow> rc \<Rightarrow> 'a tport_scheme \<Rightarrow> 'a tport_scheme" where
  "esb_transport_on_slot_start c hf hw s =
     (let s = bt_ll_suspend s;
          s = snd (hfxo_request hf s)
      in case esb_init_and_configure c hw s of
           (Some err, s) \<Rightarrow> s
         | (None, s) \<Rightarrow>
             (let s = s\<lparr>radio_vector_esb := True, consecutive_tx_fail := 0\<rparr>
              in if CHANNEL_HOP c \<and> ADAPTIVE_RETRY c
                 then k_work_reschedule AdaptiveRetryWork (ADAPTIVE_RETRY_INTERVAL_MS c)
                        (s\<lparr>m_adaptive_retransmit_count := of_nat (RETRANSMIT_COUNT c)\<rparr>)
                 else s))"

definition esb_transport_on_slot_stop :: "kcfg \<Rightarrow> 'a tport_scheme \<Rightarrow> 'a tport_scheme" where
  "esb_transport_on_slot_stop c s =
     (let s = s\<lparr>consecutive_tx_fail := 0\<rparr>;
          s = (if CHANNEL_HOP c \<and> ADAPTIVE_RETRY c then k_work_cancel AdaptiveRetryWork s else s);
          s = esb_disable s;
          s = (if m_ram_vtor_installed s then s\<lparr>radio_vector_esb := False\<rparr> else s);
          s = bt_ll_resume s
      in hfxo_release s)"

section \<open>Arithmetic of the link statistics\<close>

definition popcount :: "u32 \<Rightarrow> nat" where
  "popcount w = card {i. bit w i}"

lemma finite_bits [simp]: "finite {i. bit (w :: u32) i}"
  by (rule finite_subset [of _ "{..<32}"]) (auto dest: bit_imp_le_length)

lemma popcount_le: "popcount w \<le> 32"
proof -
  have "{i. bit w i} \<subseteq> {..<32}" by (auto dest: bit_imp_le_length)
  from card_mono [OF _ this] show ?thesis by (simp add: popcount_def)
qed

text \<open>The window holds the last \<open>LINK_QUALITY_WINDOW\<close> events and the counter is their number of ones.\<close>

definition lq_inv :: "kcfg \<Rightarrow> 'a tport_scheme \<Rightarrow> bool" where
  "lq_inv c s \<longleftrightarrow>
     (\<forall>i. bit (m_link_quality_window s) i \<longrightarrow> i < LINK_QUALITY_WINDOW c) \<and>
     unat (m_link_quality_count s) = popcount (m_link_quality_window s)"

lemma bit_link_quality_mask:
  assumes "LINK_QUALITY_WINDOW c \<le> 32"
  shows "bit (link_quality_mask c) i \<longleftrightarrow> i < LINK_QUALITY_WINDOW c"
proof -
  have "link_quality_mask c = mask (LINK_QUALITY_WINDOW c)"
  proof (cases "LINK_QUALITY_WINDOW c = 32")
    case False
    then show ?thesis
      using assms by (simp add: link_quality_mask_def mask_eq_exp_minus_1 push_bit_eq_mult)
  qed (simp add: link_quality_mask_def mask_eq_exp_minus_1)
  then show ?thesis using assms by (simp only: bit_mask_iff) auto
qed

lemma and_1_bit: "(drop_bit n (w :: u32) AND 1 \<noteq> 0) = bit w n"
  by (simp add: and_one_eq bit_iff_odd_drop_bit flip: odd_iff_mod_2_eq_one)

lemma popcount_shift:
  assumes W: "0 < n" "n \<le> 32" and old: "\<forall>i. bit w i \<longrightarrow> i < n"
    and new: "\<And>i. bit w' i \<longleftrightarrow> i < n \<and> (if i = 0 then b else bit w (i - 1))"
  shows "popcount w' + (if bit w (n - 1) then 1 else 0) = popcount w + (if b then 1 else 0)"
proof -
  let ?old = "{i. bit w i}"
  have e: "{i. bit w' i} = Suc ` (?old - {n - 1}) \<union> (if b then {0} else {})"
  proof (rule set_eqI)
    fix i show "i \<in> {i. bit w' i} \<longleftrightarrow> i \<in> Suc ` (?old - {n - 1}) \<union> (if b then {0} else {})"
      using old W by (cases i) (auto simp: new)
  qed
  have c: "card {i. bit w' i} = card (?old - {n - 1}) + (if b then 1 else 0)"
    unfolding e by (subst card_Un_disjoint) (auto simp: card_image)
  show ?thesis
  proof (cases "bit w (n - 1)")
    case True
    then have "0 < card ?old" by (auto simp: card_gt_0_iff)
    moreover have "card (?old - {n - 1}) = card ?old - 1" using True by simp
    ultimately show ?thesis using c True by (simp add: popcount_def)
  next
    case False
    then have "?old - {n - 1} = ?old" by auto
    then show ?thesis using c False by (simp add: popcount_def)
  qed
qed

lemma unat_dec: "0 < unat (x :: u8) \<Longrightarrow> unat (x - 1) = unat x - 1"
  by (simp add: unat_minus_one unat_eq_zero [symmetric])

lemma lq_shift:
  assumes "lq_inv c s" "8 \<le> LINK_QUALITY_WINDOW c" "LINK_QUALITY_WINDOW c \<le> 32"
  shows "lq_inv c (link_quality_shift_window c b s)"
proof -
  let ?n = "LINK_QUALITY_WINDOW c" and ?w = "m_link_quality_window s"
  define w' where "w' = (push_bit 1 ?w OR (if b then 1 else 0)) AND link_quality_mask c"
  define d where "d = bit ?w (?n - 1)"
  have d: "(if ?n < 32 then drop_bit (?n - 1) ?w AND 1 \<noteq> 0 else drop_bit 31 ?w AND 1 \<noteq> 0) = d"
    using assms(3) by (auto simp: and_1_bit d_def)
  have new: "bit w' i \<longleftrightarrow> i < ?n \<and> (if i = 0 then b else bit ?w (i - 1))" for i
  proof -
    have "bit (push_bit 1 ?w) i \<longleftrightarrow> 1 \<le> i \<and> i < 32 \<and> bit ?w (i - 1)"
      by (simp only: bit_push_bit_iff) auto
    moreover have "bit (if b then 1 else 0 :: u32) i \<longleftrightarrow> b \<and> i = 0"
      by (simp add: bit_1_iff)
    ultimately show ?thesis
      unfolding w'_def bit_and_iff bit_or_iff bit_link_quality_mask [OF assms(3)]
      using assms(3) by auto
  qed
  have pc: "popcount w' + (if d then 1 else 0) = popcount ?w + (if b then 1 else 0)"
    unfolding d_def using popcount_shift [OF _ assms(3) _ new] assms(1,2) by (simp add: lq_inv_def)
  have cnt: "unat (m_link_quality_count s) = popcount ?w" "popcount ?w \<le> 32" "popcount w' \<le> 32"
    using assms(1) popcount_le by (simp_all add: lq_inv_def)
  have eq: "link_quality_shift_window c b s =
      s\<lparr>m_link_quality_window := w',
        m_link_quality_count := (if b \<and> \<not> d then m_link_quality_count s + 1
          else if \<not> b \<and> d then m_link_quality_count s - 1 else m_link_quality_count s)\<rparr>"
    by (simp add: link_quality_shift_window_def w'_def d Let_def)
  have "unat (if b \<and> \<not> d then m_link_quality_count s + 1
          else if \<not> b \<and> d then m_link_quality_count s - 1 else m_link_quality_count s) = popcount w'"
    using pc cnt by (auto simp: unat_inc unat_dec split: if_splits)
  with new show ?thesis unfolding eq by (simp add: lq_inv_def)
qed

lemma ewma_step_value:
  "unat (ewma_step e a) = (unat e * 7 + unat a * 10) div 8"
proof -
  have a: "unat (ucast a * 10 :: u16) = unat a * 10"
    using unsigned_less [of a, where 'a = nat]
    by (simp add: unat_word_ariths unsigned_ucast_eq take_bit_eq_mod)
  have e: "unat e < 65536" using unsigned_less [of e, where 'a = nat] by simp
  have "unat a * 10 < 65536" using unsigned_less [of a, where 'a = nat] by simp
  with e a have "unat (ucast e * 7 + ucast (ucast a * 10 :: u16) :: u32) = unat e * 7 + unat a * 10"
    by (simp add: unat_word_ariths unsigned_ucast_eq take_bit_eq_mod)
  moreover have "(unat e * 7 + unat a * 10) div 8 < 65536"
    using e \<open>unat a * 10 < 65536\<close> by (simp add: div_less_iff_less_mult)
  ultimately show ?thesis
    by (simp add: ewma_step_def Let_def unsigned_ucast_eq take_bit_eq_mod unat_div)
qed

lemma ewma_step_bounds:
  assumes "10 \<le> unat e" "unat e \<le> 10 * n" "1 \<le> unat a" "unat a \<le> n"
  shows "10 \<le> unat (ewma_step e a) \<and> unat (ewma_step e a) \<le> 10 * n"
proof -
  have "10 * 8 \<le> unat e * 7 + unat a * 10" "unat e * 7 + unat a * 10 \<le> 10 * n * 8"
    using assms by simp_all
  from div_le_mono [OF this(1), of 8] div_le_mono [OF this(2), of 8]
  show ?thesis by (simp add: ewma_step_value)
qed

section \<open>The adaptive retransmit count\<close>

text \<open>The target as a function of the average, in natural numbers.\<close>

definition retry_curve :: "kcfg \<Rightarrow> nat \<Rightarrow> nat" where
  "retry_curve c e =
     (if e \<le> ADAPTIVE_RETRY_EWMA_LOW c then ADAPTIVE_RETRY_COUNT_MIN c
      else if ADAPTIVE_RETRY_EWMA_HIGH c \<le> e then ADAPTIVE_RETRY_COUNT_MAX c
      else ADAPTIVE_RETRY_COUNT_MIN c +
           (e - ADAPTIVE_RETRY_EWMA_LOW c) * (ADAPTIVE_RETRY_COUNT_MAX c - ADAPTIVE_RETRY_COUNT_MIN c) div
           (ADAPTIVE_RETRY_EWMA_HIGH c - ADAPTIVE_RETRY_EWMA_LOW c))"

definition adaptive_ok :: "kcfg \<Rightarrow> bool" where
  "adaptive_ok c \<longleftrightarrow> kcfg_ranges c \<and>
     ADAPTIVE_RETRY_COUNT_MIN c \<le> ADAPTIVE_RETRY_COUNT_MAX c"

lemma retry_curve_range:
  assumes "ADAPTIVE_RETRY_COUNT_MIN c \<le> ADAPTIVE_RETRY_COUNT_MAX c"
  shows "ADAPTIVE_RETRY_COUNT_MIN c \<le> retry_curve c e \<and> retry_curve c e \<le> ADAPTIVE_RETRY_COUNT_MAX c"
proof -
  let ?lo = "ADAPTIVE_RETRY_EWMA_LOW c" and ?hi = "ADAPTIVE_RETRY_EWMA_HIGH c"
    and ?d = "ADAPTIVE_RETRY_COUNT_MAX c - ADAPTIVE_RETRY_COUNT_MIN c"
  have "(e - ?lo) * ?d div (?hi - ?lo) \<le> ?d" if "?lo < e" "e < ?hi"
  proof -
    have "(e - ?lo) * ?d \<le> (?hi - ?lo) * ?d" using that by (intro mult_right_mono) auto
    from div_le_mono [OF this, of "?hi - ?lo"] that show ?thesis by simp
  qed
  then show ?thesis using assms by (auto simp: retry_curve_def)
qed

lemma retry_curve_mono:
  assumes "ADAPTIVE_RETRY_COUNT_MIN c \<le> ADAPTIVE_RETRY_COUNT_MAX c" "e \<le> e'"
  shows "retry_curve c e \<le> retry_curve c e'"
proof (cases "e \<le> ADAPTIVE_RETRY_EWMA_LOW c \<or> ADAPTIVE_RETRY_EWMA_HIGH c \<le> e'")
  case True
  then show ?thesis
    using retry_curve_range [OF assms(1), of e] retry_curve_range [OF assms(1), of e'] assms
    by (auto simp: retry_curve_def)
next
  case False
  then show ?thesis
    using assms by (auto simp: retry_curve_def intro!: div_le_mono mult_right_mono)
qed

lemma adaptive_retry_target_eq:
  assumes "adaptive_ok c"
  shows "unat (adaptive_retry_target c s) = retry_curve c (unat (m_link_quality_ewma_x10 s))"
proof -
  let ?e = "unat (m_link_quality_ewma_x10 s)"
  let ?lo = "ADAPTIVE_RETRY_EWMA_LOW c" and ?hi = "ADAPTIVE_RETRY_EWMA_HIGH c"
  let ?mn = "ADAPTIVE_RETRY_COUNT_MIN c" and ?mx = "ADAPTIVE_RETRY_COUNT_MAX c"
  have r: "?lo \<le> 100" "?hi \<le> 200" "?mn \<le> 15" "?mx \<le> 15" "?mn \<le> ?mx"
    using assms by (simp_all add: adaptive_ok_def kcfg_ranges_def)
  show ?thesis
  proof (cases "?e \<le> ?lo \<or> ?hi \<le> ?e")
    case True
    then show ?thesis
      using r by (auto simp: adaptive_retry_target_def retry_curve_def unat_of_nat take_bit_eq_mod)
  next
    case False
    then have d: "(of_nat ?hi - of_nat ?lo :: u32) = of_nat (?hi - ?lo)"
      "(of_nat ?e - of_nat ?lo :: u32) = of_nat (?e - ?lo)"
      "(of_nat ?mx - of_nat ?mn :: u32) = of_nat (?mx - ?mn)"
      using r by (simp_all add: of_nat_diff)
    have "(?e - ?lo) * (?mx - ?mn) \<le> 200 * 15"
      using False r by (intro mult_mono) auto
    then have m: "unat (of_nat (?e - ?lo) * of_nat (?mx - ?mn) :: u32) = (?e - ?lo) * (?mx - ?mn)"
      by (simp add: unat_of_nat take_bit_eq_mod flip: of_nat_mult)
    have s: "unat (of_nat (?hi - ?lo) :: u32) = ?hi - ?lo"
      using r by (simp add: unat_of_nat take_bit_eq_mod)
    have "retry_curve c ?e \<le> 15" using retry_curve_range [OF r(5), of ?e] r by simp
    then have "?mn + (?e - ?lo) * (?mx - ?mn) div (?hi - ?lo) \<le> 15"
      using False by (simp add: retry_curve_def)
    define x where "x = (of_nat (?e - ?lo) * of_nat (?mx - ?mn) :: u32) div of_nat (?hi - ?lo)"
    have x: "unat x = (?e - ?lo) * (?mx - ?mn) div (?hi - ?lo)"
      unfolding x_def by (simp only: unat_div m s)
    have "adaptive_retry_target c s = ucast (of_nat ?mn + x)"
      using False unfolding adaptive_retry_target_def Let_def d x_def by (simp del: of_nat_diff)
    then have "unat (adaptive_retry_target c s) = ?mn + unat x"
      using \<open>?mn + (?e - ?lo) * (?mx - ?mn) div (?hi - ?lo) \<le> 15\<close> r unfolding x [symmetric]
      by (simp add: unsigned_ucast_eq take_bit_eq_mod unat_word_ariths unat_of_nat)
    then show ?thesis using False by (simp add: x retry_curve_def)
  qed
qed

section \<open>Jitter\<close>

definition jitter_delta :: "int \<Rightarrow> int \<Rightarrow> int" where
  "jitter_delta span off =
     (if 0 \<le> span * off then (span * off) div 128 else - ((- (span * off)) div 128))"

lemma jitter_delta_bounds:
  assumes "0 \<le> span" "-128 \<le> off" "off \<le> 127"
  shows "- span \<le> jitter_delta span off \<and> jitter_delta span off \<le> span"
proof -
  have m: "- (span * 128) \<le> span * off" "span * off \<le> span * 128"
    using assms mult_left_mono [of "- 128" off span] mult_left_mono [of off 128 span] by simp_all
  show ?thesis
  proof (cases "0 \<le> span * off")
    case True
    then have "jitter_delta span off = (span * off) div 128" by (simp add: jitter_delta_def)
    then show ?thesis using zdiv_mono1 [OF m(2), of 128] True assms(1) by simp
  next
    case False
    then have e: "jitter_delta span off = - ((- (span * off)) div 128)" by (simp add: jitter_delta_def)
    have "- (span * off) \<le> span * 128" using m(1) by simp
    from zdiv_mono1 [OF this, of 128] have "(- (span * off)) div 128 \<le> span" by simp
    moreover have "0 \<le> (- (span * off)) div 128"
      using False by (intro pos_imp_zdiv_nonneg_iff [THEN iffD2]) auto
    ultimately show ?thesis unfolding e using assms(1) by linarith
  qed
qed

lemma jittered_delay_range:
  assumes "100 + RETRANSMIT_DELAY_US c div 8 \<le> RETRANSMIT_DELAY_US c"
    and "RETRANSMIT_DELAY_US c + RETRANSMIT_DELAY_US c div 8 < 2 ^ 16"
    and "jittered_retransmit_delay c s = (d, s')"
  shows "RETRANSMIT_DELAY_US c - RETRANSMIT_DELAY_US c div 8 \<le> unat d \<and>
         unat d \<le> RETRANSMIT_DELAY_US c + RETRANSMIT_DELAY_US c div 8"
proof -
  let ?b = "RETRANSMIT_DELAY_US c"
  obtain off :: i8 where
    d: "d = word_of_int (let d = int ?b + jitter_delta (int (?b div 8)) (sint off);
                             d = (if d < 100 then 100 else d)
                         in if 65535 < d then 65535 else d)"
    using assms(3) by (auto simp: jittered_retransmit_delay_def jitter_delta_def Let_def)
  have "- 128 \<le> sint off" "sint off \<le> 127"
    using sint_greater_eq [of off] sint_less [of off] by simp_all
  from jitter_delta_bounds [OF _ this, of "int (?b div 8)"]
  have j: "- int (?b div 8) \<le> jitter_delta (int (?b div 8)) (sint off)"
    "jitter_delta (int (?b div 8)) (sint off) \<le> int (?b div 8)" by simp_all
  define v where "v = int ?b + jitter_delta (int (?b div 8)) (sint off)"
  have "int ?b + int (?b div 8) < 2 ^ 16" "100 + int (?b div 8) \<le> int ?b"
  proof -
    have "int (?b + ?b div 8) < int (2 ^ 16)" "int (100 + ?b div 8) \<le> int ?b"
      using assms(1,2) by (simp_all only: of_nat_less_iff of_nat_le_iff)
    then show "int ?b + int (?b div 8) < 2 ^ 16" "100 + int (?b div 8) \<le> int ?b"
      by (simp_all only: of_nat_add of_nat_numeral of_nat_power)
  qed
  with j have v: "100 \<le> v" "v < 2 ^ 16" "int ?b - int (?b div 8) \<le> v" "v \<le> int ?b + int (?b div 8)"
    by (auto simp: v_def)
  then have "d = word_of_int v" unfolding d by (simp add: v_def [symmetric] Let_def)
  then have "uint d = v" using v by (simp add: uint_word_of_int)
  then have "int (unat d) = v" by simp
  with v(3,4) show ?thesis by linarith
qed

section \<open>Refunds\<close>

lemma or4_eq_0: "a OR b OR c OR d = 0 \<longleftrightarrow> a = 0 \<and> b = 0 \<and> c = 0 \<and> d = (0 :: 'a :: len word)"
  by (auto simp: bit_eq_iff bit_simps)

lemma refund_empty_iff: "refund_empty r \<longleftrightarrow> rf_dx r = 0 \<and> rf_dy r = 0 \<and> rf_scroll_x r = 0 \<and> rf_scroll_y r = 0"
  by (simp add: refund_empty_def or4_eq_0)

text \<open>A delta and what the pool holds of its axis: their sum as the code forms it, and as a number where it fits.\<close>

definition axis_fits :: "i16 \<Rightarrow> i32 \<Rightarrow> bool" where
  "axis_fits b r \<longleftrightarrow> - (2 ^ 31) \<le> sint b + sint r \<and> sint b + sint r < 2 ^ 31"

lemma sint_i16: "- 32768 \<le> sint (b :: i16)" "sint (b :: i16) \<le> 32767"
  using sint_range_size [of b] by (simp_all add: word_size)

lemma sint_scast16: "sint (scast (b :: i16) :: i32) = sint b"
  using sint_i16 [of b] by (simp add: signed_scast_eq signed_take_bit_int_eq_self)

lemma sint_i32_eq: "- (2 ^ 31) \<le> v \<Longrightarrow> v < 2 ^ 31 \<Longrightarrow> sint (word_of_int v :: i32) = v"
  by (simp add: signed_of_int signed_take_bit_int_eq_self)

definition axis_kept :: "i16 \<times> i32 \<Rightarrow> i16 \<times> i32 \<Rightarrow> bool" where
  "axis_kept = (\<lambda>(b, r) (b', r'). scast b' + r' = scast b + r \<and>
     (r' = 0 \<or> b' = 32767 \<and> 0 < sint r' \<or> b' = -32768 \<and> sint r' < 0) \<and>
     (axis_fits b r \<longrightarrow> sint b' + sint r' = sint b + sint r))"

lemma sint_sum32:
  fixes a b :: i32
  shows "- (2 ^ 31) \<le> sint a + sint b \<Longrightarrow> sint a + sint b < 2 ^ 31 \<Longrightarrow> sint (a + b) = sint a + sint b"
    and "- (2 ^ 31) \<le> sint a - sint b \<Longrightarrow> sint a - sint b < 2 ^ 31 \<Longrightarrow> sint (a - b) = sint a - sint b"
  by (simp_all add: sint_word_ariths signed_take_bit_int_eq_self)

lemma sint_sat16: "sint (sat16 t) = (if 32767 < sint t then 32767 else if sint t < -32768 then -32768 else sint t)"
proof -
  have "signed_take_bit 15 (uint t) = signed_take_bit 15 (sint t)" by (simp add: sint_uint signed_take_bit_signed_take_bit)
  then show ?thesis by (simp add: sat16_def signed_ucast_eq signed_take_bit_int_eq_self)
qed

lemma axis_kept_apply:
  assumes "t = scast b + r"
  shows "axis_kept (b, r) (sat16 t, t - scast (sat16 t))"
proof -
  have f: "sint t = sint b + sint r" if "axis_fits b r"
    using that sint_sum32(1) [of "scast b" r] by (simp add: assms axis_fits_def sint_scast16)
  have range: "- (2 ^ 31) \<le> sint t" "sint t < 2 ^ 31" using sint_range_size [of t] by (simp_all add: word_size)
  then have d: "sint (t - scast (sat16 t)) = sint t - sint (sat16 t)"
    using sint_sum32(2) [of t "scast (sat16 t)"] sint_sat16 [of t] by (auto simp: sint_scast16 split: if_splits)
  have z: "t - scast (sat16 t) = 0" if "sint t \<le> 32767" "-32768 \<le> sint t"
  proof -
    have "sint (t - scast (sat16 t)) = 0" using d sint_sat16 [of t] that by simp
    then show ?thesis by (simp only: signed_eq_0_iff)
  qed
  consider "32767 < sint t" | "sint t < -32768" | "sint t \<le> 32767" "-32768 \<le> sint t" by linarith
  then show ?thesis
  proof cases
    case 3
    then show ?thesis using z [OF 3] f assms sint_sat16 [of t] by (simp add: axis_kept_def)
  qed (use d f assms in \<open>simp_all add: axis_kept_def sat16_def sint_scast16\<close>)
qed

text \<open>The four axes of a report, each with the pool's field for it.\<close>

definition motion_axes :: "esb_mouse_body \<Rightarrow> 'a tport_scheme \<Rightarrow> (i16 \<times> i32) list" where
  "motion_axes b s =
     (let r = m_motion_refund s
      in [(mb_d_x b, rf_dx r), (mb_d_y b, rf_dy r), (mb_d_scroll_x b, rf_scroll_x r),
          (mb_d_scroll_y b, rf_scroll_y r)])"

lemma axis_kept_zero: "axis_kept (b, 0) (b, 0)"
  by (simp add: axis_kept_def)

lemma motion_refund_apply_cong:
  assumes "m_motion_refund t = m_motion_refund s" "uptime t = uptime s"
  shows "fst (motion_refund_apply c b t) = fst (motion_refund_apply c b s)"
  using assms by (simp add: motion_refund_apply_def refund_stale_def k_uptime_get_32_def Let_def)

lemma motion_refund_none: "refund_empty (m_motion_refund s) \<Longrightarrow> fst (motion_refund_apply c b s) = b"
  by (simp add: motion_refund_apply_def)

section \<open>The body of a mouse report in its packet\<close>

lemma list2: "length xs = 2 \<Longrightarrow> xs = [xs ! 0, xs ! 1]"
  by (auto simp: length_Suc_conv numeral_2_eq_2)

lemma le16_of_le16:
  assumes "length xs = 2"
  shows "le16 (of_le16 xs) = xs"
proof -
  have high: "\<not> bit x (8 + n)" for x :: u8 and n
    using bit_imp_le_length [of x "8 + n"] by auto
  have "ucast (of_le16 xs) = xs ! 0" "ucast (drop_bit 8 (of_le16 xs)) = xs ! 1"
    by (auto simp: of_le16_def bit_simps high intro!: bit_word_eqI dest: bit_imp_le_length)
  then show ?thesis using list2 [OF assms] by (simp add: le16_def)
qed

lemma put_mouse_body_length: "11 \<le> length bs \<Longrightarrow> length (put_mouse_body b bs) = length bs"
  by (simp add: put_mouse_body_def mouse_body_bytes_def)

lemma mouse_body_of_put:
  assumes "11 \<le> length bs"
  shows "mouse_body_of (put_mouse_body b bs) = b"
proof -
  obtain b0 b1 where t: "take 2 bs = [b0, b1]"
    using assms list2 [of "take 2 bs"] by auto
  have d: "put_mouse_body b bs = b0 # b1 # mb_buttons b # le16 (mb_d_x b) @ le16 (mb_d_y b) @
      le16 (mb_d_scroll_y b) @ le16 (mb_d_scroll_x b) @ drop 11 bs"
    by (simp add: put_mouse_body_def mouse_body_bytes_def t)
  show ?thesis unfolding mouse_body_of_def d by (simp add: numeral_2_eq_2 [symmetric])
qed

lemma put_mouse_body_of:
  assumes "11 \<le> length bs"
  shows "put_mouse_body (mouse_body_of bs) bs = bs"
proof -
  have step: "drop n bs = take 2 (drop n bs) @ drop (n + 2) bs" for n
    by (metis append_take_drop_id drop_drop add.commute)
  have "drop 2 bs = bs ! 2 # drop 3 bs" using assms Cons_nth_drop_Suc [of 2 bs] by simp
  then have "bs = take 2 bs @ bs ! 2 # drop 3 bs" by (metis append_take_drop_id)
  then have "bs = take 2 bs @ bs ! 2 # take 2 (drop 3 bs) @ take 2 (drop 5 bs) @ take 2 (drop 7 bs) @
      take 2 (drop 9 bs) @ drop 11 bs"
    using step [of 3] step [of 5] step [of 7] step [of 9] by simp
  moreover have "le16 (of_le16 (take 2 (drop n bs))) = take 2 (drop n bs)" if "n \<le> 9" for n
    using that assms by (intro le16_of_le16) simp
  ultimately show ?thesis by (simp add: put_mouse_body_def mouse_body_bytes_def mouse_body_of_def)
qed

section \<open>Waiting for a quiet radio\<close>

text \<open>
  A millisecond sleep lets the clock advance by at least one and by less than \<open>2 ^ 31\<close> ms.
\<close>

definition sleeps :: "('a tport_scheme \<Rightarrow> 'a tport_scheme) \<Rightarrow> bool" where
  "sleeps sleep \<longleftrightarrow> (\<forall>s. uptime s < uptime (sleep s) \<and> uptime (sleep s) < uptime s + 2 ^ 31)"

lemma flush_wait_returns:
  assumes "sleeps sleep" "FLUSH_FORCE_MS c \<le> 500"
  shows "\<exists>t. flush_wait c sleep s = Some t \<and>
             flush_may_stop c (k_uptime_get_32 s) t"
proof -
  let ?b = "\<lambda>t. \<not> flush_may_stop c (k_uptime_get_32 s) t"
  let ?P = "\<lambda>t. uptime s \<le> uptime t \<and> uptime t < uptime s + 500 + 2 ^ 31"
  let ?m = "\<lambda>t. uptime s + 500 + 2 ^ 31 - uptime t"
  have step: "?P (sleep t) \<and> ?m (sleep t) < ?m t" if t: "?P t" "?b t" for t
  proof -
    have "\<not> msec (FLUSH_FORCE_MS c) \<le> k_uptime_get_32 t - k_uptime_get_32 s"
      using t(2) by (auto simp: flush_may_stop_def Let_def)
    then have lt: "k_uptime_get_32 t - k_uptime_get_32 s < msec (FLUSH_FORCE_MS c)" by simp
    define e where "e = uptime t - uptime s"
    have e: "uptime t = uptime s + e" "e < 2 ^ 32" using t(1) by (auto simp: e_def less_diff_conv2)
    then have "k_uptime_get_32 t - k_uptime_get_32 s = of_nat e"
      by (simp add: k_uptime_get_32_def)
    then have "unat (k_uptime_get_32 t - k_uptime_get_32 s) = uptime t - uptime s"
      unfolding e_def [symmetric] using unat_of_nat_u32 [OF e(2)] by (simp only:)
    moreover have "unat (msec (FLUSH_FORCE_MS c)) \<le> 500"
      using assms(2) by (simp add: msec_def unat_of_nat take_bit_eq_mod)
    ultimately have "uptime t < uptime s + 500"
      using lt by (simp add: word_less_nat_alt)
    moreover have "uptime t < uptime (sleep t)" "uptime (sleep t) < uptime t + 2 ^ 31"
      using assms(1) by (simp_all add: sleeps_def)
    ultimately show ?thesis using t(1) by simp
  qed
  have "\<exists>t. while_option ?b sleep s = Some t"
    by (rule measure_while_option_Some [where P = ?P and f = ?m]) (use step in auto)
  then show ?thesis
    unfolding flush_wait_def by (auto dest: while_option_stop)
qed

text \<open>The wait is a number of sleeps, the fewest after which it may stop.\<close>

lemma flush_wait_sleeps:
  assumes "flush_wait c sleep s = Some t"
  shows "\<exists>n. t = (sleep ^^ n) s \<and> flush_may_stop c (k_uptime_get_32 s) t \<and>
             (\<forall>m<n. \<not> flush_may_stop c (k_uptime_get_32 s) ((sleep ^^ m) s))"
proof -
  let ?stop = "\<lambda>k. flush_may_stop c (k_uptime_get_32 s) ((sleep ^^ k) s)"
  have ex: "\<exists>k. ?stop k" and t: "t = (sleep ^^ (LEAST k. ?stop k)) s"
    using assms by (auto simp: flush_wait_def while_option_def split: if_splits)
  then show ?thesis
    by (intro exI [of _ "LEAST k. ?stop k"] conjI) (auto dest: not_less_Least intro: LeastI_ex)
qed

section \<open>Flush, channel switch and send\<close>

text \<open>
  Two states with the same radio: they agree on the FIFOs, the protocol state and the
  configuration up to the two retransmission parameters the transport keeps adjusting.
\<close>

definition same_radio :: "'a esb_scheme \<Rightarrow> 'a esb_scheme \<Rightarrow> bool" where
  "same_radio s t \<longleftrightarrow>
     tx_fifo s = tx_fifo t \<and> rx_fifo s = rx_fifo t \<and> m_esb_state s = m_esb_state t \<and>
     on_radio_disabled s = on_radio_disabled t \<and> esb_initialized s = esb_initialized t \<and>
     rf_channel s = rf_channel t \<and> esb_pids s = esb_pids t \<and>
     tx_payload_buffer s = tx_payload_buffer t \<and> radio_frequency s = radio_frequency t \<and>
     radio_txaddress s = radio_txaddress t \<and> cfg_mode (esb_cfg s) = cfg_mode (esb_cfg t) \<and> tx_mode (esb_cfg s) = tx_mode (esb_cfg t) \<and>
     selective_auto_ack (esb_cfg s) = selective_auto_ack (esb_cfg t) \<and>
     int_tx_success s = int_tx_success t \<and> int_tx_failed s = int_tx_failed t \<and>
     int_rx_received s = int_rx_received t \<and> tx_noack_timer s = tx_noack_timer t \<and> uptime s = uptime t"

named_theorems same_radio_intros

lemma same_radio_refl [same_radio_intros]: "same_radio s s"
  by (simp add: same_radio_def)

lemma same_radio_trans: "same_radio s t \<Longrightarrow> same_radio t u \<Longrightarrow> same_radio s u"
  by (simp add: same_radio_def)

lemma same_radio_inv: "same_radio s t \<Longrightarrow> ptx_inv c s = ptx_inv c t"
  by (simp add: same_radio_def ptx_inv_def)

lemma same_radio_set [same_radio_intros]:
  "same_radio (snd (esb_set_retransmit_count n s)) s"
  "same_radio (snd (esb_set_retransmit_delay d s)) s"
  "same_radio (restore_retransmit_count c u) u"
  "same_radio (k_work_reschedule w ms v) v"
  "same_radio (k_work_submit w v) v"
  "same_radio (k_work_cancel w v) v"
  by (simp_all add: same_radio_def esb_set_retransmit_count_def esb_set_retransmit_delay_def
      restore_retransmit_count_def k_work_reschedule_def k_work_submit_def k_work_cancel_def Let_def)

lemma same_radio_note_user [same_radio_intros]: "same_radio (channel_hop_ep_note_user_tx c s) s"
  by (simp add: same_radio_def channel_hop_ep_note_user_tx_def enter_active_state_def
      k_work_reschedule_def Let_def)

lemma same_radio_send_helpers [same_radio_intros]:
  "same_radio (note_activity s) s"
  "same_radio (hid_tx_account bs s) s"
  "same_radio (snd (jittered_retransmit_delay c s)) s"
  "same_radio (snd (motion_refund_apply c body s)) s"
  "same_radio (motion_ring_push c b o' s) s"
  by (simp_all add: same_radio_def note_activity_def hid_tx_account_def jittered_retransmit_delay_def
      motion_refund_apply_def motion_ring_push_def Let_def)

lemma same_radio_critical [same_radio_intros]: "same_radio (critical_ring_push c bs s) s"
  by (simp add: same_radio_def critical_ring_push_def esb_set_retransmit_count_def Let_def)

lemma same_radio_pointer [same_radio_intros]: "same_radio (snd (pointer_prepare c noack bs s)) s"
proof (cases "is_mouse_report bs")
  case True
  obtain body t where b: "motion_refund_apply c (mouse_body_of bs) s = (body, t)" by fastforce
  have "same_radio t s" using same_radio_send_helpers(4) [of c "mouse_body_of bs" s] b by simp
  with True b show ?thesis
    by (auto simp: pointer_prepare_def Let_def
        intro: same_radio_trans [OF same_radio_send_helpers(5)] same_radio_trans [OF same_radio_set(1)])
qed (simp add: pointer_prepare_def same_radio_intros)

lemma same_radio_consume [same_radio_intros]:
  "same_radio (motion_ring_consume c failed s) s"
  by (simp add: same_radio_def motion_ring_consume_def restore_retransmit_count_def
      esb_set_retransmit_count_def Let_def)

lemma flush_reset:
  assumes "esb_initialized s"
  shows "tx_queue (esb_flush_tx_and_reset c s) = []"
    "esb_initialized (esb_flush_tx_and_reset c s)"
    "ptx_inv c s \<Longrightarrow> ptx_inv c (esb_flush_tx_and_reset c s)"
    "m_esb_state (esb_flush_tx_and_reset c s) = m_esb_state s"
    "m_addr (esb_flush_tx_and_reset c s) = m_addr s"
    "uptime (esb_flush_tx_and_reset c s) = uptime s"
    "m_pointer_inflight_count (esb_flush_tx_and_reset c s) = 0"
proof -
  show "tx_queue (esb_flush_tx_and_reset c s) = []"
    "esb_initialized (esb_flush_tx_and_reset c s)"
    "m_esb_state (esb_flush_tx_and_reset c s) = m_esb_state s"
    "m_addr (esb_flush_tx_and_reset c s) = m_addr s"
    "uptime (esb_flush_tx_and_reset c s) = uptime s"
    "m_pointer_inflight_count (esb_flush_tx_and_reset c s) = 0"
    using assms
    by (simp_all add: esb_flush_tx_and_reset_def restore_retransmit_count_def esb_set_retransmit_count_def
        esb_flush_tx_def clear_ack_wraps_def Let_def)
  show "ptx_inv c s \<Longrightarrow> ptx_inv c (esb_flush_tx_and_reset c s)"
    using ptx_inv_api(2) [of c s]
    by (simp add: esb_flush_tx_and_reset_def restore_retransmit_count_def esb_set_retransmit_count_def
        Let_def ptx_inv_def)
qed

lemma flush_reset_any:
  "tx_queue (esb_flush_tx_and_reset c s) = (if esb_initialized s then [] else tx_queue s)"
  "esb_initialized (esb_flush_tx_and_reset c s) = esb_initialized s"
  "ptx_inv c s \<Longrightarrow> ptx_inv c (esb_flush_tx_and_reset c s)"
  "esb_pids (esb_flush_tx_and_reset c s) = esb_pids s"
  "m_motion_refund (esb_flush_tx_and_reset c s) = m_motion_refund s"
  "uptime (esb_flush_tx_and_reset c s) = uptime s"
proof -
  show "ptx_inv c s \<Longrightarrow> ptx_inv c (esb_flush_tx_and_reset c s)"
    using ptx_inv_api(2) [of c s]
    by (simp add: esb_flush_tx_and_reset_def restore_retransmit_count_def esb_set_retransmit_count_def
        Let_def ptx_inv_def)
qed (simp_all add: esb_flush_tx_and_reset_def restore_retransmit_count_def esb_set_retransmit_count_def
    esb_flush_tx_def clear_ack_wraps_def Let_def)

text \<open>The bookkeeping between the full-FIFO test and the preparation of the payload.\<close>

definition send_account :: "kcfg \<Rightarrow> u8 \<Rightarrow> u8 list \<Rightarrow> 'a tport_scheme \<Rightarrow> 'a tport_scheme" where
  "send_account c pipe bs s =
     (let s = (if CHANNEL_HOP c
               then s\<lparr>m_recent_noack := er_push (NOACK_RING_SIZE c) (send_noack c pipe bs) (m_recent_noack s)\<rparr>
               else s);
          s = (if \<not> first_is ESB_PKT_SHELL_BG_POLL bs then note_activity s else s);
          s = hid_tx_account bs s;
          s = (if is_user_traffic bs then channel_hop_ep_note_user_tx c s else s)
      in if CRITICAL_MAX_RETRANSMIT c then critical_ring_push c bs s else s)"

lemma send_admitted_eq:
  "send_admitted c pipe bs s =
     (if esb_tx_full c s \<and> is_shell_send bs then (Some ENOMEM, s)
      else (case pointer_prepare c (send_noack c pipe bs) bs
                   (send_account c pipe bs (if esb_tx_full c s then esb_flush_tx_and_reset c s else s)) of
              (bytes, s1) \<Rightarrow> esb_write_payload c
                 \<lparr>pl_pipe = pipe, pl_noack = send_noack c pipe bs, pl_pid = 0, pl_rssi = 0,
                  pl_data = bytes\<rparr> s1))"
  by (simp add: send_admitted_def send_account_def Let_def)

lemma same_radio_account [same_radio_intros]: "same_radio (send_account c pipe bs s) s"
proof -
  define a where "a = (if CHANNEL_HOP c
               then s\<lparr>m_recent_noack := er_push (NOACK_RING_SIZE c) (send_noack c pipe bs) (m_recent_noack s)\<rparr>
               else s)"
  define b where "b = (if \<not> first_is ESB_PKT_SHELL_BG_POLL bs then note_activity a else a)"
  define d where "d = hid_tx_account bs b"
  define e where "e = (if is_user_traffic bs then channel_hop_ep_note_user_tx c d else d)"
  define f where "f = (if CRITICAL_MAX_RETRANSMIT c then critical_ring_push c bs e else e)"
  have "same_radio a s" by (simp add: a_def same_radio_def)
  moreover have "same_radio b a" by (simp add: b_def same_radio_intros)
  moreover have "same_radio d b" by (simp add: d_def same_radio_intros)
  moreover have "same_radio e d" by (simp add: e_def same_radio_intros)
  moreover have "same_radio f e" by (simp add: f_def same_radio_intros)
  moreover have "send_account c pipe bs s = f"
    unfolding send_account_def Let_def a_def b_def d_def e_def f_def by (rule refl)
  ultimately show ?thesis by (metis same_radio_trans)
qed

lemma pointer_prepare_bytes:
  "fst (pointer_prepare c noack bs s) =
     (if is_mouse_report bs
      then put_mouse_body (fst (motion_refund_apply c (mouse_body_of bs) s)) bs else bs)"
  by (auto simp: pointer_prepare_def Let_def split: prod.splits)

lemma prepared_bytes:
  assumes "pointer_prepare c noack bs s = (bytes, s1)"
  shows "length bytes = length bs \<and> (\<not> is_mouse_report bs \<longrightarrow> bytes = bs) \<and>
         (is_mouse_report bs \<longrightarrow> take 2 bytes = take 2 bs)"
proof -
  have b: "bytes = fst (pointer_prepare c noack bs s)" using assms by simp
  show ?thesis
    unfolding b pointer_prepare_bytes
    by (auto simp: is_mouse_report_def mouse_body_size_def put_mouse_body_length)
      (simp add: put_mouse_body_def)
qed

text \<open>Nothing between the push and the write touches the noack ring.\<close>

lemma noack_frames [frames]:
  "m_recent_noack (note_activity t) = m_recent_noack t"
  "m_recent_noack (hid_tx_account bs t) = m_recent_noack t"
  "m_recent_noack (channel_hop_ep_note_user_tx c t) = m_recent_noack t"
  "m_recent_noack (critical_ring_push c bs t) = m_recent_noack t"
  "m_recent_noack (motion_ring_push c b o' t) = m_recent_noack t"
  "m_recent_noack (snd (motion_refund_apply c body t)) = m_recent_noack t"
  "m_recent_noack (snd (esb_set_retransmit_count k t)) = m_recent_noack t"
  "m_recent_noack (restore_retransmit_count c t) = m_recent_noack t"
  "m_recent_noack (snd (esb_set_retransmit_delay d t)) = m_recent_noack t"
  "m_recent_noack (snd (jittered_retransmit_delay c t)) = m_recent_noack t"
  by (simp_all add: note_activity_def hid_tx_account_def channel_hop_ep_note_user_tx_def
      enter_active_state_def k_work_reschedule_def critical_ring_push_def esb_set_retransmit_count_def
      motion_ring_push_def motion_refund_apply_def restore_retransmit_count_def
      esb_set_retransmit_delay_def jittered_retransmit_delay_def Let_def)

lemma noack_account:
  "m_recent_noack (send_account c pipe bs s) =
    (if CHANNEL_HOP c then er_push (NOACK_RING_SIZE c) (send_noack c pipe bs) (m_recent_noack s)
     else m_recent_noack s)"
  by (simp add: send_account_def noack_frames Let_def)

lemma noack_prepare: "m_recent_noack (snd (pointer_prepare c k bs t)) = m_recent_noack t"
  by (simp add: pointer_prepare_def noack_frames Let_def case_prod_beta)

lemma noack_write: "m_recent_noack (snd (esb_write_payload c p t)) = m_recent_noack t"
  by (simp add: esb_write_payload_def start_tx_transaction_def Let_def split: option.splits)

text \<open>Nothing before the refund touches the refund pool.\<close>

lemma refund_frames [frames]:
  "m_motion_refund (note_activity t) = m_motion_refund t"
  "m_motion_refund (hid_tx_account bs t) = m_motion_refund t"
  "m_motion_refund (channel_hop_ep_note_user_tx c t) = m_motion_refund t"
  "m_motion_refund (critical_ring_push c bs t) = m_motion_refund t"
  "m_motion_refund (snd (esb_set_retransmit_delay d t)) = m_motion_refund t"
  "m_motion_refund (snd (jittered_retransmit_delay c t)) = m_motion_refund t"
  by (simp_all add: note_activity_def hid_tx_account_def channel_hop_ep_note_user_tx_def
      enter_active_state_def k_work_reschedule_def critical_ring_push_def esb_set_retransmit_count_def
      esb_set_retransmit_delay_def jittered_retransmit_delay_def Let_def)

lemma refund_account: "m_motion_refund (send_account c pipe bs s) = m_motion_refund s"
  by (simp add: send_account_def refund_frames Let_def)

text \<open>
  The bytes that go on the air for a report handed over as \<open>bs\<close>. Only the axes of a mouse report may
  differ from it, by what \<open>motion_refund_apply\<close> added to them.
\<close>

definition carries :: "kcfg \<Rightarrow> 'a tport_scheme \<Rightarrow> u8 list \<Rightarrow> u8 list \<Rightarrow> bool" where
  "carries c s bs bytes \<longleftrightarrow>
     (if is_mouse_report bs
      then length bytes = length bs \<and> take 2 bytes = take 2 bs \<and> drop 11 bytes = drop 11 bs \<and>
        mouse_body_of bytes = fst (motion_refund_apply c (mouse_body_of bs) s) \<and>
        (refund_empty (m_motion_refund s) \<longrightarrow> bytes = bs)
      else bytes = bs)"

lemma carries_cong:
  "m_motion_refund t = m_motion_refund s \<Longrightarrow> uptime t = uptime s \<Longrightarrow> carries c t bs bytes = carries c s bs bytes"
  using motion_refund_apply_cong [of t s c "mouse_body_of bs"] by (simp add: carries_def)

lemma prepared_carries:
  assumes "pointer_prepare c noack bs s = (bytes, s1)"
  shows "carries c s bs bytes"
proof (cases "is_mouse_report bs")
  case True
  then have l: "11 \<le> length bs" by (simp add: is_mouse_report_def mouse_body_size_def)
  have "bytes = put_mouse_body (fst (motion_refund_apply c (mouse_body_of bs) s)) bs"
    using pointer_prepare_bytes [of c noack bs s] assms True by simp
  moreover have "drop 11 (put_mouse_body b bs) = drop 11 bs \<and> take 2 (put_mouse_body b bs) = take 2 bs" for b
    using l by (simp add: put_mouse_body_def mouse_body_bytes_def)
  ultimately show ?thesis
    using True l by (simp add: carries_def put_mouse_body_length mouse_body_of_put put_mouse_body_of motion_refund_none)
qed (use prepared_bytes [OF assms] in \<open>simp add: carries_def\<close>)

text \<open>The send path, reduced to what it does to the queue and the noack ring.\<close>

lemma send_admitted_queue:
  assumes "ptx_inv c s" "length bs \<le> ESB_MAX_PAYLOAD_LEN c" "send_admitted c pipe bs s = (err, s')"
    "\<not> (esb_tx_full c s \<and> is_shell_send bs)"
    and kept: "kept = (if esb_tx_full c s \<and> esb_initialized s then [] else tx_queue s)"
  shows "if \<not> esb_initialized s then err = Some EACCES \<and> tx_queue s' = kept
    else if bs = [] then err = Some EMSGSIZE \<and> tx_queue s' = kept
    else if ESB_PIPE_COUNT \<le> unat pipe then err = Some EINVAL \<and> tx_queue s' = kept
    else err = None \<and> (\<exists>bytes. carries c s bs bytes \<and>
      tx_queue s' = kept @ [\<lparr>pl_pipe = pipe, pl_noack = send_noack c pipe bs, pl_pid = next_pid pipe s,
                            pl_rssi = 0, pl_data = bytes\<rparr>])"
    and "ptx_inv c s'" "esb_initialized s' = esb_initialized s"
    and "m_recent_noack s' =
      (let r = (if esb_tx_full c s then m_recent_noack (esb_flush_tx_and_reset c s) else m_recent_noack s)
       in if CHANNEL_HOP c then er_push (NOACK_RING_SIZE c) (send_noack c pipe bs) r else r)"
proof -
  let ?s0 = "if esb_tx_full c s then esb_flush_tx_and_reset c s else s"
  let ?a = "send_account c pipe bs ?s0"
  obtain bytes s1 where pp: "pointer_prepare c (send_noack c pipe bs) bs ?a = (bytes, s1)" by fastforce
  let ?p = "\<lparr>pl_pipe = pipe, pl_noack = send_noack c pipe bs, pl_pid = 0, pl_rssi = 0, pl_data = bytes\<rparr>"
  have w: "esb_write_payload c ?p s1 = (err, s')"
    using assms(3,4) pp by (auto simp: send_admitted_eq split: if_splits)
  have s0: "ptx_inv c ?s0" "esb_initialized ?s0 = esb_initialized s" "tx_queue ?s0 = kept"
    "esb_pids ?s0 = esb_pids s" "m_motion_refund ?s0 = m_motion_refund s" "uptime ?s0 = uptime s"
    using assms(1) flush_reset_any [of c s] by (auto simp: kept)
  have "same_radio s1 ?a" using same_radio_pointer [of c "send_noack c pipe bs" bs ?a] pp by simp
  then have r: "same_radio s1 ?s0" using same_radio_account same_radio_trans by blast
  then have inv1: "ptx_inv c s1" using s0(1) same_radio_inv by blast
  have i1: "esb_initialized s1 = esb_initialized s" "tx_queue s1 = kept" "next_pid pipe s1 = next_pid pipe s"
    using r s0 by (simp_all add: same_radio_def next_pid_def)
  have room: "length (tx_queue s1) \<noteq> ESB_TX_FIFO_SIZE c" if "esb_initialized s"
  proof (cases "esb_tx_full c s")
    case True
    then show ?thesis using that i1(2) assms(1) by (simp add: kept ptx_inv_def ring_wf_def)
  next
    case False
    then show ?thesis using i1(2) by (simp add: kept esb_tx_full_def ring_full_def)
  qed
  have "uptime ?a = uptime ?s0" using same_radio_account [of c pipe bs ?s0] by (simp add: same_radio_def)
  then have b: "carries c s bs bytes"
    using prepared_carries [OF pp] carries_cong [of ?a s] refund_account [of c pipe bs ?s0] s0(5,6) by simp
  note l = prepared_bytes [OF pp, THEN conjunct1]
  show "if \<not> esb_initialized s then err = Some EACCES \<and> tx_queue s' = kept
    else if bs = [] then err = Some EMSGSIZE \<and> tx_queue s' = kept
    else if ESB_PIPE_COUNT \<le> unat pipe then err = Some EINVAL \<and> tx_queue s' = kept
    else err = None \<and> (\<exists>bytes. carries c s bs bytes \<and>
      tx_queue s' = kept @ [\<lparr>pl_pipe = pipe, pl_noack = send_noack c pipe bs, pl_pid = next_pid pipe s,
                            pl_rssi = 0, pl_data = bytes\<rparr>])"
    using write_ptx(1,3) [OF inv1 w] i1 room b l assms(2) by (auto simp: ESB_MAX_PAYLOAD_LEN_def)
  show "ptx_inv c s'" "esb_initialized s' = esb_initialized s"
    using write_ptx(2,8) [OF inv1 w] i1(1) by simp_all
  have "m_recent_noack s' = m_recent_noack s1"
    using noack_write [of c ?p s1] w by simp
  also have "\<dots> = m_recent_noack ?a"
    using noack_prepare [of c "send_noack c pipe bs" bs ?a] pp by simp
  finally show "m_recent_noack s' =
      (let r = (if esb_tx_full c s then m_recent_noack (esb_flush_tx_and_reset c s) else m_recent_noack s)
       in if CHANNEL_HOP c then er_push (NOACK_RING_SIZE c) (send_noack c pipe bs) r else r)"
    by (simp add: noack_account Let_def)
qed

lemma carries_length:
  "carries c s bs bytes \<Longrightarrow> length bytes = length bs \<and> (is_mouse_report bs \<longrightarrow> take 2 bytes = take 2 bs) \<and>
     (\<not> is_mouse_report bs \<longrightarrow> bytes = bs)"
  by (auto simp: carries_def split: if_splits)

lemma send_cases:
  assumes "esb_transport_send c pipe bs s = (err, s')"
  obtains (toolong) "ESB_MAX_PAYLOAD_LEN c < length bs" "err = Some EMSGSIZE" "s' = s"
  | (dropped) "length bs \<le> ESB_MAX_PAYLOAD_LEN c" "esb_transport_is_quiet c s" "err = None"
      "same_radio s' s" "m_recent_noack s' = m_recent_noack s"
  | (admitted) t where "length bs \<le> ESB_MAX_PAYLOAD_LEN c" "\<not> esb_transport_is_quiet c s"
      "same_radio t s" "m_recent_noack t = m_recent_noack s" "send_admitted c pipe bs t = (err, s')"
      "m_motion_refund t = m_motion_refund s"
proof -
  obtain delay u where j: "jittered_retransmit_delay c s = (delay, u)" by fastforce
  let ?t = "snd (esb_set_retransmit_delay delay u)"
  have r: "same_radio ?t s"
    using same_radio_send_helpers(3) [of c s] j same_radio_set(2) same_radio_trans by (metis snd_conv)
  have q: "m_tx_quiet_until_ms ?t = m_tx_quiet_until_ms s" "uptime ?t = uptime s"
    "m_recent_noack ?t = m_recent_noack s" "m_motion_refund ?t = m_motion_refund s"
    using j by (auto simp: jittered_retransmit_delay_def esb_set_retransmit_delay_def Let_def)
  then have k: "k_uptime_get_32 ?t = k_uptime_get_32 s" by (simp add: k_uptime_get_32_def)
  have z: "same_radio (?t\<lparr>m_tx_quiet_until_ms := 0\<rparr>) s" using r by (simp add: same_radio_def)
  show thesis
  proof (cases "ESB_MAX_PAYLOAD_LEN c < length bs")
    case True
    then show ?thesis using assms toolong by (simp add: esb_transport_send_def)
  next
    case False
    show ?thesis
    proof (cases "esb_transport_is_quiet c s")
      case True
      with False assms have "err = None \<and> (s' = s \<or> s' = ?t)"
        using q k by (auto simp: esb_transport_send_def esb_transport_is_quiet_def j Let_def
            split: if_splits)
      then show ?thesis using dropped False True r q(3) same_radio_refl [of s] by fastforce
    next
      case quiet: False
      then have "send_admitted c pipe bs
          (if CHANNEL_HOP c \<and> m_tx_quiet_until_ms s \<noteq> 0 then ?t\<lparr>m_tx_quiet_until_ms := 0\<rparr> else ?t) = (err, s')"
        using False assms q k
        by (auto simp: esb_transport_send_def esb_transport_is_quiet_def j Let_def split: if_splits)
      then show ?thesis using admitted [OF _ quiet, of "?t\<lparr>m_tx_quiet_until_ms := 0\<rparr>"]
          admitted [OF _ quiet, of ?t] False r z q(3,4) by (auto split: if_splits)
    qed
  qed
qed

section \<open>Properties\<close>

lemma ucast_back: "ucast (ucast (x :: u8) :: u32) = x"
  by (rule bit_word_eqI) (simp add: bit_simps)

text \<open>A connected endpoint on channel 78 with an empty transmit FIFO.\<close>

definition example_quarantine :: quarantine_state where
  "example_quarantine = \<lparr>expires_at = replicate 101 0\<rparr>"

definition tport_at :: "'a \<Rightarrow> 'a tport_scheme" where
  "tport_at m = \<lparr>uptime = 2000, cycles = 7, sched = (\<lambda>_. None), m_prng_state = 1,
     esb_initialized = True, esb_cfg = ptx_config, m_esb_state = ESB_STATE_IDLE,
     tx_fifo = \<lparr>rslots = replicate 8 empty_payload, rback = 0, rfront = 0, rcount = 0\<rparr>,
     rx_fifo = \<lparr>rslots = replicate 8 empty_payload, rback = 0, rfront = 0, rcount = 0\<rparr>,
     tx_payload_buffer = \<lparr>pdu_pid = 0, pdu_no_ack = True, pdu_data = []\<rparr>,
     on_radio_disabled = NoHandler, tx_noack_timer = False, esb_pids = [0, 0],
     rx_pipe_info = replicate 2 \<lparr>pi_crc = 0, pi_pid = 0, pi_ack_payload = False\<rparr>,
     ack_in_use = replicate 8 False, ack_pl_wrap_pipe = [[], []],
     int_tx_success = False, int_tx_failed = False, int_rx_received = False,
     retransmits_remaining = 0, last_tx_attempts = 0,
     base_addr_p0 = [], base_addr_p1 = [], pipe_prefixes = [], num_pipes = 2, rx_pipes_enabled = 3,
     rf_channel = 78, radio_txaddress = 0, radio_frequency = 78,
     m_quarantine = example_quarantine, m_committed_next = 20, m_link_up = True,
     m_committed_synced = True, m_prev_channel = CHANNEL_HOP_INVALID, m_active = True,
     m_post_hop_burst_remaining = 0, m_pending_candidate = CHANNEL_HOP_INVALID,
     m_request_burst_remaining = 0, m_hop_cooldown_until = 0, m_last_link_event_ms = 1900,
     m_rendezvous_fallback_pending = False, m_coop_hop_state = COOP_IDLE,
     m_coop_hop_target = CHANNEL_HOP_INVALID, m_coop_hop_seq = 0, m_last_tx_was_offer = False,
     m_coop_hop_cooldown_until = 0,
     m_cb_set = True,
     m_addr = \<lparr>ad_base0 = [1, 2, 3, 4], ad_base1 = [5, 6, 7, 8], ad_prefixes = replicate 8 9,
               ad_channel = 78, ad_boot_channel = 78, ad_configured = True\<rparr>,
     m_sync_tx_done = 0, m_sync_tx_in_progress = False, m_sync_tx_result_success = False,
     t_rx_buf = replicate 32 0, t_rx_len = 0, tx_ok_count = 0, tx_fail_count = 0,
     tx_retried_count = 0, tx_exhausted_count = 0, consecutive_tx_fail = 0, m_hid_tx_count = 0,
     m_hid_tx_bucket_count = 0, m_hid_tx_bucket_ms = 0, m_hid_tx_rate_hz = 0,
     m_recent_critical_override = \<lparr>er_buf = replicate 8 False, er_head = 0, er_tail = 0\<rparr>,
     m_recent_motion = replicate 24 (motion_record None False),
     m_recent_motion_head = 0, m_recent_motion_tail = 0, m_motion_refund = zero_refund,
     m_pointer_inflight_count = 0, m_adaptive_retransmit_count = 5, m_first_fail_ms = 0,
     m_last_tx_success_ms = 1900, m_tx_quiet_until_ms = 0, m_link_quality_window = 0,
     m_link_quality_count = 0, m_link_quality_ewma_x10 = 10,
     m_recent_noack = \<lparr>er_buf = replicate 8 False, er_head = 0, er_tail = 0\<rparr>,
     m_link_degraded_armed = False, m_last_activity_ms = 0, m_activity_seen = False,
     m_last_tx_event_ms = 1900, m_jitter_rng = 1, m_jitter_rng_addr = 0x20001000,
     m_peer_rssi_last = 0, m_peer_rssi_ewma = 0, m_peer_rssi_valid = False,
     ppi_chen = 0, saved_bt_ll_ppi_chen = 0, bt_ll_suspended = True, hfclk_held = True,
     m_ram_vtor_installed = True, radio_vector_esb = True, \<dots> = m\<rparr>"

abbreviation tport_example :: tport where
  "tport_example \<equiv> tport_at ()"

lemma tport_example_simps:
  "ptx_inv default_kcfg (tport_at m)" "esb_initialized (tport_at m)"
  "tx_queue (tport_at m) = []" "m_esb_state (tport_at m) = ESB_STATE_IDLE"
  "ad_configured (m_addr (tport_at m))" "ad_channel (m_addr (tport_at m)) = 78"
  "\<not> m_sync_tx_in_progress (tport_at m)" "\<not> esb_transport_is_quiet default_kcfg (tport_at m)"
  "\<not> esb_tx_full default_kcfg (tport_at m)" "hop_inv default_kcfg (tport_at m)"
  "er_wf 8 (m_recent_noack (tport_at m))" "er_list 8 (m_recent_noack (tport_at m)) = []"
  by (simp_all add: tport_at_def ptx_inv_def ptx_config_def ring_wf_def ring_list_def
      esb_transport_is_quiet_def esb_tx_full_def ring_full_def hop_inv_def wf_quarantine_def
      example_quarantine_def chop_consts channel_ok_def er_wf_def er_list_def power_of_two_def)

lemma send_exact:
  assumes "ptx_inv c s" "esb_transport_send c pipe bs s = (err, s')"
  shows "if ESB_MAX_PAYLOAD_LEN c < length bs then err = Some EMSGSIZE \<and> s' = s
    else if esb_transport_is_quiet c s then err = None \<and> tx_queue s' = tx_queue s
    else if esb_tx_full c s \<and> is_shell_send bs then err = Some ENOMEM \<and> tx_queue s' = tx_queue s
    else
      (let kept = (if esb_tx_full c s \<and> esb_initialized s then [] else tx_queue s)
       in if \<not> esb_initialized s then err = Some EACCES \<and> tx_queue s' = kept
          else if bs = [] then err = Some EMSGSIZE \<and> tx_queue s' = kept
          else if ESB_PIPE_COUNT \<le> unat pipe then err = Some EINVAL \<and> tx_queue s' = kept
          else err = None \<and> (\<exists>bytes. carries c s bs bytes \<and>
            tx_queue s' = kept @ [\<lparr>pl_pipe = pipe, pl_noack = send_noack c pipe bs,
                                  pl_pid = next_pid pipe s, pl_rssi = 0, pl_data = bytes\<rparr>]))"
  using assms(2)
proof (cases rule: send_cases)
  case toolong
  then show ?thesis by simp
next
  case dropped
  then show ?thesis by (simp add: same_radio_def)
next
  case (admitted t)
  have t: "ptx_inv c t" "esb_initialized t = esb_initialized s" "tx_queue t = tx_queue s"
    "esb_tx_full c t = esb_tx_full c s" "next_pid pipe t = next_pid pipe s"
    "carries c t bs bytes = carries c s bs bytes" for bytes
    using admitted(3,6) assms(1) same_radio_inv [OF admitted(3)] carries_cong [of t s]
    by (simp_all add: same_radio_def esb_tx_full_def next_pid_def)
  show ?thesis
  proof (cases "esb_tx_full c s \<and> is_shell_send bs")
    case True
    then have "err = Some ENOMEM" "s' = t" using admitted(5) t(4) by (auto simp: send_admitted_eq)
    with True admitted t(3) show ?thesis by simp
  next
    case False
    note q = send_admitted_queue(1) [OF t(1) admitted(1,5) _ refl]
    show ?thesis using False q admitted(1,2) unfolding t Let_def by auto
  qed
qed

lemma send_outcome:
  assumes "ptx_inv c s" "esb_initialized s" "bs \<noteq> []" "unat pipe < ESB_PIPE_COUNT"
    "esb_transport_send c pipe bs s = (err, s')"
  shows "if ESB_MAX_PAYLOAD_LEN c < length bs then err = Some EMSGSIZE \<and> s' = s
    else if esb_transport_is_quiet c s then err = None \<and> tx_queue s' = tx_queue s
    else if esb_tx_full c s \<and> is_shell_send bs then err = Some ENOMEM \<and> tx_queue s' = tx_queue s
    else err = None \<and>
      (\<exists>p. tx_queue s' = (if esb_tx_full c s then [] else tx_queue s) @ [p] \<and> pl_pipe p = pipe \<and>
           length (pl_data p) = length bs \<and>
           (if is_mouse_report bs then take 2 (pl_data p) = take 2 bs else pl_data p = bs))"
proof -
  have "\<exists>p. tx_queue s' = q @ [p] \<and> pl_pipe p = pipe \<and> length (pl_data p) = length bs \<and>
      (if is_mouse_report bs then take 2 (pl_data p) = take 2 bs else pl_data p = bs)"
    if "carries c s bs bytes" "tx_queue s' = q @ [\<lparr>pl_pipe = pipe, pl_noack = send_noack c pipe bs,
      pl_pid = next_pid pipe s, pl_rssi = 0, pl_data = bytes\<rparr>]" for q bytes
    using carries_length [OF that(1)] that(2) by simp
  then show ?thesis
    using send_exact [OF assms(1,5)] assms(2-4) unfolding Let_def by (auto split del: if_split split: if_splits)
qed

lemma example_send:
  obtains s' p where
    "esb_transport_send default_kcfg ESB_PIPE_DATA (encode PktIdle) tport_example = (None, s')"
    "tx_queue s' = [p]"
proof -
  obtain err s' where e: "esb_transport_send default_kcfg ESB_PIPE_DATA (encode PktIdle) tport_example = (err, s')"
    by fastforce
  have "unat ESB_PIPE_DATA < ESB_PIPE_COUNT" by (simp add: pipe_consts ESB_PIPE_COUNT_def)
  from send_outcome [OF tport_example_simps(1,2) encode_nonempty(1) this e] that e
  show thesis by (auto simp: tport_example_simps ESB_MAX_PAYLOAD_LEN_def)
qed

text \<open>A report of 32000 counts to the right, and 1000 more in the refund pool.\<close>

definition body_example :: esb_mouse_body where
  "body_example = \<lparr>mb_buttons = 0, mb_d_x = 32000, mb_d_y = 5, mb_d_scroll_y = 0, mb_d_scroll_x = 0\<rparr>"

definition refund_example :: tport where
  "refund_example = tport_example\<lparr>m_motion_refund :=
     \<lparr>rf_dx = 1000, rf_dy = -7, rf_scroll_x = 0, rf_scroll_y = 0, rf_stamp_ms = 1990\<rparr>\<rparr>"

definition mouse_example :: "u8 list" where
  "mouse_example = put_mouse_body body_example ([ESB_PKT_HID_REPORT, ESB_REPORT_MOUSE] @ replicate 9 0)"

lemma mouse_example_simps:
  "length mouse_example = 11" "is_mouse_report mouse_example" "mouse_body_of mouse_example = body_example"
  "\<not> is_shell_send mouse_example"
proof -
  show l: "length mouse_example = 11" "is_mouse_report mouse_example"
    by (simp_all add: mouse_example_def put_mouse_body_length is_mouse_report_def mouse_body_size_def)
      (simp_all add: put_mouse_body_def)
  show "mouse_body_of mouse_example = body_example"
    by (simp add: mouse_example_def mouse_body_of_put)
  show "\<not> is_shell_send mouse_example"
    by (simp add: is_shell_send_def first_is_def mouse_example_def put_mouse_body_def pkt_consts)
qed

lemma refund_example_simps:
  "ptx_inv default_kcfg refund_example" "esb_initialized refund_example" "tx_queue refund_example = []"
  "\<not> esb_transport_is_quiet default_kcfg refund_example" "\<not> esb_tx_full default_kcfg refund_example"
proof -
  show "\<not> esb_transport_is_quiet default_kcfg refund_example"
    by (simp add: refund_example_def esb_transport_is_quiet_def tport_at_def)
qed (use tport_example_simps(1-3,9) [of "()"] in \<open>simp_all add: refund_example_def ptx_inv_def esb_tx_full_def\<close>)

lemma refund_example_apply:
  "fst (motion_refund_apply default_kcfg body_example refund_example) =
     body_example\<lparr>mb_d_x := 32767, mb_d_y := -2\<rparr>"
  by (simp add: motion_refund_apply_def refund_stale_def refund_example_def body_example_def tport_at_def
      k_uptime_get_32_def msec_def refund_empty_iff sat16_def Let_def)

text \<open>
  C15. What a send does, in every case. A packet longer than the ESB payload is refused; during the
  quiet window after a hop, or while a blocking send is on the radio, it is dropped as if sent
  and the queue does not change; a shell packet that meets a full FIFO is refused without
  touching the queue. Any other packet first empties a full FIFO, if the radio is initialised,
  and is then refused when the radio is off, the packet empty or the pipe out of range;
  otherwise it is queued last, to its pipe, with the next packet id of the pipe and the flag
  \<open>send_noack\<close> computes. Its bytes are those handed over, except that the four axes of a mouse
  report are those \<open>motion_refund_apply\<close> returns: with an empty refund pool no byte differs.
\<close>

theorem transport_send_outcome:
  assumes "ptx_inv c s" "esb_transport_send c pipe bs s = (err, s')"
  shows "if ESB_MAX_PAYLOAD_LEN c < length bs then err = Some EMSGSIZE \<and> s' = s
    else if esb_transport_is_quiet c s then err = None \<and> tx_queue s' = tx_queue s
    else if esb_tx_full c s \<and> is_shell_send bs then err = Some ENOMEM \<and> tx_queue s' = tx_queue s
    else
      (let kept = (if esb_tx_full c s \<and> esb_initialized s then [] else tx_queue s)
       in if \<not> esb_initialized s then err = Some EACCES \<and> tx_queue s' = kept
          else if bs = [] then err = Some EMSGSIZE \<and> tx_queue s' = kept
          else if ESB_PIPE_COUNT \<le> unat pipe then err = Some EINVAL \<and> tx_queue s' = kept
          else err = None \<and> (\<exists>bytes. carries c s bs bytes \<and>
            tx_queue s' = kept @ [\<lparr>pl_pipe = pipe, pl_noack = send_noack c pipe bs,
                                  pl_pid = next_pid pipe s, pl_rssi = 0, pl_data = bytes\<rparr>]))"
  by (rule send_exact [OF assms])

text \<open>The report of 32000 counts takes 767 of the 1000 pooled ones with it.\<close>

theorem transport_send_outcome_witness:
  "\<exists>s' p. esb_transport_send default_kcfg ESB_PIPE_DATA mouse_example refund_example = (None, s') \<and>
     tx_queue s' = [p] \<and> pl_pipe p = ESB_PIPE_DATA \<and> length (pl_data p) = 11 \<and>
     mouse_body_of (pl_data p) = body_example\<lparr>mb_d_x := 32767, mb_d_y := -2\<rparr>"
proof -
  obtain err s' where e: "esb_transport_send default_kcfg ESB_PIPE_DATA mouse_example refund_example = (err, s')"
    by fastforce
  have "unat ESB_PIPE_DATA < ESB_PIPE_COUNT" "mouse_example \<noteq> []"
    using mouse_example_simps(1) by (auto simp: pipe_consts ESB_PIPE_COUNT_def)
  then show ?thesis
    using transport_send_outcome [OF refund_example_simps(1) e] e
    by (auto simp: refund_example_simps mouse_example_simps ESB_MAX_PAYLOAD_LEN_def carries_def
        refund_example_apply Let_def)
qed

definition sends_in_step :: "kcfg \<Rightarrow> 'a tport_scheme \<Rightarrow> bool" where
  "sends_in_step c s \<longleftrightarrow> er_wf (NOACK_RING_SIZE c) (m_recent_noack s) \<and>
     er_list (NOACK_RING_SIZE c) (m_recent_noack s) = map pl_noack (tx_queue s)"

lemma drained_noack:
  "CHANNEL_HOP c \<Longrightarrow> m_recent_noack (esb_flush_tx_and_reset c s) = er_drain (m_recent_noack s)"
  by (simp add: esb_flush_tx_and_reset_def noack_frames esb_flush_tx_def clear_ack_wraps_def Let_def)

text \<open>A ring that is pushed while it is full overwrites its oldest entry, and counts one too many.\<close>

lemma er_push_overflow:
  assumes "er_wf sz r" "length (er_list sz r) = sz"
  shows "er_front sz (er_push sz x r) = x" "\<not> er_wf sz (er_push sz x r)"
proof -
  have p: "power_of_two sz" "0 < sz" "sz \<le> 128" "length (er_buf r) = sz" "unat (er_head r - er_tail r) = sz"
    using assms power_of_two_bound by (auto simp: er_wf_def)
  have "unat (er_head r) mod sz = unat (er_tail r) mod sz"
  proof -
    have "(of_nat (unat (er_head r - er_tail r)) :: u8) = er_head r - er_tail r" by simp
    then have "er_tail r + of_nat sz = er_head r" unfolding p(5) by (metis add_diff_cancel_left' diff_add_cancel add.commute)
    with unat_add_mod [OF p(1), of "er_tail r" sz] show ?thesis by simp
  qed
  then show "er_front sz (er_push sz x r) = x"
    using p by (simp add: er_front_def er_push_def er_slot_mod)
  have "unat (er_head r + 1 - er_tail r) = Suc sz"
    using unat_inc [of "er_head r - er_tail r"] p(3,5) by (simp add: diff_add_eq)
  then show "\<not> er_wf sz (er_push sz x r)" by (simp add: er_wf_def er_push_def)
qed

text \<open>
  C16. When the noack ring of a build with channel hopping stays in step with the transmit FIFO. If
  the ring lists exactly the acknowledgement flags of the queued packets, it still does after
  any send on an initialised radio, refused, dropped or queued, with one exception: a packet
  queued behind as many packets as the ring is deep, while the FIFO still has room, overwrites
  the oldest entry, and the next transmission event reads the new packet's flag. A FIFO no
  deeper than the ring excludes the exception. The defaults of a build with the shell relay do
  not: the FIFO has 32 entries there and the ring 8. Without \<open>HID_NOACK\<close> all flags are false, and what is
  out of step is only the count.
\<close>

theorem transport_send_in_step:
  assumes "ptx_inv c s" "esb_initialized s" "bs \<noteq> []" "unat pipe < ESB_PIPE_COUNT" "CHANNEL_HOP c"
    "sends_in_step c s" "esb_transport_send c pipe bs s = (err, s')"
  shows "let overflow = (length bs \<le> ESB_MAX_PAYLOAD_LEN c \<and> \<not> esb_transport_is_quiet c s \<and>
      \<not> esb_tx_full c s \<and> length (tx_queue s) = NOACK_RING_SIZE c)
    in sends_in_step c s' = (\<not> overflow) \<and>
       (if overflow then er_front (NOACK_RING_SIZE c) (m_recent_noack s') = send_noack c pipe bs
        else True)"
  using assms(7)
proof (cases rule: send_cases)
  case dropped
  then show ?thesis using assms(6) by (simp add: sends_in_step_def same_radio_def)
next
  case (admitted t)
  let ?n = "NOACK_RING_SIZE c"
  have t: "ptx_inv c t" "esb_initialized t" "tx_queue t = tx_queue s" "esb_tx_full c t = esb_tx_full c s"
    "er_wf ?n (m_recent_noack t)" "er_list ?n (m_recent_noack t) = map pl_noack (tx_queue t)"
    using admitted(3,4) assms(1,2,6) same_radio_inv [OF admitted(3)]
    by (simp_all add: same_radio_def esb_tx_full_def sends_in_step_def)
  show ?thesis
  proof (cases "esb_tx_full c t \<and> is_shell_send bs")
    case True
    then have "s' = t" using admitted(5) by (auto simp: send_admitted_eq)
    with t True show ?thesis by (simp add: sends_in_step_def)
  next
    case False
    let ?r = "if esb_tx_full c t then er_drain (m_recent_noack t) else m_recent_noack t"
    let ?q = "if esb_tx_full c t then [] else tx_queue t"
    obtain p where o: "tx_queue s' = ?q @ [p]" "pl_noack p = send_noack c pipe bs"
      "m_recent_noack s' = er_push ?n (send_noack c pipe bs) ?r"
      using send_admitted_queue(1,4) [OF t(1) admitted(1,5) False refl] t(2) assms(3-5)
      by (auto simp: drained_noack Let_def)
    have r: "er_wf ?n ?r" "er_list ?n ?r = map pl_noack ?q"
      using t(5,6) by (simp_all add: er_list_drain)
    have n: "0 < ?n" using t(5) power_of_two_bound by (auto simp: er_wf_def)
    have len: "length (er_list ?n ?r) = length ?q" unfolding r(2) by (rule length_map)
    show ?thesis
    proof (cases "length ?q = ?n")
      case True
      then have e: "\<not> esb_tx_full c s" "length (tx_queue s) = ?n" using n t(3,4) by (auto split: if_splits)
      have "\<not> sends_in_step c s'"
        using er_push_overflow(2) [OF r(1)] len True by (simp add: sends_in_step_def o(3))
      with e er_push_overflow(1) [OF r(1)] len True admitted(1,2) show ?thesis by (simp add: o(3))
    next
      case ne: False
      have "length (er_list ?n ?r) \<le> ?n" using r(1) by (simp add: er_wf_def)
      then have "length (er_list ?n ?r) < ?n" using ne len by simp
      then have "er_wf ?n (m_recent_noack s')"
        "er_list ?n (m_recent_noack s') = map pl_noack ?q @ [send_noack c pipe bs]"
        using sends.wf_push [OF r(1)] sends.contents_push [OF r(1)] r(2) o(3) by simp_all
      then have "sends_in_step c s'" using o(1,2) by (simp add: sends_in_step_def)
      moreover have "\<not> (\<not> esb_tx_full c s \<and> length (tx_queue s) = ?n)" using ne t(3,4) by auto
      ultimately show ?thesis by auto
    qed
  qed
qed (use assms(6) in simp)

text \<open>
  With the defaults the ring keeps step; with the FIFO of a build with the shell relay, a ninth
  packet puts it out of step.
\<close>

definition shell_fifo_kcfg :: kcfg where
  "shell_fifo_kcfg = default_kcfg\<lparr>ESB_TX_FIFO_SIZE := 32\<rparr>"

definition eight_queued :: tport where
  "eight_queued = tport_example\<lparr>
     tx_fifo := \<lparr>rslots = replicate 32 empty_payload, rback = 8, rfront = 0, rcount = 8\<rparr>,
     m_recent_noack := \<lparr>er_buf = replicate 8 False, er_head = 8, er_tail = 0\<rparr>\<rparr>"

lemma eight_queued_simps:
  "ptx_inv shell_fifo_kcfg eight_queued" "esb_initialized eight_queued" "sends_in_step shell_fifo_kcfg eight_queued"
  "length (tx_queue eight_queued) = 8" "\<not> esb_tx_full shell_fifo_kcfg eight_queued"
  "\<not> esb_transport_is_quiet shell_fifo_kcfg eight_queued"
proof -
  have c: "NOACK_RING_SIZE shell_fifo_kcfg = 8" "ESB_TX_FIFO_SIZE shell_fifo_kcfg = 32" "CHANNEL_HOP shell_fifo_kcfg"
    by (simp_all add: shell_fifo_kcfg_def)
  have q: "tx_queue eight_queued = replicate 8 empty_payload"
    by (intro nth_equalityI) (simp_all add: eight_queued_def ring_list_def)
  show "ptx_inv shell_fifo_kcfg eight_queued" "esb_initialized eight_queued"
    using tport_example_simps(1,2) [of "()"]
    by (simp_all add: eight_queued_def ptx_inv_def ring_wf_def shell_fifo_kcfg_def)
  show "length (tx_queue eight_queued) = 8" by (simp add: q)
  show "\<not> esb_tx_full shell_fifo_kcfg eight_queued"
    by (simp add: esb_tx_full_def ring_full_def eight_queued_def c)
  show "\<not> esb_transport_is_quiet shell_fifo_kcfg eight_queued"
    by (simp add: esb_transport_is_quiet_def eight_queued_def tport_at_def)
  show "sends_in_step shell_fifo_kcfg eight_queued"
  proof -
    have "er_list 8 (m_recent_noack eight_queued) = replicate 8 False"
      by (intro nth_equalityI) (simp_all add: eight_queued_def er_list_def)
    moreover have "er_wf 8 (m_recent_noack eight_queued)" by (simp add: er_wf_def eight_queued_def power_of_two_def)
    ultimately show ?thesis unfolding sends_in_step_def c q by (simp add: empty_payload_def)
  qed
qed

theorem transport_send_in_step_witness:
  "(\<exists>s'. sends_in_step default_kcfg (s' :: tport) \<and> length (tx_queue s') = 1) \<and>
   \<not> sends_in_step shell_fifo_kcfg (snd (esb_transport_send shell_fifo_kcfg ESB_PIPE_DATA (encode PktIdle) eight_queued))"
proof
  have pipe: "unat ESB_PIPE_DATA < ESB_PIPE_COUNT" by (simp add: pipe_consts ESB_PIPE_COUNT_def)
  obtain s' p where e: "esb_transport_send default_kcfg ESB_PIPE_DATA (encode PktIdle) tport_example = (None, s')"
      "tx_queue s' = [p]"
    by (rule example_send)
  have "sends_in_step default_kcfg tport_example"
    by (simp add: sends_in_step_def tport_example_simps)
  from transport_send_in_step [OF tport_example_simps(1,2) encode_nonempty(1) pipe _ this e(1)]
  have "sends_in_step default_kcfg s'" by (simp add: tport_example_simps Let_def)
  with e(2) show "\<exists>s'. sends_in_step default_kcfg (s' :: tport) \<and> length (tx_queue s') = 1"
    by (intro exI [of _ s']) simp
  let ?send = "esb_transport_send shell_fifo_kcfg ESB_PIPE_DATA (encode PktIdle) eight_queued"
  have "CHANNEL_HOP shell_fifo_kcfg" "NOACK_RING_SIZE shell_fifo_kcfg = 8" "length (encode PktIdle) \<le> ESB_MAX_PAYLOAD_LEN shell_fifo_kcfg"
    by (simp_all add: shell_fifo_kcfg_def ESB_MAX_PAYLOAD_LEN_def)
  then show "\<not> sends_in_step shell_fifo_kcfg (snd ?send)"
    using transport_send_in_step [OF eight_queued_simps(1,2) encode_nonempty(1) [of PktIdle] pipe _ eight_queued_simps(3) prod.collapse [symmetric]]
    using eight_queued_simps(4) by (simp add: eight_queued_simps(5,6) Let_def)
qed

text \<open>
  The link-quality counter is the number of bad events in the window: recording an event
  keeps the counter equal to the population count of the last \<open>LINK_QUALITY_WINDOW\<close> bits (the
  window never holds a bit beyond them), and keeps the average of attempts between one attempt
  and the largest number of attempts seen.
\<close>

theorem link_quality_window_exact:
  assumes "lq_inv c s" "kcfg_ranges c"
    and "10 \<le> unat (m_link_quality_ewma_x10 s)" "unat (m_link_quality_ewma_x10 s) \<le> 10 * n"
    and "1 \<le> unat attempts" "unat attempts \<le> n"
  shows "lq_inv c (link_quality_record c attempts b s) \<and> lq_inv c (link_quality_shift_window c b s) \<and>
    10 \<le> unat (m_link_quality_ewma_x10 (link_quality_record c attempts b s)) \<and>
    unat (m_link_quality_ewma_x10 (link_quality_record c attempts b s)) \<le> 10 * n"
proof -
  have w: "lq_inv c (link_quality_shift_window c b s)"
    using lq_shift [OF assms(1)] assms(2) by (simp add: kcfg_ranges_def)
  have "m_link_quality_ewma_x10 (link_quality_shift_window c b s) = m_link_quality_ewma_x10 s"
    by (simp add: link_quality_shift_window_def Let_def)
  with w ewma_step_bounds [OF assms(3-6)] show ?thesis
    by (simp add: link_quality_record_def Let_def lq_inv_def)
qed

theorem link_quality_window_exact_witness:
  "lq_inv default_kcfg (link_quality_record default_kcfg 3 True tport_example)"
proof -
  have "lq_inv default_kcfg tport_example"
    by (simp add: lq_inv_def tport_at_def popcount_def)
  moreover have "kcfg_ranges default_kcfg" using default_kcfg_valid by (simp only: valid_kcfg_def)
  moreover have "m_link_quality_ewma_x10 tport_example = 10" by (simp add: tport_at_def)
  ultimately show ?thesis
    using link_quality_window_exact [of default_kcfg tport_example 6 3 True] by simp
qed

text \<open>
  C17. The adaptive retransmit count stays inside its configured bounds and never falls when
  the average number of attempts rises.
\<close>

theorem adaptive_retry_monotone:
  assumes "adaptive_ok c"
    and "unat (m_link_quality_ewma_x10 s) \<le> unat (m_link_quality_ewma_x10 t)"
  shows "ADAPTIVE_RETRY_COUNT_MIN c \<le> unat (adaptive_retry_target c s) \<and>
    unat (adaptive_retry_target c s) \<le> unat (adaptive_retry_target c t) \<and>
    unat (adaptive_retry_target c t) \<le> ADAPTIVE_RETRY_COUNT_MAX c"
proof -
  have m: "ADAPTIVE_RETRY_COUNT_MIN c \<le> ADAPTIVE_RETRY_COUNT_MAX c"
    using assms(1) by (simp add: adaptive_ok_def)
  show ?thesis
    using retry_curve_range [OF m] retry_curve_mono [OF m assms(2)]
    by (simp add: adaptive_retry_target_eq [OF assms(1)])
qed

theorem adaptive_retry_monotone_witness:
  "unat (adaptive_retry_target default_kcfg tport_example) \<le>
   unat (adaptive_retry_target default_kcfg (tport_example\<lparr>m_link_quality_ewma_x10 := 30\<rparr>))"
proof -
  have "adaptive_ok default_kcfg"
    using default_kcfg_valid by (simp add: adaptive_ok_def valid_kcfg_def)
  from adaptive_retry_monotone [OF this, of tport_example "tport_example\<lparr>m_link_quality_ewma_x10 := 30\<rparr>"]
  show ?thesis by (simp add: tport_at_def)
qed

text \<open>
  The jittered retransmission delay stays within an eighth of the configured one, whatever
  the generator returns; with the default configuration the radio library accepts every one.
\<close>

theorem jitter_within_eighth:
  assumes "100 + RETRANSMIT_DELAY_US c div 8 \<le> RETRANSMIT_DELAY_US c"
    and "RETRANSMIT_DELAY_US c + RETRANSMIT_DELAY_US c div 8 < 2 ^ 16"
    and "jittered_retransmit_delay c s = (d, s')"
  shows "RETRANSMIT_DELAY_US c - RETRANSMIT_DELAY_US c div 8 \<le> unat d \<and>
         unat d \<le> RETRANSMIT_DELAY_US c + RETRANSMIT_DELAY_US c div 8"
  by (rule jittered_delay_range [OF assms])

theorem jitter_within_eighth_witness:
  "fst (esb_set_retransmit_delay (fst (jittered_retransmit_delay default_kcfg tport_example)) tport_example)
     = None"
proof -
  obtain d s' where d: "jittered_retransmit_delay default_kcfg tport_example = (d, s')" by fastforce
  from jitter_within_eighth [OF _ _ d] have "499 \<le> unat d" by simp
  then show ?thesis
    by (simp add: d esb_set_retransmit_delay_def tport_example_simps RETRANSMIT_DELAY_MIN_def
        word_less_nat_alt)
qed

text \<open>
  C18. No pointer motion is created or lost by the refund. A pool older than the bound is dropped and
  the report goes out as it is. Otherwise, on each of the four axes, the 32-bit sum of report and
  pool is the same before and after, and so is their sum as a number whenever it fits in 32 bits;
  a remainder stays in the pool only where the report is cut at the end of the 16-bit range, and
  points the same way. The buttons are untouched, and the pool's age starts afresh once it has
  been emptied.
\<close>

theorem refund_conserves_motion:
  assumes "motion_refund_apply c body s = (body', s')"
  shows "mb_buttons body' = mb_buttons body \<and> s' = s\<lparr>m_motion_refund := m_motion_refund s'\<rparr> \<and>
    (if refund_stale c s then body' = body \<and> m_motion_refund s' = zero_refund
     else list_all2 axis_kept (motion_axes body s) (motion_axes body' s') \<and>
       rf_stamp_ms (m_motion_refund s') =
         (if refund_empty (m_motion_refund s') \<and> \<not> refund_empty (m_motion_refund s) then 0
          else rf_stamp_ms (m_motion_refund s)))"
proof (cases "refund_stale c s \<or> refund_empty (m_motion_refund s)")
  case True
  then show ?thesis
    using assms axis_kept_zero
    by (auto simp: motion_refund_apply_def motion_axes_def refund_empty_iff)
next
  case False
  then have "list_all2 axis_kept (motion_axes body s) (motion_axes body' s')"
    using assms axis_kept_apply [OF refl]
    by (auto simp: motion_refund_apply_def motion_axes_def Let_def)
  moreover have "mb_buttons body' = mb_buttons body \<and> s' = s\<lparr>m_motion_refund := m_motion_refund s'\<rparr> \<and>
      rf_stamp_ms (m_motion_refund s') =
        (if refund_empty (m_motion_refund s') then 0 else rf_stamp_ms (m_motion_refund s))"
    using assms False by (auto simp: motion_refund_apply_def refund_empty_def Let_def)
  ultimately show ?thesis using False by simp
qed

theorem refund_conserves_motion_witness:
  "\<exists>b s. motion_refund_apply default_kcfg body_example refund_example = (b, s) \<and>
     list_all2 axis_kept (motion_axes body_example refund_example) (motion_axes b s) \<and>
     sint (mb_d_x b) = 32767 \<and> rf_dx (m_motion_refund s) = 233"
proof -
  obtain b s where a: "motion_refund_apply default_kcfg body_example refund_example = (b, s)" by fastforce
  have "\<not> refund_stale default_kcfg refund_example"
    by (simp add: refund_stale_def refund_example_def tport_at_def msec_def k_uptime_get_32_def)
  then have k: "list_all2 axis_kept (motion_axes body_example refund_example) (motion_axes b s)"
    using refund_conserves_motion [OF a] by simp
  have "mb_d_x b = 32767" using refund_example_apply a by (simp add: body_example_def)
  moreover have "scast (mb_d_x b) + rf_dx (m_motion_refund s) = scast (mb_d_x body_example) + rf_dx (m_motion_refund refund_example)"
    using k by (simp add: motion_axes_def axis_kept_def Let_def)
  ultimately have "rf_dx (m_motion_refund s) = 233"
    by (simp add: body_example_def refund_example_def algebra_simps)
  with k a \<open>mb_d_x b = 32767\<close> show ?thesis by simp
qed

text \<open>
  C14. Switching the channel moves radio and transport together or not at all. It is refused exactly when the
  link has no addresses, the channel is off the band or the radio is not idle; then the active
  channel, the radio's channel and the link history stay. Accepted, radio and transport agree on
  the new channel, the peer's signal strength is forgotten and, with channel hopping, the failure,
  quality and refund histories start afresh and sends are muted for the quiet window. The
  rendezvous channel never changes. But the transmit queue of an initialised radio is lost, and no
  pointer report counts as in flight, even when the switch is refused afterwards; and a radio
  that has been switched off does not refuse.
\<close>

theorem set_channel_all_or_nothing:
  assumes "esb_transport_set_channel c ch s = (err, s')"
  shows "err = (if \<not> ad_configured (m_addr s) then Some ENODEV
                else if 100 < unat ch then Some EINVAL
                else if m_esb_state s \<noteq> ESB_STATE_IDLE then Some EBUSY else None) \<and>
    esb_transport_get_rendezvous_channel s' = esb_transport_get_rendezvous_channel s \<and>
    tx_queue s' = (if ad_configured (m_addr s) \<and> esb_initialized s then [] else tx_queue s) \<and>
    m_pointer_inflight_count s' = (if ad_configured (m_addr s) then 0 else m_pointer_inflight_count s) \<and>
    (if err \<noteq> None
     then esb_transport_get_channel s' = esb_transport_get_channel s \<and> rf_channel s' = rf_channel s \<and>
       consecutive_tx_fail s' = consecutive_tx_fail s \<and> m_peer_rssi_valid s' = m_peer_rssi_valid s
     else esb_transport_get_channel s' = ch \<and> rf_channel s' = ch \<and>
       consecutive_tx_fail s' = 0 \<and> \<not> m_peer_rssi_valid s') \<and>
    (if err = None \<and> CHANNEL_HOP c
     then m_first_fail_ms s' = 0 \<and> m_last_tx_success_ms s' = 0 \<and> m_link_quality_count s' = 0 \<and>
       m_link_quality_window s' = 0 \<and> m_link_quality_ewma_x10 s' = 10 \<and> m_motion_refund s' = zero_refund \<and>
       m_tx_quiet_until_ms s' = stamp (k_uptime_get_32 s + msec (HOP_POST_QUIET_MS c))
     else m_first_fail_ms s' = m_first_fail_ms s \<and> m_last_tx_success_ms s' = m_last_tx_success_ms s \<and>
       m_link_quality_count s' = m_link_quality_count s \<and> m_link_quality_window s' = m_link_quality_window s \<and>
       m_link_quality_ewma_x10 s' = m_link_quality_ewma_x10 s \<and> m_motion_refund s' = m_motion_refund s \<and>
       m_tx_quiet_until_ms s' = m_tx_quiet_until_ms s)"
proof -
  let ?f = "esb_flush_tx_and_reset c s"
  have f: "m_esb_state ?f = m_esb_state s" "m_addr ?f = m_addr s" "rf_channel ?f = rf_channel s"
    "m_first_fail_ms ?f = m_first_fail_ms s" "m_last_tx_success_ms ?f = m_last_tx_success_ms s"
    "m_link_quality_count ?f = m_link_quality_count s" "m_link_quality_window ?f = m_link_quality_window s"
    "m_link_quality_ewma_x10 ?f = m_link_quality_ewma_x10 s" "m_tx_quiet_until_ms ?f = m_tx_quiet_until_ms s"
    "consecutive_tx_fail ?f = consecutive_tx_fail s" "m_peer_rssi_valid ?f = m_peer_rssi_valid s"
    "m_pointer_inflight_count ?f = 0"
    by (simp_all add: esb_flush_tx_and_reset_def restore_retransmit_count_def
        esb_set_retransmit_count_def esb_flush_tx_def clear_ack_wraps_def Let_def)
  note f = f flush_reset_any(1,5,6) [of c s]
  have ch: "(100 < (ucast ch :: u32)) = (100 < unat ch)"
    using unsigned_less [of ch, where 'a = nat]
    by (simp add: word_less_nat_alt unsigned_ucast_eq take_bit_eq_mod)
  have rf: "esb_set_rf_channel (ucast ch) ?f =
      (if 100 < unat ch then (Some EINVAL, ?f) else if m_esb_state s \<noteq> ESB_STATE_IDLE then (Some EBUSY, ?f)
       else (None, ?f\<lparr>rf_channel := ch\<rparr>))"
    by (simp add: esb_set_rf_channel_def ch ucast_back f(1))
  show ?thesis
  proof (cases "ad_configured (m_addr s)")
    case False
    then have "err = Some ENODEV" "s' = s" using assms by (auto simp: esb_transport_set_channel_def)
    with False show ?thesis by simp
  next
    case conf: True
    show ?thesis
    proof (cases "100 < unat ch \<or> m_esb_state s \<noteq> ESB_STATE_IDLE")
      case True
      then have "err = Some (if 100 < unat ch then EINVAL else EBUSY)" "s' = ?f"
        using assms conf by (auto simp: esb_transport_set_channel_def rf split: if_splits)
      with True conf show ?thesis
        by (cases "100 < unat ch") (simp_all add: f esb_transport_get_channel_def esb_transport_get_rendezvous_channel_def)
    next
      case False
      then have "err = None" "s' = (let t = ?f\<lparr>rf_channel := ch, m_addr := (m_addr s)\<lparr>ad_channel := ch\<rparr>,
          consecutive_tx_fail := 0, m_peer_rssi_valid := False\<rparr>
        in if CHANNEL_HOP c then reset_link_history c t else t)"
        using assms conf by (auto simp: esb_transport_set_channel_def rf f(2) Let_def)
      with False conf show ?thesis
        by (simp add: f reset_link_history_def esb_transport_get_channel_def k_uptime_get_32_def
            esb_transport_get_rendezvous_channel_def Let_def)
    qed
  qed
qed

theorem set_channel_all_or_nothing_witness:
  "\<exists>s'. esb_transport_set_channel default_kcfg 20 eight_queued = (None, s') \<and>
        esb_transport_get_channel s' = 20 \<and> rf_channel s' = 20 \<and> tx_queue s' = []"
proof -
  obtain err s' where e: "esb_transport_set_channel default_kcfg 20 eight_queued = (err, s')" by fastforce
  have "ad_configured (m_addr eight_queued)" "m_esb_state eight_queued = ESB_STATE_IDLE"
    by (simp_all add: eight_queued_def tport_example_simps)
  with set_channel_all_or_nothing [OF e] e show ?thesis by (simp add: eight_queued_simps(2))
qed

text \<open>
  C19. The flush requested from outside always comes back, and what it leaves. Whatever runs while it
  sleeps, the wait is a finite number of sleeps, the fewest after which a quiet spell or the
  forced deadline ends it. Then an initialised radio has an empty transmit queue, while one that
  is off keeps its queue; in either case the noack and override rings and the motion ring are
  drained and no pointer report counts as in flight. Motion waiting to be refunded is kept, a
  packet on the air is not stopped, and the retransmit count is put back only if the radio is
  idle at that moment.
\<close>

theorem flush_tx_returns:
  assumes "sleeps sleep" "kcfg_ranges c"
  shows "\<exists>n t s'. esb_transport_flush_tx c sleep s = Some s' \<and> t = (sleep ^^ n) s \<and>
    (if FLUSH_QUIET_MS c = 0 then n = 0
     else flush_may_stop c (k_uptime_get_32 s) t \<and>
       (\<forall>m<n. \<not> flush_may_stop c (k_uptime_get_32 s) ((sleep ^^ m) s))) \<and>
    tx_queue s' = (if esb_initialized t then [] else tx_queue t) \<and>
    (if CHANNEL_HOP c then er_list (NOACK_RING_SIZE c) (m_recent_noack s') = [] else True) \<and>
    (if CRITICAL_MAX_RETRANSMIT c
     then er_list (CRIT_OVERRIDE_RING_SIZE c) (m_recent_critical_override s') = [] else True) \<and>
    m_recent_motion_tail s' = m_recent_motion_head s' \<and> m_pointer_inflight_count s' = 0 \<and>
    m_motion_refund s' = m_motion_refund t \<and> m_esb_state s' = m_esb_state t \<and>
    retransmit_count (esb_cfg s') =
      (if m_esb_state t \<noteq> ESB_STATE_IDLE then retransmit_count (esb_cfg t)
       else if CHANNEL_HOP c \<and> ADAPTIVE_RETRY c then ucast (m_adaptive_retransmit_count t)
       else of_nat (RETRANSMIT_COUNT c))"
proof -
  obtain n t where n: "esb_transport_flush_tx c sleep s = Some (esb_flush_tx_and_reset c t)" "t = (sleep ^^ n) s"
    "if FLUSH_QUIET_MS c = 0 then n = 0
     else flush_may_stop c (k_uptime_get_32 s) t \<and>
       (\<forall>m<n. \<not> flush_may_stop c (k_uptime_get_32 s) ((sleep ^^ m) s))"
  proof (cases "FLUSH_QUIET_MS c = 0")
    case True
    then show ?thesis using that [of s 0] by (simp add: esb_transport_flush_tx_def)
  next
    case False
    obtain t where "flush_wait c sleep s = Some t"
      using flush_wait_returns [OF assms(1)] assms(2) by (auto simp: kcfg_ranges_def)
    with False show ?thesis using flush_wait_sleeps that by (fastforce simp: esb_transport_flush_tx_def)
  qed
  have rc: "(ucast (of_nat (RETRANSMIT_COUNT c) :: u8) :: u16) = of_nat (RETRANSMIT_COUNT c)"
    using assms(2) by (intro word_unat_eq_iff [THEN iffD2]) (simp add: kcfg_ranges_def unsigned_ucast_eq unat_of_nat take_bit_eq_mod)
  let ?s' = "esb_flush_tx_and_reset c t"
  have "(if CHANNEL_HOP c then er_list (NOACK_RING_SIZE c) (m_recent_noack ?s') = [] else True) \<and>
    (if CRITICAL_MAX_RETRANSMIT c
     then er_list (CRIT_OVERRIDE_RING_SIZE c) (m_recent_critical_override ?s') = [] else True)"
    by (simp add: esb_flush_tx_and_reset_def restore_retransmit_count_def esb_set_retransmit_count_def
        er_list_drain Let_def)
  moreover have "m_recent_motion_tail ?s' = m_recent_motion_head ?s' \<and> m_pointer_inflight_count ?s' = 0 \<and>
    m_esb_state ?s' = m_esb_state t"
    by (simp add: esb_flush_tx_and_reset_def restore_retransmit_count_def esb_set_retransmit_count_def
        esb_flush_tx_def clear_ack_wraps_def Let_def)
  moreover have "retransmit_count (esb_cfg ?s') =
      (if m_esb_state t \<noteq> ESB_STATE_IDLE then retransmit_count (esb_cfg t)
       else if CHANNEL_HOP c \<and> ADAPTIVE_RETRY c then ucast (m_adaptive_retransmit_count t)
       else of_nat (RETRANSMIT_COUNT c))"
    by (simp add: esb_flush_tx_and_reset_def restore_retransmit_count_def esb_set_retransmit_count_def
        esb_flush_tx_def clear_ack_wraps_def rc Let_def)
  ultimately show ?thesis
    using n(1,3) by (intro exI [of _ n] exI [of _ t] exI [of _ ?s'] conjI n(2)) (simp_all add: flush_reset_any)
qed

definition tick :: "'a tport_scheme \<Rightarrow> 'a tport_scheme" where
  "tick s = s\<lparr>uptime := uptime s + 1\<rparr>"

lemma sleeps_tick: "sleeps tick"
  by (simp add: sleeps_def tick_def)

theorem flush_tx_returns_witness:
  "\<exists>s'. esb_transport_flush_tx default_kcfg tick eight_queued = Some s' \<and> tx_queue s' = []"
proof -
  have "kcfg_ranges default_kcfg" using default_kcfg_valid by (simp only: valid_kcfg_def)
  moreover have "esb_initialized ((tick ^^ n) eight_queued)" for n
    by (induction n) (simp_all add: tick_def eight_queued_simps)
  ultimately show ?thesis using flush_tx_returns [OF sleeps_tick, of default_kcfg eight_queued] by auto
qed

text \<open>
  A blocking send that times out does not bring the radio back. The restore of the active
  channel after the wait is refused while the transaction is still on the air, and its result
  is ignored: the call reports the timeout with the radio configured for the rendezvous channel
  and the transport for the old one, so later sends go out on the wrong channel.
\<close>

theorem send_blocking_timeout_strands_channel:
  assumes "ptx_inv c s" "esb_initialized s" "m_esb_state s = ESB_STATE_IDLE" "ad_configured (m_addr s)"
    "\<not> m_sync_tx_in_progress s" "bs \<noteq> []" "length bs \<le> ESB_MAX_PAYLOAD_LEN c"
    "unat pipe < ESB_PIPE_COUNT" "unat channel \<le> 100"
    and wait: "\<And>t. m_esb_state t \<noteq> ESB_STATE_IDLE \<Longrightarrow>
                 m_sync_tx_done (wait t) = m_sync_tx_done t \<and> m_esb_state (wait t) \<noteq> ESB_STATE_IDLE \<and>
                 rf_channel (wait t) = rf_channel t \<and> m_addr (wait t) = m_addr t"
    and "esb_transport_send_blocking c wait channel pipe bs s = (err, s')"
  shows "err = Some ETIMEDOUT \<and> rf_channel s' = channel \<and>
    esb_transport_get_channel s' = esb_transport_get_channel s"
proof -
  let ?f = "esb_flush_tx_and_reset c s"
  let ?p = "\<lparr>pl_pipe = pipe, pl_noack = False, pl_pid = 0, pl_rssi = 0, pl_data = bs\<rparr>"
  note f = flush_reset [OF assms(2), of c]
  have ch: "\<not> 100 < (ucast channel :: u32)"
    using assms(9) unsigned_less [of channel, where 'a = nat]
    by (simp add: word_less_nat_alt unsigned_ucast_eq take_bit_eq_mod)
  define g where "g = ?f\<lparr>rf_channel := channel, m_sync_tx_done := 0, m_sync_tx_result_success := False,
                         m_sync_tx_in_progress := True\<rparr>"
  have set: "esb_set_rf_channel (ucast channel) ?f = (None, ?f\<lparr>rf_channel := channel\<rparr>)"
    using ch f(4) assms(3) by (simp add: esb_set_rf_channel_def ucast_back)
  have g: "ptx_inv c g" "esb_initialized g" "tx_queue g = []" "rf_channel g = channel"
    "m_addr g = m_addr s" "m_sync_tx_done g = 0"
    using f(1,2,5) f(3) [OF assms(1)] assms(9) by (simp_all add: g_def ptx_inv_def)
  obtain h where h: "esb_write_payload c ?p g = (None, h)"
    using write_succeeds [OF g(1,2), of ?p] g assms(6-8)
    by (auto simp: ESB_MAX_PAYLOAD_LEN_def ptx_inv_def ring_wf_def)
  have "m_esb_state h \<noteq> ESB_STATE_IDLE" "rf_channel h = channel"
    using write_ptx(5,10) [OF g(1) h] g(4) by simp_all
  moreover have "m_addr h = m_addr s" "m_sync_tx_done h = 0"
    using h g(5,6) by (auto simp: esb_write_payload_def start_tx_transaction_def Let_def
        split: if_splits option.splits)
  ultimately have k: "k_sem_take_done wait h = (False, wait h)" "m_esb_state (wait h) \<noteq> ESB_STATE_IDLE"
    "rf_channel (wait h) = channel" "m_addr (wait h) = m_addr s"
    using wait [of h] by (simp_all add: k_sem_take_done_def)
  have "esb_transport_send_blocking c wait channel pipe bs s =
      (Some ETIMEDOUT, (snd (esb_set_rf_channel (ucast (ad_channel (m_addr (wait h)))) (wait h)))
                          \<lparr>m_sync_tx_in_progress := False\<rparr>)"
    using assms(4,5,7) h k(1) by (simp add: esb_transport_send_blocking_def set g_def Let_def)
  then show ?thesis
    using assms(11) k(2-4)
    by (auto simp: esb_set_rf_channel_def esb_transport_get_channel_def split: if_splits)
qed

theorem send_blocking_timeout_strands_channel_witness:
  "\<exists>s'. esb_transport_send_blocking default_kcfg (\<lambda>t. t\<lparr>uptime := uptime t + 10\<rparr>) 20 ESB_PIPE_DATA
          (encode PktIdle) tport_example = (Some ETIMEDOUT, s') \<and>
        rf_channel s' = 20 \<and> esb_transport_get_channel s' = 78"
proof -
  let ?w = "\<lambda>t. t\<lparr>uptime := uptime t + 10\<rparr>"
  obtain err s' where e: "esb_transport_send_blocking default_kcfg ?w 20 ESB_PIPE_DATA (encode PktIdle)
      tport_example = (err, s')" by fastforce
  have "length (encode PktIdle) \<le> ESB_MAX_PAYLOAD_LEN default_kcfg" "unat ESB_PIPE_DATA < ESB_PIPE_COUNT"
    by (simp_all add: ESB_MAX_PAYLOAD_LEN_def pipe_consts ESB_PIPE_COUNT_def)
  from send_blocking_timeout_strands_channel [OF tport_example_simps(1,2,4,5,7) encode_nonempty(1) this _ _ e] e
  show ?thesis by (simp add: esb_transport_get_channel_def tport_example_simps)
qed

end
