(* ===== verification/ShellRelay.thy ===== *)
theory ShellRelay
  imports Transport
begin

text \<open>
  The keyboard side of the shell relay, \<open>src/shell/shell_relay.c\<close>. The output ring buffer of
  Zephyr is the list of its bytes, with \<open>claim n\<close> the length of the contiguous chunk
  \<open>ring_buf_get_claim\<close> hands out when \<open>n\<close> bytes are stored (Zephyr bounds it by the size
  requested and by what is stored). \<open>exec\<close> is the Zephyr shell running a command, \<open>active\<close> the
  result of \<open>zmk_esb_endpoint_is_active\<close>; \<open>shell_prompt\<close> is the configured prompt. The mutex and
  spin lock protect sections that the model runs as one step.
\<close>

section \<open>State\<close>

record shell = tport +
  m_shell_active :: bool
  cmd_buf :: "u8 list"
  cmd_len :: nat
  out_rb :: "u8 list"
  stdout_buf :: "u8 list"
  m_at_line_start :: bool
  in_log_emit :: bool
  last_nudge_ms :: nat
  stdout_hook_installed :: bool
  shell_prompt :: "u8 list"

definition CR :: u8 where "CR = 13"
definition LF :: u8 where "LF = 10"
definition SP :: u8 where "SP = 32"
definition TAB :: u8 where "TAB = 9"
definition DEL :: u8 where "DEL = 0x7F"
definition BS :: u8 where "BS = 8"

lemmas char_consts = CR_def LF_def SP_def TAB_def DEL_def BS_def

text \<open>The literals \<open>"\r\n"\<close>, \<open>"\033[0m"\<close>, \<open>"\033[1;32m"\<close>, \<open>"\033[31m"\<close>, \<open>": command not found"\<close>, \<open>"\b \b"\<close>.\<close>

definition str_newline :: "u8 list" where "str_newline = [CR, LF]"
definition str_reset :: "u8 list" where "str_reset = [27, 91, 48, 109]"
definition str_green :: "u8 list" where "str_green = [27, 91, 49, 59, 51, 50, 109]"
definition str_red :: "u8 list" where "str_red = [27, 91, 51, 49, 109]"
definition str_not_found :: "u8 list" where
  "str_not_found = [58, 32, 99, 111, 109, 109, 97, 110, 100, 32, 110, 111, 116, 32, 102, 111, 117, 110, 100]"
definition str_erase :: "u8 list" where "str_erase = [BS, SP, BS]"

section \<open>Output\<close>

definition out_enqueue :: "kcfg \<Rightarrow> u8 list \<Rightarrow> 'a shell_scheme \<Rightarrow> 'a shell_scheme" where
  "out_enqueue c bs s =
     (let put = min (length bs) (SHELL_OUT_BUF_SIZE c - length (out_rb s));
          s = s\<lparr>out_rb := out_rb s @ take put bs\<rparr>
      in if 0 < put then s\<lparr>m_at_line_start := (bs ! (put - 1) = LF)\<rparr> else s)"

definition send_prompt :: "kcfg \<Rightarrow> 'a shell_scheme \<Rightarrow> 'a shell_scheme" where
  "send_prompt c s =
     (let s = out_enqueue c str_newline s;
          s = out_enqueue c (str_green @ shell_prompt s @ str_reset) s
      in k_work_submit OutDrainWork s)"

definition shell_data_bytes :: "kcfg \<Rightarrow> u8 list \<Rightarrow> u8 list" where
  "shell_data_bytes c chunk =
     encode (PktShellData (of_nat (length chunk))
               (chunk @ replicate (ESB_PKT_DATA_MAX c - length chunk) 0))"

text \<open>The drain loop, on the ring buffer's contents; it ends because every round that goes on
  has consumed at least a byte.\<close>

function out_drain_loop ::
    "kcfg \<Rightarrow> (nat \<Rightarrow> nat) \<Rightarrow> u8 list \<Rightarrow> 'a shell_scheme \<Rightarrow> u8 list \<times> 'a shell_scheme" where
  "out_drain_loop c claim rb s =
     (let got = min (claim (length rb)) (min (length rb) (ESB_PKT_DATA_MAX c))
      in if got = 0 then (rb, s)
         else (case esb_transport_send c ESB_PIPE_DATA (shell_data_bytes c (take got rb)) s of
                 (None, s) \<Rightarrow> out_drain_loop c claim (drop got rb) s
               | (Some ENOMEM, s) \<Rightarrow> (rb, s)
               | (Some _, s) \<Rightarrow> (drop got rb, s)))"
  by pat_completeness auto
termination
  by (relation "measure (\<lambda>(c, claim, rb, s). length rb)") auto

declare out_drain_loop.simps [simp del]

definition out_drain_work_fn :: "kcfg \<Rightarrow> (nat \<Rightarrow> nat) \<Rightarrow> 'a shell_scheme \<Rightarrow> 'a shell_scheme" where
  "out_drain_work_fn c claim s =
     (if \<not> m_shell_active s then s
      else (case out_drain_loop c claim (out_rb s) s of (rb, s) \<Rightarrow> s\<lparr>out_rb := rb\<rparr>))"

section \<open>Running commands\<close>

definition c_string :: "u8 list \<Rightarrow> u8 list" where
  "c_string bs = takeWhile (\<lambda>b. b \<noteq> 0) bs"

definition is_blank :: "u8 \<Rightarrow> bool" where
  "is_blank b \<longleftrightarrow> b = SP \<or> b = TAB"

definition trim :: "u8 list \<Rightarrow> u8 list" where
  "trim bs = rev (dropWhile is_blank (rev (dropWhile is_blank bs)))"

text \<open>\<open>exec cmd\<close> returns whether the command exists, its output and the state it leaves.\<close>

definition shell_exec_work_fn ::
    "kcfg \<Rightarrow> (u8 list \<Rightarrow> 'a shell_scheme \<Rightarrow> bool \<times> u8 list \<times> 'a shell_scheme) \<Rightarrow>
     'a shell_scheme \<Rightarrow> 'a shell_scheme" where
  "shell_exec_work_fn c exec s =
     (let cmd = c_string (take (SHELL_CMD_BUF_SIZE c - 1) (cmd_buf s));
          start = trim cmd;
          (found, out, s) = exec start s;
          s = (if \<not> found
               then out_enqueue c (str_newline @ str_red @ start @ str_not_found @ str_reset) s
               else if out \<noteq> [] then out_enqueue c out s else s)
      in send_prompt c s)"

section \<open>Polling and inactivity\<close>

definition shell_poll_work_fn :: "kcfg \<Rightarrow> 'a shell_scheme \<Rightarrow> 'a shell_scheme" where
  "shell_poll_work_fn c s =
     (if \<not> m_shell_active s then s
      else k_work_reschedule ShellPollWork (SHELL_POLL_INTERVAL_MS c)
             (snd (esb_transport_send c ESB_PIPE_DATA (encode PktShellPoll) s)))"

definition stdout_buf_reset :: "'a shell_scheme \<Rightarrow> 'a shell_scheme" where
  "stdout_buf_reset s = (k_work_cancel StdoutFlushWork s)\<lparr>stdout_buf := []\<rparr>"

definition inactivity_work_fn :: "kcfg \<Rightarrow> 'a shell_scheme \<Rightarrow> 'a shell_scheme" where
  "inactivity_work_fn c s =
     (let s = s\<lparr>m_shell_active := False\<rparr>;
          s = k_work_cancel ShellPollWork s;
          s = stdout_buf_reset s;
          s = s\<lparr>out_rb := []\<rparr>
      in snd (esb_transport_send c ESB_PIPE_DATA (encode PktShellStop) s))"

definition bg_poll_work_fn :: "kcfg \<Rightarrow> 'a shell_scheme \<Rightarrow> 'a shell_scheme" where
  "bg_poll_work_fn c s =
     (if m_shell_active s then s
      else
        (let threshold = msec (SHELL_BG_POLL_ACTIVITY_THRESHOLD_MS c);
             s = (if threshold = 0 \<or> esb_transport_ms_since_activity s \<le> threshold
                  then snd (esb_transport_send c ESB_PIPE_DATA (encode PktShellBgPoll) s) else s)
         in k_work_reschedule BgPollWork (SHELL_BG_POLL_MS c) s))"

section \<open>Log and stdout capture\<close>

definition log_out_func :: "kcfg \<Rightarrow> u8 list \<Rightarrow> 'a shell_scheme \<Rightarrow> 'a shell_scheme" where
  "log_out_func c bs s =
     (if m_shell_active s then k_work_submit OutDrainWork (out_enqueue c bs s) else s)"

text \<open>\<open>line\<close> is the message as Zephyr's log output formats it.\<close>

definition esb_log_backend_process :: "kcfg \<Rightarrow> u8 list \<Rightarrow> 'a shell_scheme \<Rightarrow> 'a shell_scheme" where
  "esb_log_backend_process c line s =
     (if \<not> m_shell_active s \<or> in_log_emit s then s
      else
        (let s = s\<lparr>in_log_emit := True\<rparr>;
             s = (if \<not> m_at_line_start s then out_enqueue c str_newline s else s);
             s = log_out_func c line s
         in s\<lparr>in_log_emit := False\<rparr>))"

text \<open>The pieces Zephyr's log output writes for a count of dropped messages, and for what it still holds.\<close>

definition esb_log_backend_dropped :: "kcfg \<Rightarrow> u8 list list \<Rightarrow> 'a shell_scheme \<Rightarrow> 'a shell_scheme" where
  "esb_log_backend_dropped c pieces s = fold (log_out_func c) pieces s"

definition esb_log_backend_panic :: "kcfg \<Rightarrow> u8 list list \<Rightarrow> 'a shell_scheme \<Rightarrow> 'a shell_scheme" where
  "esb_log_backend_panic c pieces s = fold (log_out_func c) pieces s"

definition stdout_flush_work_fn :: "kcfg \<Rightarrow> 'a shell_scheme \<Rightarrow> 'a shell_scheme" where
  "stdout_flush_work_fn c s =
     (let tmp = stdout_buf s;
          s = s\<lparr>stdout_buf := []\<rparr>
      in if tmp = [] \<or> \<not> m_shell_active s then s
         else k_work_submit OutDrainWork (out_enqueue c tmp s))"

definition esb_stdout_hook :: "kcfg \<Rightarrow> u8 \<Rightarrow> 'a shell_scheme \<Rightarrow> 'a shell_scheme" where
  "esb_stdout_hook c ch s =
     (if \<not> m_shell_active s then s
      else
        (let s = (if length (stdout_buf s) < SHELL_STDOUT_COALESCE_BYTES c
                  then s\<lparr>stdout_buf := stdout_buf s @ [ch]\<rparr> else s);
             full = (SHELL_STDOUT_COALESCE_BYTES c \<le> length (stdout_buf s))
         in k_work_reschedule StdoutFlushWork (if full then 0 else SHELL_STDOUT_COALESCE_MS c) s))"

section \<open>Session control\<close>

definition esb_shell_relay_on_activate :: "bool \<Rightarrow> 'a shell_scheme \<Rightarrow> 'a shell_scheme" where
  "esb_shell_relay_on_activate active s =
     (if active then s\<lparr>stdout_hook_installed := True\<rparr> else s)"

definition esb_shell_relay_on_deactivate :: "'a shell_scheme \<Rightarrow> 'a shell_scheme" where
  "esb_shell_relay_on_deactivate s = s\<lparr>stdout_hook_installed := False\<rparr>"

definition esb_shell_relay_on_connected :: "kcfg \<Rightarrow> 'a shell_scheme \<Rightarrow> 'a shell_scheme" where
  "esb_shell_relay_on_connected c s =
     (let s = s\<lparr>m_shell_active := False\<rparr>;
          s = k_work_cancel ShellPollWork s;
          s = k_work_cancel InactivityWork s;
          s = stdout_buf_reset s;
          s = s\<lparr>out_rb := [], cmd_len := 0\<rparr>
      in if SHELL_BG_POLL c then k_work_reschedule BgPollWork (SHELL_BG_POLL_MS c) s else s)"

definition esb_shell_relay_on_disconnected :: "kcfg \<Rightarrow> 'a shell_scheme \<Rightarrow> 'a shell_scheme" where
  "esb_shell_relay_on_disconnected c s =
     (let s = (if SHELL_BG_POLL c then k_work_cancel BgPollWork s else s)
      in if \<not> m_shell_active s then s
         else
           (let s = s\<lparr>m_shell_active := False\<rparr>;
                s = k_work_cancel ShellPollWork s;
                s = k_work_cancel InactivityWork s;
                s = stdout_buf_reset s
            in s\<lparr>out_rb := []\<rparr>))"

definition esb_shell_relay_on_req :: "kcfg \<Rightarrow> 'a shell_scheme \<Rightarrow> 'a shell_scheme" where
  "esb_shell_relay_on_req c s =
     (if m_shell_active s then s
      else
        (let s = s\<lparr>m_shell_active := True, cmd_len := 0\<rparr>;
             s = stdout_buf_reset s;
             s = s\<lparr>out_rb := []\<rparr>;
             s = (if SHELL_BG_POLL c then k_work_cancel BgPollWork s else s);
             s = k_work_reschedule ShellPollWork (SHELL_INITIAL_POLL_DELAY_MS c) s;
             s = (if 0 < SHELL_INACTIVITY_S c
                  then k_work_reschedule InactivityWork (1000 * SHELL_INACTIVITY_S c) s else s)
         in send_prompt c s))"

text \<open>One byte of the command line: \<open>need_drain\<close> is threaded along.\<close>

definition on_data_byte :: "kcfg \<Rightarrow> u8 \<Rightarrow> bool \<times> 'a shell_scheme \<Rightarrow> bool \<times> 'a shell_scheme" where
  "on_data_byte c b d =
     (case d of (need_drain, s) \<Rightarrow>
        if b = LF \<or> b = CR
        then (if 0 < cmd_len s
              then (need_drain, k_work_submit ShellExecWork
                                  (s\<lparr>cmd_buf := (cmd_buf s)[cmd_len s := 0], cmd_len := 0\<rparr>))
              else (need_drain, s))
        else if b = DEL \<or> b = BS
        then (if 0 < cmd_len s
              then (True, out_enqueue c str_erase (s\<lparr>cmd_len := cmd_len s - 1\<rparr>))
              else (need_drain, s))
        else if cmd_len s < SHELL_CMD_BUF_SIZE c - 1
        then (need_drain, s\<lparr>cmd_buf := (cmd_buf s)[cmd_len s := b], cmd_len := cmd_len s + 1\<rparr>)
        else (need_drain, s))"

definition esb_shell_relay_on_data :: "kcfg \<Rightarrow> u8 list \<Rightarrow> 'a shell_scheme \<Rightarrow> 'a shell_scheme" where
  "esb_shell_relay_on_data c bs s =
     (if \<not> m_shell_active s \<or> length bs = 0
      then (if \<not> m_shell_active s \<and> 0 < length bs \<and>
               int (SHELL_STOP_NUDGE_COOLDOWN_MS c) < int (uptime s) - int (last_nudge_ms s)
            then snd (esb_transport_send c ESB_PIPE_DATA (encode PktShellStop)
                        (s\<lparr>last_nudge_ms := uptime s\<rparr>))
            else s)
      else
        (let s = (if 0 < SHELL_INACTIVITY_S c
                  then k_work_reschedule InactivityWork (1000 * SHELL_INACTIVITY_S c) s else s);
             (need_drain, s) = fold (on_data_byte c) bs (False, s)
         in if need_drain then k_work_submit OutDrainWork s else s))"

definition esb_shell_relay_is_active :: "'a shell_scheme \<Rightarrow> bool" where
  "esb_shell_relay_is_active s = m_shell_active s"

definition esb_shell_relay_notify_tx :: "'a shell_scheme \<Rightarrow> 'a shell_scheme" where
  "esb_shell_relay_notify_tx s =
     (if m_shell_active s \<and> 0 < length (out_rb s) then k_work_submit OutDrainWork s else s)"

definition esb_shell_relay_request :: "kcfg \<Rightarrow> bool \<Rightarrow> 'a shell_scheme \<Rightarrow> rc \<times> 'a shell_scheme" where
  "esb_shell_relay_request c active s =
     (if \<not> active then (Some ENOTCONN, s)
      else if m_shell_active s then (None, s)
      else esb_transport_send c ESB_PIPE_DATA (encode PktShellStart) s)"

end
