(* ===== verification/Bench.thy ===== *)
theory Bench
  imports ShellRelay
begin

text \<open>
  The radio benchmark, \<open>src/esb/bench.c\<close>: a state machine that floods the data pipe for a fixed
  time, then polls the dongle for its statistics until they arrive or a timeout fires.
\<close>

section \<open>State\<close>

datatype esb_bench_state = BENCH_IDLE | BENCH_RUNNING | BENCH_STOPPING | BENCH_DONE

record esb_bench_result =
  br_tx_ok :: u32
  br_tx_fail :: u32
  br_throughput_pkt_s :: u32
  br_rssi_avg :: i8
  br_rssi_min :: i8
  br_rssi_max :: i8
  br_rssi_samples :: u32

record bench = shell +
  m_bench_state :: esb_bench_state
  m_start_ms :: nat
  m_tx_ok :: u32
  m_tx_fail :: u32
  m_seq :: u8
  m_result :: esb_bench_result

definition zero_result :: esb_bench_result where
  "zero_result = \<lparr>br_tx_ok = 0, br_tx_fail = 0, br_throughput_pkt_s = 0, br_rssi_avg = 0,
                  br_rssi_min = 0, br_rssi_max = 0, br_rssi_samples = 0\<rparr>"

section \<open>Work functions\<close>

definition bench_ping :: "kcfg \<Rightarrow> u8 \<Rightarrow> esb_payload" where
  "bench_ping c seq =
     \<lparr>pl_pipe = 1, pl_noack = False, pl_pid = 0, pl_rssi = 0,
      pl_data = encode (PktBenchPing seq (replicate (ESB_PKT_DATA_MAX c) 0))\<rparr>"

text \<open>The flood loop writes until the radio library refuses a payload.\<close>

partial_function (option) bench_fill :: "kcfg \<Rightarrow> 'a bench_scheme \<Rightarrow> 'a bench_scheme option" where
  "bench_fill c s =
     (case esb_write_payload c (bench_ping c (m_seq s)) (s\<lparr>m_seq := m_seq s + 1\<rparr>) of
        (None, s) \<Rightarrow> bench_fill c s
      | (Some _, s) \<Rightarrow> Some s)"

definition bench_tx_fn :: "kcfg \<Rightarrow> 'a bench_scheme \<Rightarrow> 'a bench_scheme option" where
  "bench_tx_fn c s = (if m_bench_state s \<noteq> BENCH_RUNNING then Some s else bench_fill c s)"

definition bench_complete_fn :: "kcfg \<Rightarrow> 'a bench_scheme \<Rightarrow> 'a bench_scheme" where
  "bench_complete_fn c s =
     (if m_bench_state s \<noteq> BENCH_RUNNING then s
      else
        (let s = k_work_cancel BenchTxWork s;
             s = snd (esb_transport_send c ESB_PIPE_DATA (encode PktBenchStop) s);
             s = s\<lparr>m_bench_state := BENCH_STOPPING\<rparr>;
             s = k_work_reschedule BenchResultPollWork (BENCH_RESULT_POLL_MS c) s
         in k_work_reschedule BenchResultTimeoutWork (BENCH_RESULT_TIMEOUT_MS c) s))"

definition bench_result_poll_fn :: "kcfg \<Rightarrow> 'a bench_scheme \<Rightarrow> 'a bench_scheme" where
  "bench_result_poll_fn c s =
     (if m_bench_state s \<noteq> BENCH_STOPPING then s
      else k_work_reschedule BenchResultPollWork (BENCH_RESULT_POLL_MS c)
             (snd (esb_transport_send c ESB_PIPE_DATA (encode PktBenchStop) s)))"

definition bench_result_timeout_fn :: "kcfg \<Rightarrow> 'a bench_scheme \<Rightarrow> 'a bench_scheme" where
  "bench_result_timeout_fn c s =
     (if m_bench_state s \<noteq> BENCH_STOPPING then s
      else
        (let s = k_work_cancel BenchResultPollWork s
         in s\<lparr>m_result := (m_result s)\<lparr>br_tx_ok := m_tx_ok s, br_tx_fail := m_tx_fail s,
                 br_throughput_pkt_s := m_tx_ok s div of_nat (BENCH_DURATION_S c),
                 br_rssi_samples := 0\<rparr>,
              m_bench_state := BENCH_DONE\<rparr>))"

section \<open>Interface\<close>

definition esb_bench_start :: "kcfg \<Rightarrow> 'a bench_scheme \<Rightarrow> 'a bench_scheme" where
  "esb_bench_start c s =
     (let s = s\<lparr>m_bench_state := BENCH_RUNNING, m_start_ms := uptime s, m_tx_ok := 0,
                m_tx_fail := 0, m_seq := 0, m_result := zero_result\<rparr>;
          s = k_work_submit BenchTxWork s
      in k_work_reschedule BenchCompleteWork (1000 * BENCH_DURATION_S c) s)"

definition esb_bench_reset :: "'a bench_scheme \<Rightarrow> 'a bench_scheme" where
  "esb_bench_reset s =
     (let s = k_work_cancel BenchTxWork s;
          s = k_work_cancel BenchCompleteWork s;
          s = k_work_cancel BenchResultPollWork s;
          s = k_work_cancel BenchResultTimeoutWork s
      in s\<lparr>m_bench_state := BENCH_IDLE\<rparr>)"

definition esb_bench_get_state :: "'a bench_scheme \<Rightarrow> esb_bench_state" where
  "esb_bench_get_state s = m_bench_state s"

definition esb_bench_get_result :: "'a bench_scheme \<Rightarrow> esb_bench_result" where
  "esb_bench_get_result s = m_result s"

definition esb_bench_on_rx :: "kcfg \<Rightarrow> u8 list \<Rightarrow> 'a bench_scheme \<Rightarrow> 'a bench_scheme" where
  "esb_bench_on_rx c bs s =
     (if length bs < 1 \<or> pkt_type bs \<noteq> ESB_PKT_BENCH_RESULT then s
      else if m_bench_state s \<noteq> BENCH_STOPPING then s
      else if length bs < sizeof_bench_result then s
      else
        (let s = k_work_cancel BenchResultPollWork s;
             s = k_work_cancel BenchResultTimeoutWork s
         in s\<lparr>m_result := \<lparr>br_tx_ok = m_tx_ok s, br_tx_fail = m_tx_fail s,
                 br_throughput_pkt_s = m_tx_ok s div of_nat (BENCH_DURATION_S c),
                 br_rssi_avg = pkt_byte 1 bs, br_rssi_min = pkt_byte 2 bs,
                 br_rssi_max = pkt_byte 3 bs, br_rssi_samples = pkt_rx_count bs\<rparr>,
              m_bench_state := BENCH_DONE\<rparr>))"

definition esb_bench_notify_tx_success :: "'a bench_scheme \<Rightarrow> 'a bench_scheme" where
  "esb_bench_notify_tx_success s =
     (if m_bench_state s = BENCH_RUNNING
      then k_work_submit BenchTxWork (s\<lparr>m_tx_ok := m_tx_ok s + 1\<rparr>) else s)"

definition esb_bench_notify_tx_fail :: "'a bench_scheme \<Rightarrow> 'a bench_scheme" where
  "esb_bench_notify_tx_fail s =
     (if m_bench_state s = BENCH_RUNNING
      then k_work_submit BenchTxWork (s\<lparr>m_tx_fail := m_tx_fail s + 1\<rparr>) else s)"

section \<open>A concrete state\<close>

text \<open>The connected endpoint of \<open>tport_at\<close> with no shell session and no benchmark running.\<close>

definition bench_at :: "'a \<Rightarrow> 'a bench_scheme" where
  "bench_at m = tport_at \<lparr>m_shell_active = False, cmd_buf = replicate 256 0, cmd_len = 0, out_rb = [],
     stdout_buf = [], m_at_line_start = True, in_log_emit = False, last_nudge_ms = 0,
     stdout_hook_installed = True, shell_prompt = [126, 36, 32],
     m_bench_state = BENCH_IDLE, m_start_ms = 0, m_tx_ok = 0, m_tx_fail = 0, m_seq = 0,
     m_result = zero_result, \<dots> = m\<rparr>"

abbreviation bench_example :: bench where
  "bench_example \<equiv> bench_at ()"

lemma bench_example_simps [simp]:
  "ptx_inv default_kcfg (bench_at m)" "esb_initialized (bench_at m)"
  "tx_queue (bench_at m) = []" "m_esb_state (bench_at m) = ESB_STATE_IDLE"
  "ad_configured (m_addr (bench_at m))" "ad_channel (m_addr (bench_at m)) = 78"
  "\<not> m_sync_tx_in_progress (bench_at m)" "\<not> esb_transport_is_quiet default_kcfg (bench_at m)"
  "\<not> esb_tx_full default_kcfg (bench_at m)" "hop_inv default_kcfg (bench_at m)"
  by (simp_all add: bench_at_def tport_example_simps)

end
