(* ===== verification/TransportEvt.thy ===== *)
theory TransportEvt
  imports Bench
begin

text \<open>
  The event side of \<open>src/esb/esb_transport.c\<close>: the radio event callback
  \<open>zmk_esb_transport_evt_cb\<close>, which runs in the ESB event interrupt, and the receive work. The
  callback \<open>m_cb\<close> of the transport is the argument \<open>cb\<close>; it gets the receive buffer and the
  length of the packet in it.
\<close>

section \<open>Receiving\<close>

definition rx_work_fn ::
    "(u8 list \<Rightarrow> nat \<Rightarrow> 'a bench_scheme \<Rightarrow> 'a bench_scheme) \<Rightarrow> 'a bench_scheme \<Rightarrow> 'a bench_scheme" where
  "rx_work_fn cb s =
     (if \<not> m_cb_set s then s
      else (let s = note_activity s in cb (t_rx_buf s) (unat (t_rx_len s)) s))"

text \<open>One packet moved from the radio's FIFO into the receive buffer.\<close>

definition accept_rx :: "kcfg \<Rightarrow> esb_payload \<Rightarrow> 'a bench_scheme \<Rightarrow> 'a bench_scheme" where
  "accept_rx c p s =
     (if 0 < length (pl_data p) \<and> length (pl_data p) \<le> ESB_MAX_PAYLOAD_LEN c
      then k_work_submit RxWork
             (s\<lparr>t_rx_len := of_nat (length (pl_data p)),
                t_rx_buf := pl_data p @ drop (length (pl_data p)) (t_rx_buf s)\<rparr>)
      else s)"

text \<open>The read loop runs until \<open>esb_read_rx_payload\<close> fails; each round takes one packet.\<close>

function rx_loop :: "kcfg \<Rightarrow> 'a bench_scheme \<Rightarrow> 'a bench_scheme" where
  "rx_loop c s =
     (case esb_read_rx_payload c s of
        (Inr p, s) \<Rightarrow> rx_loop c (accept_rx c p s)
      | (Inl _, s) \<Rightarrow> s)"
  by pat_completeness auto
termination
  by (relation "measure (\<lambda>(c, s). rcount (rx_fifo s))")
    (auto simp: esb_read_rx_payload_def accept_rx_def k_work_submit_def ring_pop_def split: if_splits)

declare rx_loop.simps [simp del]

section \<open>Transmission success\<close>

definition popcount8 :: "u32 \<Rightarrow> nat" where
  "popcount8 w = length (filter (\<lambda>i. bit w i) [0..<8])"

definition link_degraded_fires :: "kcfg \<Rightarrow> 'a tport_scheme \<Rightarrow> bool" where
  "link_degraded_fires c s \<longleftrightarrow>
     LINK_DEGRADED_THRESHOLD c \<le> unat (m_link_quality_count s) \<or>
     LINK_DEGRADED_FAST_THRESHOLD c \<le> popcount8 (m_link_quality_window s AND 0xFF)"

definition coop_trigger :: "kcfg \<Rightarrow> 'a tport_scheme \<Rightarrow> 'a tport_scheme" where
  "coop_trigger c s =
     (if m_link_degraded_armed s
      then (if unat (m_link_quality_count s) \<le> LINK_DEGRADED_REARM c
            then s\<lparr>m_link_degraded_armed := False\<rparr> else s)
      else if link_degraded_fires c s
      then channel_hop_ep_on_link_degraded_isr c (s\<lparr>m_link_degraded_armed := True\<rparr>)
      else s)"

definition tx_success_link :: "kcfg \<Rightarrow> u32 \<Rightarrow> 'a tport_scheme \<Rightarrow> 'a tport_scheme" where
  "tx_success_link c attempts s =
     (let s = s\<lparr>m_first_fail_ms := 0\<rparr>;
          s = s\<lparr>m_last_tx_success_ms := stamp (k_uptime_get_32 s)\<rparr>;
          s = channel_hop_ep_on_tx_success_isr c s;
          (was_noack, s) = consume_recent_noack c s
      in if was_noack then s
         else
           (let s = link_quality_record c (ucast attempts) (1 < attempts) s
            in if COOP_HOP c then coop_trigger c s else s))"

definition consume_override :: "kcfg \<Rightarrow> 'a tport_scheme \<Rightarrow> 'a tport_scheme" where
  "consume_override c s =
     (if CRITICAL_MAX_RETRANSMIT c
      then (case consume_recent_override c s of
              (was_override, s) \<Rightarrow> if was_override then restore_retransmit_count c s else s)
      else s)"

definition on_tx_success :: "kcfg \<Rightarrow> u32 \<Rightarrow> 'a bench_scheme \<Rightarrow> 'a bench_scheme" where
  "on_tx_success c attempts s =
     (if RENDEZVOUS c \<and> m_sync_tx_in_progress s
      then s\<lparr>m_sync_tx_result_success := True, m_sync_tx_in_progress := False,
             m_sync_tx_done := min 1 (m_sync_tx_done s + 1)\<rparr>
      else
        (let s = s\<lparr>tx_ok_count := tx_ok_count s + 1\<rparr>;
             s = (if 1 < attempts then s\<lparr>tx_retried_count := tx_retried_count s + 1\<rparr> else s);
             s = s\<lparr>consecutive_tx_fail := 0\<rparr>;
             s = (if CHANNEL_HOP c then tx_success_link c attempts s else s);
             s = (if SHELL_RELAY c then esb_shell_relay_notify_tx s else s);
             s = (if BENCH c then esb_bench_notify_tx_success s else s);
             s = consume_override c s
         in motion_ring_consume c False s))"

section \<open>Transmission failure\<close>

definition fail_window :: "kcfg \<Rightarrow> 'a tport_scheme \<Rightarrow> 'a tport_scheme" where
  "fail_window c s =
     (if consecutive_tx_fail s = 1
      then s\<lparr>m_first_fail_ms := stamp (k_uptime_get_32 s)\<rparr>
      else if m_first_fail_ms s \<noteq> 0 \<and>
              msec (HOP_TX_FAIL_WINDOW_MS c) \<le> k_uptime_get_32 s - m_first_fail_ms s
      then (let s = channel_hop_ep_on_tx_fail_isr c s
            in s\<lparr>m_first_fail_ms := stamp (k_uptime_get_32 s)\<rparr>)
      else s)"

definition weak_link :: "kcfg \<Rightarrow> 'a tport_scheme \<Rightarrow> 'a tport_scheme" where
  "weak_link c s =
     (if 0 < HOP_WEAK_LINK_MS c \<and> m_last_tx_success_ms s \<noteq> 0 \<and>
         msec (HOP_WEAK_LINK_MS c) \<le> k_uptime_get_32 s - m_last_tx_success_ms s
      then (let s = channel_hop_ep_on_tx_fail_isr c s
            in s\<lparr>m_last_tx_success_ms := stamp (k_uptime_get_32 s)\<rparr>)
      else s)"

definition tx_fail_link :: "kcfg \<Rightarrow> 'a tport_scheme \<Rightarrow> 'a tport_scheme" where
  "tx_fail_link c s =
     (let s = fail_window c s;
          s = weak_link c s;
          s = snd (consume_recent_noack c s)
      in link_quality_shift_window c True s)"

text \<open>The failure handler of a user send, up to its final full-FIFO test.\<close>

definition tx_failed_books :: "kcfg \<Rightarrow> 'a bench_scheme \<Rightarrow> 'a bench_scheme" where
  "tx_failed_books c s =
     (let s = s\<lparr>tx_fail_count := tx_fail_count s + 1, tx_exhausted_count := tx_exhausted_count s + 1,
                consecutive_tx_fail := consecutive_tx_fail s + 1\<rparr>;
          s = (if CHANNEL_HOP c then tx_fail_link c s else s);
          s = (if BENCH c then esb_bench_notify_tx_fail s else s);
          s = consume_override c s
      in motion_ring_consume c True s)"

definition on_tx_failed :: "kcfg \<Rightarrow> 'a bench_scheme \<Rightarrow> 'a bench_scheme" where
  "on_tx_failed c s =
     (if RENDEZVOUS c \<and> m_sync_tx_in_progress s
      then esb_flush_tx_and_reset c
             (s\<lparr>m_sync_tx_result_success := False, m_sync_tx_in_progress := False,
                m_sync_tx_done := min 1 (m_sync_tx_done s + 1)\<rparr>)
      else
        (let s = tx_failed_books c s
         in if esb_tx_full c s then esb_flush_tx_and_reset c s else s))"

section \<open>The callback\<close>

definition zmk_esb_transport_evt_cb :: "kcfg \<Rightarrow> esb_evt \<Rightarrow> 'a bench_scheme \<Rightarrow> 'a bench_scheme" where
  "zmk_esb_transport_evt_cb c event s =
     (let s = (if evt_id event = ESB_EVENT_TX_SUCCESS \<or> evt_id event = ESB_EVENT_TX_FAILED
               then s\<lparr>m_last_tx_event_ms := stamp (k_uptime_get_32 s)\<rparr> else s)
      in case evt_id event of
           ESB_EVENT_TX_SUCCESS \<Rightarrow> on_tx_success c (tx_attempts event) s
         | ESB_EVENT_RX_RECEIVED \<Rightarrow> rx_loop c s
         | ESB_EVENT_TX_FAILED \<Rightarrow> on_tx_failed c s)"

text \<open>The event interrupt of an endpoint.\<close>

definition endpoint_evt_irq :: "kcfg \<Rightarrow> 'a bench_scheme \<Rightarrow> 'a bench_scheme" where
  "endpoint_evt_irq c s = esb_evt_irq_handler (zmk_esb_transport_evt_cb c) s"

section \<open>What the handlers leave alone\<close>

lemma same_radio_hop_hooks [same_radio_intros]:
  "same_radio (channel_hop_ep_on_tx_fail_isr c s) s"
  "same_radio (channel_hop_ep_on_tx_success_isr c s) s"
  "same_radio (channel_hop_ep_on_link_degraded_isr c s) s"
  by (simp_all add: same_radio_def channel_hop_ep_on_tx_fail_isr_def tx_fail_trigger_def
      rendezvous_fallback_def channel_hop_ep_on_tx_success_isr_def channel_hop_ep_on_link_degraded_isr_def
      k_work_submit_def k_work_reschedule_def Let_def)

lemma hop_hooks_tport [frames]:
  "m_recent_noack (channel_hop_ep_on_tx_fail_isr c s) = m_recent_noack s"
  "m_recent_noack (channel_hop_ep_on_tx_success_isr c s) = m_recent_noack s"
  "m_recent_noack (channel_hop_ep_on_link_degraded_isr c s) = m_recent_noack s"
  by (simp_all add: channel_hop_ep_on_tx_fail_isr_def tx_fail_trigger_def
      rendezvous_fallback_def channel_hop_ep_on_tx_success_isr_def channel_hop_ep_on_link_degraded_isr_def
      k_work_submit_def k_work_reschedule_def Let_def)

lemma same_radio_tport_upd [simp]:
  "same_radio (s\<lparr>m_first_fail_ms := x\<rparr>) t = same_radio s t"
  "same_radio (s\<lparr>m_last_tx_success_ms := x\<rparr>) t = same_radio s t"
  "same_radio (s\<lparr>m_last_tx_event_ms := x\<rparr>) t = same_radio s t"
  "same_radio (s\<lparr>m_recent_noack := r\<rparr>) t = same_radio s t"
  "same_radio (s\<lparr>consecutive_tx_fail := x\<rparr>) t = same_radio s t"
  "same_radio (s\<lparr>tx_fail_count := x\<rparr>) t = same_radio s t"
  "same_radio (s\<lparr>tx_exhausted_count := x\<rparr>) t = same_radio s t"
  by (simp_all add: same_radio_def)

lemma same_radio_fail_window [same_radio_intros]: "same_radio (fail_window c s) s"
  by (simp add: fail_window_def same_radio_intros Let_def)

lemma same_radio_weak_link [same_radio_intros]: "same_radio (weak_link c s) s"
  by (simp add: weak_link_def same_radio_intros Let_def)

lemma same_radio_noack_pop [same_radio_intros]: "same_radio (snd (consume_recent_noack c s)) s"
  by (simp add: consume_recent_noack_def same_radio_intros)

lemma same_radio_shift [same_radio_intros]: "same_radio (link_quality_shift_window c b s) s"
  by (simp add: link_quality_shift_window_def same_radio_def Let_def)

lemma same_radio_fail_link [same_radio_intros]: "same_radio (tx_fail_link c s) s"
  unfolding tx_fail_link_def Let_def
  by (meson same_radio_intros same_radio_trans)

lemma same_radio_bench [same_radio_intros]:
  "same_radio (esb_bench_notify_tx_fail s) s" "same_radio (esb_bench_notify_tx_success s) s"
  by (simp_all add: esb_bench_notify_tx_fail_def esb_bench_notify_tx_success_def same_radio_def
      k_work_submit_def)

lemma same_radio_override [same_radio_intros]: "same_radio (consume_override c s) s"
  by (simp add: consume_override_def consume_recent_override_def same_radio_def
      restore_retransmit_count_def esb_set_retransmit_count_def Let_def)

lemma fail_noack:
  "m_recent_noack (fail_window c s) = m_recent_noack s"
  "m_recent_noack (weak_link c s) = m_recent_noack s"
  "m_recent_noack (snd (consume_recent_noack c s)) = er_pop (m_recent_noack s)"
  "m_recent_noack (link_quality_shift_window c b s) = m_recent_noack s"
  "m_recent_noack (esb_bench_notify_tx_fail u) = m_recent_noack u"
  "m_recent_noack (consume_override c s) = m_recent_noack s"
  "m_recent_noack (motion_ring_consume c b s) = m_recent_noack s"
  by (simp_all add: hop_hooks_tport fail_window_def weak_link_def consume_recent_noack_def er_pop_def
      link_quality_shift_window_def esb_bench_notify_tx_fail_def k_work_submit_def consume_override_def
      consume_recent_override_def restore_retransmit_count_def esb_set_retransmit_count_def
      motion_ring_consume_def Let_def)

text \<open>A failed transmission: the FIFO keeps the packet, the noack ring gives up its slot.\<close>

lemma motion_consume_refund:
  assumes "m_recent_motion_tail s \<noteq> m_recent_motion_head s"
  shows "m_motion_refund (motion_ring_consume c b s) =
    (let rec = m_recent_motion s ! (unat (m_recent_motion_tail s) mod POINTER_MOTION_RING_SIZE c)
     in if b \<and> pm_has_motion rec then add_refund rec (k_uptime_get_32 s) (m_motion_refund s)
        else m_motion_refund s)"
  using assms
  by (simp add: motion_ring_consume_def restore_retransmit_count_def esb_set_retransmit_count_def
      k_uptime_get_32_def Let_def)

lemma motion_frames [frames]:
  "m_recent_motion (channel_hop_ep_on_tx_fail_isr c s) = m_recent_motion s"
  "m_recent_motion_head (channel_hop_ep_on_tx_fail_isr c s) = m_recent_motion_head s"
  "m_recent_motion_tail (channel_hop_ep_on_tx_fail_isr c s) = m_recent_motion_tail s"
  "m_motion_refund (channel_hop_ep_on_tx_fail_isr c s) = m_motion_refund s"
  "uptime (channel_hop_ep_on_tx_fail_isr c s) = uptime s"
  by (simp_all add: channel_hop_ep_on_tx_fail_isr_def tx_fail_trigger_def
      rendezvous_fallback_def k_work_submit_def Let_def)

lemma fail_link_motion [frames]:
  "m_recent_motion (tx_fail_link c s) = m_recent_motion s"
  "m_recent_motion_head (tx_fail_link c s) = m_recent_motion_head s"
  "m_recent_motion_tail (tx_fail_link c s) = m_recent_motion_tail s"
  "m_motion_refund (tx_fail_link c s) = m_motion_refund s"
  "uptime (tx_fail_link c s) = uptime s"
  by (simp_all add: tx_fail_link_def fail_window_def weak_link_def consume_recent_noack_def
      link_quality_shift_window_def motion_frames Let_def)

lemma override_motion [frames]:
  "m_recent_motion (consume_override c s) = m_recent_motion s"
  "m_recent_motion_head (consume_override c s) = m_recent_motion_head s"
  "m_recent_motion_tail (consume_override c s) = m_recent_motion_tail s"
  "m_motion_refund (consume_override c s) = m_motion_refund s"
  "uptime (consume_override c s) = uptime s"
  "m_recent_motion (esb_bench_notify_tx_fail u) = m_recent_motion u"
  "m_recent_motion_head (esb_bench_notify_tx_fail u) = m_recent_motion_head u"
  "m_recent_motion_tail (esb_bench_notify_tx_fail u) = m_recent_motion_tail u"
  "m_motion_refund (esb_bench_notify_tx_fail u) = m_motion_refund u"
  "uptime (esb_bench_notify_tx_fail u) = uptime u"
  by (simp_all add: consume_override_def consume_recent_override_def restore_retransmit_count_def
      esb_set_retransmit_count_def esb_bench_notify_tx_fail_def k_work_submit_def Let_def)

lemma tx_failed_books_frames:
  "same_radio (tx_failed_books c s) s"
  "m_recent_noack (tx_failed_books c s) =
     (if CHANNEL_HOP c then er_pop (m_recent_noack s) else m_recent_noack s)"
  "m_recent_motion_tail s \<noteq> m_recent_motion_head s \<Longrightarrow>
   m_motion_refund (tx_failed_books c s) =
    (let rec = m_recent_motion s ! (unat (m_recent_motion_tail s) mod POINTER_MOTION_RING_SIZE c)
     in if pm_has_motion rec then add_refund rec (k_uptime_get_32 s) (m_motion_refund s)
        else m_motion_refund s)"
proof -
  define a where "a = s\<lparr>tx_fail_count := tx_fail_count s + 1, tx_exhausted_count := tx_exhausted_count s + 1,
                consecutive_tx_fail := consecutive_tx_fail s + 1\<rparr>"
  define b where "b = (if CHANNEL_HOP c then tx_fail_link c a else a)"
  define d where "d = (if BENCH c then esb_bench_notify_tx_fail b else b)"
  define e where "e = consume_override c d"
  have books: "tx_failed_books c s = motion_ring_consume c True e"
    by (simp add: tx_failed_books_def a_def b_def d_def e_def Let_def)
  have a: "same_radio a s" by (simp add: a_def same_radio_def)
  have b: "same_radio b a" by (simp add: b_def same_radio_intros)
  have d: "same_radio d b" by (simp add: d_def same_radio_intros)
  have e: "same_radio e d" by (simp add: e_def same_radio_intros)
  have f: "same_radio (tx_failed_books c s) e" unfolding books by (rule same_radio_intros)
  show "same_radio (tx_failed_books c s) s"
    by (rule same_radio_trans [OF f same_radio_trans [OF e same_radio_trans [OF d same_radio_trans [OF b a]]]])
  show "m_recent_noack (tx_failed_books c s) =
     (if CHANNEL_HOP c then er_pop (m_recent_noack s) else m_recent_noack s)"
    unfolding books
    by (simp add: fail_noack a_def b_def d_def e_def tx_fail_link_def Let_def)
  assume "m_recent_motion_tail s \<noteq> m_recent_motion_head s"
  then have "m_recent_motion_tail e \<noteq> m_recent_motion_head e"
    by (simp add: a_def b_def d_def e_def frames)
  from motion_consume_refund [OF this, of c True]
  show "m_motion_refund (tx_failed_books c s) =
    (let rec = m_recent_motion s ! (unat (m_recent_motion_tail s) mod POINTER_MOTION_RING_SIZE c)
     in if pm_has_motion rec then add_refund rec (k_uptime_get_32 s) (m_motion_refund s)
        else m_motion_refund s)"
    unfolding books by (simp add: a_def b_def d_def e_def frames k_uptime_get_32_def Let_def)
qed

lemma tx_failed_keeps_queue:
  assumes "\<not> (RENDEZVOUS c \<and> m_sync_tx_in_progress s)" "\<not> esb_tx_full c s"
    "s' = zmk_esb_transport_evt_cb c \<lparr>evt_id = ESB_EVENT_TX_FAILED, tx_attempts = n\<rparr> s"
  shows "s' = tx_failed_books c (s\<lparr>m_last_tx_event_ms := stamp (k_uptime_get_32 s)\<rparr>)"
    and "same_radio s' s"
proof -
  let ?s = "s\<lparr>m_last_tx_event_ms := stamp (k_uptime_get_32 s)\<rparr>"
  have r: "same_radio (tx_failed_books c ?s) s"
    using tx_failed_books_frames(1) [of c ?s] by (rule same_radio_trans) (simp add: same_radio_def)
  then have "\<not> esb_tx_full c (tx_failed_books c ?s)"
    using assms(2) by (simp add: same_radio_def esb_tx_full_def)
  then show e: "s' = tx_failed_books c ?s"
    using assms(1) unfolding assms(3) by (auto simp add: zmk_esb_transport_evt_cb_def on_tx_failed_def Let_def)
  show "same_radio s' s" unfolding e by (rule r)
qed

text \<open>The success handler, too, touches nothing of the radio, but for a flush of the FIFO by the failure handler.\<close>

lemma same_radio_success_link [same_radio_intros]: "same_radio (tx_success_link c n s) s"
proof -
  define a where "a = s\<lparr>m_first_fail_ms := 0, m_last_tx_success_ms := stamp (k_uptime_get_32 s)\<rparr>"
  define b where "b = channel_hop_ep_on_tx_success_isr c a"
  define d where "d = snd (consume_recent_noack c b)"
  define e where "e = link_quality_record c (ucast n) (1 < n) d"
  have a: "same_radio a s" by (simp add: a_def same_radio_def)
  have b: "same_radio b a" by (simp add: b_def same_radio_intros)
  have d: "same_radio d b" by (simp add: d_def same_radio_intros)
  have e: "same_radio e d"
    using same_radio_shift [of c "1 < n" d] by (simp add: e_def link_quality_record_def same_radio_def Let_def)
  have t: "same_radio (coop_trigger c e) e"
    using same_radio_hop_hooks(3) [of c "e\<lparr>m_link_degraded_armed := True\<rparr>"]
    by (simp add: coop_trigger_def same_radio_def)
  have "tx_success_link c n s = (if fst (consume_recent_noack c b) then d else if COOP_HOP c then coop_trigger c e else e)"
    by (simp add: tx_success_link_def a_def b_def d_def e_def k_uptime_get_32_def Let_def case_prod_beta)
  moreover have "same_radio d s" using a b d by (metis same_radio_trans)
  moreover have "same_radio e s" using calculation(2) e by (metis same_radio_trans)
  ultimately show ?thesis using t by (metis same_radio_trans)
qed

lemma same_radio_success: "same_radio (on_tx_success c n s) s"
proof (cases "RENDEZVOUS c \<and> m_sync_tx_in_progress s")
  case True
  then show ?thesis by (simp add: on_tx_success_def same_radio_def)
next
  case False
  define a where "a = s\<lparr>tx_ok_count := tx_ok_count s + 1,
    tx_retried_count := (if 1 < n then tx_retried_count s + 1 else tx_retried_count s), consecutive_tx_fail := 0\<rparr>"
  define b where "b = (if CHANNEL_HOP c then tx_success_link c n a else a)"
  define d where "d = (if SHELL_RELAY c then esb_shell_relay_notify_tx b else b)"
  define e where "e = (if BENCH c then esb_bench_notify_tx_success d else d)"
  have a: "same_radio a s" by (simp add: a_def same_radio_def)
  have b: "same_radio b a" by (simp add: b_def same_radio_intros)
  have d: "same_radio d b"
    by (simp add: d_def same_radio_def esb_shell_relay_notify_tx_def k_work_submit_def)
  have e: "same_radio e d" by (simp add: e_def same_radio_intros)
  have "on_tx_success c n s = motion_ring_consume c False (consume_override c e)"
    using False by (auto simp: on_tx_success_def a_def b_def d_def e_def Let_def)
  then show ?thesis
    using a b d e same_radio_override [of c e] same_radio_consume [of c False "consume_override c e"]
    by (metis same_radio_trans)
qed

lemma ptx_inv_rx_loop: "ptx_inv c s \<Longrightarrow> ptx_inv c (rx_loop c s)"
proof (induction c s rule: rx_loop.induct)
  case (1 c s)
  obtain r t where e: "esb_read_rx_payload c s = (r, t)" by fastforce
  have t: "ptx_inv c t" using ptx_inv_api(3) [OF "1.prems"] e by simp
  show ?case
  proof (cases r)
    case (Inl x)
    then show ?thesis using t e by (simp add: rx_loop.simps [of c s])
  next
    case (Inr p)
    have "ptx_inv c (accept_rx c p t)"
      using t by (simp add: accept_rx_def ptx_inv_def k_work_submit_def)
    with "1.IH" [OF e [symmetric] Inr] show ?thesis using Inr e by (simp add: rx_loop.simps [of c s])
  qed
qed

lemma ptx_inv_callback: "ptx_inv c s \<Longrightarrow> ptx_inv c (zmk_esb_transport_evt_cb c ev s)"
proof -
  assume inv: "ptx_inv c s"
  let ?s = "s\<lparr>m_last_tx_event_ms := stamp (k_uptime_get_32 s)\<rparr>"
  have s: "ptx_inv c ?s" using inv by (simp add: ptx_inv_def)
  have ok: "ptx_inv c (on_tx_success c n ?s)" for n
    using s same_radio_inv [OF same_radio_success] by blast
  have books: "ptx_inv c (tx_failed_books c ?s)"
    using s same_radio_inv [OF tx_failed_books_frames(1)] by blast
  have sync: "ptx_inv c (?s\<lparr>m_sync_tx_result_success := False, m_sync_tx_in_progress := False,
      m_sync_tx_done := min 1 (m_sync_tx_done ?s + 1)\<rparr>)" using s by (simp add: ptx_inv_def)
  have failed: "ptx_inv c (on_tx_failed c ?s)"
    unfolding on_tx_failed_def Let_def using books sync flush_reset_any(3) by auto
  show ?thesis
    using inv ok failed ptx_inv_rx_loop [OF inv]
    by (simp add: zmk_esb_transport_evt_cb_def Let_def split: esb_evt_id.splits)
qed

lemma ptx_inv_event_irq: "ptx_inv c s \<Longrightarrow> ptx_inv c (endpoint_evt_irq c s)"
  by (simp add: endpoint_evt_irq_def esb_evt_irq_handler_def get_and_clear_irqs_def ptx_inv_callback Let_def)

lemma ptx_inv_configure: "ptx_inv c s \<Longrightarrow> ptx_inv c (snd (esb_init_and_configure c hw s))"
proof -
  assume inv: "ptx_inv c s"
  define cfg where "cfg = \<lparr>cfg_mode = ESB_MODE_PTX, retransmit_delay = of_nat (RETRANSMIT_DELAY_US c),
    retransmit_count = of_nat (RETRANSMIT_COUNT c), tx_mode = ESB_TXMODE_AUTO,
    payload_length = of_nat (ESB_MAX_PAYLOAD_LEN c), selective_auto_ack = HID_NOACK c, use_fast_ramp_up = True\<rparr>"
  obtain err t where e: "esb_init c hw cfg s = (err, t)" by fastforce
  have t: "ptx_inv c t" using ptx_inv_setup(2) [OF inv, of cfg hw] e by (simp add: cfg_def)
  define a where "a = snd (esb_set_base_address_0 (ad_base0 (m_addr t)) t)"
  define b where "b = snd (esb_set_base_address_1 (ad_base1 (m_addr a)) a)"
  define d where "d = snd (esb_set_prefixes (ad_prefixes (m_addr b)) 2 b)"
  have "ptx_inv c a" "ptx_inv c b" "ptx_inv c d" "ptx_inv c (snd (esb_set_rf_channel (ucast (ad_channel (m_addr d))) d))"
    using t by (simp_all add: a_def b_def d_def ptx_inv_api)
  moreover have "snd (esb_init_and_configure c hw s) = (if err = None \<and> ad_configured (m_addr t)
      then snd (esb_set_rf_channel (ucast (ad_channel (m_addr d))) d) else t)"
    using e by (simp add: esb_init_and_configure_def a_def b_def d_def Let_def flip: cfg_def split: option.splits)
  ultimately show ?thesis using t by simp
qed

lemma books_quiet:
  "m_tx_quiet_until_ms (tx_failed_books c s) = m_tx_quiet_until_ms s"
  "m_sync_tx_in_progress (tx_failed_books c s) = m_sync_tx_in_progress s"
proof -
  have hop: "m_tx_quiet_until_ms (channel_hop_ep_on_tx_fail_isr c t) = m_tx_quiet_until_ms t \<and>
      m_sync_tx_in_progress (channel_hop_ep_on_tx_fail_isr c t) = m_sync_tx_in_progress t" for t :: "'b tport_scheme"
    by (simp add: channel_hop_ep_on_tx_fail_isr_def tx_fail_trigger_def rendezvous_fallback_def k_work_submit_def Let_def)
  have link: "m_tx_quiet_until_ms (tx_fail_link c t) = m_tx_quiet_until_ms t \<and>
      m_sync_tx_in_progress (tx_fail_link c t) = m_sync_tx_in_progress t" for t :: "'b tport_scheme"
    by (simp add: tx_fail_link_def fail_window_def weak_link_def consume_recent_noack_def
        link_quality_shift_window_def hop Let_def)
  have rest: "m_tx_quiet_until_ms (esb_bench_notify_tx_fail u) = m_tx_quiet_until_ms u"
    "m_sync_tx_in_progress (esb_bench_notify_tx_fail u) = m_sync_tx_in_progress u"
    "m_tx_quiet_until_ms (consume_override c t) = m_tx_quiet_until_ms t"
    "m_sync_tx_in_progress (consume_override c t) = m_sync_tx_in_progress t"
    "m_tx_quiet_until_ms (motion_ring_consume c b t) = m_tx_quiet_until_ms t"
    "m_sync_tx_in_progress (motion_ring_consume c b t) = m_sync_tx_in_progress t"
    for t :: "'b tport_scheme" and u :: "'c bench_scheme" and b
    by (simp_all add: esb_bench_notify_tx_fail_def k_work_submit_def consume_override_def
        consume_recent_override_def motion_ring_consume_def restore_retransmit_count_def
        esb_set_retransmit_count_def Let_def)
  show "m_tx_quiet_until_ms (tx_failed_books c s) = m_tx_quiet_until_ms s"
    "m_sync_tx_in_progress (tx_failed_books c s) = m_sync_tx_in_progress s"
    unfolding tx_failed_books_def Let_def rest by (simp_all add: rest link)
qed

section \<open>The next pointer report after a failure\<close>

lemma refund_write: "m_motion_refund (snd (esb_write_payload c p t)) = m_motion_refund t"
  by (simp add: esb_write_payload_def start_tx_transaction_def Let_def split: option.splits)

lemma refund_apply_cong:
  assumes "m_motion_refund t = m_motion_refund s" "uptime t = uptime s"
  shows "m_motion_refund (snd (motion_refund_apply c b t)) = m_motion_refund (snd (motion_refund_apply c b s))"
  using assms by (simp add: motion_refund_apply_def refund_stale_def k_uptime_get_32_def Let_def)

lemma refund_prepare:
  assumes "is_mouse_report bs"
  shows "m_motion_refund (snd (pointer_prepare c noack bs s)) =
    m_motion_refund (snd (motion_refund_apply c (mouse_body_of bs) s))"
  using assms by (simp add: pointer_prepare_def motion_ring_push_def esb_set_retransmit_count_def Let_def case_prod_beta)

text \<open>An idle transmitter that is given a packet starts with the oldest one of its queue.\<close>

lemma write_idle_sends_head:
  assumes "ptx_inv c s" "esb_write_payload c p s = (None, s')" "m_esb_state s = ESB_STATE_IDLE" "tx_queue s = x # xs"
  shows "tx_payload_buffer s' = pdu_of x \<and> radio_txaddress s' = pl_pipe x"
proof -
  have w: "ring_wf (ESB_TX_FIFO_SIZE c) (tx_fifo s)" "cfg_mode (esb_cfg s) = ESB_MODE_PTX" "tx_mode (esb_cfg s) = ESB_TXMODE_AUTO"
    using assms(1) by (simp_all add: ptx_inv_def)
  let ?f = "ring_push (ESB_TX_FIFO_SIZE c) (p\<lparr>pl_pid := next_pid (pl_pipe p) s\<rparr>) (tx_fifo s)"
  have l: "rcount (tx_fifo s) < ESB_TX_FIFO_SIZE c" using assms(2) by (auto simp: esb_write_payload_def split: if_splits)
  have f: "ring_wf (ESB_TX_FIFO_SIZE c) ?f" "ring_list ?f = x # xs @ [p\<lparr>pl_pid := next_pid (pl_pipe p) s\<rparr>]"
    using ring_wf_push [OF w(1) l] ring_list_push [OF w(1) l] assms(4) by simp_all
  then have "0 < rcount ?f" by (metis length_ring_list length_greater_0_conv list.discI)
  from ring_head_list [OF f(1) this] f(2) have h: "ring_head ?f = x" by simp
  show ?thesis
    using assms(2,3) w l h
    by (auto simp: esb_write_payload_def start_tx_transaction_def pdu_of_def Let_def split: if_splits)
qed

lemma send_next_report:
  assumes "ptx_inv c s" "esb_initialized s" "\<not> esb_tx_full c s" "\<not> esb_transport_is_quiet c s"
    "is_mouse_report bs" "length bs \<le> ESB_MAX_PAYLOAD_LEN c" "unat pipe < ESB_PIPE_COUNT"
    "esb_transport_send c pipe bs s = (err, u)"
  shows "err = None \<and> (\<exists>p. tx_queue u = tx_queue s @ [p] \<and> pl_pipe p = pipe \<and> carries c s bs (pl_data p) \<and>
      m_motion_refund u = m_motion_refund (snd (motion_refund_apply c (mouse_body_of bs) s))) \<and>
      (m_esb_state s = ESB_STATE_IDLE \<longrightarrow> tx_queue s \<noteq> [] \<longrightarrow>
        tx_payload_buffer u = pdu_of (hd (tx_queue s)) \<and> radio_txaddress u = pl_pipe (hd (tx_queue s)))"
proof -
  have ne: "bs \<noteq> []" using assms(5) by (auto simp: is_mouse_report_def)
  note x = send_exact [OF assms(1,8)]
  obtain p where q: "err = None" "tx_queue u = tx_queue s @ [p]" "pl_pipe p = pipe" "carries c s bs (pl_data p)"
    using x assms(2-4,6,7) ne by (auto simp: Let_def)
  show ?thesis using assms(8)
  proof (cases rule: send_cases)
    case (admitted t)
    have t: "\<not> esb_tx_full c t" "uptime t = uptime s" "m_esb_state t = m_esb_state s" "tx_queue t = tx_queue s" "ptx_inv c t"
      using admitted(3) assms(1,3) same_radio_inv [OF admitted(3)] by (simp_all add: same_radio_def esb_tx_full_def)
    let ?a = "send_account c pipe bs t"
    obtain bytes s1 where pp: "pointer_prepare c (send_noack c pipe bs) bs ?a = (bytes, s1)" by fastforce
    let ?p = "\<lparr>pl_pipe = pipe, pl_noack = send_noack c pipe bs, pl_pid = 0, pl_rssi = 0, pl_data = bytes\<rparr>"
    have w: "esb_write_payload c ?p s1 = (err, u)"
      using admitted(5) t(1) pp by (auto simp: send_admitted_eq)
    have a: "m_motion_refund ?a = m_motion_refund s" "uptime ?a = uptime s"
      using same_radio_account [of c pipe bs t] t(2) admitted(6) by (simp_all add: refund_account same_radio_def)
    have "m_motion_refund u = m_motion_refund s1" using refund_write [of c ?p s1] w by simp
    also have "\<dots> = m_motion_refund (snd (motion_refund_apply c (mouse_body_of bs) ?a))"
      using refund_prepare [OF assms(5), of c "send_noack c pipe bs" ?a] pp by simp
    also have "\<dots> = m_motion_refund (snd (motion_refund_apply c (mouse_body_of bs) s))"
      by (rule refund_apply_cong [OF a])
    finally have r: "m_motion_refund u = m_motion_refund (snd (motion_refund_apply c (mouse_body_of bs) s))" .
    have "same_radio s1 ?a" using same_radio_pointer [of c "send_noack c pipe bs" bs ?a] pp by simp
    then have sr: "same_radio s1 t" using same_radio_account same_radio_trans by blast
    have i: "ptx_inv c s1" "m_esb_state s1 = m_esb_state s" "tx_queue s1 = tx_queue s"
      using sr t same_radio_inv [OF sr] by (simp_all add: same_radio_def)
    have "tx_payload_buffer u = pdu_of (hd (tx_queue s)) \<and> radio_txaddress u = pl_pipe (hd (tx_queue s))"
      if "m_esb_state s = ESB_STATE_IDLE" "tx_queue s \<noteq> []"
      using write_idle_sends_head [OF i(1), of ?p u "hd (tx_queue s)" "tl (tx_queue s)"] w q(1) i(2,3) that by simp
    with q r show ?thesis by blast
  qed (use assms(4,6) in simp_all)
qed

section \<open>Properties\<close>

text \<open>
  C9. Every library call the endpoint makes and every interrupt keep the transmitter well formed: both
  FIFOs remain queues of at most their capacity, the configured channel stays on the band, the
  radio is a PTX and never in a receiver's state, and the handler installed for the radio
  interrupt is the one the protocol state expects. The calls are \<open>esb_init\<close> with a PTX
  configuration, and so \<open>esb_init_and_configure\<close>, the only place that calls it; \<open>esb_disable\<close>;
  the setters of the two base addresses, the prefixes, the channel, the retransmit delay and the
  retransmit count; \<open>esb_write_payload\<close>, \<open>esb_flush_tx\<close> and \<open>esb_read_rx_payload\<close>. The
  interrupts are the radio's, the timer's after a packet without acknowledgement, and the event
  interrupt with the endpoint's own callback.
\<close>

theorem esb_transmitter_invariant:
  assumes "ptx_inv c s" "cfg_mode config = ESB_MODE_PTX" "tx_mode config = ESB_TXMODE_AUTO"
  shows "ptx_inv c (snd (esb_init c hw config s)) \<and> ptx_inv c (snd (esb_init_and_configure c hw s)) \<and>
    ptx_inv c (esb_disable s) \<and>
    ptx_inv c (snd (esb_set_base_address_0 addr0 s)) \<and> ptx_inv c (snd (esb_set_base_address_1 addr1 s)) \<and>
    ptx_inv c (snd (esb_set_prefixes prefixes pipes s)) \<and> ptx_inv c (snd (esb_set_rf_channel channel s)) \<and>
    ptx_inv c (snd (esb_set_retransmit_delay delay s)) \<and> ptx_inv c (snd (esb_set_retransmit_count count s)) \<and>
    ptx_inv c (snd (esb_write_payload c p s)) \<and> ptx_inv c (snd (esb_flush_tx c s)) \<and>
    ptx_inv c (snd (esb_read_rx_payload c s)) \<and>
    ptx_inv c (radio_irq_handler c rx rssi pipe crc s) \<and> ptx_inv c (esb_timer_handler c s) \<and>
    ptx_inv c (esb_evt_irq_handler (zmk_esb_transport_evt_cb c) s)"
  using ptx_inv_api [OF assms(1)] ptx_inv_interrupts [OF assms(1)] ptx_inv_setup [OF assms(1)] assms(2,3)
    ptx_inv_configure [OF assms(1)] ptx_inv_event_irq [OF assms(1)]
  by (simp add: endpoint_evt_irq_def)

theorem esb_transmitter_invariant_witness:
  "ptx_inv default_kcfg (snd (esb_init default_kcfg None ptx_config bench_example)) \<and>
   ptx_inv default_kcfg (esb_evt_irq_handler (zmk_esb_transport_evt_cb default_kcfg) bench_example)"
proof -
  have "ptx_inv default_kcfg bench_example" "cfg_mode ptx_config = ESB_MODE_PTX" "tx_mode ptx_config = ESB_TXMODE_AUTO"
    by (simp_all add: ptx_config_def)
  from esb_transmitter_invariant [OF this] show ?thesis by blast
qed

text \<open>The motion of a report, axis by axis, and what report and refund pool hold together.\<close>

definition body_motion :: "esb_mouse_body \<Rightarrow> i32 list" where
  "body_motion b = [scast (mb_d_x b), scast (mb_d_y b), scast (mb_d_scroll_x b), scast (mb_d_scroll_y b)]"

definition pool_motion :: "motion_refund \<Rightarrow> i32 list" where
  "pool_motion r = [rf_dx r, rf_dy r, rf_scroll_x r, rf_scroll_y r]"

lemma refund_record:
  "pool_motion (add_refund (motion_record (Some b) o') now r) = map2 (+) (pool_motion r) (body_motion b)"
  by (simp add: add_refund_def motion_record_def pool_motion_def body_motion_def Let_def)

lemma refund_sum:
  assumes "\<not> refund_stale c s"
  shows "map2 (+) (body_motion (fst (motion_refund_apply c b s)))
      (pool_motion (m_motion_refund (snd (motion_refund_apply c b s)))) =
    map2 (+) (body_motion b) (pool_motion (m_motion_refund s))"
  using assms by (simp add: motion_refund_apply_def body_motion_def pool_motion_def refund_empty_iff Let_def)

text \<open>
  C20. A failed pointer report is delivered twice. The TX_FAILED handler adds the motion of the
  report that failed, on all four axes, to the refund pool and takes its slot off the noack
  ring; but the radio keeps the packet at the head of its FIFO. The next pointer report that is
  sent takes the refund with it: what it carries, with what the pool keeps of it, is its own motion, what the
  pool held before and the motion of the failed report once more. It is queued behind the failed
  report, which the same send puts on the air again when the radio is idle. From then on the
  noack ring is one slot short of the FIFO.
\<close>

theorem tx_failed_refunds_queued_report:
  assumes "ptx_inv c s" "esb_initialized s" "\<not> (RENDEZVOUS c \<and> m_sync_tx_in_progress s)" "\<not> esb_tx_full c s"
    "CHANNEL_HOP c" "sends_in_step c s" "tx_queue s = report # rest"
    "has_motion (mouse_body_of (pl_data report))"
    "m_recent_motion_tail s \<noteq> m_recent_motion_head s"
    "m_recent_motion s ! (unat (m_recent_motion_tail s) mod POINTER_MOTION_RING_SIZE c) =
       motion_record (Some (mouse_body_of (pl_data report))) o'"
    and "s' = zmk_esb_transport_evt_cb c \<lparr>evt_id = ESB_EVENT_TX_FAILED, tx_attempts = n\<rparr> s"
    and "\<not> esb_transport_is_quiet c s'" "\<not> refund_stale c s'" "is_mouse_report bs"
    "length bs \<le> ESB_MAX_PAYLOAD_LEN c" "unat pipe < ESB_PIPE_COUNT" "esb_transport_send c pipe bs s' = (err, u)"
  shows "tx_queue s' = report # rest \<and>
    pool_motion (m_motion_refund s') =
      map2 (+) (pool_motion (m_motion_refund s)) (body_motion (mouse_body_of (pl_data report))) \<and>
    er_list (NOACK_RING_SIZE c) (m_recent_noack s') = map pl_noack rest \<and>
    err = None \<and> (\<exists>p. tx_queue u = report # rest @ [p] \<and> pl_pipe p = pipe \<and>
      map2 (+) (body_motion (mouse_body_of (pl_data p))) (pool_motion (m_motion_refund u)) =
        map2 (+) (body_motion (mouse_body_of bs))
          (map2 (+) (pool_motion (m_motion_refund s)) (body_motion (mouse_body_of (pl_data report))))) \<and>
    (if m_esb_state s = ESB_STATE_IDLE
     then tx_payload_buffer u = pdu_of report \<and> radio_txaddress u = pl_pipe report else True)"
proof -
  let ?s = "s\<lparr>m_last_tx_event_ms := stamp (k_uptime_get_32 s)\<rparr>"
  let ?rec = "motion_record (Some (mouse_body_of (pl_data report))) o'"
  note k = tx_failed_keeps_queue [OF assms(3,4,11)]
  note f = tx_failed_books_frames [where c = c and s = "?s"]
  have q: "tx_queue s' = report # rest" "m_esb_state s' = m_esb_state s" "esb_initialized s'" "\<not> esb_tx_full c s'"
    "ptx_inv c s'"
    using k(2) assms(1,2,4,7) same_radio_inv [OF k(2)] by (simp_all add: same_radio_def esb_tx_full_def)
  have "pm_has_motion ?rec" using assms(8) by (simp add: pm_has_motion_def has_motion_def motion_record_def)
  then have "m_motion_refund s' = add_refund ?rec (k_uptime_get_32 ?s) (m_motion_refund s)"
    using f(3) assms(9,10) unfolding k(1) by simp
  then have pool: "pool_motion (m_motion_refund s') =
      map2 (+) (pool_motion (m_motion_refund s)) (body_motion (mouse_body_of (pl_data report)))"
    by (simp only: refund_record)
  have ring: "er_list (NOACK_RING_SIZE c) (m_recent_noack s') = map pl_noack rest"
    using assms(5,6,7) sends.contents_pop [of "NOACK_RING_SIZE c" "m_recent_noack s"]
    unfolding k(1) f(2) by (simp add: sends_in_step_def)
  obtain p where p: "err = None" "tx_queue u = report # rest @ [p]" "pl_pipe p = pipe" "carries c s' bs (pl_data p)"
      "m_motion_refund u = m_motion_refund (snd (motion_refund_apply c (mouse_body_of bs) s'))"
    and air: "m_esb_state s = ESB_STATE_IDLE \<Longrightarrow> tx_payload_buffer u = pdu_of report \<and> radio_txaddress u = pl_pipe report"
    using send_next_report [OF q(5,3,4) assms(12,14-17)] q(1,2) by auto
  have "mouse_body_of (pl_data p) = fst (motion_refund_apply c (mouse_body_of bs) s')"
    using p(4) assms(14) by (simp add: carries_def)
  then have "map2 (+) (body_motion (mouse_body_of (pl_data p))) (pool_motion (m_motion_refund u)) =
      map2 (+) (body_motion (mouse_body_of bs)) (pool_motion (m_motion_refund s'))"
    using refund_sum [OF assms(13)] p(5) by simp
  then show ?thesis using q(1) pool ring p(1-3) air by auto
qed

text \<open>A pointer report of motion (3, -2) waiting in the radio's FIFO.\<close>

definition report_example :: esb_payload where
  "report_example = \<lparr>pl_pipe = 1, pl_noack = False, pl_pid = 1, pl_rssi = 0,
     pl_data = encode (PktHidReport ESB_REPORT_MOUSE
       (mouse_body_bytes \<lparr>mb_buttons = 0, mb_d_x = 3, mb_d_y = -2, mb_d_scroll_y = 0, mb_d_scroll_x = 0\<rparr>))\<rparr>"

definition fail_example :: bench where
  "fail_example = bench_example
     \<lparr>tx_fifo := \<lparr>rslots = report_example # replicate 7 empty_payload, rback = 1, rfront = 0, rcount = 1\<rparr>,
      m_recent_noack := \<lparr>er_buf = replicate 8 False, er_head = 1, er_tail = 0\<rparr>,
      m_recent_motion := \<lparr>pm_dx = 3, pm_dy = -2, pm_scroll_x = 0, pm_scroll_y = 0, pm_overrode = False\<rparr>
                         # replicate 23 (motion_record None False),
      m_recent_motion_head := 1\<rparr>"

text \<open>The next report, of motion (1, 1), carries (4, -1).\<close>

definition next_example :: "u8 list" where
  "next_example = encode (PktHidReport ESB_REPORT_MOUSE
     (mouse_body_bytes \<lparr>mb_buttons = 0, mb_d_x = 1, mb_d_y = 1, mb_d_scroll_y = 0, mb_d_scroll_x = 0\<rparr>))"

lemma mouse_bytes_example:
  "is_mouse_report (encode (PktHidReport ESB_REPORT_MOUSE (mouse_body_bytes b)))"
  "mouse_body_of (encode (PktHidReport ESB_REPORT_MOUSE (mouse_body_bytes b))) = b"
  "length (encode (PktHidReport ESB_REPORT_MOUSE (mouse_body_bytes b))) = 11"
proof -
  have e: "encode (PktHidReport ESB_REPORT_MOUSE (mouse_body_bytes b)) =
      put_mouse_body b ([ESB_PKT_HID_REPORT, ESB_REPORT_MOUSE] @ replicate 9 0)"
    by (simp add: put_mouse_body_def)
  show "mouse_body_of (encode (PktHidReport ESB_REPORT_MOUSE (mouse_body_bytes b))) = b"
    unfolding e by (rule mouse_body_of_put) simp
  show "length (encode (PktHidReport ESB_REPORT_MOUSE (mouse_body_bytes b))) = 11"
    unfolding e by (simp add: put_mouse_body_length)
  then show "is_mouse_report (encode (PktHidReport ESB_REPORT_MOUSE (mouse_body_bytes b)))"
    by (simp add: is_mouse_report_def mouse_body_size_def)
qed

lemmas mouse_bytes_simps = mouse_bytes_example [simplified]

theorem tx_failed_refunds_queued_report_witness:
  "\<exists>u p. snd (esb_transport_send default_kcfg ESB_PIPE_DATA next_example
       (zmk_esb_transport_evt_cb default_kcfg \<lparr>evt_id = ESB_EVENT_TX_FAILED, tx_attempts = 6\<rparr> fail_example)) = u \<and>
     tx_queue u = [report_example, p] \<and> tx_payload_buffer u = pdu_of report_example \<and>
     map2 (+) (body_motion (mouse_body_of (pl_data p))) (pool_motion (m_motion_refund u)) = [4, -1, 0, 0]"
proof -
  let ?c = default_kcfg
  let ?s' = "zmk_esb_transport_evt_cb ?c \<lparr>evt_id = ESB_EVENT_TX_FAILED, tx_attempts = 6\<rparr> fail_example"
  have b: "mouse_body_of (pl_data report_example) =
      \<lparr>mb_buttons = 0, mb_d_x = 3, mb_d_y = -2, mb_d_scroll_y = 0, mb_d_scroll_x = 0\<rparr>"
    by (simp add: report_example_def mouse_bytes_simps)
  have "\<not> pl_noack report_example" by (simp add: report_example_def)
  have f: "ptx_inv ?c fail_example" "esb_initialized fail_example"
    "\<not> (RENDEZVOUS ?c \<and> m_sync_tx_in_progress fail_example)"
    "\<not> esb_tx_full ?c fail_example" "CHANNEL_HOP ?c" "sends_in_step ?c fail_example"
    "tx_queue fail_example = report_example # []" "has_motion (mouse_body_of (pl_data report_example))"
    "m_recent_motion_tail fail_example \<noteq> m_recent_motion_head fail_example"
    "m_recent_motion fail_example ! (unat (m_recent_motion_tail fail_example) mod POINTER_MOTION_RING_SIZE ?c) =
       motion_record (Some (mouse_body_of (pl_data report_example))) False"
    using bench_example_simps(1) [of "()"] \<open>\<not> pl_noack report_example\<close>
    by (simp_all add: fail_example_def bench_at_def tport_at_def esb_tx_full_def ring_full_def b has_motion_def
        sends_in_step_def er_wf_def er_list_def power_of_two_def ring_list_def motion_record_def
        ptx_inv_def ring_wf_def)
  have e: "\<not> esb_transport_is_quiet ?c ?s'" "\<not> refund_stale ?c ?s'"
  proof -
    note k = tx_failed_keeps_queue [OF f(3,4) refl, where n = 6]
    let ?s = "fail_example\<lparr>m_last_tx_event_ms := stamp (k_uptime_get_32 fail_example)\<rparr>"
    show "\<not> esb_transport_is_quiet ?c ?s'"
      unfolding k(1) esb_transport_is_quiet_def
      by (simp add: books_quiet) (simp add: fail_example_def bench_at_def tport_at_def)
    let ?rec = "motion_record (Some (mouse_body_of (pl_data report_example))) False"
    have "pm_has_motion ?rec" by (simp add: b pm_has_motion_def motion_record_def)
    then have "m_motion_refund ?s' = add_refund ?rec (k_uptime_get_32 ?s) (m_motion_refund fail_example)"
      unfolding k(1) using tx_failed_books_frames(3) [of ?s ?c] f(9,10) by simp
    then have "rf_stamp_ms (m_motion_refund ?s') = 2000"
      by (simp add: add_refund_def fail_example_def bench_at_def tport_at_def zero_refund_def k_uptime_get_32_def
          stamp_def Let_def)
    moreover have "uptime ?s' = 2000"
      using k(2) by (simp add: same_radio_def fail_example_def bench_at_def tport_at_def)
    ultimately show "\<not> refund_stale ?c ?s'"
      by (simp add: refund_stale_def k_uptime_get_32_def msec_def)
  qed
  have i: "m_esb_state fail_example = ESB_STATE_IDLE" "pool_motion (m_motion_refund fail_example) = [0, 0, 0, 0]"
    by (simp_all add: fail_example_def bench_at_def tport_at_def pool_motion_def zero_refund_def)
  have n: "is_mouse_report next_example" "length next_example \<le> ESB_MAX_PAYLOAD_LEN ?c" "unat ESB_PIPE_DATA < ESB_PIPE_COUNT"
    by (simp_all add: next_example_def mouse_bytes_simps ESB_MAX_PAYLOAD_LEN_def pipe_consts ESB_PIPE_COUNT_def)
  from tx_failed_refunds_queued_report [OF f refl e n prod.collapse [symmetric]] i show ?thesis
    by (auto simp: b body_motion_def next_example_def mouse_bytes_simps)
qed

lemma accept_rx_frames:
  "rx_fifo (accept_rx c p s) = rx_fifo s" "esb_initialized (accept_rx c p s) = esb_initialized s"
  by (simp_all add: accept_rx_def k_work_submit_def)

lemma accept_rx_buffer:
  assumes "0 < length (pl_data p)" "length (pl_data p) \<le> ESB_MAX_PAYLOAD_LEN c" "ESB_MAX_PAYLOAD_LEN c < 256"
  shows "take (length (pl_data p)) (t_rx_buf (accept_rx c p s)) = pl_data p \<and>
    unat (t_rx_len (accept_rx c p s)) = length (pl_data p) \<and> pending RxWork (accept_rx c p s)"
proof -
  have "unat (of_nat (length (pl_data p)) :: u8) = length (pl_data p)"
    using assms(2,3) by (simp add: unat_of_nat take_bit_eq_mod)
  then show ?thesis using assms(1,2) by (auto simp: accept_rx_def k_work_submit_def pending_def)
qed

lemma read_rx:
  assumes "esb_initialized s" "ring_wf (ESB_RX_FIFO_SIZE c) (rx_fifo s)"
  shows "esb_read_rx_payload c s =
    (if rx_queue s = [] then (Inl ENODATA, s)
     else (Inr (hd (rx_queue s)), s\<lparr>rx_fifo := ring_pop (ESB_RX_FIFO_SIZE c) (rx_fifo s)\<rparr>))"
  using assms ring_head_list [OF assms(2)]
  by (simp add: esb_read_rx_payload_def rcount_0_iff)
    (metis rcount_0_iff gr0I)

lemma rx_loop_last:
  assumes "esb_initialized s" "ring_wf (ESB_RX_FIFO_SIZE c) (rx_fifo s)"
    "\<forall>p \<in> set (rx_queue s). 0 < length (pl_data p) \<and> length (pl_data p) \<le> ESB_MAX_PAYLOAD_LEN c"
    "ESB_MAX_PAYLOAD_LEN c < 256"
  shows "rx_queue (rx_loop c s) = [] \<and>
    (rx_queue s \<noteq> [] \<longrightarrow>
       take (length (pl_data (last (rx_queue s)))) (t_rx_buf (rx_loop c s)) = pl_data (last (rx_queue s)) \<and>
       unat (t_rx_len (rx_loop c s)) = length (pl_data (last (rx_queue s))) \<and>
       pending RxWork (rx_loop c s))"
  using assms(1-3)
proof (induction "rx_queue s" arbitrary: s)
  case Nil
  then show ?case by (simp add: rx_loop.simps [of c s] read_rx)
next
  case (Cons p ps)
  let ?r = "s\<lparr>rx_fifo := ring_pop (ESB_RX_FIFO_SIZE c) (rx_fifo s)\<rparr>"
  let ?t = "accept_rx c p ?r"
  have q: "rx_queue s = p # ps" using Cons.hyps(2) by simp
  have step: "rx_loop c s = rx_loop c ?t"
    using Cons.prems(1,2) q by (simp add: rx_loop.simps [of c s] read_rx)
  have t: "ps = rx_queue ?t" "esb_initialized ?t" "ring_wf (ESB_RX_FIFO_SIZE c) (rx_fifo ?t)"
    using Cons.prems(1,2) q by (simp_all add: accept_rx_frames ring_list_pop ring_wf_pop)
  have p: "0 < length (pl_data p)" "length (pl_data p) \<le> ESB_MAX_PAYLOAD_LEN c"
    using Cons.prems(3) q by auto
  have "\<forall>p \<in> set (rx_queue ?t). 0 < length (pl_data p) \<and> length (pl_data p) \<le> ESB_MAX_PAYLOAD_LEN c"
    using Cons.prems(3) q t(1) by auto
  from Cons.hyps(1) [OF t(1) t(2,3) this] show ?case
  proof (cases "ps = []")
    case True
    then have "rx_loop c ?t = ?t" using t by (simp add: rx_loop.simps [of c ?t] read_rx)
    then show ?thesis
      using accept_rx_buffer [OF p assms(4), of ?r] t(1) True unfolding step q by simp
  next
    case False
    with \<open>rx_queue (rx_loop c ?t) = [] \<and> _\<close> t(1) show ?thesis unfolding step q by simp
  qed
qed

text \<open>
  C21. Only the last of several received packets is delivered. When the radio has queued more
  than one packet by the time the receive event is handled, the handler empties the FIFO into
  one buffer, and the receive work then sees the last packet only.
\<close>

theorem rx_burst_delivers_last_only:
  assumes "esb_initialized s" "ring_wf (ESB_RX_FIFO_SIZE c) (rx_fifo s)" "ESB_MAX_PAYLOAD_LEN c < 256"
    "rx_queue s = ps @ [p]"
    "\<forall>p \<in> set (rx_queue s). 0 < length (pl_data p) \<and> length (pl_data p) \<le> ESB_MAX_PAYLOAD_LEN c"
    and "s' = zmk_esb_transport_evt_cb c \<lparr>evt_id = ESB_EVENT_RX_RECEIVED, tx_attempts = n\<rparr> s"
  shows "rx_queue s' = [] \<and> pending RxWork s' \<and> unat (t_rx_len s') = length (pl_data p) \<and>
    take (unat (t_rx_len s')) (t_rx_buf s') = pl_data p"
  using rx_loop_last [OF assms(1,2,5,3)] assms(4) unfolding assms(6)
  by (simp add: zmk_esb_transport_evt_cb_def Let_def)

definition burst_example :: bench where
  "burst_example = bench_example
     \<lparr>rx_fifo := \<lparr>rslots = empty_payload\<lparr>pl_data := encode (PktHopConfirm 20 20)\<rparr>
                   # empty_payload\<lparr>pl_data := encode PktShellReq\<rparr> # replicate 6 empty_payload,
                 rback = 2, rfront = 0, rcount = 2\<rparr>\<rparr>"

theorem rx_burst_delivers_last_only_witness:
  "\<exists>s'. s' = zmk_esb_transport_evt_cb default_kcfg \<lparr>evt_id = ESB_EVENT_RX_RECEIVED, tx_attempts = 0\<rparr> burst_example \<and>
     rx_queue s' = [] \<and> unat (t_rx_len s') = 1 \<and>
     take (unat (t_rx_len s')) (t_rx_buf s') = encode PktShellReq"
proof -
  have f: "esb_initialized burst_example" "ring_wf (ESB_RX_FIFO_SIZE default_kcfg) (rx_fifo burst_example)"
    "ESB_MAX_PAYLOAD_LEN default_kcfg < 256"
    by (simp_all add: burst_example_def ring_wf_def ESB_MAX_PAYLOAD_LEN_def)
  have q: "rx_queue burst_example =
      [empty_payload\<lparr>pl_data := encode (PktHopConfirm 20 20)\<rparr>] @ [empty_payload\<lparr>pl_data := encode PktShellReq\<rparr>]"
    by (simp add: burst_example_def ring_list_def upt_conv_Cons)
  have b: "\<forall>p \<in> set (rx_queue burst_example).
      0 < length (pl_data p) \<and> length (pl_data p) \<le> ESB_MAX_PAYLOAD_LEN default_kcfg"
    by (simp add: q ESB_MAX_PAYLOAD_LEN_def)
  from rx_burst_delivers_last_only [OF f q b refl, where n = 0] show ?thesis by auto
qed

end
