(* ===== verification/HopWork.thy ===== *)
theory HopWork
  imports Transport
begin

text \<open>
  The endpoint's channel-hop manager, \<open>src/esb/channel_hop_ep.c\<close>, second part: its work functions,
  which use the transport. \<open>sleep\<close> and \<open>wait\<close> are what the rest of the firmware does while
  \<open>esb_transport_flush_tx\<close> sleeps and while \<open>esb_transport_send_blocking\<close> waits for its event;
  a work function that sleeps returns \<open>None\<close> when its wait never ends.
\<close>

section \<open>What a send leaves alone\<close>

text \<open>
  A send is a chain of small steps, each of which touches few fields. A property \<open>I\<close> of the state
  that every step keeps is kept by the whole send; \<open>ok\<close> restricts the packets, for the
  properties that a report of user activity would not keep.
\<close>

locale send_invariant =
  fixes c :: kcfg
    and I :: "'a tport_scheme \<Rightarrow> bool"
    and ok :: "u8 list \<Rightarrow> bool"
  assumes keep_jitter: "I s \<Longrightarrow> I (snd (jittered_retransmit_delay c s))"
    and keep_delay: "I s \<Longrightarrow> I (snd (esb_set_retransmit_delay d s))"
    and keep_quiet_over: "I s \<Longrightarrow> I (s\<lparr>m_tx_quiet_until_ms := 0\<rparr>)"
    and keep_flush: "I s \<Longrightarrow> I (esb_flush_tx_and_reset c s)"
    and keep_noack: "I s \<Longrightarrow>
          I (s\<lparr>m_recent_noack := er_push (NOACK_RING_SIZE c) b (m_recent_noack s)\<rparr>)"
    and keep_activity: "I s \<Longrightarrow> I (note_activity s)"
    and keep_hid: "I s \<Longrightarrow> I (hid_tx_account bs s)"
    and keep_user: "I s \<Longrightarrow> ok bs \<Longrightarrow> is_user_traffic bs \<Longrightarrow> I (channel_hop_ep_note_user_tx c s)"
    and keep_critical: "I s \<Longrightarrow> I (critical_ring_push c bs s)"
    and keep_pointer: "I s \<Longrightarrow> I (snd (pointer_prepare c k bs s))"
    and keep_write: "I s \<Longrightarrow> I (snd (esb_write_payload c p s))"
begin

lemma keep_account:
  assumes "I s" "ok bs"
  shows "I (send_account c pipe bs s)"
proof -
  have "I (if CHANNEL_HOP c
           then s\<lparr>m_recent_noack := er_push (NOACK_RING_SIZE c) (send_noack c pipe bs) (m_recent_noack s)\<rparr>
           else s)" (is "I ?a")
    using assms keep_noack by simp
  then have "I (if \<not> first_is ESB_PKT_SHELL_BG_POLL bs then note_activity ?a else ?a)" (is "I ?b")
    using keep_activity by simp
  then have "I (hid_tx_account bs ?b)" (is "I ?d") by (rule keep_hid)
  then have "I (if is_user_traffic bs then channel_hop_ep_note_user_tx c ?d else ?d)" (is "I ?e")
    using keep_user assms(2) by simp
  then show ?thesis using keep_critical unfolding send_account_def Let_def by simp
qed

lemma keep_admitted:
  assumes "I s" "ok bs"
  shows "I (snd (send_admitted c pipe bs s))"
proof -
  let ?s0 = "if esb_tx_full c s then esb_flush_tx_and_reset c s else s"
  have "I (send_account c pipe bs ?s0)" using assms keep_flush keep_account by simp
  then have "I (snd (pointer_prepare c (send_noack c pipe bs) bs (send_account c pipe bs ?s0)))"
    by (rule keep_pointer)
  then show ?thesis using assms(1) keep_write unfolding send_admitted_eq by (simp add: case_prod_beta)
qed

lemma keep_send:
  assumes "I s" "ok bs"
  shows "I (snd (esb_transport_send c pipe bs s))"
proof -
  obtain delay u where j: "jittered_retransmit_delay c s = (delay, u)" by fastforce
  let ?t = "snd (esb_set_retransmit_delay delay u)"
  have t: "I ?t" using keep_jitter [OF assms(1)] keep_delay j by simp
  have a: "I (snd (send_admitted c pipe bs ?t))" using t assms(2) by (rule keep_admitted)
  have b: "I (snd (send_admitted c pipe bs (?t\<lparr>m_tx_quiet_until_ms := 0\<rparr>)))"
    using keep_quiet_over [OF t] assms(2) by (rule keep_admitted)
  show ?thesis
    using assms(1) t a b by (simp add: esb_transport_send_def j Let_def)
qed

end

text \<open>The hop manager's own fields, as one value.\<close>

definition hop_view where
  "hop_view s =
     (m_quarantine s, m_committed_next s, m_link_up s, m_committed_synced s, m_prev_channel s, m_active s,
      m_post_hop_burst_remaining s, m_pending_candidate s, m_request_burst_remaining s,
      m_hop_cooldown_until s, m_last_link_event_ms s, m_rendezvous_fallback_pending s,
      m_coop_hop_state s, m_coop_hop_target s, m_coop_hop_seq s, m_last_tx_was_offer s,
      m_coop_hop_cooldown_until s)"

lemma hop_inv_view: "hop_view s = hop_view t \<Longrightarrow> hop_inv c s = hop_inv c t"
  by (simp add: hop_view_def hop_inv_def)

lemma send_step_frames:
  "hop_view (snd (jittered_retransmit_delay c s)) = hop_view s"
  "hop_view (snd (esb_set_retransmit_delay d s)) = hop_view s"
  "hop_view (snd (esb_set_retransmit_count k s)) = hop_view s"
  "hop_view (esb_flush_tx_and_reset c s) = hop_view s"
  "hop_view (note_activity s) = hop_view s"
  "hop_view (hid_tx_account bs s) = hop_view s"
  "hop_view (critical_ring_push c bs s) = hop_view s"
  "hop_view (motion_ring_push c body b s) = hop_view s"
  "hop_view (snd (motion_refund_apply c body' s)) = hop_view s"
  "hop_view (snd (esb_write_payload c p s)) = hop_view s"
  by (simp_all add: hop_view_def jittered_retransmit_delay_def esb_set_retransmit_delay_def
      esb_set_retransmit_count_def esb_flush_tx_and_reset_def restore_retransmit_count_def
      esb_flush_tx_def clear_ack_wraps_def note_activity_def hid_tx_account_def critical_ring_push_def
      motion_ring_push_def motion_refund_apply_def esb_write_payload_def start_tx_transaction_def Let_def
      split: option.splits)

lemma send_step_frames_pointer: "hop_view (snd (pointer_prepare c k bs s)) = hop_view s"
  by (simp add: pointer_prepare_def send_step_frames case_prod_beta Let_def)

section \<open>Negotiation\<close>

definition pick_candidate :: "kcfg \<Rightarrow> 'a tport_scheme \<Rightarrow> u8 \<times> 'a tport_scheme" where
  "pick_candidate c s =
     channel_hop_pick (m_quarantine s) (of_nat (QUARANTINE_MIN_DISTANCE c)) (esb_transport_get_channel s) s"

definition select_pending_candidate :: "kcfg \<Rightarrow> 'a tport_scheme \<Rightarrow> u8 \<times> 'a tport_scheme" where
  "select_pending_candidate c s =
     (if m_pending_candidate s \<noteq> CHANNEL_HOP_INVALID \<and>
         m_pending_candidate s \<noteq> esb_transport_get_channel s \<and>
         \<not> quarantine_is (k_uptime_get_32 s) (m_quarantine s) (m_pending_candidate s)
      then (m_pending_candidate s, s)
      else (case pick_candidate c s of (ch, s) \<Rightarrow> (ch, s\<lparr>m_pending_candidate := ch\<rparr>)))"

definition send_proposal :: "kcfg \<Rightarrow> u8 \<Rightarrow> 'a tport_scheme \<Rightarrow> 'a tport_scheme" where
  "send_proposal c candidate s =
     snd (esb_transport_send c ESB_PIPE_DATA (encode (PktHopProposal candidate (esb_transport_get_channel s))) s)"

definition needs_commit :: "'a tport_scheme \<Rightarrow> bool" where
  "needs_commit s \<longleftrightarrow>
     m_committed_next s = CHANNEL_HOP_INVALID \<or>
     quarantine_is (k_uptime_get_32 s) (m_quarantine s) (m_committed_next s) \<or>
     m_committed_next s = esb_transport_get_channel s"

definition negotiate_send :: "kcfg \<Rightarrow> 'a tport_scheme \<Rightarrow> 'a tport_scheme" where
  "negotiate_send c s =
     (if needs_commit s
      then (case pick_candidate c (s\<lparr>m_committed_synced := False\<rparr>) of
              (candidate, s) \<Rightarrow> if candidate \<noteq> CHANNEL_HOP_INVALID then send_proposal c candidate s else s)
      else if \<not> m_committed_synced s then send_proposal c (m_committed_next s) s
      else s)"

definition negotiate_work_fn :: "kcfg \<Rightarrow> 'a tport_scheme \<Rightarrow> 'a tport_scheme" where
  "negotiate_work_fn c s =
     (if \<not> m_link_up s then s
      else if \<not> m_active s then k_work_reschedule NegotiateWork (NEGOTIATE_INTERVAL_MS c) s
      else
        (let must_commit = needs_commit s;
             s = negotiate_send c s;
             fast_retry = (must_commit \<or> 0 < m_request_burst_remaining s);
             s = (if 0 < m_request_burst_remaining s
                  then s\<lparr>m_request_burst_remaining := m_request_burst_remaining s - 1\<rparr> else s)
         in k_work_reschedule NegotiateWork
              (if fast_retry then NEGOTIATE_RETRY_MS c else NEGOTIATE_INTERVAL_MS c) s))"

section \<open>Going idle\<close>

definition send_idle_packet ::
    "kcfg \<Rightarrow> ('a tport_scheme \<Rightarrow> 'a tport_scheme) \<Rightarrow> 'a tport_scheme \<Rightarrow> 'a tport_scheme option" where
  "send_idle_packet c sleep s =
     map_option (\<lambda>s. snd (esb_transport_send c ESB_PIPE_DATA (encode PktIdle) s))
       (esb_transport_flush_tx c sleep s)"

definition enter_idle_state ::
    "kcfg \<Rightarrow> ('a tport_scheme \<Rightarrow> 'a tport_scheme) \<Rightarrow> 'a tport_scheme \<Rightarrow> 'a tport_scheme option" where
  "enter_idle_state c sleep s =
     (if \<not> m_active s then Some s
      else
        (let s = s\<lparr>m_active := False\<rparr>;
             s = k_work_cancel NegotiateWork s;
             s = k_work_cancel IdleCheckWork s;
             s = (if COOP_HOP c then coop_hop_abort s else s)
         in send_idle_packet c sleep s))"

definition idle_check_work_fn ::
    "kcfg \<Rightarrow> ('a tport_scheme \<Rightarrow> 'a tport_scheme) \<Rightarrow> 'a tport_scheme \<Rightarrow> 'a tport_scheme option" where
  "idle_check_work_fn c sleep s =
     (if \<not> m_link_up s \<or> \<not> m_active s then Some s else enter_idle_state c sleep s)"

section \<open>The burst of proposals after a hop\<close>

definition burst_candidate :: "kcfg \<Rightarrow> 'a tport_scheme \<Rightarrow> u8 \<times> 'a tport_scheme" where
  "burst_candidate c s =
     (if m_committed_next s \<noteq> CHANNEL_HOP_INVALID \<and>
         m_committed_next s \<noteq> esb_transport_get_channel s \<and>
         \<not> quarantine_is (k_uptime_get_32 s) (m_quarantine s) (m_committed_next s)
      then (m_committed_next s, s)
      else select_pending_candidate c s)"

definition burst_on_rendezvous :: "kcfg \<Rightarrow> 'a tport_scheme \<Rightarrow> bool" where
  "burst_on_rendezvous c s \<longleftrightarrow>
     (let every = POST_BURST_RENDEZVOUS_EVERY c;
          tick_index = unat (of_nat (POST_BURST_COUNT c) - m_post_hop_burst_remaining s)
      in RENDEZVOUS c \<and> 0 < every \<and> 0 < tick_index \<and> tick_index mod every = 0 \<and>
         esb_transport_get_rendezvous_channel s \<noteq> esb_transport_get_channel s)"

definition burst_send ::
    "kcfg \<Rightarrow> ('a tport_scheme \<Rightarrow> 'a tport_scheme) \<Rightarrow> u8 \<Rightarrow> 'a tport_scheme \<Rightarrow> 'a tport_scheme" where
  "burst_send c wait candidate s =
     (let current = esb_transport_get_channel s
      in if burst_on_rendezvous c s
         then snd (esb_transport_send_blocking c wait (esb_transport_get_rendezvous_channel s)
                     ESB_PIPE_DATA (encode (PktHopProposal current current)) s)
         else if candidate \<noteq> CHANNEL_HOP_INVALID \<and> \<not> m_committed_synced s
         then send_proposal c candidate s
         else s)"

definition post_hop_burst_work_fn ::
    "kcfg \<Rightarrow> ('a tport_scheme \<Rightarrow> 'a tport_scheme) \<Rightarrow> ('a tport_scheme \<Rightarrow> 'a tport_scheme) \<Rightarrow>
     'a tport_scheme \<Rightarrow> 'a tport_scheme option" where
  "post_hop_burst_work_fn c sleep wait s =
     (if m_post_hop_burst_remaining s = 0 then Some s
      else
        (let (candidate, s) = burst_candidate c s;
             s = burst_send c wait candidate s;
             s = s\<lparr>m_post_hop_burst_remaining := m_post_hop_burst_remaining s - 1\<rparr>
         in if 0 < m_post_hop_burst_remaining s
            then Some (k_work_reschedule PostHopBurstWork (POST_BURST_INTERVAL_MS c) s)
            else
              (let s = s\<lparr>m_pending_candidate := CHANNEL_HOP_INVALID\<rparr>
               in if \<not> m_active s then send_idle_packet c sleep s else Some s)))"

definition start_post_hop_burst :: "kcfg \<Rightarrow> 'a hop_scheme \<Rightarrow> 'a hop_scheme" where
  "start_post_hop_burst c s =
     (if POST_BURST_COUNT c = 0 then s
      else k_work_reschedule PostHopBurstWork (HOP_POST_QUIET_MS c)
             (s\<lparr>m_post_hop_burst_remaining := of_nat (POST_BURST_COUNT c),
                m_pending_candidate := CHANNEL_HOP_INVALID\<rparr>))"

section \<open>Hopping\<close>

definition hop_retry_work_fn :: "'a hop_scheme \<Rightarrow> 'a hop_scheme" where
  "hop_retry_work_fn s = k_work_submit HopWork s"

text \<open>What a hop and a rendezvous fallback share once the radio has switched.\<close>

definition hop_committed :: "kcfg \<Rightarrow> 'a hop_scheme \<Rightarrow> 'a hop_scheme" where
  "hop_committed c s =
     (let s = s\<lparr>m_committed_next := CHANNEL_HOP_INVALID, m_committed_synced := False,
                m_hop_cooldown_until := k_uptime_get_32 s + msec (HOP_COOLDOWN_MS c),
                m_last_link_event_ms := stamp (k_uptime_get_32 s)\<rparr>;
          s = start_post_hop_burst c s
      in k_work_reschedule NegotiateWork (NEGOTIATE_RETRY_MS c) s)"

definition commit_hop_bookkeeping :: "kcfg \<Rightarrow> u8 \<Rightarrow> u32 \<Rightarrow> 'a hop_scheme \<Rightarrow> 'a hop_scheme" where
  "commit_hop_bookkeeping c prev quarantine_ms s =
     hop_committed c
       (s\<lparr>m_quarantine := quarantine_add (k_uptime_get_32 s) (m_quarantine s) prev quarantine_ms\<rparr>)"

definition clear_quarantine :: "u8 \<Rightarrow> 'a hop_scheme \<Rightarrow> 'a hop_scheme" where
  "clear_quarantine ch s =
     s\<lparr>m_quarantine := (m_quarantine s)\<lparr>expires_at := (expires_at (m_quarantine s))[unat ch := 0]\<rparr>\<rparr>"

text \<open>The decision of \<open>hop_work_fn\<close>: stay, give up for want of a candidate, or a target.\<close>

datatype hop_decision = HopStay | HopNoCandidate | HopTo u8

definition hop_decide :: "kcfg \<Rightarrow> bool \<Rightarrow> bool \<Rightarrow> 'a tport_scheme \<Rightarrow> hop_decision \<times> 'a tport_scheme" where
  "hop_decide c is_fallback is_revert s =
     (let current = esb_transport_get_channel s
      in if is_fallback
         then (let target = esb_transport_get_rendezvous_channel s
               in (if target = current then HopStay else HopTo target, s))
         else if is_revert then (HopTo (m_prev_channel s), s)
         else if m_committed_next s = CHANNEL_HOP_INVALID \<or> m_committed_next s = current
         then (case pick_candidate c s of
                 (target, s) \<Rightarrow> (if target = CHANNEL_HOP_INVALID then HopNoCandidate else HopTo target, s))
         else (HopTo (m_committed_next s), s))"

definition hop_work_fn :: "kcfg \<Rightarrow> 'a tport_scheme \<Rightarrow> 'a tport_scheme" where
  "hop_work_fn c s =
     (let current = esb_transport_get_channel s;
          is_revert = (m_prev_channel s \<noteq> CHANNEL_HOP_INVALID \<and> m_prev_channel s \<noteq> current);
          is_fallback = (RENDEZVOUS c \<and> m_rendezvous_fallback_pending s);
          s = (if is_fallback then s\<lparr>m_rendezvous_fallback_pending := False\<rparr> else s)
      in case hop_decide c is_fallback is_revert s of
           (HopStay, s) \<Rightarrow> s
         | (HopNoCandidate, s) \<Rightarrow> esb_transport_reset_consecutive_fail s
         | (HopTo target, s) \<Rightarrow>
             (case esb_transport_set_channel c target s of
                (Some _, s) \<Rightarrow>
                  k_work_reschedule HopRetryWork (HOP_RETRY_DELAY_MS c) (esb_transport_reset_consecutive_fail s)
              | (None, s) \<Rightarrow>
                  if is_fallback
                  then hop_committed c ((clear_quarantine target s)\<lparr>m_prev_channel := CHANNEL_HOP_INVALID\<rparr>)
                  else
                    (let s = (if is_revert then clear_quarantine target s else s);
                         s = s\<lparr>m_prev_channel := if is_revert then CHANNEL_HOP_INVALID else current\<rparr>
                     in commit_hop_bookkeeping c current (msec (QUARANTINE_MS c)) s)))"

section \<open>The cooperative hop\<close>

definition coop_hop_pick_target :: "kcfg \<Rightarrow> 'a tport_scheme \<Rightarrow> u8 \<times> 'a tport_scheme" where
  "coop_hop_pick_target c s =
     (if m_committed_next s \<noteq> CHANNEL_HOP_INVALID \<and>
         m_committed_next s \<noteq> esb_transport_get_channel s \<and>
         \<not> quarantine_is (k_uptime_get_32 s) (m_quarantine s) (m_committed_next s)
      then (m_committed_next s, s)
      else pick_candidate c s)"

definition coop_send_offer :: "kcfg \<Rightarrow> u8 \<Rightarrow> 'a tport_scheme \<Rightarrow> 'a tport_scheme" where
  "coop_send_offer c target s =
     (let s = s\<lparr>m_coop_hop_target := target, m_coop_hop_seq := m_coop_hop_seq s + 1\<rparr>;
          pkt = encode (PktHopOffer target (of_nat (COOP_HOP_HOP_IN_MS c)) (m_coop_hop_seq s));
          s = s\<lparr>m_last_tx_was_offer := True\<rparr>
      in case esb_transport_send c ESB_PIPE_DATA pkt s of
           (Some _, s) \<Rightarrow> s\<lparr>m_last_tx_was_offer := False, m_coop_hop_state := COOP_IDLE\<rparr>
         | (None, s) \<Rightarrow> s)"

definition coop_hop_offer_work_fn :: "kcfg \<Rightarrow> 'a tport_scheme \<Rightarrow> 'a tport_scheme" where
  "coop_hop_offer_work_fn c s =
     (if \<not> m_link_up s \<or> \<not> m_active s then s\<lparr>m_coop_hop_state := COOP_IDLE\<rparr>
      else if m_coop_hop_state s \<noteq> COOP_OFFERED then s
      else
        (case coop_hop_pick_target c s of
           (target, s) \<Rightarrow>
             if target = CHANNEL_HOP_INVALID \<or> target = esb_transport_get_channel s
             then s\<lparr>m_coop_hop_state := COOP_IDLE\<rparr>
             else coop_send_offer c target s))"

definition coop_hop_commit_work_fn :: "kcfg \<Rightarrow> 'a tport_scheme \<Rightarrow> 'a tport_scheme" where
  "coop_hop_commit_work_fn c s =
     (if m_coop_hop_state s \<noteq> COOP_ARMED then s
      else
        (let current = esb_transport_get_channel s;
             target = m_coop_hop_target s
         in if target = CHANNEL_HOP_INVALID \<or> target = current then s\<lparr>m_coop_hop_state := COOP_IDLE\<rparr>
            else
              (case esb_transport_set_channel c target s of
                 (Some _, s) \<Rightarrow>
                   k_work_reschedule HopRetryWork (HOP_RETRY_DELAY_MS c) (s\<lparr>m_coop_hop_state := COOP_IDLE\<rparr>)
               | (None, s) \<Rightarrow>
                   (let s = s\<lparr>m_prev_channel := CHANNEL_HOP_INVALID\<rparr>;
                        s = commit_hop_bookkeeping c current (msec (COOP_HOP_QUARANTINE_MS c)) s
                    in s\<lparr>m_coop_hop_cooldown_until := k_uptime_get_32 s + msec (COOP_HOP_COOLDOWN_MS c),
                         m_coop_hop_state := COOP_IDLE\<rparr>))))"

end
