(* ===== verification/HopManager.thy ===== *)
theory HopManager
  imports TransportEvt HopWork
begin

text \<open>
  What the channel-hop manager of \<open>src/esb/channel_hop_ep.c\<close> does over time: the instances of the
  send contract, the outcome of a hop, the cooperative handshake, and the invariant that holds
  however its hooks, its work functions, the radio interrupts and the senders are interleaved.
\<close>

section \<open>The send contract, instantiated\<close>

lemma addr_frames [frames]:
  "m_addr (snd (jittered_retransmit_delay c s)) = m_addr s"
  "m_addr (snd (esb_set_retransmit_delay d s)) = m_addr s"
  "m_addr (snd (esb_set_retransmit_count k s)) = m_addr s"
  "m_addr (esb_flush_tx_and_reset c s) = m_addr s"
  "m_addr (note_activity s) = m_addr s"
  "m_addr (hid_tx_account bs s) = m_addr s"
  "m_addr (channel_hop_ep_note_user_tx c s) = m_addr s"
  "m_addr (critical_ring_push c bs s) = m_addr s"
  "m_addr (motion_ring_push c body b s) = m_addr s"
  "m_addr (snd (motion_refund_apply c body' s)) = m_addr s"
  "m_addr (snd (esb_write_payload c p s)) = m_addr s"
  by (simp_all add: jittered_retransmit_delay_def esb_set_retransmit_delay_def
      esb_set_retransmit_count_def esb_flush_tx_and_reset_def restore_retransmit_count_def
      esb_flush_tx_def clear_ack_wraps_def note_activity_def hid_tx_account_def critical_ring_push_def
      motion_ring_push_def motion_refund_apply_def esb_write_payload_def start_tx_transaction_def
      channel_hop_ep_note_user_tx_def enter_active_state_def k_work_reschedule_def Let_def
      split: option.splits)

lemma addr_pointer [frames]: "m_addr (snd (pointer_prepare c k bs s)) = m_addr s"
  by (simp add: pointer_prepare_def frames case_prod_beta Let_def)

interpretation send_hop_inv: send_invariant c "hop_inv c" "\<lambda>_. True"
proof
  fix s :: "'b tport_scheme" and d bs k p b assume "hop_inv c s"
  note inv = this hop_inv_view [THEN iffD1, rotated, OF this, OF sym]
  show "hop_inv c (snd (jittered_retransmit_delay c s))" by (rule inv) (simp add: send_step_frames)
  show "hop_inv c (snd (esb_set_retransmit_delay d s))" by (rule inv) (simp add: send_step_frames)
  show "hop_inv c (esb_flush_tx_and_reset c s)" by (rule inv) (simp add: send_step_frames)
  show "hop_inv c (note_activity s)" by (rule inv) (simp add: send_step_frames)
  show "hop_inv c (hid_tx_account bs s)" by (rule inv) (simp add: send_step_frames)
  show "hop_inv c (critical_ring_push c bs s)" by (rule inv) (simp add: send_step_frames)
  show "hop_inv c (snd (pointer_prepare c k bs s))" by (rule inv) (simp add: send_step_frames_pointer)
  show "hop_inv c (snd (esb_write_payload c p s))" by (rule inv) (simp add: send_step_frames)
  show "hop_inv c (s\<lparr>m_tx_quiet_until_ms := 0\<rparr>)" by (rule inv) (simp add: hop_view_def)
  show "hop_inv c (s\<lparr>m_recent_noack := er_push (NOACK_RING_SIZE c) b (m_recent_noack s)\<rparr>)"
    by (rule inv) (simp add: hop_view_def)
  show "hop_inv c (channel_hop_ep_note_user_tx c s)" using \<open>hop_inv c s\<close> by (rule hop_inv_note_user_tx)
qed

interpretation send_ptx_inv: send_invariant c "ptx_inv c" "\<lambda>_. True"
proof
  fix s :: "'b tport_scheme" and d bs k p b assume "ptx_inv c s"
  note inv = this same_radio_inv [THEN iffD2, OF _ this]
  show "ptx_inv c (snd (jittered_retransmit_delay c s))" by (rule inv) (rule same_radio_intros)
  show "ptx_inv c (snd (esb_set_retransmit_delay d s))" by (rule inv) (rule same_radio_intros)
  show "ptx_inv c (note_activity s)" by (rule inv) (rule same_radio_intros)
  show "ptx_inv c (hid_tx_account bs s)" by (rule inv) (rule same_radio_intros)
  show "ptx_inv c (critical_ring_push c bs s)" by (rule inv) (rule same_radio_intros)
  show "ptx_inv c (snd (pointer_prepare c k bs s))" by (rule inv) (rule same_radio_intros)
  show "ptx_inv c (channel_hop_ep_note_user_tx c s)" by (rule inv) (rule same_radio_intros)
  show "ptx_inv c (s\<lparr>m_tx_quiet_until_ms := 0\<rparr>)" by (rule inv) (simp add: same_radio_def)
  show "ptx_inv c (s\<lparr>m_recent_noack := er_push (NOACK_RING_SIZE c) b (m_recent_noack s)\<rparr>)"
    by (rule inv) (simp add: same_radio_def)
  show "ptx_inv c (esb_flush_tx_and_reset c s)"
    using ptx_inv_api(2) [OF inv(1)]
    by (simp add: esb_flush_tx_and_reset_def restore_retransmit_count_def esb_set_retransmit_count_def
        Let_def ptx_inv_def)
  show "ptx_inv c (snd (esb_write_payload c p s))" using ptx_inv_api(1) [OF inv(1)] .
qed

interpretation send_addr: send_invariant c "\<lambda>s. m_addr s = a" "\<lambda>_. True"
  by unfold_locales (simp_all add: frames addr_frames)

interpretation send_view: send_invariant c "\<lambda>s. hop_view s = v" "\<lambda>bs. \<not> is_user_traffic bs"
  by unfold_locales (simp_all add: send_step_frames send_step_frames_pointer, simp_all add: hop_view_def)

lemma send_keeps_view:
  "\<not> is_user_traffic bs \<Longrightarrow> hop_view (snd (esb_transport_send c pipe bs s)) = hop_view s"
  by (rule send_view.keep_send [OF refl])

lemma send_keeps_addr: "m_addr (snd (esb_transport_send c pipe bs s)) = m_addr s"
  by (rule send_addr.keep_send [OF refl TrueI])

lemmas send_keeps_inv = send_hop_inv.keep_send [OF _ TrueI] send_ptx_inv.keep_send [OF _ TrueI]

section \<open>Picking and switching\<close>

lemma pick_candidate_state:
  assumes "pick_candidate c s = (ch, s')"
  obtains x where "s' = s\<lparr>m_prng_state := x\<rparr>"
proof -
  have "s' = s \<or> s' = snd (prng_next s)"
    using assms unfolding pick_candidate_def by (rule channel_hop_pick_frames)
  then show thesis using that [of "m_prng_state s"] that by (auto simp: prng_next_def Let_def)
qed

lemma pick_candidate_ok:
  assumes "pick_candidate c s = (ch, s')"
  shows "channel_ok ch" "ch \<noteq> CHANNEL_HOP_INVALID \<Longrightarrow>
    unat ch < CHANNEL_HOP_CHANNEL_COUNT \<and> \<not> quarantine_is (k_uptime_get_32 s) (m_quarantine s) ch \<and>
    ch \<noteq> esb_transport_get_channel s"
  using pick_channel [OF assms [unfolded pick_candidate_def]] by (auto simp: channel_ok_def)

lemma prng_frames [simp]:
  "hop_view (s\<lparr>m_prng_state := x\<rparr>) = hop_view s"
  "esb_transport_get_channel (s\<lparr>m_prng_state := x\<rparr>) = esb_transport_get_channel s"
  "ptx_inv c (s\<lparr>m_prng_state := x\<rparr>) = ptx_inv c s"
  "hop_inv c (s\<lparr>m_prng_state := x\<rparr>) = hop_inv c s"
  by (simp_all add: hop_view_def esb_transport_get_channel_def ptx_inv_def hop_inv_def)

lemma set_rf_frames:
  "hop_view (snd (esb_set_rf_channel x s)) = hop_view s"
  "uptime (snd (esb_set_rf_channel x s)) = uptime s"
  "sched (snd (esb_set_rf_channel x s)) = sched s"
  "esb_initialized (snd (esb_set_rf_channel x s)) = esb_initialized s"
  "m_esb_state (snd (esb_set_rf_channel x s)) = m_esb_state s"
  "m_addr (snd (esb_set_rf_channel x s)) = m_addr s"
  by (simp_all add: esb_set_rf_channel_def, simp_all add: hop_view_def)

lemma reset_history_frames:
  "hop_view (reset_link_history c s) = hop_view s"
  "uptime (reset_link_history c s) = uptime s"
  "sched (reset_link_history c s) = sched s"
  "esb_initialized (reset_link_history c s) = esb_initialized s"
  "m_esb_state (reset_link_history c s) = m_esb_state s"
  "m_addr (reset_link_history c s) = m_addr s"
  "rf_channel (reset_link_history c s) = rf_channel s"
  by (simp_all add: reset_link_history_def Let_def, simp_all add: hop_view_def)

lemma flush_frames:
  "uptime (esb_flush_tx_and_reset c s) = uptime s"
  "sched (esb_flush_tx_and_reset c s) = sched s"
  "esb_initialized (esb_flush_tx_and_reset c s) = esb_initialized s"
  "m_esb_state (esb_flush_tx_and_reset c s) = m_esb_state s"
  "rf_channel (esb_flush_tx_and_reset c s) = rf_channel s"
  by (simp_all add: esb_flush_tx_and_reset_def restore_retransmit_count_def esb_set_retransmit_count_def
      esb_flush_tx_def clear_ack_wraps_def Let_def)

definition chan_upd :: "u8 \<Rightarrow> 'a tport_scheme \<Rightarrow> 'a tport_scheme" where
  "chan_upd ch s = s\<lparr>m_addr := (m_addr s)\<lparr>ad_channel := ch\<rparr>, consecutive_tx_fail := 0,
                     m_peer_rssi_valid := False\<rparr>"

lemma chan_upd_frames:
  "hop_view (chan_upd ch s) = hop_view s" "uptime (chan_upd ch s) = uptime s"
  "sched (chan_upd ch s) = sched s" "esb_initialized (chan_upd ch s) = esb_initialized s"
  "m_esb_state (chan_upd ch s) = m_esb_state s" "rf_channel (chan_upd ch s) = rf_channel s"
  "m_addr (chan_upd ch s) = (m_addr s)\<lparr>ad_channel := ch\<rparr>"
  by (simp_all add: chan_upd_def hop_view_def)

lemma set_channel_eq:
  "esb_transport_set_channel c ch s =
     (if \<not> ad_configured (m_addr s) then (Some ENODEV, s)
      else (case esb_set_rf_channel (ucast ch) (esb_flush_tx_and_reset c s) of
              (Some err, t) \<Rightarrow> (Some err, t)
            | (None, t) \<Rightarrow> (None, if CHANNEL_HOP c then reset_link_history c (chan_upd ch t)
                                else chan_upd ch t)))"
  unfolding esb_transport_set_channel_def chan_upd_def Let_def by (rule refl)

lemmas switch_frames = set_rf_frames reset_history_frames flush_frames chan_upd_frames
  send_step_frames(4) addr_frames(4)

lemma set_channel_frames:
  "hop_view (snd (esb_transport_set_channel c ch s)) = hop_view s"
  "uptime (snd (esb_transport_set_channel c ch s)) = uptime s"
  "sched (snd (esb_transport_set_channel c ch s)) = sched s"
  "esb_initialized (snd (esb_transport_set_channel c ch s)) = esb_initialized s"
  "m_esb_state (snd (esb_transport_set_channel c ch s)) = m_esb_state s"
proof -
  let ?f = "esb_flush_tx_and_reset c s"
  obtain e t where e: "esb_set_rf_channel (ucast ch) ?f = (e, t)" by fastforce
  have "hop_view t = hop_view s" "uptime t = uptime s" "sched t = sched s"
    "esb_initialized t = esb_initialized s" "m_esb_state t = m_esb_state s"
    using set_rf_frames [of "ucast ch" ?f] unfolding e by (simp_all add: switch_frames)
  then show "hop_view (snd (esb_transport_set_channel c ch s)) = hop_view s"
    "uptime (snd (esb_transport_set_channel c ch s)) = uptime s"
    "sched (snd (esb_transport_set_channel c ch s)) = sched s"
    "esb_initialized (snd (esb_transport_set_channel c ch s)) = esb_initialized s"
    "m_esb_state (snd (esb_transport_set_channel c ch s)) = m_esb_state s"
    by (auto simp: set_channel_eq e switch_frames split: option.split)
qed

lemma unat_ucast_u32: "unat (ucast (ch :: u8) :: u32) = unat ch"
  using unsigned_less [of ch, where 'a = nat] by (simp add: unsigned_ucast_eq take_bit_eq_mod)

lemma set_rf_outcome:
  "fst (esb_set_rf_channel (ucast (ch :: u8)) s) =
     (if 100 < unat ch then Some EINVAL
      else if m_esb_state s \<noteq> ESB_STATE_IDLE then Some EBUSY else None)"
  "rf_channel (snd (esb_set_rf_channel (ucast ch) s)) =
     (if 100 < unat ch \<or> m_esb_state s \<noteq> ESB_STATE_IDLE then rf_channel s else ch)"
  by (simp_all add: esb_set_rf_channel_def word_less_nat_alt unat_ucast_u32 ucast_back)

lemma set_channel_outcome:
  "fst (esb_transport_set_channel c ch s) =
     (if \<not> ad_configured (m_addr s) then Some ENODEV
      else if 100 < unat ch then Some EINVAL
      else if m_esb_state s \<noteq> ESB_STATE_IDLE then Some EBUSY else None)"
proof -
  obtain e t where e: "esb_set_rf_channel (ucast ch) (esb_flush_tx_and_reset c s) = (e, t)" by fastforce
  then show ?thesis
    using set_rf_outcome(1) [of ch "esb_flush_tx_and_reset c s"]
    by (auto simp: set_channel_eq switch_frames split: option.split)
qed

lemma set_channel_refused:
  assumes "esb_transport_set_channel c ch s = (Some er, s')"
  shows "m_addr s' = m_addr s \<and> rf_channel s' = rf_channel s"
proof -
  let ?f = "esb_flush_tx_and_reset c s"
  obtain e t where e: "esb_set_rf_channel (ucast ch) ?f = (e, t)" by fastforce
  with assms set_rf_outcome [of ch ?f] set_rf_frames(6) [of "ucast ch" ?f] show ?thesis
    by (auto simp: set_channel_eq switch_frames split: option.splits if_splits)
qed

lemma set_channel_done:
  assumes "esb_transport_set_channel c ch s = (None, s')"
  shows "esb_transport_get_channel s' = ch" "rf_channel s' = ch"
    "m_addr s' = (m_addr s)\<lparr>ad_channel := ch\<rparr>" "unat ch < CHANNEL_HOP_CHANNEL_COUNT"
    "m_esb_state s = ESB_STATE_IDLE" "ad_configured (m_addr s)"
proof -
  let ?f = "esb_flush_tx_and_reset c s"
  obtain e t where e: "esb_set_rf_channel (ucast ch) ?f = (e, t)" by fastforce
  with assms set_rf_outcome [of ch ?f] set_rf_frames(6) [of "ucast ch" ?f]
  show "m_addr s' = (m_addr s)\<lparr>ad_channel := ch\<rparr>" "rf_channel s' = ch"
    "unat ch < CHANNEL_HOP_CHANNEL_COUNT" "m_esb_state s = ESB_STATE_IDLE" "ad_configured (m_addr s)"
    by (auto simp: set_channel_eq switch_frames CHANNEL_HOP_CHANNEL_COUNT_def
        split: option.splits if_splits)
  then show "esb_transport_get_channel s' = ch" by (simp add: esb_transport_get_channel_def)
qed

section \<open>One hop\<close>

text \<open>The two halves of \<open>hop_work_fn\<close> by the outcome of the switch, for a hop that has a target.\<close>

definition hop_clear :: "kcfg \<Rightarrow> 'a tport_scheme \<Rightarrow> 'a tport_scheme" where
  "hop_clear c s =
     (if RENDEZVOUS c \<and> m_rendezvous_fallback_pending s
      then s\<lparr>m_rendezvous_fallback_pending := False\<rparr> else s)"

definition hop_is_fallback :: "kcfg \<Rightarrow> 'a tport_scheme \<Rightarrow> bool" where
  "hop_is_fallback c s \<longleftrightarrow> RENDEZVOUS c \<and> m_rendezvous_fallback_pending s"

definition hop_is_revert :: "'a tport_scheme \<Rightarrow> bool" where
  "hop_is_revert s \<longleftrightarrow>
     m_prev_channel s \<noteq> CHANNEL_HOP_INVALID \<and> m_prev_channel s \<noteq> esb_transport_get_channel s"

definition hop_goal :: "kcfg \<Rightarrow> 'a tport_scheme \<Rightarrow> hop_decision \<times> 'a tport_scheme" where
  "hop_goal c s = hop_decide c (hop_is_fallback c s) (hop_is_revert s) (hop_clear c s)"

definition hop_apply ::
    "kcfg \<Rightarrow> bool \<Rightarrow> bool \<Rightarrow> u8 \<Rightarrow> hop_decision \<times> 'a tport_scheme \<Rightarrow> 'a tport_scheme" where
  "hop_apply c f r current d =
     (case d of
        (HopStay, s) \<Rightarrow> s
      | (HopNoCandidate, s) \<Rightarrow> esb_transport_reset_consecutive_fail s
      | (HopTo target, s) \<Rightarrow>
             (case esb_transport_set_channel c target s of
                (Some _, s) \<Rightarrow>
                  k_work_reschedule HopRetryWork (HOP_RETRY_DELAY_MS c) (esb_transport_reset_consecutive_fail s)
              | (None, s) \<Rightarrow>
                  if f
                  then hop_committed c ((clear_quarantine target s)\<lparr>m_prev_channel := CHANNEL_HOP_INVALID\<rparr>)
                  else commit_hop_bookkeeping c current (msec (QUARANTINE_MS c))
                         ((if r then clear_quarantine target s else s)
                            \<lparr>m_prev_channel := if r then CHANNEL_HOP_INVALID else current\<rparr>)))"

lemma hop_work_eq:
  "hop_work_fn c s =
     hop_apply c (hop_is_fallback c s) (hop_is_revert s) (esb_transport_get_channel s) (hop_goal c s)"
  unfolding hop_work_fn_def hop_apply_def hop_goal_def hop_is_fallback_def hop_is_revert_def hop_clear_def Let_def
  by (rule refl)

lemma hop_goal_state:
  assumes "hop_goal c s = (d, s')"
  obtains x where "s' = (hop_clear c s)\<lparr>m_prng_state := x\<rparr>"
proof -
  have "s' = hop_clear c s \<or> (\<exists>ch. pick_candidate c (hop_clear c s) = (ch, s'))"
    using assms by (auto simp: hop_goal_def hop_decide_def Let_def split: if_splits prod.splits)
  then show thesis using that [of "m_prng_state (hop_clear c s)"] that
    by (auto elim: pick_candidate_state)
qed

lemma hop_committed_fields:
  "m_quarantine (hop_committed c s) = m_quarantine s"
  "m_committed_next (hop_committed c s) = CHANNEL_HOP_INVALID"
  "m_prev_channel (hop_committed c s) = m_prev_channel s"
  "m_link_up (hop_committed c s) = m_link_up s"
  "m_active (hop_committed c s) = m_active s"
  "m_coop_hop_state (hop_committed c s) = m_coop_hop_state s"
  "m_coop_hop_target (hop_committed c s) = m_coop_hop_target s"
  "m_rendezvous_fallback_pending (hop_committed c s) = m_rendezvous_fallback_pending s"
  "m_hop_cooldown_until (hop_committed c s) = k_uptime_get_32 s + msec (HOP_COOLDOWN_MS c)"
  "uptime (hop_committed c s) = uptime s"
  "m_pending_candidate (hop_committed c s) =
     (if POST_BURST_COUNT c = 0 then m_pending_candidate s else CHANNEL_HOP_INVALID)"
  "hop.more (hop_committed c s) = hop.more s"
  "pending NegotiateWork (hop_committed c s)"
  "esb_initialized (hop_committed c s) = esb_initialized s"
  "m_esb_state (hop_committed c s) = m_esb_state s"
  by (simp_all add: hop_committed_def start_post_hop_burst_def Let_def)
    (simp_all add: k_work_reschedule_def)

lemma commit_fields:
  "m_quarantine (commit_hop_bookkeeping c p q s) = quarantine_add (k_uptime_get_32 s) (m_quarantine s) p q"
  "m_committed_next (commit_hop_bookkeeping c p q s) = CHANNEL_HOP_INVALID"
  "m_prev_channel (commit_hop_bookkeeping c p q s) = m_prev_channel s"
  "m_link_up (commit_hop_bookkeeping c p q s) = m_link_up s"
  "m_active (commit_hop_bookkeeping c p q s) = m_active s"
  "m_coop_hop_state (commit_hop_bookkeeping c p q s) = m_coop_hop_state s"
  "m_coop_hop_target (commit_hop_bookkeeping c p q s) = m_coop_hop_target s"
  "m_rendezvous_fallback_pending (commit_hop_bookkeeping c p q s) = m_rendezvous_fallback_pending s"
  "m_hop_cooldown_until (commit_hop_bookkeeping c p q s) = k_uptime_get_32 s + msec (HOP_COOLDOWN_MS c)"
  "uptime (commit_hop_bookkeeping c p q s) = uptime s"
  "hop.more (commit_hop_bookkeeping c p q s) = hop.more s"
  "pending NegotiateWork (commit_hop_bookkeeping c p q s)"
  "esb_initialized (commit_hop_bookkeeping c p q s) = esb_initialized s"
  "m_esb_state (commit_hop_bookkeeping c p q s) = m_esb_state s"
  by (simp_all add: commit_hop_bookkeeping_def hop_committed_fields k_uptime_get_32_def)

lemma same_radio_commit: "same_radio (commit_hop_bookkeeping c p q s) s" "same_radio (hop_committed c s) s"
  by (simp_all add: same_radio_def commit_hop_bookkeeping_def hop_committed_def start_post_hop_burst_def
      k_work_reschedule_def Let_def)

text \<open>Selectors of the transport read through \<open>hop.more\<close>.\<close>

lemma commit_tport:
  "m_addr (commit_hop_bookkeeping c p q s) = m_addr s"
  "esb_transport_get_channel (commit_hop_bookkeeping c p q s) = esb_transport_get_channel s"
  "esb_transport_get_rendezvous_channel (commit_hop_bookkeeping c p q s) = esb_transport_get_rendezvous_channel s"
  "m_addr (hop_committed c s) = m_addr s"
  "esb_transport_get_channel (hop_committed c s) = esb_transport_get_channel s"
  by (simp_all add: commit_hop_bookkeeping_def hop_committed_def start_post_hop_burst_def
      k_work_reschedule_def esb_transport_get_channel_def esb_transport_get_rendezvous_channel_def Let_def)

lemma hop_clear_frames [simp]:
  "m_addr (hop_clear c s) = m_addr s" "m_esb_state (hop_clear c s) = m_esb_state s"
  "rf_channel (hop_clear c s) = rf_channel s" "uptime (hop_clear c s) = uptime s"
  "sched (hop_clear c s) = sched s" "m_quarantine (hop_clear c s) = m_quarantine s"
  "m_committed_next (hop_clear c s) = m_committed_next s" "m_prev_channel (hop_clear c s) = m_prev_channel s"
  "m_hop_cooldown_until (hop_clear c s) = m_hop_cooldown_until s"
  "hop_inv c (hop_clear c s) = hop_inv c s"
  "RENDEZVOUS c \<Longrightarrow> \<not> m_rendezvous_fallback_pending (hop_clear c s)"
  by (simp_all add: hop_clear_def)

lemma hop_view_fields:
  assumes "hop_view s = hop_view t"
  shows "m_quarantine s = m_quarantine t" "m_committed_next s = m_committed_next t"
    "m_prev_channel s = m_prev_channel t" "m_hop_cooldown_until s = m_hop_cooldown_until t"
    "m_rendezvous_fallback_pending s = m_rendezvous_fallback_pending t"
    "m_active s = m_active t" "m_link_up s = m_link_up t" "m_coop_hop_state s = m_coop_hop_state t"
    "m_coop_hop_target s = m_coop_hop_target t" "m_last_tx_was_offer s = m_last_tx_was_offer t"
    "m_pending_candidate s = m_pending_candidate t"
  using assms by (simp_all add: hop_view_def)

lemma reset_fail_frames [simp]:
  "hop_view (esb_transport_reset_consecutive_fail s) = hop_view s"
  "m_addr (esb_transport_reset_consecutive_fail s) = m_addr s"
  "rf_channel (esb_transport_reset_consecutive_fail s) = rf_channel s"
  "uptime (esb_transport_reset_consecutive_fail s) = uptime s"
  "consecutive_tx_fail (esb_transport_reset_consecutive_fail s) = 0"
  "hop_inv c (esb_transport_reset_consecutive_fail s) = hop_inv c s"
  by (simp_all add: esb_transport_reset_consecutive_fail_def hop_view_def hop_inv_def)

lemma reschedule_frames [simp]:
  "hop_view (k_work_reschedule w ms s) = hop_view s"
  "m_addr (k_work_reschedule w ms s) = m_addr s"
  "rf_channel (k_work_reschedule w ms s) = rf_channel s"
  "consecutive_tx_fail (k_work_reschedule w ms s) = consecutive_tx_fail s"
  by (simp_all add: k_work_reschedule_def hop_view_def)

text \<open>A hop that the radio refuses, in one lemma.\<close>

lemma busy_hop:
  assumes "m_esb_state s \<noteq> ESB_STATE_IDLE"
  shows "hop_view (hop_work_fn c s) = hop_view (hop_clear c s) \<and> m_addr (hop_work_fn c s) = m_addr s \<and>
    rf_channel (hop_work_fn c s) = rf_channel s \<and> uptime (hop_work_fn c s) = uptime s \<and>
    (fst (hop_goal c s) \<notin> {HopStay, HopNoCandidate} \<longrightarrow>
         sched (hop_work_fn c s) HopRetryWork = Some (uptime s + HOP_RETRY_DELAY_MS c) \<and>
         consecutive_tx_fail (hop_work_fn c s) = 0)"
proof -
  obtain d t where d: "hop_goal c s = (d, t)" by fastforce
  then obtain x where t: "t = (hop_clear c s)\<lparr>m_prng_state := x\<rparr>" by (rule hop_goal_state)
  show ?thesis
  proof (cases d)
    case (HopTo target)
    obtain e u where e: "esb_transport_set_channel c target t = (e, u)" by fastforce
    then obtain er where er: "e = Some er"
      using set_channel_outcome [of c target t] assms by (auto simp: t split: if_splits)
    have "m_addr u = m_addr s \<and> rf_channel u = rf_channel s" "hop_view u = hop_view (hop_clear c s)"
      "uptime u = uptime s"
      using set_channel_refused [of c target t er u] set_channel_frames(1,2) [of c target t] e er
      by (auto simp: t)
    then show ?thesis using HopTo d e er by (simp add: hop_work_eq hop_apply_def)
  qed (simp_all add: hop_work_eq hop_apply_def d t)
qed

text \<open>A hop that goes through.\<close>

lemma commit_radio:
  "rf_channel (commit_hop_bookkeeping c p q s) = rf_channel s"
  "rf_channel (hop_committed c s) = rf_channel s"
  using same_radio_commit(1) [of c p q s] same_radio_commit(2) [of c s] by (simp_all add: same_radio_def)

lemma idle_hop:
  assumes "hop_goal c s = (HopTo target, t)" "\<not> hop_is_fallback c s"
    and "m_esb_state s = ESB_STATE_IDLE" "ad_configured (m_addr s)"
    and "unat target < CHANNEL_HOP_CHANNEL_COUNT" "s' = hop_work_fn c s"
  shows "esb_transport_get_channel s' = target \<and> rf_channel s' = target \<and>
    m_committed_next s' = CHANNEL_HOP_INVALID \<and>
    m_prev_channel s' = (if hop_is_revert s then CHANNEL_HOP_INVALID else esb_transport_get_channel s) \<and>
    m_quarantine s' = quarantine_add (k_uptime_get_32 s)
      (if hop_is_revert s
       then (m_quarantine s)\<lparr>expires_at := (expires_at (m_quarantine s))[unat target := 0]\<rparr>
       else m_quarantine s) (esb_transport_get_channel s) (msec (QUARANTINE_MS c)) \<and>
    m_hop_cooldown_until s' = k_uptime_get_32 s + msec (HOP_COOLDOWN_MS c) \<and> uptime s' = uptime s \<and>
    pending NegotiateWork s' \<and> m_esb_state s' = ESB_STATE_IDLE"
proof -
  obtain x where t: "t = (hop_clear c s)\<lparr>m_prng_state := x\<rparr>" using assms(1) by (rule hop_goal_state)
  obtain u where u: "esb_transport_set_channel c target t = (None, u)"
    using set_channel_outcome [of c target t] assms(3-5)
    by (cases "esb_transport_set_channel c target t") (simp add: t CHANNEL_HOP_CHANNEL_COUNT_def)
  note fr = set_channel_done [OF u] set_channel_frames [of c target t]
  have v: "m_quarantine u = m_quarantine s" "uptime u = uptime s" "m_esb_state u = m_esb_state s"
    using hop_view_fields [of u "hop_clear c s"] fr u by (simp_all add: t)
  have s': "s' = commit_hop_bookkeeping c (esb_transport_get_channel s) (msec (QUARANTINE_MS c))
              ((if hop_is_revert s then clear_quarantine target u else u)
                 \<lparr>m_prev_channel := if hop_is_revert s then CHANNEL_HOP_INVALID else esb_transport_get_channel s\<rparr>)"
    using assms(1,2,6) u by (simp add: hop_work_eq hop_apply_def)
  show ?thesis
    unfolding s' using fr(1,2) v assms(3)
    by (simp add: commit_fields commit_tport commit_radio clear_quarantine_def k_uptime_get_32_def
        esb_transport_get_channel_def)
qed

lemma hop_goal_committed:
  assumes "\<not> hop_is_fallback c s" "\<not> hop_is_revert s" "m_committed_next s \<noteq> CHANNEL_HOP_INVALID"
    "m_committed_next s \<noteq> esb_transport_get_channel s"
  shows "hop_goal c s = (HopTo (m_committed_next s), hop_clear c s)"
  using assms by (simp add: hop_goal_def hop_decide_def esb_transport_get_channel_def Let_def)

lemma hop_goal_revert:
  assumes "\<not> hop_is_fallback c s" "hop_is_revert s"
  shows "hop_goal c s = (HopTo (m_prev_channel s), hop_clear c s)"
  using assms by (simp add: hop_goal_def hop_decide_def Let_def)

lemma hop_goal_pick:
  assumes "\<not> hop_is_fallback c s" "\<not> hop_is_revert s"
    "m_committed_next s = CHANNEL_HOP_INVALID \<or> m_committed_next s = esb_transport_get_channel s"
    "pick_candidate c s = (ch, t)"
  shows "hop_goal c s = (if ch = CHANNEL_HOP_INVALID then HopNoCandidate else HopTo ch, t)"
  using assms by (auto simp: hop_goal_def hop_decide_def hop_clear_def hop_is_fallback_def Let_def)

section \<open>Sends of the hop manager\<close>

lemma quiet_send:
  assumes "esb_transport_is_quiet c s" "length bs \<le> ESB_MAX_PAYLOAD_LEN c"
  shows "\<exists>t. esb_transport_send c pipe bs s = (None, t) \<and> same_radio t s"
proof -
  obtain err t where e: "esb_transport_send c pipe bs s = (err, t)" by fastforce
  from e have "err = None \<and> same_radio t s" using assms by (cases rule: send_cases) auto
  with e show ?thesis by simp
qed

lemma hop_packets_silent:
  "\<not> is_user_traffic (encode (PktHopProposal a b))" "\<not> is_user_traffic (encode PktIdle)"
  "\<not> is_user_traffic (encode (PktHopOffer a b d))"
  by (simp_all add: is_user_traffic_def first_is_def pkt_consts)

section \<open>Properties\<close>

text \<open>
  A hop the radio refuses because it is busy changes nothing a later decision depends on: the
  channel, the quarantine, the negotiated channel, the revert memory and the cooldown stay, and
  whenever there was a target the failure count restarts and a retry is scheduled. The exception
  is the rendezvous fallback, whose request is dropped (see the next property).
\<close>

theorem hop_refused_keeps_decision:
  assumes "m_esb_state s \<noteq> ESB_STATE_IDLE" and "s' = hop_work_fn c s"
  shows "esb_transport_get_channel s' = esb_transport_get_channel s \<and> rf_channel s' = rf_channel s \<and>
    m_quarantine s' = m_quarantine s \<and> m_committed_next s' = m_committed_next s \<and>
    m_prev_channel s' = m_prev_channel s \<and> m_hop_cooldown_until s' = m_hop_cooldown_until s \<and>
    (\<not> (RENDEZVOUS c \<and> m_rendezvous_fallback_pending s) \<and> m_committed_next s \<noteq> CHANNEL_HOP_INVALID \<and>
       m_committed_next s \<noteq> esb_transport_get_channel s \<longrightarrow>
     sched s' HopRetryWork = Some (uptime s + HOP_RETRY_DELAY_MS c) \<and> consecutive_tx_fail s' = 0)"
proof -
  have "fst (hop_goal c s) \<notin> {HopStay, HopNoCandidate}"
    if "\<not> hop_is_fallback c s" "m_committed_next s \<noteq> CHANNEL_HOP_INVALID"
      "m_committed_next s \<noteq> esb_transport_get_channel s"
    using that by (simp add: hop_goal_def hop_decide_def esb_transport_get_channel_def Let_def)
  then show ?thesis
    using busy_hop [OF assms(1), of c] hop_view_fields [of s' "hop_clear c s"] assms(2)
    by (auto simp: hop_is_fallback_def esb_transport_get_channel_def)
qed

text \<open>
  The retry after a refused rendezvous fallback does not make the same decision: the refused
  run has already cleared the request, so the retry follows the negotiated channel and
  quarantines the channel it leaves, which the fallback promises not to do.
\<close>

theorem fallback_forgotten_on_retry:
  assumes "RENDEZVOUS c" "m_rendezvous_fallback_pending s" "m_esb_state s \<noteq> ESB_STATE_IDLE"
    and "ad_configured (m_addr s)" "esb_transport_get_rendezvous_channel s \<noteq> esb_transport_get_channel s"
    and "m_prev_channel s = CHANNEL_HOP_INVALID" "m_committed_next s \<noteq> esb_transport_get_channel s"
    and "unat (m_committed_next s) < CHANNEL_HOP_CHANNEL_COUNT"
    and "s1 = hop_work_fn c s" "s2 = hop_work_fn c (s1\<lparr>m_esb_state := ESB_STATE_IDLE\<rparr>)"
  shows "sched s1 HopRetryWork = Some (uptime s + HOP_RETRY_DELAY_MS c) \<and>
    \<not> m_rendezvous_fallback_pending s1 \<and> esb_transport_get_channel s2 = m_committed_next s \<and>
    m_quarantine s2 = quarantine_add (k_uptime_get_32 s) (m_quarantine s) (esb_transport_get_channel s)
                        (msec (QUARANTINE_MS c))"
proof -
  let ?i = "s1\<lparr>m_esb_state := ESB_STATE_IDLE\<rparr>"
  have "m_committed_next s \<noteq> CHANNEL_HOP_INVALID"
    using assms(8) by (auto simp: CHANNEL_HOP_INVALID_def CHANNEL_HOP_CHANNEL_COUNT_def)
  have goal: "fst (hop_goal c s) \<notin> {HopStay, HopNoCandidate}"
    using assms(1,2,5)
    by (simp add: hop_goal_def hop_decide_def hop_is_fallback_def esb_transport_get_channel_def
        esb_transport_get_rendezvous_channel_def Let_def)
  note b = busy_hop [OF assms(3), of c, folded assms(9)]
  note v = hop_view_fields [OF conjunct1 [OF b]]
  have i: "m_addr ?i = m_addr s" "m_committed_next ?i = m_committed_next s"
    "m_quarantine ?i = m_quarantine s" "\<not> hop_is_fallback c ?i" "\<not> hop_is_revert ?i"
    "esb_transport_get_channel ?i = esb_transport_get_channel s"
    using b v assms(1,6) by (simp_all add: hop_is_fallback_def hop_is_revert_def esb_transport_get_channel_def)
  have "hop_goal c ?i = (HopTo (m_committed_next s), hop_clear c ?i)"
    using hop_goal_committed [OF i(4,5)] i \<open>m_committed_next s \<noteq> CHANNEL_HOP_INVALID\<close> assms(7) by simp
  from idle_hop [OF this i(4) _ _ assms(8) assms(10)] b v assms(1) goal i assms(4) show ?thesis
    by (simp add: k_uptime_get_32_def)
qed

lemma tport_hop_fields [simp]:
  "m_committed_next (tport_at m) = 20" "m_prev_channel (tport_at m) = CHANNEL_HOP_INVALID"
  "\<not> m_rendezvous_fallback_pending (tport_at m)" "m_addr (tport_at m) =
     \<lparr>ad_base0 = [1, 2, 3, 4], ad_base1 = [5, 6, 7, 8], ad_prefixes = replicate 8 9,
      ad_channel = 78, ad_boot_channel = 78, ad_configured = True\<rparr>"
  "m_quarantine (tport_at m) = example_quarantine" "uptime (tport_at m) = 2000"
  "m_esb_state (tport_at m) = ESB_STATE_IDLE" "m_active (tport_at m)" "m_link_up (tport_at m)"
  "m_coop_hop_state (tport_at m) = COOP_IDLE" "hop_inv default_kcfg (tport_at m)"
  by (simp_all add: tport_at_def tport_example_simps [unfolded tport_at_def])

lemma default_hop_kcfg [simp]:
  "RENDEZVOUS default_kcfg" "CHANNEL_HOP default_kcfg" "COOP_HOP default_kcfg"
  "HOP_RETRY_DELAY_MS default_kcfg = 5" "QUARANTINE_MS default_kcfg = 300000"
  by (simp_all add: default_kcfg_def)

theorem hop_refused_keeps_decision_witness:
  "let s = tport_example\<lparr>m_esb_state := ESB_STATE_PTX_TX_ACK\<rparr>; s' = hop_work_fn default_kcfg s
   in esb_transport_get_channel s' = 78 \<and> m_committed_next s' = 20 \<and>
      sched s' HopRetryWork = Some 2005"
proof -
  let ?s = "tport_example\<lparr>m_esb_state := ESB_STATE_PTX_TX_ACK\<rparr>"
  have "m_esb_state ?s \<noteq> ESB_STATE_IDLE" by simp
  from hop_refused_keeps_decision [OF this refl, of default_kcfg] show ?thesis
    by (simp add: esb_transport_get_channel_def Let_def CHANNEL_HOP_INVALID_def)
qed

definition fallback_example :: tport where
  "fallback_example = tport_example
     \<lparr>m_esb_state := ESB_STATE_PTX_TX_ACK, m_rendezvous_fallback_pending := True,
      m_addr := (m_addr tport_example)\<lparr>ad_channel := 40\<rparr>\<rparr>"

theorem fallback_forgotten_on_retry_witness:
  "let s1 = hop_work_fn default_kcfg fallback_example;
       s2 = hop_work_fn default_kcfg (s1\<lparr>m_esb_state := ESB_STATE_IDLE\<rparr>)
   in \<not> m_rendezvous_fallback_pending s1 \<and> esb_transport_get_channel s2 = 20"
  using fallback_forgotten_on_retry
    [of default_kcfg fallback_example "hop_work_fn default_kcfg fallback_example", OF _ _ _ _ _ _ _ _ refl refl]
  by (simp add: fallback_example_def esb_transport_get_channel_def esb_transport_get_rendezvous_channel_def
      CHANNEL_HOP_CHANNEL_COUNT_def Let_def)

text \<open>
  C26. A hop while the radio is idle and nothing else is pending: the endpoint ends on a channel
  of the band that is not the one it left, the negotiated channel when there is one and
  otherwise one that is not quarantined; radio and transport agree on it; the channel it left is
  quarantined and remembered for a revert; the negotiated channel is used up; the cooldown is
  armed and a new negotiation scheduled. It stays only when every channel is barred.
\<close>

theorem hop_moves_and_quarantines:
  assumes "m_esb_state s = ESB_STATE_IDLE" "ad_configured (m_addr s)" "hop_inv c s"
    and "\<not> (RENDEZVOUS c \<and> m_rendezvous_fallback_pending s)" "m_prev_channel s = CHANNEL_HOP_INVALID"
    and "s' = hop_work_fn c s"
  shows "let cur = esb_transport_get_channel s; new = esb_transport_get_channel s';
             negotiated = (m_committed_next s \<noteq> CHANNEL_HOP_INVALID \<and> m_committed_next s \<noteq> cur);
             barred = (\<forall>ch < CHANNEL_HOP_CHANNEL_COUNT.
                         quarantine_is (k_uptime_get_32 s) (m_quarantine s) (of_nat ch) \<or> unat cur = ch)
         in if \<not> negotiated \<and> barred then new = cur \<and> m_quarantine s' = m_quarantine s
            else new \<noteq> cur \<and> unat new < CHANNEL_HOP_CHANNEL_COUNT \<and> rf_channel s' = new \<and>
                 (if negotiated then new = m_committed_next s
                  else \<not> quarantine_is (k_uptime_get_32 s) (m_quarantine s) new) \<and>
                 m_quarantine s' = quarantine_add (k_uptime_get_32 s) (m_quarantine s) cur
                                     (msec (QUARANTINE_MS c)) \<and>
                 m_prev_channel s' = cur \<and> m_committed_next s' = CHANNEL_HOP_INVALID \<and>
                 m_hop_cooldown_until s' = k_uptime_get_32 s + msec (HOP_COOLDOWN_MS c) \<and>
                 pending NegotiateWork s'"
proof -
  have f: "\<not> hop_is_fallback c s" and r: "\<not> hop_is_revert s"
    using assms(4,5) by (simp_all add: hop_is_fallback_def hop_is_revert_def)
  show ?thesis
  proof (cases "m_committed_next s \<noteq> CHANNEL_HOP_INVALID \<and> m_committed_next s \<noteq> esb_transport_get_channel s")
    case True
    then have "unat (m_committed_next s) < CHANNEL_HOP_CHANNEL_COUNT"
      using assms(3) by (simp add: hop_inv_def channel_ok_def)
    from idle_hop [OF hop_goal_committed [OF f r] f assms(1,2) this assms(6)] True this r
    show ?thesis by (simp add: Let_def)
  next
    case False
    obtain ch t where p: "pick_candidate c s = (ch, t)" by fastforce
    then obtain x where t: "t = s\<lparr>m_prng_state := x\<rparr>" by (rule pick_candidate_state)
    note g = hop_goal_pick [OF f r _ p] and ok = pick_candidate_ok [OF p]
    have b: "ch = CHANNEL_HOP_INVALID \<longleftrightarrow> (\<forall>ch < CHANNEL_HOP_CHANNEL_COUNT.
        quarantine_is (k_uptime_get_32 s) (m_quarantine s) (of_nat ch) \<or>
        unat (esb_transport_get_channel s) = ch)"
      using pick_gives_up_iff [of "m_quarantine s" _ "esb_transport_get_channel s" s] p
      by (metis fst_conv pick_candidate_def)
    show ?thesis
    proof (cases "ch = CHANNEL_HOP_INVALID")
      case True
      then have "s' = esb_transport_reset_consecutive_fail t"
        using g False assms(6) by (simp add: hop_work_eq hop_apply_def)
      then have s': "esb_transport_get_channel s' = esb_transport_get_channel s" "m_quarantine s' = m_quarantine s"
        by (simp_all add: t esb_transport_get_channel_def esb_transport_reset_consecutive_fail_def)
      have pb: "\<not> (m_committed_next s \<noteq> CHANNEL_HOP_INVALID \<and>
          m_committed_next s \<noteq> esb_transport_get_channel s) \<and>
        (\<forall>ch < CHANNEL_HOP_CHANNEL_COUNT. quarantine_is (k_uptime_get_32 s) (m_quarantine s) (of_nat ch) \<or>
          unat (esb_transport_get_channel s) = ch)" using b True False by blast
      show ?thesis unfolding Let_def if_P [OF pb] using s' by simp
    next
      case False2: False
      have "hop_goal c s = (HopTo ch, t)" using g False False2 by simp
      note h = idle_hop [OF this f assms(1,2) conjunct1 [OF ok(2) [OF False2]] assms(6)]
      have nb: "\<not> (\<not> (m_committed_next s \<noteq> CHANNEL_HOP_INVALID \<and>
          m_committed_next s \<noteq> esb_transport_get_channel s) \<and>
        (\<forall>ch < CHANNEL_HOP_CHANNEL_COUNT. quarantine_is (k_uptime_get_32 s) (m_quarantine s) (of_nat ch) \<or>
          unat (esb_transport_get_channel s) = ch))" using b False2 by blast
      show ?thesis
        unfolding Let_def if_not_P [OF nb] if_not_P [OF False] using h ok(2) [OF False2] r by auto
    qed
  qed
qed

theorem hop_moves_and_quarantines_witness:
  "let s' = hop_work_fn default_kcfg tport_example
   in esb_transport_get_channel s' = 20 \<and> m_prev_channel s' = 78 \<and>
      quarantine_is 2000 (m_quarantine s') 78"
proof -
  have "esb_transport_get_channel tport_example = 78" by (simp add: esb_transport_get_channel_def)
  with hop_moves_and_quarantines [of tport_example default_kcfg, OF _ _ _ _ _ refl] show ?thesis
    by (simp add: CHANNEL_HOP_INVALID_def k_uptime_get_32_def msec_def example_quarantine_def
        quarantine_add_def quarantine_is_def CHANNEL_HOP_CHANNEL_COUNT_def deadline_ahead_iff Let_def)
qed

text \<open>
  C27. A revert is taken once: when no transmission succeeded since the last hop, the endpoint goes
  back to the channel it came from, frees that channel from its quarantine, quarantines the one
  it leaves, and forgets where it came from, so the next hop looks for a fresh channel.
\<close>

theorem revert_is_one_shot:
  assumes "m_esb_state s = ESB_STATE_IDLE" "ad_configured (m_addr s)" "hop_inv c s"
    and "\<not> (RENDEZVOUS c \<and> m_rendezvous_fallback_pending s)"
    and "m_prev_channel s \<noteq> CHANNEL_HOP_INVALID" "m_prev_channel s \<noteq> esb_transport_get_channel s"
    and "s' = hop_work_fn c s"
  shows "esb_transport_get_channel s' = m_prev_channel s \<and> m_prev_channel s' = CHANNEL_HOP_INVALID \<and>
    \<not> quarantine_is now (m_quarantine s') (m_prev_channel s) \<and>
    (\<forall>ch. ch \<noteq> m_prev_channel s \<longrightarrow> quarantine_is now (m_quarantine s') ch =
       quarantine_is now (quarantine_add (k_uptime_get_32 s) (m_quarantine s)
         (esb_transport_get_channel s) (msec (QUARANTINE_MS c))) ch)"
proof -
  have f: "\<not> hop_is_fallback c s" and r: "hop_is_revert s"
    using assms(4-6) by (simp_all add: hop_is_fallback_def hop_is_revert_def)
  have p: "unat (m_prev_channel s) < CHANNEL_HOP_CHANNEL_COUNT" "wf_quarantine (m_quarantine s)"
    using assms(3,5) by (simp_all add: hop_inv_def channel_ok_def)
  let ?q = "(m_quarantine s)\<lparr>expires_at := (expires_at (m_quarantine s))[unat (m_prev_channel s) := 0]\<rparr>"
  have clear: "\<not> quarantine_is now ?q (m_prev_channel s)"
    using p by (simp add: quarantine_is_def wf_quarantine_def)
  have other: "quarantine_is now (quarantine_add t ?q cur h) ch =
      quarantine_is now (quarantine_add t (m_quarantine s) cur h) ch"
    if "ch \<noteq> m_prev_channel s" "cur \<noteq> m_prev_channel s" for t cur h ch
  proof (cases "ch = cur")
    case False
    have "expires_at ?q ! unat ch = expires_at (m_quarantine s) ! unat ch"
      using that(1) by (simp add: word_unat_eq_iff)
    then have "quarantine_is now ?q ch = quarantine_is now (m_quarantine s) ch"
      by (simp add: quarantine_is_def)
    then show ?thesis using False by (simp add: quarantine_add_other)
  next
    case True
    have "expires_at ?q ! unat cur = expires_at (m_quarantine s) ! unat cur"
      using that(2) by (simp add: word_unat_eq_iff)
    with True p(2) show ?thesis
      by (cases "unat cur < CHANNEL_HOP_CHANNEL_COUNT")
        (auto simp: quarantine_is_def quarantine_add_def wf_quarantine_def Let_def)
  qed
  show ?thesis
    using idle_hop [OF hop_goal_revert [OF f r] f assms(1,2) p(1) assms(7)] r clear other assms(6)
    by simp
qed

theorem revert_is_one_shot_witness:
  "let s' = hop_work_fn default_kcfg (tport_example\<lparr>m_prev_channel := 33\<rparr>)
   in esb_transport_get_channel s' = 33 \<and> m_prev_channel s' = CHANNEL_HOP_INVALID"
proof -
  have "hop_inv default_kcfg (tport_example\<lparr>m_prev_channel := 33\<rparr>)"
    using tport_hop_fields(11) [of "()"] by (simp add: hop_inv_def channel_ok_def CHANNEL_HOP_CHANNEL_COUNT_def)
  with revert_is_one_shot [of "tport_example\<lparr>m_prev_channel := 33\<rparr>" default_kcfg _ 0, OF _ _ _ _ _ _ refl]
  show ?thesis by (simp add: esb_transport_get_channel_def CHANNEL_HOP_INVALID_def)
qed

text \<open>
  A cooperative hop can be carried out alone. An offer made while sends are muted is reported
  as sent although nothing is queued; the next successful transmission of any packet is then
  taken for its acknowledgement, and when the timer fires the endpoint switches to the channel
  it never offered. No acceptance is ever needed.
\<close>

theorem coop_muted_offer_commits:
  assumes "CHANNEL_HOP c" "COOP_HOP c" "4 \<le> ESB_MAX_PAYLOAD_LEN c"
    and "m_link_up s" "m_active s" "m_coop_hop_state s = COOP_OFFERED" "esb_transport_is_quiet c s"
    and "m_committed_next s \<noteq> esb_transport_get_channel s"
    and "\<not> quarantine_is (k_uptime_get_32 s) (m_quarantine s) (m_committed_next s)"
    and "m_esb_state s = ESB_STATE_IDLE" "ad_configured (m_addr s)"
    and "s1 = coop_hop_offer_work_fn c s" "s2 = channel_hop_ep_on_tx_success_isr c s1"
    and "s3 = coop_hop_commit_work_fn c s2"
  shows "tx_queue s1 = tx_queue s \<and> m_last_tx_was_offer s1 \<and>
    m_coop_hop_state s2 = COOP_ARMED \<and>
    sched s2 CoopHopCommitWork = Some (uptime s + COOP_HOP_HOP_IN_MS c) \<and>
    esb_transport_get_channel s3 = m_committed_next s \<and> m_coop_hop_state s3 = COOP_IDLE"
proof -
  let ?t = "m_committed_next s"
  let ?o = "s\<lparr>m_coop_hop_target := ?t, m_coop_hop_seq := m_coop_hop_seq s + 1, m_last_tx_was_offer := True\<rparr>"
  let ?p = "encode (PktHopOffer ?t (of_nat (COOP_HOP_HOP_IN_MS c)) (m_coop_hop_seq s + 1))"
  have t: "?t \<noteq> CHANNEL_HOP_INVALID" "unat ?t < CHANNEL_HOP_CHANNEL_COUNT"
    using assms(9) by (auto simp: quarantine_is_def CHANNEL_HOP_INVALID_def CHANNEL_HOP_CHANNEL_COUNT_def
        split: if_splits)
  have q: "esb_transport_is_quiet c ?o" using assms(7)
    by (auto simp: esb_transport_is_quiet_def k_uptime_get_32_def split: if_splits)
  obtain u where u: "esb_transport_send c ESB_PIPE_DATA ?p ?o = (None, u)" "same_radio u ?o"
    using quiet_send [OF q, of ?p ESB_PIPE_DATA] assms(3) by auto
  have s1: "s1 = u"
    using assms(4-6,8,9,12) t(1) u(1)
    by (simp add: coop_hop_offer_work_fn_def coop_hop_pick_target_def coop_send_offer_def
        esb_transport_get_channel_def Let_def)
  have v: "hop_view u = hop_view ?o" "m_addr u = m_addr s"
    using send_keeps_view [OF hop_packets_silent(3) [of ?t "of_nat (COOP_HOP_HOP_IN_MS c)"
          "m_coop_hop_seq s + 1"], of c ESB_PIPE_DATA ?o]
      send_keeps_addr [of c ESB_PIPE_DATA ?p ?o] u(1) by simp_all
  have f: "m_coop_hop_state u = COOP_OFFERED" "m_coop_hop_target u = ?t" "m_last_tx_was_offer u"
    using hop_view_fields [OF v(1)] assms(6) by simp_all
  have r: "tx_queue u = tx_queue s" "uptime u = uptime s" "m_esb_state u = ESB_STATE_IDLE"
    using u(2) assms(10) by (simp_all add: same_radio_def)
  let ?w = "k_work_reschedule CoopHopCommitWork (COOP_HOP_HOP_IN_MS c)
              (u\<lparr>m_last_tx_was_offer := False, m_coop_hop_state := COOP_ARMED\<rparr>)"
  have s2: "s2 = ?w\<lparr>m_prev_channel := CHANNEL_HOP_INVALID, m_last_link_event_ms := stamp (k_uptime_get_32 ?w)\<rparr>"
    using assms(1,2,13) s1 f by (simp add: channel_hop_ep_on_tx_success_isr_def Let_def)
  have g: "m_coop_hop_state s2 = COOP_ARMED" "m_coop_hop_target s2 = ?t" "m_addr s2 = m_addr s"
    "m_esb_state s2 = ESB_STATE_IDLE" "sched s2 CoopHopCommitWork = Some (uptime s + COOP_HOP_HOP_IN_MS c)"
    unfolding s2 using f v r by (simp_all, simp_all add: k_work_reschedule_def)
  obtain x where x: "esb_transport_set_channel c ?t s2 = (None, x)"
    using set_channel_outcome [of c ?t s2] g assms(11) t(2)
    by (cases "esb_transport_set_channel c ?t s2") (simp add: CHANNEL_HOP_CHANNEL_COUNT_def)
  have cur: "esb_transport_get_channel s2 = esb_transport_get_channel s"
    using g(3) by (simp add: esb_transport_get_channel_def)
  have "esb_transport_get_channel s3 = ?t \<and> m_coop_hop_state s3 = COOP_IDLE"
    using assms(8,14) g x t set_channel_done(1) [OF x] cur
    by (simp add: coop_hop_commit_work_fn_def Let_def)
      (simp add: esb_transport_get_channel_def commit_tport)
  then show ?thesis using s1 r f g by simp
qed

theorem coop_muted_offer_commits_witness:
  "let s = tport_example\<lparr>m_coop_hop_state := COOP_OFFERED, m_tx_quiet_until_ms := 2002\<rparr>;
       s2 = channel_hop_ep_on_tx_success_isr default_kcfg (coop_hop_offer_work_fn default_kcfg s)
   in m_coop_hop_state s2 = COOP_ARMED \<and>
      esb_transport_get_channel (coop_hop_commit_work_fn default_kcfg s2) = 20"
proof -
  let ?s = "tport_example\<lparr>m_coop_hop_state := COOP_OFFERED, m_tx_quiet_until_ms := 2002\<rparr>"
  have "\<not> m_sync_tx_in_progress tport_example" by (simp add: tport_at_def)
  then have q: "esb_transport_is_quiet default_kcfg ?s"
    by (simp add: esb_transport_is_quiet_def k_uptime_get_32_def deadline_ahead_iff)
  have "\<not> quarantine_is (k_uptime_get_32 ?s) (m_quarantine ?s) (m_committed_next ?s)"
    by (simp add: quarantine_is_def example_quarantine_def CHANNEL_HOP_CHANNEL_COUNT_def)
  with coop_muted_offer_commits [of default_kcfg ?s, OF _ _ _ _ _ _ q _ _ _ _ refl refl refl]
  show ?thesis by (simp add: esb_transport_get_channel_def ESB_MAX_PAYLOAD_LEN_def Let_def)
qed

text \<open>What runs while a work function sleeps keeps a property that every step keeps.\<close>

lemma flush_wait_keeps:
  assumes "\<And>u. I u \<Longrightarrow> I (sleep u)" "I s" "flush_wait c sleep s = Some t"
  shows "I t"
  using assms(3) unfolding flush_wait_def
  by (rule while_option_rule [where P = I, rotated]) (use assms in auto)

lemma flush_tx_keeps:
  assumes "\<And>u. I u \<Longrightarrow> I (sleep u)" "\<And>u. I u \<Longrightarrow> I (esb_flush_tx_and_reset c u)" "I s"
    "esb_transport_flush_tx c sleep s = Some t"
  shows "I t"
  using assms(4) flush_wait_keeps [of I sleep s c, OF assms(1,3)] assms(2,3)
  by (auto simp: esb_transport_flush_tx_def split: if_splits)

text \<open>
  C28. Going idle always comes back, whatever runs while it waits, and leaves in the transmit queue
  the announcement to the dongle and nothing else, unless sends are muted at that moment: then
  nothing is queued and the dongle is not told.
\<close>

theorem idle_announced:
  assumes "sleeps sleep" "kcfg_ranges c" "m_active s" "ptx_inv c s" "esb_initialized s"
    and keep: "\<And>u. ptx_inv c u \<and> esb_initialized u \<Longrightarrow> ptx_inv c (sleep u) \<and> esb_initialized (sleep u)"
  shows "\<exists>u t. enter_idle_state c sleep s = Some t \<and> ptx_inv c t \<and>
    t = snd (esb_transport_send c ESB_PIPE_DATA (encode PktIdle) u) \<and> tx_queue u = [] \<and>
    (if esb_transport_is_quiet c u then tx_queue t = []
     else \<exists>p. tx_queue t = [p] \<and> pl_pipe p = ESB_PIPE_DATA \<and> pl_data p = encode PktIdle)"
proof -
  let ?I = "\<lambda>u. ptx_inv c u \<and> esb_initialized u"
  define s0 where "s0 = (let s = s\<lparr>m_active := False\<rparr>;
             s = k_work_cancel NegotiateWork s;
             s = k_work_cancel IdleCheckWork s
         in if COOP_HOP c then coop_hop_abort s else s)"
  have e: "enter_idle_state c sleep s = send_idle_packet c sleep s0"
    using assms(3) by (simp add: enter_idle_state_def s0_def Let_def)
  have "same_radio s0 s"
    by (simp add: s0_def same_radio_def coop_hop_abort_def k_work_cancel_def Let_def)
  then have I0: "?I s0" using assms(4,5) same_radio_inv by (auto simp: same_radio_def)
  obtain v where v: "flush_wait c sleep s0 = Some v \<or> FLUSH_QUIET_MS c = 0" "FLUSH_QUIET_MS c = 0 \<Longrightarrow> v = s0"
    "esb_transport_flush_tx c sleep s0 = Some (esb_flush_tx_and_reset c v)"
  proof (cases "FLUSH_QUIET_MS c = 0")
    case False
    obtain v where "flush_wait c sleep s0 = Some v"
      using flush_wait_returns [OF assms(1)] assms(2) by (auto simp: kcfg_ranges_def)
    with False that [of v] show ?thesis by (simp add: esb_transport_flush_tx_def)
  qed (use that [of s0] in \<open>simp add: esb_transport_flush_tx_def\<close>)
  have Iv: "?I v"
    using v(1,2) flush_wait_keeps [of ?I sleep s0 c v, OF keep I0] I0 by blast
  define u where "u = esb_flush_tx_and_reset c v"
  have u: "tx_queue u = []" "?I u" "m_esb_state u = m_esb_state v"
    using flush_reset [of v c] Iv by (simp_all add: u_def)
  obtain err t where t: "esb_transport_send c ESB_PIPE_DATA (encode PktIdle) u = (err, t)" by fastforce
  have full: "\<not> esb_tx_full c u \<or> ESB_TX_FIFO_SIZE c = 0"
    using u(1) by (auto simp: esb_tx_full_def ring_full_def rcount_0_iff [symmetric])
  have "1 \<le> ESB_MAX_PAYLOAD_LEN c" using assms(2) by (simp add: kcfg_ranges_def ESB_MAX_PAYLOAD_LEN_def)
  then have "if esb_transport_is_quiet c u then tx_queue t = []
     else \<exists>p. tx_queue t = [p] \<and> pl_pipe p = ESB_PIPE_DATA \<and> pl_data p = encode PktIdle"
    using send_outcome [OF _ _ _ _ t] u
    by (auto simp: is_shell_send_def first_is_def is_mouse_report_def pkt_consts ESB_PIPE_COUNT_def
        ESB_PIPE_DATA_def mouse_body_size_def split: if_splits)
  moreover have "ptx_inv c t" using send_keeps_inv(2) [of c u ESB_PIPE_DATA "encode PktIdle"] u t by simp
  ultimately show ?thesis
    using e t u v(3) by (intro exI [of _ u] exI [of _ t]) (simp add: send_idle_packet_def u_def)
qed

theorem idle_announced_witness:
  "\<exists>t. enter_idle_state default_kcfg tick tport_example = Some t \<and> ptx_inv default_kcfg t"
proof -
  have "kcfg_ranges default_kcfg" using default_kcfg_valid by (simp only: valid_kcfg_def)
  moreover have "ptx_inv default_kcfg (tick u) \<and> esb_initialized (tick u)"
    if "ptx_inv default_kcfg u \<and> esb_initialized u" for u :: tport
    using that by (simp add: tick_def ptx_inv_def)
  ultimately show ?thesis
    using idle_announced [OF sleeps_tick, of default_kcfg tport_example] tport_example_simps(1,2) [of "()"]
    by fastforce
qed

end
