(* ===== verification/Pairing.thy ===== *)
theory Pairing
  imports HopManager
begin

text \<open>
  Pairing with the dongle, \<open>src/esb/pairing.c\<close>: the state machine, its stored record and the
  dispatch of received packets to the other components. The settings store is the bytes saved
  under \<open>esb_ep/paired\<close>; the chip's factory identifier is the pair of words \<open>lo\<close>, \<open>hi\<close>. The
  custom event of the adaptive-feedback module is outside the model.
\<close>

section \<open>State\<close>

datatype pairing_state =
    PAIRING_STATE_IDLE | PAIRING_STATE_UNPAIRED | PAIRING_STATE_PAIRING
  | PAIRING_STATE_VERIFYING | PAIRING_STATE_CONNECTED

record pair = bench +
  m_state :: pairing_state
  m_device_id :: "u8 list"
  m_peer_device_id :: "u8 list"
  m_has_stored_peer :: bool
  settings_paired :: "u8 list option"

definition sizeof_paired_rec :: nat where "sizeof_paired_rec = 7"

definition zero_id :: "u8 list" where "zero_id = replicate 6 0"

definition all_caps :: u8 where
  "all_caps = ESB_CAP_KEYBOARD OR ESB_CAP_CONSUMER OR ESB_CAP_MOUSE"

section \<open>The stored record\<close>

definition save_paired :: "bool \<Rightarrow> 'a pair_scheme \<Rightarrow> 'a pair_scheme" where
  "save_paired paired s =
     s\<lparr>settings_paired := Some (if paired then 1 # m_peer_device_id s else 0 # zero_id)\<rparr>"

definition build_device_id :: "u32 \<Rightarrow> u32 \<Rightarrow> 'a pair_scheme \<Rightarrow> 'a pair_scheme" where
  "build_device_id lo hi s = s\<lparr>m_device_id := le32 lo @ take 2 (le32 hi)\<rparr>"

definition settings_load_cb :: "u8 list \<Rightarrow> 'a pair_scheme \<Rightarrow> 'a pair_scheme" where
  "settings_load_cb bs s =
     (if length bs \<noteq> sizeof_paired_rec then s
      else s\<lparr>m_has_stored_peer := (bs ! 0 = 1), m_peer_device_id := take 6 (drop 1 bs)\<rparr>)"

definition settings_load :: "'a pair_scheme \<Rightarrow> 'a pair_scheme" where
  "settings_load s = (case settings_paired s of None \<Rightarrow> s | Some bs \<Rightarrow> settings_load_cb bs s)"

section \<open>Sending\<close>

definition send_beacon :: "kcfg \<Rightarrow> 'a pair_scheme \<Rightarrow> 'a pair_scheme" where
  "send_beacon c s =
     snd (esb_transport_send c ESB_PIPE_PAIRING (encode (PktBeacon (m_device_id s) all_caps)) s)"

definition send_pair_resp :: "kcfg \<Rightarrow> 'a pair_scheme \<Rightarrow> 'a pair_scheme" where
  "send_pair_resp c s =
     snd (esb_transport_send c ESB_PIPE_DATA (encode (PktPairResp (m_device_id s) all_caps)) s)"

definition beacon_work_fn :: "kcfg \<Rightarrow> 'a pair_scheme \<Rightarrow> 'a pair_scheme" where
  "beacon_work_fn c s =
     (if m_state s \<noteq> PAIRING_STATE_UNPAIRED then s
      else k_work_reschedule BeaconWork (BEACON_INTERVAL_MS c) (send_beacon c s))"

definition verify_work_fn :: "kcfg \<Rightarrow> 'a pair_scheme \<Rightarrow> 'a pair_scheme" where
  "verify_work_fn c s =
     (if m_state s \<noteq> PAIRING_STATE_VERIFYING then s
      else k_work_reschedule VerifyWork (VERIFY_INTERVAL_MS c)
             (snd (esb_transport_send c ESB_PIPE_DATA (encode (PktVerifyReq (m_device_id s))) s)))"

section \<open>Starting and stopping\<close>

definition pairing_init :: "u32 \<Rightarrow> u32 \<Rightarrow> 'a pair_scheme \<Rightarrow> 'a pair_scheme" where
  "pairing_init lo hi s = settings_load (build_device_id lo hi s)"

definition pairing_start :: "kcfg \<Rightarrow> 'a pair_scheme \<Rightarrow> 'a pair_scheme" where
  "pairing_start c s =
     (if m_has_stored_peer s
      then k_work_reschedule VerifyWork 0 (s\<lparr>m_state := PAIRING_STATE_VERIFYING\<rparr>)
      else k_work_reschedule BeaconWork (BEACON_INITIAL_DELAY_MS c)
             (s\<lparr>m_state := PAIRING_STATE_UNPAIRED\<rparr>))"

text \<open>The pairs of calls that tell the shell relay and the hop manager about the link.\<close>

definition notify_connected :: "kcfg \<Rightarrow> 'a pair_scheme \<Rightarrow> 'a pair_scheme" where
  "notify_connected c s =
     channel_hop_ep_on_connected c (if SHELL_RELAY c then esb_shell_relay_on_connected c s else s)"

definition notify_disconnected :: "kcfg \<Rightarrow> 'a pair_scheme \<Rightarrow> 'a pair_scheme" where
  "notify_disconnected c s =
     channel_hop_ep_on_disconnected c (if SHELL_RELAY c then esb_shell_relay_on_disconnected c s else s)"

definition pairing_stop :: "kcfg \<Rightarrow> 'a pair_scheme \<Rightarrow> 'a pair_scheme" where
  "pairing_stop c s =
     (let s = s\<lparr>m_state := PAIRING_STATE_IDLE\<rparr>;
          s = k_work_cancel BeaconWork s;
          s = k_work_cancel VerifyWork s
      in notify_disconnected c s)"

definition pairing_unpair :: "kcfg \<Rightarrow> 'a pair_scheme \<Rightarrow> 'a pair_scheme" where
  "pairing_unpair c s =
     (let s = s\<lparr>m_has_stored_peer := False, m_peer_device_id := zero_id\<rparr>;
          s = save_paired False s;
          s = k_work_cancel VerifyWork s
      in if m_state s \<noteq> PAIRING_STATE_IDLE
         then
           (let s = k_work_cancel BeaconWork s;
                s = s\<lparr>m_state := PAIRING_STATE_UNPAIRED\<rparr>
            in k_work_reschedule BeaconWork (BEACON_INITIAL_DELAY_MS c) s)
         else s)"

section \<open>Received packets\<close>

definition on_pair_req :: "kcfg \<Rightarrow> u8 list \<Rightarrow> 'a pair_scheme \<Rightarrow> 'a pair_scheme" where
  "on_pair_req c bs s =
     (if m_state s = PAIRING_STATE_UNPAIRED \<and> sizeof_id_pkt \<le> length bs
      then
        (let s = s\<lparr>m_peer_device_id := pkt_device_id bs\<rparr>;
             s = k_work_cancel BeaconWork s;
             s = send_pair_resp c s;
             s = s\<lparr>m_has_stored_peer := True, m_state := PAIRING_STATE_CONNECTED\<rparr>;
             s = save_paired True s
         in notify_connected c s)
      else s)"

definition on_verify_resp :: "kcfg \<Rightarrow> u8 list \<Rightarrow> 'a pair_scheme \<Rightarrow> 'a pair_scheme" where
  "on_verify_resp c bs s =
     (if m_state s = PAIRING_STATE_VERIFYING \<and> sizeof_id_pkt \<le> length bs \<and>
         pkt_device_id bs = m_peer_device_id s
      then notify_connected c ((k_work_cancel VerifyWork s)\<lparr>m_state := PAIRING_STATE_CONNECTED\<rparr>)
      else s)"

definition on_disconnect :: "kcfg \<Rightarrow> 'a pair_scheme \<Rightarrow> 'a pair_scheme" where
  "on_disconnect c s =
     (let s = s\<lparr>m_state := PAIRING_STATE_UNPAIRED, m_has_stored_peer := False, m_peer_device_id := zero_id\<rparr>;
          s = save_paired False s;
          s = k_work_cancel VerifyWork s;
          s = k_work_reschedule BeaconWork (BEACON_INITIAL_DELAY_MS c) s
      in notify_disconnected c s)"

definition on_resync :: "kcfg \<Rightarrow> 'a pair_scheme \<Rightarrow> 'a pair_scheme" where
  "on_resync c s =
     (if m_state s = PAIRING_STATE_CONNECTED
      then notify_disconnected c (k_work_reschedule VerifyWork 0 (s\<lparr>m_state := PAIRING_STATE_VERIFYING\<rparr>))
      else s)"

text \<open>The length byte of a shell packet is checked against the packet format, and the bytes are
  then read from the receive buffer, whatever the length received.\<close>

definition on_shell_data :: "kcfg \<Rightarrow> u8 list \<Rightarrow> nat \<Rightarrow> 'a pair_scheme \<Rightarrow> 'a pair_scheme" where
  "on_shell_data c buf len s =
     (let n = unat (buf ! 1)
      in if 2 \<le> len \<and> 0 < n \<and> n \<le> ESB_PKT_DATA_MAX c
         then esb_shell_relay_on_data c (take n (drop 2 buf)) s
         else s)"

text \<open>\<open>buf\<close> is the receive buffer and \<open>len\<close> the length of the packet at its front.\<close>

definition pairing_on_rx :: "kcfg \<Rightarrow> u8 list \<Rightarrow> nat \<Rightarrow> 'a pair_scheme \<Rightarrow> 'a pair_scheme" where
  "pairing_on_rx c buf len s =
     (let bs = take len buf;
          ty = pkt_type bs
      in if len < 1 then s
         else if ty = ESB_PKT_PAIR_REQ then on_pair_req c bs s
         else if ty = ESB_PKT_VERIFY_RESP then on_verify_resp c bs s
         else if ty = ESB_PKT_DISCONNECT then on_disconnect c s
         else if ty = ESB_PKT_RESYNC then on_resync c s
         else if CHANNEL_HOP c \<and> (ty = ESB_PKT_CHANNEL_HOP_CONFIRM \<or> ty = ESB_PKT_HOP_ACCEPT)
         then channel_hop_ep_on_rx c bs s
         else if CHANNEL_HOP c \<and> ty = ESB_PKT_CHANNEL_HOP_REQUEST then channel_hop_ep_on_request c s
         else if ty = ESB_PKT_LINK_STATS then esb_transport_on_rx_link_stats bs s
         else if SHELL_RELAY c \<and> ty = ESB_PKT_SHELL_REQ then esb_shell_relay_on_req c s
         else if SHELL_RELAY c \<and> ty = ESB_PKT_SHELL_DATA then on_shell_data c buf len s
         else s)"

definition pairing_get_state :: "'a pair_scheme \<Rightarrow> pairing_state" where
  "pairing_get_state s = m_state s"

definition pairing_is_connected :: "'a pair_scheme \<Rightarrow> bool" where
  "pairing_is_connected s \<longleftrightarrow> m_state s = PAIRING_STATE_CONNECTED"

section \<open>What the other components leave alone\<close>

text \<open>The fields of this module and its settings, as one value.\<close>

definition pair_view where
  "pair_view s = (m_state s, m_device_id s, m_peer_device_id s, m_has_stored_peer s, settings_paired s)"

lemma pair_view_fields:
  assumes "pair_view s = pair_view t"
  shows "m_state s = m_state t" "m_device_id s = m_device_id t" "m_peer_device_id s = m_peer_device_id t"
    "m_has_stored_peer s = m_has_stored_peer t" "settings_paired s = settings_paired t"
  using assms by (simp_all add: pair_view_def)

lemma pair_work_frames [simp]:
  "pair_view (k_work_reschedule w ms s) = pair_view s"
  "pair_view (k_work_submit w s) = pair_view s"
  "pair_view (k_work_cancel w s) = pair_view s"
  by (simp_all add: pair_view_def k_work_reschedule_def k_work_submit_def k_work_cancel_def)

lemma pair_send_frames:
  "pair_view (snd (jittered_retransmit_delay c s)) = pair_view s"
  "pair_view (snd (esb_set_retransmit_delay d s)) = pair_view s"
  "pair_view (snd (esb_set_retransmit_count k s)) = pair_view s"
  "pair_view (esb_flush_tx_and_reset c s) = pair_view s"
  "pair_view (note_activity s) = pair_view s"
  "pair_view (hid_tx_account bs s) = pair_view s"
  "pair_view (channel_hop_ep_note_user_tx c s) = pair_view s"
  "pair_view (critical_ring_push c bs s) = pair_view s"
  "pair_view (motion_ring_push c body b s) = pair_view s"
  "pair_view (snd (motion_refund_apply c body' s)) = pair_view s"
  "pair_view (snd (esb_write_payload c p s)) = pair_view s"
  by (simp_all add: pair_view_def jittered_retransmit_delay_def esb_set_retransmit_delay_def
      esb_set_retransmit_count_def esb_flush_tx_and_reset_def restore_retransmit_count_def
      esb_flush_tx_def clear_ack_wraps_def note_activity_def hid_tx_account_def critical_ring_push_def
      motion_ring_push_def motion_refund_apply_def esb_write_payload_def start_tx_transaction_def
      channel_hop_ep_note_user_tx_def enter_active_state_def k_work_reschedule_def Let_def
      split: option.splits)

lemma pair_pointer_frame: "pair_view (snd (pointer_prepare c k bs s)) = pair_view s"
  by (simp add: pointer_prepare_def pair_send_frames case_prod_beta Let_def)

interpretation send_pair: send_invariant c "\<lambda>s. pair_view s = v" "\<lambda>_. True"
  by unfold_locales (simp_all add: pair_send_frames pair_pointer_frame, simp_all add: pair_view_def)

lemma send_keeps_pair [simp]: "pair_view (snd (esb_transport_send c pipe bs s)) = pair_view s"
  by (rule send_pair.keep_send [OF refl TrueI])

lemma pair_view_updates [simp]:
  "pair_view (s\<lparr>m_link_up := x0\<rparr>) = pair_view s"
  "pair_view (s\<lparr>m_active := x1\<rparr>) = pair_view s"
  "pair_view (s\<lparr>m_committed_next := x2\<rparr>) = pair_view s"
  "pair_view (s\<lparr>m_committed_synced := x3\<rparr>) = pair_view s"
  "pair_view (s\<lparr>m_prev_channel := x4\<rparr>) = pair_view s"
  "pair_view (s\<lparr>m_post_hop_burst_remaining := x5\<rparr>) = pair_view s"
  "pair_view (s\<lparr>m_hop_cooldown_until := x6\<rparr>) = pair_view s"
  "pair_view (s\<lparr>m_last_link_event_ms := x7\<rparr>) = pair_view s"
  "pair_view (s\<lparr>m_rendezvous_fallback_pending := x8\<rparr>) = pair_view s"
  "pair_view (s\<lparr>m_request_burst_remaining := x9\<rparr>) = pair_view s"
  "pair_view (s\<lparr>m_coop_hop_cooldown_until := x10\<rparr>) = pair_view s"
  "pair_view (s\<lparr>m_coop_hop_state := x11\<rparr>) = pair_view s"
  "pair_view (s\<lparr>m_last_tx_was_offer := x12\<rparr>) = pair_view s"
  "pair_view (s\<lparr>m_coop_hop_target := x13\<rparr>) = pair_view s"
  "pair_view (s\<lparr>m_peer_rssi_last := x14\<rparr>) = pair_view s"
  "pair_view (s\<lparr>m_peer_rssi_ewma := x15\<rparr>) = pair_view s"
  "pair_view (s\<lparr>m_peer_rssi_valid := x16\<rparr>) = pair_view s"
  "pair_view (s\<lparr>m_shell_active := x17\<rparr>) = pair_view s"
  "pair_view (s\<lparr>cmd_buf := x18\<rparr>) = pair_view s"
  "pair_view (s\<lparr>cmd_len := x19\<rparr>) = pair_view s"
  "pair_view (s\<lparr>out_rb := x20\<rparr>) = pair_view s"
  "pair_view (s\<lparr>stdout_buf := x21\<rparr>) = pair_view s"
  "pair_view (s\<lparr>m_at_line_start := x22\<rparr>) = pair_view s"
  "pair_view (s\<lparr>last_nudge_ms := x23\<rparr>) = pair_view s"
  by (simp_all add: pair_view_def)

lemma hop_keeps_pair [simp]:
  "pair_view (channel_hop_ep_on_connected c s) = pair_view s"
  "pair_view (channel_hop_ep_on_disconnected c s) = pair_view s"
  "pair_view (tx_fail_trigger c s) = pair_view s"
  "pair_view (channel_hop_ep_on_tx_fail_isr c s) = pair_view s"
  "pair_view (channel_hop_ep_on_rx c bs s) = pair_view s"
  "pair_view (channel_hop_ep_on_request c s) = pair_view s"
  "pair_view (esb_transport_on_rx_link_stats bs s) = pair_view s"
proof -
  show "pair_view (channel_hop_ep_on_connected c s) = pair_view s"
    "pair_view (channel_hop_ep_on_disconnected c s) = pair_view s"
    "pair_view (channel_hop_ep_on_rx c bs s) = pair_view s"
    "pair_view (esb_transport_on_rx_link_stats bs s) = pair_view s"
    by (simp_all add: channel_hop_ep_on_connected_def channel_hop_ep_on_disconnected_def
      enter_active_state_def coop_hop_abort_def channel_hop_ep_on_rx_def on_hop_accept_def
      on_hop_confirm_def esb_transport_on_rx_link_stats_def Let_def)
  have f: "pair_view (tx_fail_trigger c s) = pair_view s" for s :: "'a pair_scheme"
    by (simp add: tx_fail_trigger_def rendezvous_fallback_def Let_def)
  then show "pair_view (tx_fail_trigger c s) = pair_view s" .
  have g: "pair_view (channel_hop_ep_on_tx_fail_isr c s) = pair_view s" for s :: "'a pair_scheme"
    by (simp add: channel_hop_ep_on_tx_fail_isr_def f Let_def)
  then show "pair_view (channel_hop_ep_on_tx_fail_isr c s) = pair_view s" .
  show "pair_view (channel_hop_ep_on_request c s) = pair_view s"
    by (simp add: channel_hop_ep_on_request_def g Let_def)
qed

lemma out_keeps_pair [simp]:
  "pair_view (out_enqueue c bs s) = pair_view s" "pair_view (send_prompt c s) = pair_view s"
proof -
  have o: "pair_view (out_enqueue c bs s) = pair_view s" for bs and s :: "'a pair_scheme"
    by (simp add: out_enqueue_def Let_def)
  then show "pair_view (out_enqueue c bs s) = pair_view s" .
  show "pair_view (send_prompt c s) = pair_view s" by (simp add: send_prompt_def o Let_def)
qed

lemma data_byte_keeps_pair: "pair_view (snd (on_data_byte c b d)) = pair_view (snd d)"
  by (cases d) (simp add: on_data_byte_def Let_def)

lemma data_keeps_pair: "pair_view (snd (fold (on_data_byte c) bs d)) = pair_view (snd d)"
  by (induction bs arbitrary: d) (simp_all add: data_byte_keeps_pair)

lemma shell_keeps_pair [simp]:
  "pair_view (esb_shell_relay_on_connected c s) = pair_view s"
  "pair_view (esb_shell_relay_on_disconnected c s) = pair_view s"
  "pair_view (esb_shell_relay_on_req c s) = pair_view s"
  "pair_view (esb_shell_relay_on_data c bs s) = pair_view s"
proof -
  show "pair_view (esb_shell_relay_on_connected c s) = pair_view s"
    "pair_view (esb_shell_relay_on_disconnected c s) = pair_view s"
    "pair_view (esb_shell_relay_on_req c s) = pair_view s"
    by (simp_all add: esb_shell_relay_on_connected_def esb_shell_relay_on_disconnected_def
        esb_shell_relay_on_req_def stdout_buf_reset_def Let_def)
  show "pair_view (esb_shell_relay_on_data c bs s) = pair_view s"
    using data_keeps_pair [of c bs "(False, s)"]
      data_keeps_pair [of c bs "(False, k_work_reschedule InactivityWork (1000 * SHELL_INACTIVITY_S c) s)"]
    by (simp add: esb_shell_relay_on_data_def Let_def case_prod_beta)
qed

lemma notify_keeps_pair [simp]:
  "pair_view (notify_connected c s) = pair_view s" "pair_view (notify_disconnected c s) = pair_view s"
  by (simp_all add: notify_connected_def notify_disconnected_def)

text \<open>The module's own fields after each handler.\<close>

lemma pair_self [simp]:
  "m_state (notify_connected c s) = m_state s" "m_state (notify_disconnected c s) = m_state s"
  "m_peer_device_id (notify_connected c s) = m_peer_device_id s"
  "m_peer_device_id (notify_disconnected c s) = m_peer_device_id s"
  "m_has_stored_peer (notify_connected c s) = m_has_stored_peer s"
  "m_has_stored_peer (notify_disconnected c s) = m_has_stored_peer s"
  "settings_paired (notify_connected c s) = settings_paired s"
  "settings_paired (notify_disconnected c s) = settings_paired s"
  using pair_view_fields [OF notify_keeps_pair(1) [of c s]] pair_view_fields [OF notify_keeps_pair(2) [of c s]]
  by simp_all

lemma pair_work_self [simp]:
  "m_state (k_work_reschedule w ms s) = m_state s" "m_state (k_work_cancel w s) = m_state s"
  "m_peer_device_id (k_work_reschedule w ms s) = m_peer_device_id s"
  "m_peer_device_id (k_work_cancel w s) = m_peer_device_id s"
  "m_has_stored_peer (k_work_reschedule w ms s) = m_has_stored_peer s"
  "m_has_stored_peer (k_work_cancel w s) = m_has_stored_peer s"
  "settings_paired (k_work_reschedule w ms s) = settings_paired s"
  "settings_paired (k_work_cancel w s) = settings_paired s"
  by (simp_all add: k_work_reschedule_def k_work_cancel_def)

lemma send_pair_resp_keeps [simp]:
  "m_peer_device_id (send_pair_resp c s) = m_peer_device_id s"
  using pair_view_fields(3) [OF send_keeps_pair] by (simp add: send_pair_resp_def)

lemma on_pair_req_fields:
  assumes "m_state s = PAIRING_STATE_UNPAIRED" "sizeof_id_pkt \<le> length bs"
  shows "m_state (on_pair_req c bs s) = PAIRING_STATE_CONNECTED"
    "m_peer_device_id (on_pair_req c bs s) = pkt_device_id bs"
    "settings_paired (on_pair_req c bs s) = Some (1 # pkt_device_id bs)"
  using assms by (simp_all add: on_pair_req_def save_paired_def Let_def)

lemma other_rx_keeps_state:
  "m_state (channel_hop_ep_on_rx c bs s) = m_state s"
  "m_state (channel_hop_ep_on_request c s) = m_state s"
  "m_state (esb_transport_on_rx_link_stats bs s) = m_state s"
  "m_state (esb_shell_relay_on_req c s) = m_state s"
  "m_state (esb_shell_relay_on_data c bs s) = m_state s"
  "m_state (on_shell_data c buf len s) = m_state s"
proof -
  show d: "m_state (esb_shell_relay_on_data c bs s) = m_state s" for bs
    by (rule pair_view_fields(1)) simp
  show "m_state (on_shell_data c buf len s) = m_state s" by (simp add: on_shell_data_def d Let_def)
qed (rule pair_view_fields(1), simp)+

section \<open>Properties\<close>

text \<open>
  The pairing machine by itself: the state after a packet \<open>bs\<close>, when \<open>peer\<close> is the stored identity.
\<close>

definition pairing_spec :: "u8 list \<Rightarrow> u8 list \<Rightarrow> pairing_state \<Rightarrow> pairing_state" where
  "pairing_spec bs peer st =
     (if bs = [] then st
      else if hd bs = ESB_PKT_DISCONNECT then PAIRING_STATE_UNPAIRED
      else if hd bs = ESB_PKT_RESYNC \<and> st = PAIRING_STATE_CONNECTED then PAIRING_STATE_VERIFYING
      else if length bs < 7 then st
      else if hd bs = ESB_PKT_PAIR_REQ \<and> st = PAIRING_STATE_UNPAIRED then PAIRING_STATE_CONNECTED
      else if hd bs = ESB_PKT_VERIFY_RESP \<and> st = PAIRING_STATE_VERIFYING \<and> take 6 (tl bs) = peer
      then PAIRING_STATE_CONNECTED
      else st)"

text \<open>
  C31. The pairing state follows its specification for every packet, whatever the configuration and
  whatever the other components do with the packet: it becomes connected only by a pair request
  while unpaired or by the stored peer's verify response while verifying.
\<close>

theorem pairing_follows_spec:
  "m_state (pairing_on_rx c (bs @ rest) (length bs) s) = pairing_spec bs (m_peer_device_id s) (m_state s)"
proof (cases bs)
  case Nil
  then show ?thesis by (simp add: pairing_on_rx_def pairing_spec_def Let_def)
next
  case (Cons ty body)
  have id: "pkt_device_id bs = take 6 (tl bs)" using Cons by (simp add: pkt_device_id_def)
  have hd: "pkt_type bs = ty" and ne: "\<not> length bs < 1" using Cons by (simp_all add: pkt_type_def)
  have "m_state (pairing_on_rx c (bs @ rest) (length bs) s) =
      (if ty = ESB_PKT_PAIR_REQ then m_state (on_pair_req c bs s)
       else if ty = ESB_PKT_VERIFY_RESP then m_state (on_verify_resp c bs s)
       else if ty = ESB_PKT_DISCONNECT then m_state (on_disconnect c s)
       else if ty = ESB_PKT_RESYNC then m_state (on_resync c s) else m_state s)"
    using ne by (simp add: pairing_on_rx_def hd other_rx_keeps_state Let_def)
  also have "... = pairing_spec bs (m_peer_device_id s) (m_state s)"
    using Cons id
    by (simp add: pairing_spec_def pkt_consts on_verify_resp_def on_disconnect_def on_resync_def
        save_paired_def sizeof_id_pkt_def Let_def)
      (auto simp: on_pair_req_def save_paired_def sizeof_id_pkt_def Let_def)
  finally show ?thesis .
qed

text \<open>
  C32. A pairing survives a restart: booting from the settings a completed pairing left restores
  the peer's identity and starts by verifying it, and booting after an unpairing (by the user
  or by the dongle) starts by advertising again.
\<close>

theorem pairing_survives_restart:
  assumes "m_state s = PAIRING_STATE_UNPAIRED" "sizeof_id_pkt \<le> length bs"
    and "p = on_pair_req c bs s" "settings_paired r = settings_paired p"
    and "q = pairing_unpair c p \<or> q = on_disconnect c p" "settings_paired r' = settings_paired q"
  shows "m_peer_device_id (pairing_start c (pairing_init lo hi r)) = pkt_device_id bs \<and>
    m_state (pairing_start c (pairing_init lo hi r)) = PAIRING_STATE_VERIFYING \<and>
    pending VerifyWork (pairing_start c (pairing_init lo hi r)) \<and>
    m_state (pairing_start c (pairing_init lo hi r')) = PAIRING_STATE_UNPAIRED \<and>
    pending BeaconWork (pairing_start c (pairing_init lo hi r'))"
proof -
  have l: "length (pkt_device_id bs) = 6" using assms(2) by (simp add: pkt_device_id_def sizeof_id_pkt_def)
  have r: "settings_paired r = Some (1 # pkt_device_id bs)"
    using on_pair_req_fields(3) [OF assms(1,2)] assms(3,4) by simp
  have "settings_paired q = Some (0 # zero_id)"
    using assms(5) by (auto simp: pairing_unpair_def on_disconnect_def save_paired_def Let_def)
  then have r': "settings_paired r' = Some (0 # zero_id)" using assms(6) by simp
  show ?thesis
    using r r' l by (simp add: pairing_start_def pairing_init_def settings_load_def build_device_id_def
        settings_load_cb_def sizeof_paired_rec_def zero_id_def)
qed

lemma unpair_keeps_hop: "hop_view (pairing_unpair c s) = hop_view s"
  by (simp add: pairing_unpair_def save_paired_def Let_def)
    (simp add: hop_view_def k_work_reschedule_def k_work_cancel_def)

text \<open>
  Unpairing by the user while connected takes down the pairing but not the link: the hop
  manager keeps the link up, stays active and keeps negotiating, and the shell session stays
  open; a disconnect from the dongle ends all of them.
\<close>

theorem unpair_leaves_link_up:
  assumes "CHANNEL_HOP c" "m_state s = PAIRING_STATE_CONNECTED" "m_link_up s" "m_active s"
    and "pending NegotiateWork s"
  shows "m_state (pairing_unpair c s) = PAIRING_STATE_UNPAIRED \<and>
    m_link_up (pairing_unpair c s) \<and> m_active (pairing_unpair c s) \<and>
    pending NegotiateWork (pairing_unpair c s) \<and>
    m_state (on_disconnect c s) = PAIRING_STATE_UNPAIRED \<and>
    \<not> m_link_up (on_disconnect c s) \<and> \<not> m_active (on_disconnect c s) \<and>
    \<not> pending NegotiateWork (on_disconnect c s)"
proof -
  have d: "\<not> m_link_up (channel_hop_ep_on_disconnected c u) \<and> \<not> m_active (channel_hop_ep_on_disconnected c u) \<and>
      \<not> pending NegotiateWork (channel_hop_ep_on_disconnected c u)" for u :: "'a pair_scheme"
    using assms(1) by (simp add: channel_hop_ep_on_disconnected_def pending_def coop_hop_abort_def Let_def)
  have "m_state (pairing_unpair c s) = PAIRING_STATE_UNPAIRED \<and> pending NegotiateWork (pairing_unpair c s)"
    using assms(2,5) by (simp add: pairing_unpair_def save_paired_def pending_def Let_def)
  moreover have "m_state (on_disconnect c s) = PAIRING_STATE_UNPAIRED"
    by (simp add: on_disconnect_def save_paired_def Let_def)
  moreover have "\<not> m_link_up (on_disconnect c s) \<and> \<not> m_active (on_disconnect c s) \<and>
      \<not> pending NegotiateWork (on_disconnect c s)"
    using d by (simp add: on_disconnect_def notify_disconnected_def Let_def)
  ultimately show ?thesis
    using hop_view_fields(6,7) [OF unpair_keeps_hop [of c s]] assms(3,4) by simp
qed

text \<open>
  The shell reads bytes nobody sent. The length byte of a shell packet is not compared with
  the length received, and the receive buffer keeps the bytes of the previous packet: a packet
  of two bytes makes the shell take the previous packet's characters a second time.
\<close>

theorem shell_data_reads_stale_bytes:
  assumes "SHELL_RELAY c" "pl_data p1 = ESB_PKT_SHELL_DATA # n # cs" "length cs = unat n" "0 < unat n"
    and "unat n \<le> ESB_PKT_DATA_MAX c" "2 + unat n \<le> ESB_MAX_PAYLOAD_LEN c"
    and "length (t_rx_buf s) = ESB_MAX_PAYLOAD_LEN c"
    and "pl_data p2 = [ESB_PKT_SHELL_DATA, n]" "s2 = accept_rx c p2 (accept_rx c p1 s)"
  shows "unat (t_rx_len s2) = 2 \<and>
    pairing_on_rx c (t_rx_buf s2) (unat (t_rx_len s2)) u = esb_shell_relay_on_data c cs u"
proof -
  have b: "t_rx_buf s2 = ESB_PKT_SHELL_DATA # n # cs @ drop (2 + unat n) (t_rx_buf s)" "t_rx_len s2 = 2"
    using assms(2,3,6-9) by (simp_all add: accept_rx_def k_work_submit_def)
  have "pairing_on_rx c (t_rx_buf s2) 2 u = on_shell_data c (t_rx_buf s2) 2 u"
    using assms(1) by (simp add: pairing_on_rx_def b(1) pkt_type_def pkt_consts Let_def)
  moreover have "on_shell_data c (t_rx_buf s2) 2 u = esb_shell_relay_on_data c cs u"
    using assms(3-5) by (simp add: on_shell_data_def b(1))
  ultimately show ?thesis using b(2) by simp
qed

text \<open>A connected endpoint with its peer stored.\<close>

definition pair_at :: "'a \<Rightarrow> 'a pair_scheme" where
  "pair_at m = bench_at \<lparr>m_state = PAIRING_STATE_CONNECTED, m_device_id = [1, 2, 3, 4, 5, 6],
     m_peer_device_id = [11, 12, 13, 14, 15, 16], m_has_stored_peer = True,
     settings_paired = Some [1, 11, 12, 13, 14, 15, 16], \<dots> = m\<rparr>"

abbreviation pair_example :: pair where
  "pair_example \<equiv> pair_at ()"

lemma pair_at_simps [simp]:
  "m_state (pair_at m) = PAIRING_STATE_CONNECTED" "m_link_up (pair_at m)" "m_active (pair_at m)"
  "t_rx_buf (pair_at m) = replicate 32 0"
  by (simp_all add: pair_at_def bench_at_def tport_at_def)

theorem pairing_survives_restart_witness:
  "let bs = [ESB_PKT_PAIR_REQ, 1, 2, 3, 4, 5, 6];
       p = on_pair_req default_kcfg bs (pair_example\<lparr>m_state := PAIRING_STATE_UNPAIRED\<rparr>);
       r = pair_example\<lparr>m_state := PAIRING_STATE_IDLE, settings_paired := settings_paired p\<rparr>
   in m_peer_device_id (pairing_start default_kcfg (pairing_init 7 8 r)) = [1, 2, 3, 4, 5, 6]"
proof -
  let ?bs = "[ESB_PKT_PAIR_REQ, 1, 2, 3, 4, 5, 6]"
  let ?s = "pair_example\<lparr>m_state := PAIRING_STATE_UNPAIRED\<rparr>"
  let ?p = "on_pair_req default_kcfg ?bs ?s"
  have "sizeof_id_pkt \<le> length ?bs" by (simp add: sizeof_id_pkt_def)
  from pairing_survives_restart [OF _ this refl _ disjI1 [OF refl] refl, of ?s
      "pair_example\<lparr>m_state := PAIRING_STATE_IDLE, settings_paired := settings_paired ?p\<rparr>" default_kcfg 7 8]
  show ?thesis by (simp add: pkt_device_id_def Let_def)
qed

theorem unpair_leaves_link_up_witness:
  "let s = k_work_reschedule NegotiateWork 50 pair_example
   in m_link_up (pairing_unpair default_kcfg s) \<and> \<not> m_link_up (on_disconnect default_kcfg s)"
  using unpair_leaves_link_up [of default_kcfg "k_work_reschedule NegotiateWork 50 pair_example"]
  by (simp add: Let_def)

theorem shell_data_reads_stale_bytes_witness:
  "let c = default_kcfg\<lparr>SHELL_RELAY := True\<rparr>;
       p1 = (pkt_example [ESB_PKT_SHELL_DATA, 3, 108, 115, 10]);
       p2 = (pkt_example [ESB_PKT_SHELL_DATA, 3]);
       s2 = accept_rx c p2 (accept_rx c p1 pair_example)
   in pairing_on_rx c (t_rx_buf s2) (unat (t_rx_len s2)) pair_example =
        esb_shell_relay_on_data c [108, 115, 10] pair_example"
  unfolding Let_def
  by (rule conjunct2 [OF shell_data_reads_stale_bytes [where n = 3 and s = pair_example,
        OF _ _ _ _ _ _ _ _ refl]])
    (simp_all add: pkt_example_def ESB_MAX_PAYLOAD_LEN_def ESB_PKT_DATA_MAX_def)

end
