(* ===== verification/HidRelay.thy ===== *)
theory HidRelay
  imports Pairing
begin

text \<open>
  The keyboard and consumer relay, \<open>src/esb/hid_relay.c\<close>. ZMK's report structures and constants
  are outside the repository: \<open>zmk_hid\<close> gathers what the code relies on, the report sizes, the
  element type of the consumer keys, the byte images of the two report bodies and the test for
  a modifier usage. \<open>esb_on\<close> is the value of \<open>zmk_esb_endpoint_is_active\<close>.
\<close>

section \<open>What comes from ZMK\<close>

record kb_report_body =
  modifiers :: u8
  kb_keys :: "u8 list"

record cons_report_body =
  cons_keys :: "u32 list"

datatype usage_page = HID_USAGE_KEY | HID_USAGE_CONSUMER | HID_USAGE_OTHER

text \<open>\<open>cons_elem\<close> converts a usage to the element type of the consumer report.\<close>

record zmk_hid =
  nkro_max_usage :: u32
  cons_elem :: "u32 \<Rightarrow> u32"
  kb_body_bytes :: "kb_report_body \<Rightarrow> u8 list"
  cons_body_bytes :: "cons_report_body \<Rightarrow> u8 list"
  is_mod :: "usage_page \<Rightarrow> u32 \<Rightarrow> bool"

record keycode_state_changed =
  usage_page :: usage_page
  keycode :: u32
  implicit_modifiers :: u8
  explicit_modifiers :: u8
  state :: bool

definition HID_USAGE_KEY_KEYBOARD_LEFTCONTROL :: u32 where
  "HID_USAGE_KEY_KEYBOARD_LEFTCONTROL = 0xE0"

datatype zmk_ev = ZMK_EV_EVENT_BUBBLE | ZMK_EV_EVENT_HANDLED

section \<open>State\<close>

record hid = pair +
  kb_body :: kb_report_body
  cons_body :: cons_report_body
  explicit_mod_refcount :: "u8 list"
  implicit_mod_refcount :: "u8 list"
  explicit_mods :: u8
  implicit_mods :: u8
  kb_pending :: "kb_report_body list"
  cons_pending :: "cons_report_body list"
  was_active :: bool

section \<open>Modifier reference counts\<close>

text \<open>One round of the loops over the eight bits, on the counts and the flags.\<close>

definition mods_inc_bit :: "u8 \<Rightarrow> nat \<Rightarrow> u8 list \<times> u8 \<Rightarrow> u8 list \<times> u8" where
  "mods_inc_bit mods b d =
     (case d of (rc, out) \<Rightarrow>
        if bit mods b
        then (rc[b := rc ! b + 1], if rc ! b = 0 then set_bit b out else out)
        else (rc, out))"

definition mods_inc :: "u8 \<Rightarrow> u8 list \<times> u8 \<Rightarrow> u8 list \<times> u8" where
  "mods_inc mods d = fold (mods_inc_bit mods) [0..<8] d"

definition mods_dec_bit :: "u8 \<Rightarrow> nat \<Rightarrow> u8 list \<times> u8 \<Rightarrow> u8 list \<times> u8" where
  "mods_dec_bit mods b d =
     (case d of (rc, out) \<Rightarrow>
        if bit mods b \<and> 0 < rc ! b
        then (rc[b := rc ! b - 1], if rc ! b - 1 = 0 then unset_bit b out else out)
        else (rc, out))"

definition mods_dec :: "u8 \<Rightarrow> u8 list \<times> u8 \<Rightarrow> u8 list \<times> u8" where
  "mods_dec mods d = fold (mods_dec_bit mods) [0..<8] d"

definition explicit_update :: "(u8 list \<times> u8 \<Rightarrow> u8 list \<times> u8) \<Rightarrow> 'a hid_scheme \<Rightarrow> 'a hid_scheme" where
  "explicit_update f s =
     (case f (explicit_mod_refcount s, explicit_mods s) of
        (rc, out) \<Rightarrow> s\<lparr>explicit_mod_refcount := rc, explicit_mods := out\<rparr>)"

definition implicit_update :: "(u8 list \<times> u8 \<Rightarrow> u8 list \<times> u8) \<Rightarrow> 'a hid_scheme \<Rightarrow> 'a hid_scheme" where
  "implicit_update f s =
     (case f (implicit_mod_refcount s, implicit_mods s) of
        (rc, out) \<Rightarrow> s\<lparr>implicit_mod_refcount := rc, implicit_mods := out\<rparr>)"

section \<open>Key arrays\<close>

text \<open>The two loops of a press: already there, else the first free slot, else dropped.\<close>

fun fill_slot :: "'k::zero \<Rightarrow> 'k list \<Rightarrow> 'k list" where
  "fill_slot k [] = []"
| "fill_slot k (x # xs) = (if x = 0 then k # xs else x # fill_slot k xs)"

definition array_press :: "'k::zero \<Rightarrow> 'k \<Rightarrow> 'k list \<Rightarrow> 'k list" where
  "array_press looked stored ks = (if looked \<in> set ks then ks else fill_slot stored ks)"

definition array_release :: "'k::zero \<Rightarrow> 'k list \<Rightarrow> 'k list" where
  "array_release k ks = map (\<lambda>x. if x = k then 0 else x) ks"

definition kb_keys_press :: "kcfg \<Rightarrow> zmk_hid \<Rightarrow> u32 \<Rightarrow> 'a hid_scheme \<Rightarrow> 'a hid_scheme" where
  "kb_keys_press c z kc s =
     (let ks = kb_keys (kb_body s);
          ks' = (if NKRO c
                 then (if kc \<le> nkro_max_usage z
                       then ks[unat (kc div 8) := set_bit (unat (kc mod 8)) (ks ! unat (kc div 8))]
                       else ks)
                 else array_press (ucast kc) (ucast kc) ks)
      in s\<lparr>kb_body := (kb_body s)\<lparr>kb_keys := ks'\<rparr>\<rparr>)"

definition kb_keys_release :: "kcfg \<Rightarrow> zmk_hid \<Rightarrow> u32 \<Rightarrow> 'a hid_scheme \<Rightarrow> 'a hid_scheme" where
  "kb_keys_release c z kc s =
     (let ks = kb_keys (kb_body s);
          ks' = (if NKRO c
                 then (if kc \<le> nkro_max_usage z
                       then ks[unat (kc div 8) := unset_bit (unat (kc mod 8)) (ks ! unat (kc div 8))]
                       else ks)
                 else array_release (ucast kc) ks)
      in s\<lparr>kb_body := (kb_body s)\<lparr>kb_keys := ks'\<rparr>\<rparr>)"

definition cons_keys_press :: "zmk_hid \<Rightarrow> u32 \<Rightarrow> 'a hid_scheme \<Rightarrow> 'a hid_scheme" where
  "cons_keys_press z kc s =
     s\<lparr>cons_body := (cons_body s)\<lparr>cons_keys := array_press kc (cons_elem z kc) (cons_keys (cons_body s))\<rparr>\<rparr>"

definition cons_keys_release :: "u32 \<Rightarrow> 'a hid_scheme \<Rightarrow> 'a hid_scheme" where
  "cons_keys_release kc s =
     s\<lparr>cons_body := (cons_body s)\<lparr>cons_keys := array_release kc (cons_keys (cons_body s))\<rparr>\<rparr>"

section \<open>Sending\<close>

definition hid_pkt_bytes :: "kcfg \<Rightarrow> u8 \<Rightarrow> u8 list \<Rightarrow> u8 list" where
  "hid_pkt_bytes c report_type body =
     (let body = take (ESB_PKT_DATA_MAX c) body
      in encode (PktHidReport report_type (body @ replicate (ESB_PKT_DATA_MAX c - length body) 0)))"

definition send_hid_pkt :: "kcfg \<Rightarrow> u8 \<Rightarrow> u8 list \<Rightarrow> 'a hid_scheme \<Rightarrow> rc \<times> 'a hid_scheme" where
  "send_hid_pkt c report_type body s =
     esb_transport_send c ESB_PIPE_DATA (hid_pkt_bytes c report_type body) s"

definition send_kb_body :: "kcfg \<Rightarrow> zmk_hid \<Rightarrow> kb_report_body \<Rightarrow> 'a hid_scheme \<Rightarrow> 'a hid_scheme" where
  "send_kb_body c z body s = snd (send_hid_pkt c ESB_REPORT_KEYBOARD (kb_body_bytes z body) s)"

definition send_cons_body :: "kcfg \<Rightarrow> zmk_hid \<Rightarrow> cons_report_body \<Rightarrow> 'a hid_scheme \<Rightarrow> 'a hid_scheme" where
  "send_cons_body c z body s = snd (send_hid_pkt c ESB_REPORT_CONSUMER (cons_body_bytes z body) s)"

text \<open>The pending arrays are the list of their occupied entries; a full one drops its oldest.\<close>

definition pending_push :: "nat \<Rightarrow> 'b \<Rightarrow> 'b list \<Rightarrow> 'b list" where
  "pending_push depth x q = (if depth \<le> length q then take (depth - 1) (tl q) else q) @ [x]"

definition enqueue_pending_kb :: "kcfg \<Rightarrow> 'a hid_scheme \<Rightarrow> 'a hid_scheme" where
  "enqueue_pending_kb c s =
     s\<lparr>kb_pending := pending_push (HID_QUIET_KB_QUEUE_DEPTH c) (kb_body s) (kb_pending s)\<rparr>"

definition enqueue_pending_cons :: "kcfg \<Rightarrow> 'a hid_scheme \<Rightarrow> 'a hid_scheme" where
  "enqueue_pending_cons c s =
     s\<lparr>cons_pending := pending_push (HID_QUIET_CONS_QUEUE_DEPTH c) (cons_body s) (cons_pending s)\<rparr>"

definition drain_pending_kb :: "kcfg \<Rightarrow> zmk_hid \<Rightarrow> 'a hid_scheme \<Rightarrow> 'a hid_scheme" where
  "drain_pending_kb c z s = (fold (send_kb_body c z) (kb_pending s) s)\<lparr>kb_pending := []\<rparr>"

definition drain_pending_cons :: "kcfg \<Rightarrow> zmk_hid \<Rightarrow> 'a hid_scheme \<Rightarrow> 'a hid_scheme" where
  "drain_pending_cons c z s = (fold (send_cons_body c z) (cons_pending s) s)\<lparr>cons_pending := []\<rparr>"

definition hid_retry_work_fn :: "kcfg \<Rightarrow> zmk_hid \<Rightarrow> 'a hid_scheme \<Rightarrow> 'a hid_scheme" where
  "hid_retry_work_fn c z s =
     (if esb_transport_is_quiet c s then k_work_reschedule HidRetryWork (HID_QUIET_RETRY_MS c) s
      else drain_pending_cons c z (drain_pending_kb c z s))"

definition send_keyboard :: "kcfg \<Rightarrow> zmk_hid \<Rightarrow> 'a hid_scheme \<Rightarrow> 'a hid_scheme" where
  "send_keyboard c z s =
     (let s = s\<lparr>kb_body := (kb_body s)\<lparr>modifiers := explicit_mods s OR implicit_mods s\<rparr>\<rparr>
      in if esb_transport_is_quiet c s
         then k_work_reschedule HidRetryWork (HID_QUIET_RETRY_MS c) (enqueue_pending_kb c s)
         else (let s = drain_pending_kb c z s in send_kb_body c z (kb_body s) s))"

definition send_consumer :: "kcfg \<Rightarrow> zmk_hid \<Rightarrow> 'a hid_scheme \<Rightarrow> 'a hid_scheme" where
  "send_consumer c z s =
     (if esb_transport_is_quiet c s
      then k_work_reschedule HidRetryWork (HID_QUIET_RETRY_MS c) (enqueue_pending_cons c s)
      else (let s = drain_pending_cons c z s in send_cons_body c z (cons_body s) s))"

section \<open>The key event listener\<close>

definition on_key_page :: "kcfg \<Rightarrow> zmk_hid \<Rightarrow> keycode_state_changed \<Rightarrow> 'a hid_scheme \<Rightarrow> 'a hid_scheme" where
  "on_key_page c z ev s =
     (if is_mod z (usage_page ev) (keycode ev)
      then
        (let m = push_bit (unat (keycode ev - HID_USAGE_KEY_KEYBOARD_LEFTCONTROL)) 1
         in explicit_update (if state ev then mods_inc m else mods_dec m) s)
      else if state ev
      then implicit_update (mods_inc (implicit_modifiers ev))
             (explicit_update (mods_inc (explicit_modifiers ev)) (kb_keys_press c z (keycode ev) s))
      else implicit_update (mods_dec (implicit_modifiers ev))
             (explicit_update (mods_dec (explicit_modifiers ev)) (kb_keys_release c z (keycode ev) s)))"

definition on_consumer_page :: "zmk_hid \<Rightarrow> keycode_state_changed \<Rightarrow> 'a hid_scheme \<Rightarrow> 'a hid_scheme" where
  "on_consumer_page z ev s =
     (if state ev
      then implicit_update (mods_inc (implicit_modifiers ev))
             (explicit_update (mods_inc (explicit_modifiers ev)) (cons_keys_press z (keycode ev) s))
      else implicit_update (mods_dec (implicit_modifiers ev))
             (explicit_update (mods_dec (explicit_modifiers ev)) (cons_keys_release (keycode ev) s)))"

definition falling_edge :: "bool \<Rightarrow> 'a hid_scheme \<Rightarrow> 'a hid_scheme" where
  "falling_edge active s =
     (let s = (if was_active s \<and> \<not> active
               then (k_work_cancel HidRetryWork s)\<lparr>kb_pending := [], cons_pending := []\<rparr> else s)
      in s\<lparr>was_active := active\<rparr>)"

definition hid_relay_cb ::
    "kcfg \<Rightarrow> zmk_hid \<Rightarrow> bool \<Rightarrow> keycode_state_changed option \<Rightarrow> 'a hid_scheme \<Rightarrow> zmk_ev \<times> 'a hid_scheme" where
  "hid_relay_cb c z esb_on eh s =
     (case eh of
        None \<Rightarrow> (ZMK_EV_EVENT_BUBBLE, s)
      | Some ev \<Rightarrow>
          (let active = (esb_on \<and> pairing_is_connected s);
               s = falling_edge active s;
               verdict = (if active then ZMK_EV_EVENT_HANDLED else ZMK_EV_EVENT_BUBBLE)
           in case usage_page ev of
                HID_USAGE_KEY \<Rightarrow>
                  (let s = on_key_page c z ev s
                   in (verdict, if active then send_keyboard c z s else s))
              | HID_USAGE_CONSUMER \<Rightarrow>
                  (let s = on_consumer_page z ev s
                   in (verdict,
                       if active
                       then send_consumer c z
                              (if explicit_modifiers ev \<noteq> 0 \<or> implicit_modifiers ev \<noteq> 0
                               then send_keyboard c z s else s)
                       else s))
              | HID_USAGE_OTHER \<Rightarrow> (ZMK_EV_EVENT_BUBBLE, s)))"

section \<open>The eight-bit loops against one bit\<close>

text \<open>
  One round touches one bit: \<open>g\<close> says what it does to the count and the flag of that bit. A fold
  over distinct bits does it to each of them.
\<close>

definition per_bit where
  "per_bit f g \<longleftrightarrow>
     (\<forall>b rc out. b < 8 \<and> length rc = 8 \<longrightarrow>
        (case f b (rc, out) of (rc', out') \<Rightarrow>
           length rc' = 8 \<and> (rc' ! b, bit (out' :: u8) b) = g b (rc ! b, bit out b) \<and>
           (\<forall>k. k \<noteq> b \<longrightarrow> rc' ! k = rc ! k \<and> bit out' k = bit out k)))"

lemma per_bit_fold:
  assumes "per_bit f g" "distinct bs" "set bs \<subseteq> {..<8}" "length rc = 8"
  shows "case fold f bs (rc, out) of (rc', out') \<Rightarrow> length rc' = 8 \<and>
           (\<forall>k. (rc' ! k, bit out' k) = (if k \<in> set bs then g k (rc ! k, bit out k) else (rc ! k, bit out k)))"
  using assms(2-4)
proof (induction bs arbitrary: rc out)
  case (Cons b bs)
  obtain rc1 out1 where s: "f b (rc, out) = (rc1, out1)" by fastforce
  have one: "length rc1 = 8" "(rc1 ! b, bit out1 b) = g b (rc ! b, bit out b)"
    "\<And>k. k \<noteq> b \<Longrightarrow> rc1 ! k = rc ! k \<and> bit out1 k = bit out k"
    using assms(1) [unfolded per_bit_def, rule_format, of b rc out] Cons.prems(2,3) s by auto
  have IH: "case fold f bs (rc1, out1) of (rc', out') \<Rightarrow> length rc' = 8 \<and>
           (\<forall>k. (rc' ! k, bit out' k) = (if k \<in> set bs then g k (rc1 ! k, bit out1 k) else (rc1 ! k, bit out1 k)))"
    using Cons.prems one(1) by (intro Cons.IH) auto
  have nb: "b \<notin> set bs" using Cons.prems(1) by simp
  obtain rc2 out2 where f: "fold f bs (rc1, out1) = (rc2, out2)" by fastforce
  have "(rc2 ! k, bit out2 k) =
      (if k \<in> set (b # bs) then g k (rc ! k, bit out k) else (rc ! k, bit out k))" for k
    using IH one(2) one(3) [of k] nb unfolding f by (cases "k = b") auto
  then show ?case using IH by (simp add: s f)
qed simp

definition inc_bit :: "u8 \<Rightarrow> nat \<Rightarrow> u8 \<times> bool \<Rightarrow> u8 \<times> bool" where
  "inc_bit mods b d = (if bit mods b then (fst d + 1, fst d = 0 \<or> snd d) else d)"

definition dec_bit :: "u8 \<Rightarrow> nat \<Rightarrow> u8 \<times> bool \<Rightarrow> u8 \<times> bool" where
  "dec_bit mods b d = (if bit mods b \<and> 0 < fst d then (fst d - 1, fst d - 1 \<noteq> 0 \<and> snd d) else d)"

lemma per_bit_mods: "per_bit (mods_inc_bit m) (inc_bit m)" "per_bit (mods_dec_bit m) (dec_bit m)"
  by (auto simp: per_bit_def mods_inc_bit_def mods_dec_bit_def inc_bit_def dec_bit_def
      bit_set_bit_iff bit_unset_bit_iff nth_list_update)

text \<open>A history of presses (\<open>True\<close>) and releases, newest last, and how often a modifier is held.\<close>

definition mods_step :: "bool \<times> u8 \<Rightarrow> u8 list \<times> u8 \<Rightarrow> u8 list \<times> u8" where
  "mods_step e d = (if fst e then mods_inc (snd e) d else mods_dec (snd e) d)"

definition held_step :: "nat \<Rightarrow> bool \<times> u8 \<Rightarrow> nat \<Rightarrow> nat" where
  "held_step b e n = (if bit (snd e) b then if fst e then n + 1 else n - 1 else n)"

definition held :: "nat \<Rightarrow> (bool \<times> u8) list \<Rightarrow> nat" where
  "held b es = fold (held_step b) es 0"

definition counted :: "(bool \<times> u8) list \<Rightarrow> u8 list \<times> u8 \<Rightarrow> bool" where
  "counted es d \<longleftrightarrow> length (fst d) = 8 \<and>
     (\<forall>b < 8. unat (fst d ! b) = held b es \<and> (bit (snd d) b \<longleftrightarrow> 0 < held b es))"

lemma counted_step:
  assumes "counted es d" "\<forall>b < 8. held b (es @ [e]) \<le> 255"
  shows "counted (es @ [e]) (mods_step e d)"
proof -
  obtain rc out where d: "d = (rc, out)" by fastforce
  define g where "g = (if fst e then inc_bit (snd e) else dec_bit (snd e))"
  obtain rc' out' where m: "mods_step e d = (rc', out')" by fastforce
  have "case fold (if fst e then mods_inc_bit (snd e) else mods_dec_bit (snd e)) [0..<8] (rc, out) of
      (rc', out') \<Rightarrow> length rc' = 8 \<and>
      (\<forall>k. (rc' ! k, bit out' k) = (if k \<in> set [0..<8] then g k (rc ! k, bit out k) else (rc ! k, bit out k)))"
    using assms(1) d per_bit_mods by (intro per_bit_fold) (auto simp: counted_def g_def)
  then have r: "length rc' = 8" "\<And>k. k < 8 \<Longrightarrow> (rc' ! k, bit out' k) = g k (rc ! k, bit out k)"
    using m by (auto simp: mods_step_def mods_inc_def mods_dec_def d split: if_splits)
  have "unat (rc' ! b) = held b (es @ [e]) \<and> (bit out' b \<longleftrightarrow> 0 < held b (es @ [e]))" if b: "b < 8" for b
  proof -
    have h: "held b (es @ [e]) = held_step b e (held b es)" by (simp add: held_def)
    have c: "unat (rc ! b) = held b es" "bit out b \<longleftrightarrow> 0 < held b es"
      using assms(1) b by (simp_all add: counted_def d)
    have le: "held b (es @ [e]) \<le> 255" using assms(2) b by blast
    have z: "rc ! b = 0 \<longleftrightarrow> held b es = 0" using c(1) by (metis unat_eq_0)
    have dec: "unat (rc ! b - 1) = held b es - 1" if "0 < held b es"
      using that c(1) by (simp add: unat_dec)
    show ?thesis
    proof (cases "bit (snd e) b")
      case False
      then show ?thesis using r(2) [OF b] c h by (simp add: g_def inc_bit_def dec_bit_def held_step_def
            split: if_splits)
    next
      case True
      show ?thesis
      proof (cases "fst e")
        case press: True
        then have "unat (rc ! b + 1) = Suc (held b es)"
          using unat_inc [of "rc ! b"] le h True c(1) by (simp add: held_step_def)
        then show ?thesis using r(2) [OF b] c h True press z
          by (auto simp: g_def inc_bit_def held_step_def)
      next
        case release: False
        then have g: "g b (rc ! b, bit out b) =
            (if 0 < rc ! b then (rc ! b - 1, rc ! b - 1 \<noteq> 0 \<and> bit out b) else (rc ! b, bit out b))"
          and h': "held b (es @ [e]) = held b es - 1"
          using True h by (simp_all add: g_def dec_bit_def held_step_def)
        show ?thesis
        proof (cases "held b es = 0")
          case True
          then show ?thesis using r(2) [OF b] g h' c z by simp
        next
          case False
          then have u: "unat (rc ! b - 1) = held b es - 1" "0 < rc ! b" "bit out b"
            using dec z c by (simp_all add: word_gt_0)
          have "rc ! b - 1 \<noteq> 0 \<longleftrightarrow> 0 < held b es - 1"
            unfolding u(1) [symmetric] by (metis unat_gt_0)
          then show ?thesis using r(2) [OF b] g h' u by simp
        qed
      qed
    qed
  qed
  then show ?thesis using r(1) m by (simp add: counted_def)
qed

lemma counted_history:
  "\<forall>n \<le> length es. \<forall>b < 8. held b (take n es) \<le> 255 \<Longrightarrow>
     counted es (fold mods_step es (replicate 8 0, 0))"
proof (induction es rule: rev_induct)
  case Nil
  show ?case by (simp add: counted_def held_def)
next
  case (snoc e es)
  have "counted es (fold mods_step es (replicate 8 0, 0))"
  proof (intro snoc.IH allI impI)
    fix n b :: nat assume "n \<le> length es" "b < 8"
    then show "held b (take n es) \<le> 255" using snoc.prems [rule_format, of n b] by simp
  qed
  then have "counted (es @ [e]) (mods_step e (fold mods_step es (replicate 8 0, 0)))"
    using snoc.prems [rule_format, of "length (es @ [e])"] by (intro counted_step) simp_all
  then show ?case by simp
qed

lemma held_le_length: "held b es \<le> length es"
  by (induction es rule: rev_induct) (auto simp: held_def held_step_def)

section \<open>Properties\<close>

text \<open>
  C33. Modifiers are counted exactly: after any sequence of presses and releases of modifier sets,
  in any overlap, a modifier is reported exactly when some press of it has not been released,
  as long as no modifier is held more than 255 times at once (the counters are bytes).
\<close>

theorem modifier_counts_exact:
  assumes "\<forall>n \<le> length es. \<forall>b < 8. held b (take n es) \<le> 255"
    and "fold mods_step es (replicate 8 0, 0) = (rc, mods)"
  shows "\<forall>b < 8. unat (rc ! b) = held b es \<and> (bit mods b \<longleftrightarrow> 0 < held b es)"
  using counted_history [OF assms(1)] assms(2) by (simp add: counted_def)

theorem modifier_counts_exact_witness:
  "let es = [(True, 2), (True, 3), (False, 2)];
       (rc, mods) = fold mods_step es (replicate 8 0, 0)
   in bit mods 0 \<and> bit mods 1 \<and> unat (rc ! 1) = 1"
proof -
  let ?es = "[(True, 2), (True, 3), (False, 2 :: u8)]"
  obtain rc mods where f: "fold mods_step ?es (replicate 8 0, 0) = (rc, mods)" by fastforce
  have "\<forall>n \<le> length ?es. \<forall>b < 8. held b (take n ?es) \<le> 255"
    using held_le_length order_trans [OF held_le_length, of "take _ ?es" 255] by force
  from modifier_counts_exact [OF this f] show ?thesis
    unfolding Let_def f by (simp add: held_def held_step_def)
qed

text \<open>A connected endpoint with no key held.\<close>

definition hid_at :: "'a \<Rightarrow> 'a hid_scheme" where
  "hid_at m = pair_at \<lparr>kb_body = \<lparr>modifiers = 0, kb_keys = replicate 6 0\<rparr>,
     cons_body = \<lparr>cons_keys = replicate 6 0\<rparr>, explicit_mod_refcount = replicate 8 0,
     implicit_mod_refcount = replicate 8 0, explicit_mods = 0, implicit_mods = 0,
     kb_pending = [], cons_pending = [], was_active = False, \<dots> = m\<rparr>"

end
