(* ===== verification/InputProcessor.thy ===== *)
theory InputProcessor
  imports HidRelay
begin

text \<open>
  The pointer input processor, \<open>src/esb/input_processor_esb.c\<close>. Each device instance has its own
  data; the instances are the list \<open>ip_devs\<close>, and the retry work item of instance \<open>n\<close> is
  \<open>IpRetryWork n\<close>. The 32-bit accumulators are words (the C code adds them as \<open>int32_t\<close>).
\<close>

section \<open>Events\<close>

definition INPUT_EV_KEY :: u8 where "INPUT_EV_KEY = 0x01"
definition INPUT_EV_REL :: u8 where "INPUT_EV_REL = 0x02"
definition INPUT_REL_X :: u16 where "INPUT_REL_X = 0x00"
definition INPUT_REL_Y :: u16 where "INPUT_REL_Y = 0x01"
definition INPUT_REL_HWHEEL :: u16 where "INPUT_REL_HWHEEL = 0x06"
definition INPUT_REL_WHEEL :: u16 where "INPUT_REL_WHEEL = 0x08"
definition INPUT_BTN_0 :: u16 where "INPUT_BTN_0 = 0x100"
definition INPUT_BTN_4 :: u16 where "INPUT_BTN_4 = 0x104"

lemmas input_consts = INPUT_EV_KEY_def INPUT_EV_REL_def INPUT_REL_X_def INPUT_REL_Y_def
  INPUT_REL_HWHEEL_def INPUT_REL_WHEEL_def INPUT_BTN_0_def INPUT_BTN_4_def

record input_event =
  ev_type :: u8
  ev_code :: u16
  ev_value :: i32
  ev_sync :: bool

datatype ip_verdict = ZMK_INPUT_PROC_CONTINUE | ZMK_INPUT_PROC_STOP

section \<open>State\<close>

record esb_ip_data =
  ip_dx :: i32
  ip_dy :: i32
  ip_scroll_x :: i32
  ip_scroll_y :: i32
  ip_buttons :: u8
  accum_start_ms :: u32
  pending_buttons :: "u8 list"

record ip = hid +
  ip_devs :: "esb_ip_data list"

definition zero_ip_data :: esb_ip_data where
  "zero_ip_data = \<lparr>ip_dx = 0, ip_dy = 0, ip_scroll_x = 0, ip_scroll_y = 0, ip_buttons = 0,
                   accum_start_ms = 0, pending_buttons = []\<rparr>"

definition clear_accum :: "esb_ip_data \<Rightarrow> esb_ip_data" where
  "clear_accum d = d\<lparr>ip_dx := 0, ip_dy := 0, ip_scroll_x := 0, ip_scroll_y := 0, accum_start_ms := 0\<rparr>"

definition upd_dev :: "nat \<Rightarrow> (esb_ip_data \<Rightarrow> esb_ip_data) \<Rightarrow> 'a ip_scheme \<Rightarrow> 'a ip_scheme" where
  "upd_dev n f s = s\<lparr>ip_devs := (ip_devs s)[n := f (ip_devs s ! n)]\<rparr>"

section \<open>Sending\<close>

definition mouse_pkt_bytes :: "kcfg \<Rightarrow> u8 \<Rightarrow> i32 \<Rightarrow> i32 \<Rightarrow> i32 \<Rightarrow> i32 \<Rightarrow> u8 list" where
  "mouse_pkt_bytes c buttons dx dy scroll_x scroll_y =
     (let body = mouse_body_bytes
            \<lparr>mb_buttons = buttons, mb_d_x = sat16 dx, mb_d_y = sat16 dy,
             mb_d_scroll_y = sat16 scroll_y, mb_d_scroll_x = sat16 scroll_x\<rparr>
      in encode (PktHidReport ESB_REPORT_MOUSE (body @ replicate (ESB_PKT_DATA_MAX c - length body) 0)))"

definition send_hid_report_raw ::
    "kcfg \<Rightarrow> u8 \<Rightarrow> i32 \<Rightarrow> i32 \<Rightarrow> i32 \<Rightarrow> i32 \<Rightarrow> 'a ip_scheme \<Rightarrow> 'a ip_scheme" where
  "send_hid_report_raw c buttons dx dy scroll_x scroll_y s =
     snd (esb_transport_send c ESB_PIPE_DATA (mouse_pkt_bytes c buttons dx dy scroll_x scroll_y) s)"

definition send_accum :: "kcfg \<Rightarrow> esb_ip_data \<Rightarrow> 'a ip_scheme \<Rightarrow> 'a ip_scheme" where
  "send_accum c d s =
     send_hid_report_raw c (ip_buttons d) (ip_dx d) (ip_dy d) (ip_scroll_x d) (ip_scroll_y d) s"

definition enqueue_pending_button :: "kcfg \<Rightarrow> nat \<Rightarrow> 'a ip_scheme \<Rightarrow> 'a ip_scheme" where
  "enqueue_pending_button c n s =
     upd_dev n (\<lambda>d. d\<lparr>pending_buttons :=
       pending_push (IP_PENDING_BTN_QUEUE c) (ip_buttons d) (pending_buttons d)\<rparr>) s"

definition drain_pending_buttons :: "kcfg \<Rightarrow> nat \<Rightarrow> 'a ip_scheme \<Rightarrow> 'a ip_scheme" where
  "drain_pending_buttons c n s =
     upd_dev n (\<lambda>d. d\<lparr>pending_buttons := []\<rparr>)
       (fold (\<lambda>b. send_hid_report_raw c b 0 0 0 0) (pending_buttons (ip_devs s ! n)) s)"

definition ip_deferred :: "kcfg \<Rightarrow> 'a ip_scheme \<Rightarrow> bool" where
  "ip_deferred c s \<longleftrightarrow> esb_transport_is_quiet c s \<or> esb_transport_pointer_backpressure c s"

definition accum_stale :: "kcfg \<Rightarrow> esb_ip_data \<Rightarrow> 'a ip_scheme \<Rightarrow> bool" where
  "accum_stale c d s \<longleftrightarrow> msec (MOTION_MAX_STALE_MS c) < k_uptime_get_32 s - accum_start_ms d"

definition has_accum :: "esb_ip_data \<Rightarrow> bool" where
  "has_accum d \<longleftrightarrow> ip_dx d OR ip_dy d OR ip_scroll_x d OR ip_scroll_y d \<noteq> 0"

definition ip_retry_work_fn :: "kcfg \<Rightarrow> nat \<Rightarrow> 'a ip_scheme \<Rightarrow> 'a ip_scheme" where
  "ip_retry_work_fn c n s =
     (if ip_deferred c s then k_work_reschedule (IpRetryWork n) (IP_QUIET_RETRY_MS c) s
      else
        (let s = drain_pending_buttons c n s;
             d = ip_devs s ! n
         in if accum_start_ms d \<noteq> 0
            then upd_dev n clear_accum (if \<not> accum_stale c d s \<and> has_accum d then send_accum c d s else s)
            else s))"

definition send_mouse_report :: "kcfg \<Rightarrow> nat \<Rightarrow> bool \<Rightarrow> 'a ip_scheme \<Rightarrow> 'a ip_scheme" where
  "send_mouse_report c n button_changed s =
     (if ip_deferred c s
      then (if button_changed
            then k_work_reschedule (IpRetryWork n) (IP_QUIET_RETRY_MS c) (enqueue_pending_button c n s)
            else s)
      else
        (let s = drain_pending_buttons c n s;
             d = ip_devs s ! n
         in if \<not> button_changed \<and> accum_start_ms d \<noteq> 0 \<and> accum_stale c d s
            then upd_dev n clear_accum s
            else upd_dev n clear_accum (send_accum c d s)))"

section \<open>Events in\<close>

definition on_rel :: "u32 \<Rightarrow> input_event \<Rightarrow> esb_ip_data \<Rightarrow> esb_ip_data" where
  "on_rel now e d =
     (let d = (if accum_start_ms d = 0 then d\<lparr>accum_start_ms := stamp now\<rparr> else d)
      in if ev_code e = INPUT_REL_X then d\<lparr>ip_dx := ip_dx d + ev_value e\<rparr>
         else if ev_code e = INPUT_REL_Y then d\<lparr>ip_dy := ip_dy d + ev_value e\<rparr>
         else if ev_code e = INPUT_REL_WHEEL then d\<lparr>ip_scroll_y := ip_scroll_y d + ev_value e\<rparr>
         else if ev_code e = INPUT_REL_HWHEEL then d\<lparr>ip_scroll_x := ip_scroll_x d + ev_value e\<rparr>
         else d)"

definition on_key :: "input_event \<Rightarrow> esb_ip_data \<Rightarrow> esb_ip_data" where
  "on_key e d =
     (if INPUT_BTN_0 \<le> ev_code e \<and> ev_code e \<le> INPUT_BTN_4
      then (let btn = unat (ev_code e - INPUT_BTN_0)
            in d\<lparr>ip_buttons := (if ev_value e \<noteq> 0 then set_bit btn (ip_buttons d)
                                else unset_bit btn (ip_buttons d))\<rparr>)
      else d)"

definition esb_ip_handle_event ::
    "kcfg \<Rightarrow> bool \<Rightarrow> nat \<Rightarrow> input_event \<Rightarrow> 'a ip_scheme \<Rightarrow> ip_verdict \<times> 'a ip_scheme" where
  "esb_ip_handle_event c esb_on n e s =
     (if \<not> esb_on \<or> \<not> pairing_is_connected s then (ZMK_INPUT_PROC_CONTINUE, s)
      else
        (let before = ip_buttons (ip_devs s ! n);
             s = (if ev_type e = INPUT_EV_REL then upd_dev n (on_rel (k_uptime_get_32 s) e) s
                  else if ev_type e = INPUT_EV_KEY then upd_dev n (on_key e) s
                  else s);
             button_changed = (ev_type e = INPUT_EV_KEY \<and> ip_buttons (ip_devs s ! n) \<noteq> before)
         in (ZMK_INPUT_PROC_STOP,
             if ev_sync e \<or> button_changed then send_mouse_report c n button_changed s else s)))"

definition esb_ip_init :: "nat \<Rightarrow> 'a ip_scheme \<Rightarrow> 'a ip_scheme" where
  "esb_ip_init n s = (upd_dev n (\<lambda>_. zero_ip_data) s)"

section \<open>Motion while the transport defers it\<close>

lemma upd_dev_frames [simp]:
  "ip_deferred c (upd_dev n f s) = ip_deferred c s" "m_state (upd_dev n f s) = m_state s"
  "tx_fifo (upd_dev n f s) = tx_fifo s" "sched (upd_dev n f s) = sched s" "uptime (upd_dev n f s) = uptime s"
  "length (ip_devs (upd_dev n f s)) = length (ip_devs s)"
  "n < length (ip_devs s) \<Longrightarrow> ip_devs (upd_dev n f s) ! n = f (ip_devs s ! n)"
  by (simp_all add: ip_deferred_def upd_dev_def esb_transport_is_quiet_def
      esb_transport_pointer_backpressure_def k_uptime_get_32_def)

lemma deferred_rel_event:
  assumes "pairing_is_connected s" "ip_deferred c s" "n < length (ip_devs s)" "ev_type e = INPUT_EV_REL"
  shows "snd (esb_ip_handle_event c True n e s) = upd_dev n (on_rel (k_uptime_get_32 s) e) s"
  using assms by (simp add: esb_ip_handle_event_def send_mouse_report_def input_consts Let_def)

definition axis_sum :: "u16 \<Rightarrow> input_event list \<Rightarrow> i32" where
  "axis_sum code es = sum_list (map ev_value (filter (\<lambda>e. ev_code e = code) es))"

lemma on_rel_fields:
  "ip_dx (on_rel now e d) = ip_dx d + (if ev_code e = INPUT_REL_X then ev_value e else 0)"
  "ip_dy (on_rel now e d) = ip_dy d + (if ev_code e = INPUT_REL_Y then ev_value e else 0)"
  "ip_scroll_y (on_rel now e d) = ip_scroll_y d + (if ev_code e = INPUT_REL_WHEEL then ev_value e else 0)"
  "ip_scroll_x (on_rel now e d) = ip_scroll_x d + (if ev_code e = INPUT_REL_HWHEEL then ev_value e else 0)"
  "ip_buttons (on_rel now e d) = ip_buttons d" "accum_start_ms (on_rel now e d) \<noteq> 0"
  by (simp_all add: on_rel_def input_consts Let_def)

section \<open>Properties\<close>

text \<open>
  C34. While the transport defers pointer reports, motion is neither lost nor sent: after any
  sequence of motion events each axis holds its exact sum (as a 32-bit integer) and nothing has
  reached the transmit queue. But nothing is scheduled to send it either: the retry work is
  started by button edges only, so when the hand stops the last motion waits for the next event.
\<close>

theorem deferred_motion_accumulates:
  assumes "pairing_is_connected s" "ip_deferred c s" "n < length (ip_devs s)"
    and "\<forall>e \<in> set es. ev_type e = INPUT_EV_REL"
    and "s' = fold (\<lambda>e u. snd (esb_ip_handle_event c True n e u)) es s"
  shows "ip_dx (ip_devs s' ! n) = ip_dx (ip_devs s ! n) + axis_sum INPUT_REL_X es \<and>
    ip_dy (ip_devs s' ! n) = ip_dy (ip_devs s ! n) + axis_sum INPUT_REL_Y es \<and>
    ip_scroll_y (ip_devs s' ! n) = ip_scroll_y (ip_devs s ! n) + axis_sum INPUT_REL_WHEEL es \<and>
    ip_scroll_x (ip_devs s' ! n) = ip_scroll_x (ip_devs s ! n) + axis_sum INPUT_REL_HWHEEL es \<and>
    tx_queue s' = tx_queue s \<and> sched s' (IpRetryWork n) = sched s (IpRetryWork n)"
  using assms
proof (induction es arbitrary: s)
  case Nil
  then show ?case by (simp add: axis_sum_def)
next
  case (Cons e es)
  let ?u = "upd_dev n (on_rel (k_uptime_get_32 s) e) s"
  have e: "snd (esb_ip_handle_event c True n e s) = ?u"
    using Cons.prems by (intro deferred_rel_event) simp_all
  have "s' = fold (\<lambda>e u. snd (esb_ip_handle_event c True n e u)) es ?u"
    using Cons.prems(5) e by simp
  from Cons.IH [OF _ _ _ _ this] Cons.prems show ?case
    by (simp add: pairing_is_connected_def axis_sum_def on_rel_fields)
qed

text \<open>A connected endpoint with one pointing device.\<close>

definition ip_at :: "'a \<Rightarrow> 'a ip_scheme" where
  "ip_at m = hid_at \<lparr>ip_devs = [zero_ip_data], \<dots> = m\<rparr>"

abbreviation ip_example :: ip where
  "ip_example \<equiv> ip_at ()"

lemma ip_at_simps [simp]:
  "pairing_is_connected (ip_at m)" "ip_devs (ip_at m) = [zero_ip_data]" "tx_queue (ip_at m) = []"
  by (simp_all add: ip_at_def hid_at_def pair_at_def bench_at_def tport_at_def pairing_is_connected_def
      ring_list_def)

definition rel_x :: "i32 \<Rightarrow> input_event" where
  "rel_x v = \<lparr>ev_type = INPUT_EV_REL, ev_code = INPUT_REL_X, ev_value = v, ev_sync = True\<rparr>"

theorem deferred_motion_accumulates_witness:
  "let s = ip_example\<lparr>m_pointer_inflight_count := 5\<rparr>;
       s' = fold (\<lambda>e u. snd (esb_ip_handle_event default_kcfg True 0 e u)) [rel_x 300, rel_x (- 20)] s
   in ip_dx (ip_devs s' ! 0) = 280 \<and> tx_queue s' = []"
proof -
  let ?s = "ip_example\<lparr>m_pointer_inflight_count := 5\<rparr>"
  have "ip_deferred default_kcfg ?s"
    by (simp add: ip_deferred_def esb_transport_pointer_backpressure_def)
  moreover have "pairing_is_connected ?s" using ip_at_simps(1) by (simp add: pairing_is_connected_def)
  ultimately show ?thesis
    using deferred_motion_accumulates [of ?s default_kcfg 0 "[rel_x 300, rel_x (- 20)]", OF _ _ _ _ refl]
    by (simp add: rel_x_def axis_sum_def zero_ip_data_def)
qed

end
