(* ===== verification/Endpoint.thy ===== *)
theory Endpoint
  imports InputProcessor
begin

text \<open>
  The endpoint itself, \<open>src/esb/esb_endpoint.c\<close>: the control thread that hands the radio over
  between BLE and ESB, the profile listener that commands it, the wrappers that keep BLE quiet
  meanwhile, the initialisation and the shell commands. The devicetree properties are the
  record \<open>esb_dts\<close>. The calls into the Bluetooth host and ZMK's BLE module have no effect on
  this module's state; \<open>quiesce\<close> is what the rest of the firmware does while the thread sleeps.
\<close>

section \<open>State\<close>

record esb_dts =
  pairing_base_address :: "u8 list"
  data_base_address :: "u8 list"
  pairing_prefix :: u8
  data_prefix :: u8
  dts_esb_channel :: u8

datatype esb_cmd = ESB_CMD_ACTIVATE | ESB_CMD_DEACTIVATE

record ctl = ip +
  esb_active :: bool
  esb_ctrl_msgq :: "esb_cmd list"

definition zmk_esb_endpoint_is_active :: "'a ctl_scheme \<Rightarrow> bool" where
  "zmk_esb_endpoint_is_active s = esb_active s"

definition k_msgq_put :: "kcfg \<Rightarrow> esb_cmd \<Rightarrow> 'a ctl_scheme \<Rightarrow> 'a ctl_scheme" where
  "k_msgq_put c cmd s =
     (if length (esb_ctrl_msgq s) < CTRL_MSGQ_DEPTH c
      then s\<lparr>esb_ctrl_msgq := esb_ctrl_msgq s @ [cmd]\<rparr> else s)"

section \<open>Addresses and received packets\<close>

definition configure_esb_addresses :: "esb_dts \<Rightarrow> 'a tport_scheme \<Rightarrow> 'a tport_scheme" where
  "configure_esb_addresses d s =
     esb_transport_set_addresses (pairing_base_address d) (data_base_address d)
       [pairing_prefix d, data_prefix d, 0xC3, 0xC4, 0xC5, 0xC6, 0xC7, 0xC8] (dts_esb_channel d) s"

definition on_transport_evt :: "kcfg \<Rightarrow> u8 list \<Rightarrow> nat \<Rightarrow> 'a pair_scheme \<Rightarrow> 'a pair_scheme" where
  "on_transport_evt c buf len s =
     (let s = pairing_on_rx c buf len s
      in if BENCH c then esb_bench_on_rx c (take len buf) s else s)"

section \<open>The wrapped BLE entry points\<close>

text \<open>
  Each \<open>__wrap_\<close> function returns 0 while ESB owns the radio and otherwise calls \<open>real\<close>, the
  wrapped function with its arguments applied, on the state of the Bluetooth side.
\<close>

definition wrap_ble :: "('b \<Rightarrow> int \<times> 'b) \<Rightarrow> 'a ctl_scheme \<Rightarrow> 'b \<Rightarrow> int \<times> 'b" where
  "wrap_ble real s b = (if esb_active s then (0, b) else real b)"

section \<open>The control thread\<close>

definition ctrl_activate ::
    "kcfg \<Rightarrow> esb_dts \<Rightarrow> rc \<Rightarrow> rc \<Rightarrow> ('a ctl_scheme \<Rightarrow> 'a ctl_scheme) \<Rightarrow> 'a ctl_scheme \<Rightarrow> 'a ctl_scheme" where
  "ctrl_activate c d hf hw quiesce s =
     (let s = quiesce s;
          s = configure_esb_addresses d s;
          s = pairing_start c s;
          s = esb_transport_on_slot_start c hf hw s;
          s = s\<lparr>esb_active := True\<rparr>
      in if SHELL_RELAY c then esb_shell_relay_on_activate True s else s)"

definition ctrl_deactivate :: "kcfg \<Rightarrow> 'a ctl_scheme \<Rightarrow> 'a ctl_scheme" where
  "ctrl_deactivate c s =
     (let s = (if SHELL_RELAY c then esb_shell_relay_on_deactivate s else s);
          s = s\<lparr>esb_active := False\<rparr>;
          s = esb_transport_on_slot_stop c s;
          s = pairing_stop c s
      in esb_transport_deinit s)"

text \<open>One turn of the thread's loop; \<open>None\<close> while its queue is empty.\<close>

definition esb_ctrl_thread_step ::
    "kcfg \<Rightarrow> esb_dts \<Rightarrow> rc \<Rightarrow> rc \<Rightarrow> ('a ctl_scheme \<Rightarrow> 'a ctl_scheme) \<Rightarrow> 'a ctl_scheme \<Rightarrow>
     'a ctl_scheme option" where
  "esb_ctrl_thread_step c d hf hw quiesce s =
     (case esb_ctrl_msgq s of
        [] \<Rightarrow> None
      | cmd # rest \<Rightarrow>
          (let s = s\<lparr>esb_ctrl_msgq := rest\<rparr>
           in Some (case cmd of
                      ESB_CMD_ACTIVATE \<Rightarrow> ctrl_activate c d hf hw quiesce s
                    | ESB_CMD_DEACTIVATE \<Rightarrow> ctrl_deactivate c s)))"

section \<open>Who asks for the radio\<close>

text \<open>\<open>ev\<close> is the profile index of a profile-changed event, \<open>profiles\<close> is \<open>ZMK_BLE_PROFILE_COUNT\<close>.\<close>

definition profile_listener_cb :: "kcfg \<Rightarrow> nat \<Rightarrow> nat option \<Rightarrow> 'a ctl_scheme \<Rightarrow> zmk_ev \<times> 'a ctl_scheme" where
  "profile_listener_cb c profiles ev s =
     (ZMK_EV_EVENT_BUBBLE,
      case ev of
        None \<Rightarrow> s
      | Some index \<Rightarrow>
          (let should_be_active = (index = profiles - 1)
           in if should_be_active \<and> \<not> esb_active s then k_msgq_put c ESB_CMD_ACTIVATE s
              else if \<not> should_be_active \<and> esb_active s then k_msgq_put c ESB_CMD_DEACTIVATE s
              else s))"

definition boot_profile_check_fn :: "kcfg \<Rightarrow> nat \<Rightarrow> nat \<Rightarrow> 'a ctl_scheme \<Rightarrow> 'a ctl_scheme" where
  "boot_profile_check_fn c profiles index s =
     (if index = profiles - 1 \<and> \<not> esb_active s then k_msgq_put c ESB_CMD_ACTIVATE s else s)"

definition esb_endpoint_init :: "kcfg \<Rightarrow> u32 \<Rightarrow> u32 \<Rightarrow> 'a ctl_scheme \<Rightarrow> 'a ctl_scheme" where
  "esb_endpoint_init c lo hi s =
     (let s = esb_transport_init c s;
          s = pairing_init lo hi s;
          s = channel_hop_ep_init c s
      in if sched s BootProfileCheckWork = None
         then k_work_reschedule BootProfileCheckWork (BOOT_CHECK_DELAY_MS c) s else s)"

section \<open>Shell commands\<close>

definition cmd_esb_unpair :: "kcfg \<Rightarrow> 'a ctl_scheme \<Rightarrow> 'a ctl_scheme" where
  "cmd_esb_unpair c s = pairing_unpair c s"

datatype bench_output = BenchNothing | BenchStarted | BenchStopping | BenchReport esb_bench_result

definition cmd_esb_bench :: "kcfg \<Rightarrow> 'a ctl_scheme \<Rightarrow> rc \<times> bench_output \<times> 'a ctl_scheme" where
  "cmd_esb_bench c s =
     (case esb_bench_get_state s of
        BENCH_IDLE \<Rightarrow>
          (if \<not> zmk_esb_endpoint_is_active s then (Some EINVAL, BenchNothing, s)
           else (None, BenchStarted, esb_bench_start c s))
      | BENCH_RUNNING \<Rightarrow> (None, BenchNothing, s)
      | BENCH_STOPPING \<Rightarrow> (None, BenchStopping, s)
      | BENCH_DONE \<Rightarrow> (None, BenchReport (esb_bench_get_result s), esb_bench_reset s))"

definition pairing_state_str :: "pairing_state \<Rightarrow> string" where
  "pairing_state_str st =
     (case st of
        PAIRING_STATE_IDLE \<Rightarrow> ''idle''
      | PAIRING_STATE_UNPAIRED \<Rightarrow> ''unpaired''
      | PAIRING_STATE_PAIRING \<Rightarrow> ''pairing''
      | PAIRING_STATE_VERIFYING \<Rightarrow> ''verifying''
      | PAIRING_STATE_CONNECTED \<Rightarrow> ''connected'')"

text \<open>The figures \<open>cmd_esb_status\<close> prints.\<close>

record esb_status =
  st_pairing :: string
  st_active :: bool
  st_channel :: u8
  st_hop_active :: bool
  st_next :: u8
  st_rssi :: "(i8 \<times> i8) option"
  st_link :: "u8 \<times> u16"
  st_tx :: "(u32 \<times> u32 \<times> u32)"
  st_per_mille :: "(u32 \<times> u32) option"
  st_hid :: "u32 \<times> u16"

definition cmd_esb_status :: "kcfg \<Rightarrow> 'a ctl_scheme \<Rightarrow> esb_status" where
  "cmd_esb_status c s =
     (let (tx_ok, tx_retried, tx_exhausted) = esb_transport_get_per_stats s;
          tx_total = tx_ok + tx_exhausted
      in \<lparr>st_pairing = pairing_state_str (pairing_get_state s),
          st_active = zmk_esb_endpoint_is_active s,
          st_channel = esb_transport_get_channel s,
          st_hop_active = channel_hop_ep_is_active c s,
          st_next = channel_hop_ep_get_committed c s,
          st_rssi = esb_transport_get_peer_rssi s,
          st_link = esb_transport_get_link_quality c s,
          st_tx = (tx_ok, tx_retried, tx_exhausted),
          st_per_mille = (if 0 < tx_total
                          then Some (tx_exhausted * 1000 div tx_total,
                                     if 0 < tx_ok then tx_retried * 1000 div tx_ok else 0)
                          else None),
          st_hid = esb_transport_get_hid_tx_stats s\<rparr>)"

end
