(* ===== verification/Behaviors.thy ===== *)
theory Behaviors
  imports Endpoint
begin

text \<open>
  The two keymap behaviors, \<open>src/behaviors/behavior_esb_unpair.c\<close> and
  \<open>src/behaviors/behavior_esb_shell_req.c\<close>: a key bound to one of them runs its
  \<open>on_keymap_binding_pressed\<close>, which ends the event whatever the call returned.
\<close>

datatype behavior_result = ZMK_BEHAVIOR_OPAQUE

definition unpair_binding_pressed :: "kcfg \<Rightarrow> 'a ctl_scheme \<Rightarrow> behavior_result \<times> 'a ctl_scheme" where
  "unpair_binding_pressed c s = (ZMK_BEHAVIOR_OPAQUE, pairing_unpair c s)"

definition shell_req_binding_pressed :: "kcfg \<Rightarrow> 'a ctl_scheme \<Rightarrow> behavior_result \<times> 'a ctl_scheme" where
  "shell_req_binding_pressed c s =
     (ZMK_BEHAVIOR_OPAQUE, snd (esb_shell_relay_request c (zmk_esb_endpoint_is_active s) s))"

end
