(* ===== verification/Duties.thy ===== *)
theory Duties
  imports Behaviors
begin

text \<open>
  What holds of the endpoint between any two steps: the radio, the hop manager and the configured
  channel are well formed, and the work items of \<open>wanted\<close> are scheduled while they are needed. Such
  an obligation is a duty; in the middle of an operation some duties may be unmet, so the
  invariant \<open>fw_inv c X\<close> carries the set \<open>X\<close> of those, and an operation is followed
  update by update until \<open>X\<close> is what it was.
\<close>

section \<open>Duties\<close>

datatype duty =
    Wake work  \<comment> \<open>the work item is pending whenever it is \<open>wanted\<close>\<close>
  | ReportUp   \<comment> \<open>the hop manager has been told of the connection\<close>
  | ReportDown \<comment> \<open>the hop manager has been told of the disconnection\<close>

definition wanted :: "kcfg \<Rightarrow> 'a ctl_scheme \<Rightarrow> work \<Rightarrow> bool" where
  "wanted c s w \<longleftrightarrow>
     (case w of
        BeaconWork \<Rightarrow> m_state s = PAIRING_STATE_UNPAIRED
      | VerifyWork \<Rightarrow> m_state s = PAIRING_STATE_VERIFYING
      | NegotiateWork \<Rightarrow> m_active s
      | IdleCheckWork \<Rightarrow> m_active s
      | PostHopBurstWork \<Rightarrow> 0 < m_post_hop_burst_remaining s
      | CoopHopCommitWork \<Rightarrow> COOP_HOP c \<and> m_coop_hop_state s = COOP_ARMED
      | AdaptiveRetryWork \<Rightarrow> CHANNEL_HOP c \<and> ADAPTIVE_RETRY c \<and> esb_initialized s
      | HidRetryWork \<Rightarrow> kb_pending s \<noteq> [] \<or> cons_pending s \<noteq> []
      | IpRetryWork n \<Rightarrow> n < length (ip_devs s) \<and> pending_buttons (ip_devs s ! n) \<noteq> []
      | ShellPollWork \<Rightarrow> m_shell_active s
      | InactivityWork \<Rightarrow> m_shell_active s \<and> 0 < SHELL_INACTIVITY_S c
      | StdoutFlushWork \<Rightarrow> stdout_buf s \<noteq> []
      | BenchCompleteWork \<Rightarrow> m_bench_state s = BENCH_RUNNING
      | BenchResultPollWork \<Rightarrow> m_bench_state s = BENCH_STOPPING
      | BenchResultTimeoutWork \<Rightarrow> m_bench_state s = BENCH_STOPPING
      | _ \<Rightarrow> False)"

definition met :: "kcfg \<Rightarrow> 'a ctl_scheme \<Rightarrow> duty \<Rightarrow> bool" where
  "met c s d \<longleftrightarrow>
     (case d of
        Wake w \<Rightarrow> wanted c s w \<longrightarrow> pending w s
      | ReportUp \<Rightarrow> CHANNEL_HOP c \<longrightarrow> m_state s = PAIRING_STATE_CONNECTED \<longrightarrow> m_link_up s
      | ReportDown \<Rightarrow> CHANNEL_HOP c \<longrightarrow> m_link_up s \<longrightarrow> m_state s = PAIRING_STATE_CONNECTED)"

section \<open>The invariant\<close>

text \<open>A radio that has never been set up: zero-initialised memory and no interrupt installed.\<close>

definition radio_untouched :: "'a esb_scheme \<Rightarrow> bool" where
  "radio_untouched s \<longleftrightarrow> \<not> esb_initialized s \<and> m_esb_state s = ESB_STATE_IDLE \<and>
     on_radio_disabled s = NoHandler \<and> unat (rf_channel s) \<le> 100"

definition radio_inv :: "kcfg \<Rightarrow> 'a esb_scheme \<Rightarrow> bool" where
  "radio_inv c s \<longleftrightarrow> ptx_inv c s \<or> radio_untouched s"

definition addr_ok :: "'a tport_scheme \<Rightarrow> bool" where
  "addr_ok s \<longleftrightarrow> (ad_configured (m_addr s) \<longrightarrow>
     unat (ad_channel (m_addr s)) < CHANNEL_HOP_CHANNEL_COUNT \<and>
     unat (ad_boot_channel (m_addr s)) < CHANNEL_HOP_CHANNEL_COUNT)"

definition fw_core :: "kcfg \<Rightarrow> 'a tport_scheme \<Rightarrow> bool" where
  "fw_core c s \<longleftrightarrow> radio_inv c s \<and> hop_inv c s \<and> addr_ok s"

definition fw_inv :: "kcfg \<Rightarrow> duty set \<Rightarrow> 'a ctl_scheme \<Rightarrow> bool" where
  "fw_inv c X s \<longleftrightarrow> fw_core c s \<and> (\<forall>d. d \<notin> X \<longrightarrow> met c s d)"

lemmas core_defs = fw_core_def radio_inv_def ptx_inv_def radio_untouched_def hop_inv_def addr_ok_def
lemmas duty_defs = met_def wanted_def pending_def

section \<open>Rules\<close>

lemma fw_inv_mono: "fw_inv c X s \<Longrightarrow> X \<subseteq> Y \<Longrightarrow> fw_inv c Y s"
  by (auto simp: fw_inv_def)

lemma fw_inv_core: "fw_inv c X s \<Longrightarrow> fw_core c s"
  by (simp add: fw_inv_def)

lemma fw_inv_discharge: "fw_inv c (insert d X) s \<Longrightarrow> met c s d \<Longrightarrow> fw_inv c X s"
  by (auto simp: fw_inv_def)

lemma core_work [simp]:
  "fw_core c (k_work_reschedule w ms s) = fw_core c s"
  "fw_core c (k_work_submit w s) = fw_core c s"
  "fw_core c (k_work_cancel w s) = fw_core c s"
  by (simp_all add: core_defs k_work_reschedule_def k_work_submit_def k_work_cancel_def)

lemma wanted_work [simp]:
  "wanted c (k_work_reschedule w ms s) v = wanted c s v"
  "wanted c (k_work_submit w s) v = wanted c s v"
  "wanted c (k_work_cancel w s) v = wanted c s v"
  by (cases v; simp add: wanted_def k_work_reschedule_def k_work_submit_def k_work_cancel_def)+

lemma report_work [simp]:
  "met c (k_work_reschedule w ms s) ReportUp = met c s ReportUp"
  "met c (k_work_submit w s) ReportUp = met c s ReportUp"
  "met c (k_work_cancel w s) ReportUp = met c s ReportUp"
  "met c (k_work_reschedule w ms s) ReportDown = met c s ReportDown"
  "met c (k_work_submit w s) ReportDown = met c s ReportDown"
  "met c (k_work_cancel w s) ReportDown = met c s ReportDown"
  by (simp_all add: met_def k_work_reschedule_def k_work_submit_def k_work_cancel_def)

lemma met_Wake: "met c s (Wake w) \<longleftrightarrow> (wanted c s w \<longrightarrow> pending w s)"
  by (simp add: met_def)

lemma met_work:
  "met c (k_work_reschedule w ms s) d \<longleftrightarrow> d = Wake w \<or> met c s d"
  "met c (k_work_submit w s) d \<longleftrightarrow> d = Wake w \<or> met c s d"
  "d \<noteq> Wake w \<Longrightarrow> met c (k_work_cancel w s) d = met c s d"
  by (cases d; auto simp: met_Wake pending_def; auto simp: met_def)+

lemma wanted_simps [simp]:
  "wanted c s BeaconWork \<longleftrightarrow> m_state s = PAIRING_STATE_UNPAIRED"
  "wanted c s VerifyWork \<longleftrightarrow> m_state s = PAIRING_STATE_VERIFYING"
  "wanted c s NegotiateWork \<longleftrightarrow> m_active s"
  "wanted c s IdleCheckWork \<longleftrightarrow> m_active s"
  "wanted c s PostHopBurstWork \<longleftrightarrow> 0 < m_post_hop_burst_remaining s"
  "wanted c s CoopHopCommitWork \<longleftrightarrow> COOP_HOP c \<and> m_coop_hop_state s = COOP_ARMED"
  "wanted c s AdaptiveRetryWork \<longleftrightarrow> CHANNEL_HOP c \<and> ADAPTIVE_RETRY c \<and> esb_initialized s"
  "wanted c s HidRetryWork \<longleftrightarrow> kb_pending s \<noteq> [] \<or> cons_pending s \<noteq> []"
  "wanted c s ShellPollWork \<longleftrightarrow> m_shell_active s"
  "wanted c s InactivityWork \<longleftrightarrow> m_shell_active s \<and> 0 < SHELL_INACTIVITY_S c"
  "wanted c s StdoutFlushWork \<longleftrightarrow> stdout_buf s \<noteq> []"
  "wanted c s BenchCompleteWork \<longleftrightarrow> m_bench_state s = BENCH_RUNNING"
  "wanted c s BenchResultPollWork \<longleftrightarrow> m_bench_state s = BENCH_STOPPING"
  "wanted c s BenchResultTimeoutWork \<longleftrightarrow> m_bench_state s = BENCH_STOPPING"
  "wanted c s (IpRetryWork n) \<longleftrightarrow> n < length (ip_devs s) \<and> pending_buttons (ip_devs s ! n) \<noteq> []"
  "\<not> wanted c s HopRetryWork"
  "\<not> wanted c s HopWork"
  "\<not> wanted c s CoopHopOfferWork"
  "\<not> wanted c s RxWork"
  "\<not> wanted c s ShellExecWork"
  "\<not> wanted c s OutDrainWork"
  "\<not> wanted c s BgPollWork"
  "\<not> wanted c s BenchTxWork"
  "\<not> wanted c s BootProfileCheckWork"
  by (simp_all add: wanted_def)

lemma met_report [simp]:
  "met c s ReportUp \<longleftrightarrow> (CHANNEL_HOP c \<longrightarrow> m_state s = PAIRING_STATE_CONNECTED \<longrightarrow> m_link_up s)"
  "met c s ReportDown \<longleftrightarrow> (CHANNEL_HOP c \<longrightarrow> m_link_up s \<longrightarrow> m_state s = PAIRING_STATE_CONNECTED)"
  by (simp_all add: met_def)

text \<open>The invariant clause by clause.\<close>

lemma fw_inv_iff:
  "fw_inv c X s \<longleftrightarrow> fw_core c s \<and>
     (Wake BeaconWork \<notin> X \<longrightarrow> m_state s = PAIRING_STATE_UNPAIRED \<longrightarrow> pending BeaconWork s) \<and>
     (Wake VerifyWork \<notin> X \<longrightarrow> m_state s = PAIRING_STATE_VERIFYING \<longrightarrow> pending VerifyWork s) \<and>
     (Wake NegotiateWork \<notin> X \<longrightarrow> m_active s \<longrightarrow> pending NegotiateWork s) \<and>
     (Wake IdleCheckWork \<notin> X \<longrightarrow> m_active s \<longrightarrow> pending IdleCheckWork s) \<and>
     (Wake PostHopBurstWork \<notin> X \<longrightarrow> 0 < m_post_hop_burst_remaining s \<longrightarrow> pending PostHopBurstWork s) \<and>
     (Wake CoopHopCommitWork \<notin> X \<longrightarrow> COOP_HOP c \<and> m_coop_hop_state s = COOP_ARMED \<longrightarrow> pending CoopHopCommitWork s) \<and>
     (Wake AdaptiveRetryWork \<notin> X \<longrightarrow> CHANNEL_HOP c \<and> ADAPTIVE_RETRY c \<and> esb_initialized s \<longrightarrow> pending AdaptiveRetryWork s) \<and>
     (Wake HidRetryWork \<notin> X \<longrightarrow> (kb_pending s \<noteq> [] \<or> cons_pending s \<noteq> []) \<longrightarrow> pending HidRetryWork s) \<and>
     (Wake ShellPollWork \<notin> X \<longrightarrow> m_shell_active s \<longrightarrow> pending ShellPollWork s) \<and>
     (Wake InactivityWork \<notin> X \<longrightarrow> m_shell_active s \<and> 0 < SHELL_INACTIVITY_S c \<longrightarrow> pending InactivityWork s) \<and>
     (Wake StdoutFlushWork \<notin> X \<longrightarrow> stdout_buf s \<noteq> [] \<longrightarrow> pending StdoutFlushWork s) \<and>
     (Wake BenchCompleteWork \<notin> X \<longrightarrow> m_bench_state s = BENCH_RUNNING \<longrightarrow> pending BenchCompleteWork s) \<and>
     (Wake BenchResultPollWork \<notin> X \<longrightarrow> m_bench_state s = BENCH_STOPPING \<longrightarrow> pending BenchResultPollWork s) \<and>
     (Wake BenchResultTimeoutWork \<notin> X \<longrightarrow> m_bench_state s = BENCH_STOPPING \<longrightarrow> pending BenchResultTimeoutWork s) \<and>
     (\<forall>n. Wake (IpRetryWork n) \<notin> X \<longrightarrow> n < length (ip_devs s) \<and> pending_buttons (ip_devs s ! n) \<noteq> [] \<longrightarrow>
        pending (IpRetryWork n) s) \<and>
     (ReportUp \<notin> X \<longrightarrow> met c s ReportUp) \<and> (ReportDown \<notin> X \<longrightarrow> met c s ReportDown)"
  (is "?l \<longleftrightarrow> ?r")
proof
  assume ?l
  then have k: "fw_core c s" "\<And>w. Wake w \<notin> X \<Longrightarrow> wanted c s w \<Longrightarrow> pending w s"
    "ReportUp \<notin> X \<Longrightarrow> met c s ReportUp" "ReportDown \<notin> X \<Longrightarrow> met c s ReportDown"
    by (auto simp only: fw_inv_def met_Wake [symmetric]) (auto simp only: met_Wake)
  show ?r by (simp add: k del: met_report)
next
  assume r: ?r
  then have w: "wanted c s w \<Longrightarrow> pending w s" if "Wake w \<notin> X" for w
    using that by (elim conjE, cases w; hypsubst; simp only: wanted_simps; blast)
  from r have u: "ReportUp \<notin> X \<longrightarrow> met c s ReportUp" by (elim conjE)
  from r have v: "ReportDown \<notin> X \<longrightarrow> met c s ReportDown" by (elim conjE)
  have d: "met c s d" if "d \<notin> X" for d
    using that w u v by (cases d) (simp_all del: met_report add: met_Wake)
  from r show ?l unfolding fw_inv_def by (elim conjE, intro conjI allI impI d)
qed

text \<open>Scheduling an item meets its duty, and cancelling it puts the duty in question.\<close>

lemma fw_schedule:
  "fw_inv c (insert (Wake w) X) s \<Longrightarrow> fw_inv c X (k_work_reschedule w ms s)"
  "fw_inv c (insert (Wake w) X) s \<Longrightarrow> fw_inv c X (k_work_submit w s)"
  by (auto simp: fw_inv_def met_work)

lemma fw_schedule_keeps:
  "fw_inv c X s \<Longrightarrow> fw_inv c X (k_work_reschedule w ms s)"
  "fw_inv c X s \<Longrightarrow> fw_inv c X (k_work_submit w s)"
  by (auto simp: fw_inv_def met_work)

lemma fw_cancel: "fw_inv c X s \<Longrightarrow> fw_inv c (insert (Wake w) X) (k_work_cancel w s)"
  by (auto simp: fw_inv_def met_work)

lemma fw_cancel_unwanted:
  "fw_inv c X s \<Longrightarrow> \<not> wanted c s w \<Longrightarrow> fw_inv c X (k_work_cancel w s)"
  by (rule fw_inv_discharge [OF fw_cancel]) (simp_all add: met_Wake)

text \<open>The fields the duties read, as one value.\<close>

definition duty_view where
  "duty_view s = (sched s, m_active s, m_link_up s, m_post_hop_burst_remaining s, m_coop_hop_state s,
     m_state s, kb_pending s, cons_pending s, ip_devs s, esb_initialized s, m_shell_active s,
     stdout_buf s, m_bench_state s)"

lemma met_view:
  assumes "duty_view t = duty_view s"
  shows "met c t d = met c s d"
proof (cases d)
  case (Wake w)
  have "wanted c t w = wanted c s w"
    using assms by (cases w) (simp_all add: wanted_def duty_view_def)
  with assms Wake show ?thesis by (simp add: met_Wake pending_def duty_view_def)
qed (use assms in \<open>simp_all add: met_def duty_view_def\<close>)

lemma fw_frame_eq:
  "fw_core c t = fw_core c s \<Longrightarrow> duty_view t = duty_view s \<Longrightarrow> fw_inv c X t = fw_inv c X s"
  using met_view [of t s c] by (simp add: fw_inv_def)

lemma fw_frame:
  "fw_inv c X s \<Longrightarrow> fw_core c t \<Longrightarrow> duty_view t = duty_view s \<Longrightarrow> fw_inv c X t"
  using met_view [of t s c] by (simp add: fw_inv_def)

lemma fw_updates [simp]:
  "fw_inv c X (s\<lparr>uptime := x0\<rparr>) = fw_inv c X s"
  "fw_inv c X (s\<lparr>cycles := x1\<rparr>) = fw_inv c X s"
  "fw_inv c X (s\<lparr>m_prng_state := x2\<rparr>) = fw_inv c X s"
  "fw_inv c X (s\<lparr>tx_payload_buffer := x3\<rparr>) = fw_inv c X s"
  "fw_inv c X (s\<lparr>tx_noack_timer := x4\<rparr>) = fw_inv c X s"
  "fw_inv c X (s\<lparr>esb_pids := x5\<rparr>) = fw_inv c X s"
  "fw_inv c X (s\<lparr>rx_pipe_info := x6\<rparr>) = fw_inv c X s"
  "fw_inv c X (s\<lparr>ack_in_use := x7\<rparr>) = fw_inv c X s"
  "fw_inv c X (s\<lparr>ack_pl_wrap_pipe := x8\<rparr>) = fw_inv c X s"
  "fw_inv c X (s\<lparr>int_tx_success := x9\<rparr>) = fw_inv c X s"
  "fw_inv c X (s\<lparr>int_tx_failed := x10\<rparr>) = fw_inv c X s"
  "fw_inv c X (s\<lparr>int_rx_received := x11\<rparr>) = fw_inv c X s"
  "fw_inv c X (s\<lparr>retransmits_remaining := x12\<rparr>) = fw_inv c X s"
  "fw_inv c X (s\<lparr>last_tx_attempts := x13\<rparr>) = fw_inv c X s"
  "fw_inv c X (s\<lparr>base_addr_p0 := x14\<rparr>) = fw_inv c X s"
  "fw_inv c X (s\<lparr>base_addr_p1 := x15\<rparr>) = fw_inv c X s"
  "fw_inv c X (s\<lparr>pipe_prefixes := x16\<rparr>) = fw_inv c X s"
  "fw_inv c X (s\<lparr>num_pipes := x17\<rparr>) = fw_inv c X s"
  "fw_inv c X (s\<lparr>rx_pipes_enabled := x18\<rparr>) = fw_inv c X s"
  "fw_inv c X (s\<lparr>radio_txaddress := x19\<rparr>) = fw_inv c X s"
  "fw_inv c X (s\<lparr>radio_frequency := x20\<rparr>) = fw_inv c X s"
  "fw_inv c X (s\<lparr>m_committed_synced := x21\<rparr>) = fw_inv c X s"
  "fw_inv c X (s\<lparr>m_request_burst_remaining := x22\<rparr>) = fw_inv c X s"
  "fw_inv c X (s\<lparr>m_hop_cooldown_until := x23\<rparr>) = fw_inv c X s"
  "fw_inv c X (s\<lparr>m_last_link_event_ms := x24\<rparr>) = fw_inv c X s"
  "fw_inv c X (s\<lparr>m_rendezvous_fallback_pending := x25\<rparr>) = fw_inv c X s"
  "fw_inv c X (s\<lparr>m_coop_hop_seq := x26\<rparr>) = fw_inv c X s"
  "fw_inv c X (s\<lparr>m_last_tx_was_offer := x27\<rparr>) = fw_inv c X s"
  "fw_inv c X (s\<lparr>m_coop_hop_cooldown_until := x28\<rparr>) = fw_inv c X s"
  "fw_inv c X (s\<lparr>m_cb_set := x29\<rparr>) = fw_inv c X s"
  "fw_inv c X (s\<lparr>m_sync_tx_done := x30\<rparr>) = fw_inv c X s"
  "fw_inv c X (s\<lparr>m_sync_tx_in_progress := x31\<rparr>) = fw_inv c X s"
  "fw_inv c X (s\<lparr>m_sync_tx_result_success := x32\<rparr>) = fw_inv c X s"
  "fw_inv c X (s\<lparr>t_rx_buf := x33\<rparr>) = fw_inv c X s"
  "fw_inv c X (s\<lparr>t_rx_len := x34\<rparr>) = fw_inv c X s"
  "fw_inv c X (s\<lparr>tx_ok_count := x35\<rparr>) = fw_inv c X s"
  "fw_inv c X (s\<lparr>tx_fail_count := x36\<rparr>) = fw_inv c X s"
  "fw_inv c X (s\<lparr>tx_retried_count := x37\<rparr>) = fw_inv c X s"
  "fw_inv c X (s\<lparr>tx_exhausted_count := x38\<rparr>) = fw_inv c X s"
  "fw_inv c X (s\<lparr>consecutive_tx_fail := x39\<rparr>) = fw_inv c X s"
  "fw_inv c X (s\<lparr>m_hid_tx_count := x40\<rparr>) = fw_inv c X s"
  "fw_inv c X (s\<lparr>m_hid_tx_bucket_count := x41\<rparr>) = fw_inv c X s"
  "fw_inv c X (s\<lparr>m_hid_tx_bucket_ms := x42\<rparr>) = fw_inv c X s"
  "fw_inv c X (s\<lparr>m_hid_tx_rate_hz := x43\<rparr>) = fw_inv c X s"
  "fw_inv c X (s\<lparr>m_recent_critical_override := x44\<rparr>) = fw_inv c X s"
  "fw_inv c X (s\<lparr>m_recent_motion := x45\<rparr>) = fw_inv c X s"
  "fw_inv c X (s\<lparr>m_recent_motion_head := x46\<rparr>) = fw_inv c X s"
  "fw_inv c X (s\<lparr>m_recent_motion_tail := x47\<rparr>) = fw_inv c X s"
  "fw_inv c X (s\<lparr>m_motion_refund := x48\<rparr>) = fw_inv c X s"
  "fw_inv c X (s\<lparr>m_pointer_inflight_count := x49\<rparr>) = fw_inv c X s"
  "fw_inv c X (s\<lparr>m_adaptive_retransmit_count := x50\<rparr>) = fw_inv c X s"
  "fw_inv c X (s\<lparr>m_first_fail_ms := x51\<rparr>) = fw_inv c X s"
  "fw_inv c X (s\<lparr>m_last_tx_success_ms := x52\<rparr>) = fw_inv c X s"
  "fw_inv c X (s\<lparr>m_tx_quiet_until_ms := x53\<rparr>) = fw_inv c X s"
  "fw_inv c X (s\<lparr>m_link_quality_window := x54\<rparr>) = fw_inv c X s"
  "fw_inv c X (s\<lparr>m_link_quality_count := x55\<rparr>) = fw_inv c X s"
  "fw_inv c X (s\<lparr>m_link_quality_ewma_x10 := x56\<rparr>) = fw_inv c X s"
  "fw_inv c X (s\<lparr>m_recent_noack := x57\<rparr>) = fw_inv c X s"
  "fw_inv c X (s\<lparr>m_link_degraded_armed := x58\<rparr>) = fw_inv c X s"
  "fw_inv c X (s\<lparr>m_last_activity_ms := x59\<rparr>) = fw_inv c X s"
  "fw_inv c X (s\<lparr>m_activity_seen := x60\<rparr>) = fw_inv c X s"
  "fw_inv c X (s\<lparr>m_last_tx_event_ms := x61\<rparr>) = fw_inv c X s"
  "fw_inv c X (s\<lparr>m_jitter_rng := x62\<rparr>) = fw_inv c X s"
  "fw_inv c X (s\<lparr>m_jitter_rng_addr := x63\<rparr>) = fw_inv c X s"
  "fw_inv c X (s\<lparr>m_peer_rssi_last := x64\<rparr>) = fw_inv c X s"
  "fw_inv c X (s\<lparr>m_peer_rssi_ewma := x65\<rparr>) = fw_inv c X s"
  "fw_inv c X (s\<lparr>m_peer_rssi_valid := x66\<rparr>) = fw_inv c X s"
  "fw_inv c X (s\<lparr>ppi_chen := x67\<rparr>) = fw_inv c X s"
  "fw_inv c X (s\<lparr>saved_bt_ll_ppi_chen := x68\<rparr>) = fw_inv c X s"
  "fw_inv c X (s\<lparr>bt_ll_suspended := x69\<rparr>) = fw_inv c X s"
  "fw_inv c X (s\<lparr>hfclk_held := x70\<rparr>) = fw_inv c X s"
  "fw_inv c X (s\<lparr>m_ram_vtor_installed := x71\<rparr>) = fw_inv c X s"
  "fw_inv c X (s\<lparr>radio_vector_esb := x72\<rparr>) = fw_inv c X s"
  "fw_inv c X (s\<lparr>cmd_buf := x73\<rparr>) = fw_inv c X s"
  "fw_inv c X (s\<lparr>cmd_len := x74\<rparr>) = fw_inv c X s"
  "fw_inv c X (s\<lparr>out_rb := x75\<rparr>) = fw_inv c X s"
  "fw_inv c X (s\<lparr>m_at_line_start := x76\<rparr>) = fw_inv c X s"
  "fw_inv c X (s\<lparr>in_log_emit := x77\<rparr>) = fw_inv c X s"
  "fw_inv c X (s\<lparr>last_nudge_ms := x78\<rparr>) = fw_inv c X s"
  "fw_inv c X (s\<lparr>stdout_hook_installed := x79\<rparr>) = fw_inv c X s"
  "fw_inv c X (s\<lparr>shell_prompt := x80\<rparr>) = fw_inv c X s"
  "fw_inv c X (s\<lparr>m_start_ms := x81\<rparr>) = fw_inv c X s"
  "fw_inv c X (s\<lparr>m_tx_ok := x82\<rparr>) = fw_inv c X s"
  "fw_inv c X (s\<lparr>m_tx_fail := x83\<rparr>) = fw_inv c X s"
  "fw_inv c X (s\<lparr>m_seq := x84\<rparr>) = fw_inv c X s"
  "fw_inv c X (s\<lparr>m_result := x85\<rparr>) = fw_inv c X s"
  "fw_inv c X (s\<lparr>m_device_id := x86\<rparr>) = fw_inv c X s"
  "fw_inv c X (s\<lparr>m_peer_device_id := x87\<rparr>) = fw_inv c X s"
  "fw_inv c X (s\<lparr>m_has_stored_peer := x88\<rparr>) = fw_inv c X s"
  "fw_inv c X (s\<lparr>settings_paired := x89\<rparr>) = fw_inv c X s"
  "fw_inv c X (s\<lparr>kb_body := x90\<rparr>) = fw_inv c X s"
  "fw_inv c X (s\<lparr>cons_body := x91\<rparr>) = fw_inv c X s"
  "fw_inv c X (s\<lparr>explicit_mod_refcount := x92\<rparr>) = fw_inv c X s"
  "fw_inv c X (s\<lparr>implicit_mod_refcount := x93\<rparr>) = fw_inv c X s"
  "fw_inv c X (s\<lparr>explicit_mods := x94\<rparr>) = fw_inv c X s"
  "fw_inv c X (s\<lparr>implicit_mods := x95\<rparr>) = fw_inv c X s"
  "fw_inv c X (s\<lparr>was_active := x96\<rparr>) = fw_inv c X s"
  "fw_inv c X (s\<lparr>esb_active := x97\<rparr>) = fw_inv c X s"
  "fw_inv c X (s\<lparr>esb_ctrl_msgq := x98\<rparr>) = fw_inv c X s"
  by (rule fw_frame_eq; simp add: core_defs duty_view_def)+

section \<open>Updates the invariant reads\<close>

named_theorems fw_intros

lemma fw_channel_updates [fw_intros]:
  "fw_inv c X s \<Longrightarrow> wf_quarantine q \<Longrightarrow> fw_inv c X (s\<lparr>m_quarantine := q\<rparr>)"
  "fw_inv c X s \<Longrightarrow> channel_ok ch \<Longrightarrow> fw_inv c X (s\<lparr>m_committed_next := ch\<rparr>)"
  "fw_inv c X s \<Longrightarrow> channel_ok ch \<Longrightarrow> fw_inv c X (s\<lparr>m_prev_channel := ch\<rparr>)"
  "fw_inv c X s \<Longrightarrow> channel_ok ch \<Longrightarrow> fw_inv c X (s\<lparr>m_pending_candidate := ch\<rparr>)"
  "fw_inv c X s \<Longrightarrow> channel_ok ch \<Longrightarrow> fw_inv c X (s\<lparr>m_coop_hop_target := ch\<rparr>)"
  by (frule fw_inv_core, erule fw_frame; simp add: core_defs duty_view_def)+

lemma fw_coop_updates [fw_intros]:
  "fw_inv c X s \<Longrightarrow> fw_inv c X (s\<lparr>m_coop_hop_state := COOP_IDLE\<rparr>)"
  "fw_inv c X s \<Longrightarrow> m_active s \<Longrightarrow> fw_inv c X (s\<lparr>m_coop_hop_state := COOP_OFFERED\<rparr>)"
  "fw_inv c X s \<Longrightarrow> m_active s \<Longrightarrow>
     fw_inv c (insert (Wake CoopHopCommitWork) X) (s\<lparr>m_coop_hop_state := COOP_ARMED\<rparr>)"
  by (simp_all add: fw_inv_iff core_defs pending_def)

lemma fw_burst_updates [fw_intros]:
  "fw_inv c X s \<Longrightarrow> fw_inv c X (s\<lparr>m_post_hop_burst_remaining := 0\<rparr>)"
  "fw_inv c X s \<Longrightarrow> fw_inv c (insert (Wake PostHopBurstWork) X) (s\<lparr>m_post_hop_burst_remaining := n\<rparr>)"
  by (simp_all add: fw_inv_iff core_defs pending_def)

section \<open>The radio\<close>

lemma radio_inv_same: "same_radio s t \<Longrightarrow> radio_inv c s = radio_inv c t"
  using same_radio_inv [of s t c] by (simp add: same_radio_def radio_inv_def radio_untouched_def)

lemma radio_inv_api:
  assumes "radio_inv c s"
  shows "radio_inv c (snd (esb_write_payload c p s))" "radio_inv c (snd (esb_flush_tx c s))"
    "radio_inv c (snd (esb_read_rx_payload c s))" "radio_inv c (snd (esb_set_rf_channel channel s))"
proof -
  have "unat (ucast channel :: u8) \<le> 100" if "\<not> 100 < channel"
  proof -
    have "unat channel \<le> 100" using that by (simp add: word_less_nat_alt linorder_not_less)
    then show ?thesis by (simp add: unsigned_ucast_eq take_bit_eq_mod)
  qed
  then have u: "radio_untouched (snd (esb_write_payload c p s))" "radio_untouched (snd (esb_flush_tx c s))"
    "radio_untouched (snd (esb_read_rx_payload c s))" "radio_untouched (snd (esb_set_rf_channel channel s))"
    if "radio_untouched s"
    using that by (simp_all add: radio_untouched_def esb_write_payload_def esb_flush_tx_def
        esb_read_rx_payload_def esb_set_rf_channel_def)
  show "radio_inv c (snd (esb_write_payload c p s))" "radio_inv c (snd (esb_flush_tx c s))"
    "radio_inv c (snd (esb_read_rx_payload c s))" "radio_inv c (snd (esb_set_rf_channel channel s))"
    using assms u ptx_inv_api [of c s] by (auto simp: radio_inv_def)
qed

lemma radio_inv_interrupts:
  assumes "radio_inv c s" "esb_initialized s"
  shows "radio_inv c (radio_irq_handler c rx rssi pipe crc s)" "radio_inv c (esb_timer_handler c s)"
  using assms ptx_inv_interrupts [of c s] by (auto simp: radio_inv_def radio_untouched_def)

lemma radio_inv_disable: "radio_inv c s \<Longrightarrow> radio_inv c (esb_disable s)"
  by (auto simp: radio_inv_def ptx_inv_def radio_untouched_def esb_disable_def reset_fifos_def ring_wf_clear Let_def)

lemma radio_inv_init:
  assumes "radio_inv c s" "cfg_mode config = ESB_MODE_PTX" "tx_mode config = ESB_TXMODE_AUTO"
    "0 < ESB_TX_FIFO_SIZE c" "0 < ESB_RX_FIFO_SIZE c"
  shows "radio_inv c (snd (esb_init c hw config s))"
proof -
  have e: "radio_inv c (if esb_initialized s then esb_disable s else s)"
    using assms(1) radio_inv_disable [OF assms(1)] by simp
  have "ptx_inv c (snd (esb_init c hw config s))"
    using e assms(2-5)
    by (auto simp: esb_init_def radio_inv_def ptx_inv_def radio_untouched_def initialize_fifos_def reset_fifos_def
        clear_ack_wraps_def ring_clear_def ring_wf_def Let_def split: option.splits)
  then show ?thesis by (simp add: radio_inv_def)
qed

text \<open>Everything the invariant reads outside the radio.\<close>

definition fw_view where
  "fw_view s = (duty_view s, hop_view s, m_addr s)"

lemma fw_radio:
  assumes "fw_inv c X s" "radio_inv c t" "fw_view t = fw_view s"
  shows "fw_inv c X t"
  using assms(1)
proof (rule fw_frame)
  show "fw_core c t"
    using assms fw_inv_core [OF assms(1)] hop_inv_view [of t s] by (simp add: fw_view_def fw_core_def addr_ok_def)
qed (use assms(3) in \<open>simp add: fw_view_def\<close>)

lemma fw_view_radio [simp]:
  "fw_view (s\<lparr>esb_cfg := x0\<rparr>) = fw_view s"
  "fw_view (s\<lparr>m_esb_state := x1\<rparr>) = fw_view s"
  "fw_view (s\<lparr>tx_fifo := x2\<rparr>) = fw_view s"
  "fw_view (s\<lparr>rx_fifo := x3\<rparr>) = fw_view s"
  "fw_view (s\<lparr>tx_payload_buffer := x4\<rparr>) = fw_view s"
  "fw_view (s\<lparr>on_radio_disabled := x5\<rparr>) = fw_view s"
  "fw_view (s\<lparr>tx_noack_timer := x6\<rparr>) = fw_view s"
  "fw_view (s\<lparr>esb_pids := x7\<rparr>) = fw_view s"
  "fw_view (s\<lparr>rx_pipe_info := x8\<rparr>) = fw_view s"
  "fw_view (s\<lparr>ack_in_use := x9\<rparr>) = fw_view s"
  "fw_view (s\<lparr>ack_pl_wrap_pipe := x10\<rparr>) = fw_view s"
  "fw_view (s\<lparr>int_tx_success := x11\<rparr>) = fw_view s"
  "fw_view (s\<lparr>int_tx_failed := x12\<rparr>) = fw_view s"
  "fw_view (s\<lparr>int_rx_received := x13\<rparr>) = fw_view s"
  "fw_view (s\<lparr>retransmits_remaining := x14\<rparr>) = fw_view s"
  "fw_view (s\<lparr>last_tx_attempts := x15\<rparr>) = fw_view s"
  "fw_view (s\<lparr>base_addr_p0 := x16\<rparr>) = fw_view s"
  "fw_view (s\<lparr>base_addr_p1 := x17\<rparr>) = fw_view s"
  "fw_view (s\<lparr>pipe_prefixes := x18\<rparr>) = fw_view s"
  "fw_view (s\<lparr>num_pipes := x19\<rparr>) = fw_view s"
  "fw_view (s\<lparr>rx_pipes_enabled := x20\<rparr>) = fw_view s"
  "fw_view (s\<lparr>rf_channel := x21\<rparr>) = fw_view s"
  "fw_view (s\<lparr>radio_txaddress := x22\<rparr>) = fw_view s"
  "fw_view (s\<lparr>radio_frequency := x23\<rparr>) = fw_view s"
  by (simp_all add: fw_view_def duty_view_def hop_view_def)

lemma fw_view_start [simp]: "fw_view (start_tx_transaction s) = fw_view s"
  by (simp add: start_tx_transaction_def Let_def)

lemma fw_view_receive [simp]:
  "fw_view (next_transaction s) = fw_view s" "fw_view (receive_ack_payload c rx rssi s) = fw_view s"
  by (simp_all add: next_transaction_def receive_ack_payload_def rx_fifo_push_rfbuf_def Let_def)

lemma esb_frames:
  "fw_view (snd (esb_write_payload c p s)) = fw_view s"
  "fw_view (snd (esb_flush_tx c s)) = fw_view s"
  "fw_view (snd (esb_read_rx_payload c s)) = fw_view s"
  "fw_view (snd (esb_set_rf_channel ch s)) = fw_view s"
  "fw_view (snd (esb_set_retransmit_count n s)) = fw_view s"
  "fw_view (snd (esb_set_retransmit_delay d s)) = fw_view s"
  "fw_view (esb_timer_handler c s) = fw_view s"
  by (simp_all add: esb_write_payload_def esb_timer_handler_def on_radio_end_tx_noack_def tx_fifo_remove_last_def
    esb_flush_tx_def clear_ack_wraps_def esb_read_rx_payload_def esb_set_rf_channel_def
    esb_set_retransmit_count_def esb_set_retransmit_delay_def Let_def split: option.splits)

lemma irq_frames:
  assumes "ptx_inv c s"
  shows "fw_view (radio_irq_handler c rx rssi pipe crc s) = fw_view s"
  using assms by (simp add: radio_irq_handler_def on_radio_disabled_tx_def ptx_inv_def
      on_radio_disabled_tx_wait_for_ack_def tx_fifo_remove_last_def
      split: option.splits radio_handler.splits)

lemma fw_esb:
  assumes "fw_inv c X s"
  shows "fw_inv c X (snd (esb_write_payload c p s))" "fw_inv c X (snd (esb_flush_tx c s))"
    "fw_inv c X (snd (esb_read_rx_payload c s))" "fw_inv c X (snd (esb_set_rf_channel ch s))"
    "fw_inv c X (snd (esb_set_retransmit_count n s))" "fw_inv c X (snd (esb_set_retransmit_delay d s))"
proof -
  have r: "radio_inv c s" using fw_inv_core [OF assms] by (simp add: fw_core_def)
  show "fw_inv c X (snd (esb_write_payload c p s))" "fw_inv c X (snd (esb_flush_tx c s))"
    "fw_inv c X (snd (esb_read_rx_payload c s))" "fw_inv c X (snd (esb_set_rf_channel ch s))"
    by (rule fw_radio [OF assms]; simp add: radio_inv_api [OF r] esb_frames)+
  show "fw_inv c X (snd (esb_set_retransmit_count n s))" "fw_inv c X (snd (esb_set_retransmit_delay d s))"
    by (rule fw_radio [OF assms]; simp add: r radio_inv_same [OF same_radio_set(1)]
        radio_inv_same [OF same_radio_set(2)] esb_frames)+
qed

lemma fw_interrupts:
  assumes "fw_inv c X s" "esb_initialized s"
  shows "fw_inv c X (radio_irq_handler c rx rssi pipe crc s)" "fw_inv c X (esb_timer_handler c s)"
proof -
  have r: "radio_inv c s" using fw_inv_core [OF assms(1)] by (simp add: fw_core_def)
  with assms(2) have p: "ptx_inv c s" by (simp add: radio_inv_def radio_untouched_def)
  show "fw_inv c X (radio_irq_handler c rx rssi pipe crc s)" "fw_inv c X (esb_timer_handler c s)"
    by (rule fw_radio [OF assms(1)]; simp add: radio_inv_interrupts [OF r assms(2)] irq_frames [OF p] esb_frames)+
qed

section \<open>The transport\<close>

lemma fw_restore: "fw_inv c X s \<Longrightarrow> fw_inv c X (restore_retransmit_count c s)"
  by (simp add: restore_retransmit_count_def fw_esb Let_def)

lemma fw_flush: "fw_inv c X s \<Longrightarrow> fw_inv c X (esb_flush_tx_and_reset c s)"
  by (simp add: esb_flush_tx_and_reset_def fw_restore fw_esb Let_def)

lemma fw_enter_active:
  assumes "fw_inv c X s" "m_link_up s"
  shows "fw_inv c X (enter_active_state c b s)"
proof (cases "m_active s")
  case True
  then show ?thesis using assms(1) by (simp add: enter_active_state_def fw_schedule_keeps)
next
  case False
  have "fw_inv c (insert (Wake NegotiateWork) (insert (Wake IdleCheckWork) X)) (s\<lparr>m_active := True\<rparr>)"
    using assms by (simp add: fw_inv_iff core_defs pending_def)
  then show ?thesis
    using False by (simp add: enter_active_state_def Let_def insert_commute [of "Wake NegotiateWork"] fw_schedule)
qed

lemma fw_note_user: "fw_inv c X s \<Longrightarrow> fw_inv c X (channel_hop_ep_note_user_tx c s)"
  by (simp add: channel_hop_ep_note_user_tx_def fw_enter_active)

lemma fw_motion:
  "fw_inv c X (motion_ring_push c body b s) = fw_inv c X s"
  "fw_inv c X (snd (motion_refund_apply c body' s)) = fw_inv c X s"
  by (simp_all add: motion_ring_push_def motion_refund_apply_def Let_def)

lemma fw_pointer: "fw_inv c X s \<Longrightarrow> fw_inv c X (snd (pointer_prepare c k bs s))"
  by (simp add: pointer_prepare_def fw_motion fw_esb case_prod_beta Let_def)

interpretation send_fw: send_invariant c "fw_inv c X" "\<lambda>_. True"
proof
  fix s :: "'a ctl_scheme" and d bs k p b assume s: "fw_inv c X s"
  show "fw_inv c X (snd (jittered_retransmit_delay c s))" using s by (simp add: jittered_retransmit_delay_def Let_def)
  show "fw_inv c X (snd (esb_set_retransmit_delay d s))" using s by (rule fw_esb)
  show "fw_inv c X (s\<lparr>m_tx_quiet_until_ms := 0\<rparr>)" using s by simp
  show "fw_inv c X (esb_flush_tx_and_reset c s)" using s by (rule fw_flush)
  show "fw_inv c X (s\<lparr>m_recent_noack := er_push (NOACK_RING_SIZE c) b (m_recent_noack s)\<rparr>)" using s by simp
  show "fw_inv c X (note_activity s)" using s by (simp add: note_activity_def)
  show "fw_inv c X (hid_tx_account bs s)" using s by (simp add: hid_tx_account_def Let_def)
  show "fw_inv c X (channel_hop_ep_note_user_tx c s)" using s by (rule fw_note_user)
  show "fw_inv c X (critical_ring_push c bs s)" using s by (simp add: critical_ring_push_def fw_esb Let_def)
  show "fw_inv c X (snd (pointer_prepare c k bs s))" using s by (rule fw_pointer)
  show "fw_inv c X (snd (esb_write_payload c p s))" using s by (rule fw_esb)
qed

lemma fw_send: "fw_inv c X s \<Longrightarrow> fw_inv c X (snd (esb_transport_send c pipe bs s))"
  by (rule send_fw.keep_send [OF _ TrueI])

end
