(* ===== verification/Keeps.thy ===== *)
theory Keeps
  imports Duties
begin
text \<open>
  Every operation of the components keeps the invariant. A work function starts with its own
  item no longer pending and ends with its duty met again.
\<close>

section \<open>The hop manager\<close>

lemma fw_hop: "fw_inv c X s \<Longrightarrow> hop_inv c s"
  by (simp add: fw_inv_def fw_core_def)

lemma fw_connected:
  assumes "fw_inv c (insert ReportUp X) s" "m_state s = PAIRING_STATE_CONNECTED"
  shows "fw_inv c X (channel_hop_ep_on_connected c s)"
proof (cases "CHANNEL_HOP c")
  case True
  have "fw_inv c X (s\<lparr>m_link_up := True\<rparr>)"
    using assms by (simp add: fw_inv_iff core_defs pending_def)
  then show ?thesis using True by (simp add: channel_hop_ep_on_connected_def fw_enter_active)
next
  case False
  then show ?thesis
    using fw_inv_discharge [OF assms(1)] by (simp add: channel_hop_ep_on_connected_def)
qed

lemma radio_inv_hop [simp]:
  "radio_inv c (s\<lparr>m_quarantine := x0\<rparr>) = radio_inv c s"
  "radio_inv c (s\<lparr>m_committed_next := x1\<rparr>) = radio_inv c s"
  "radio_inv c (s\<lparr>m_link_up := x2\<rparr>) = radio_inv c s"
  "radio_inv c (s\<lparr>m_committed_synced := x3\<rparr>) = radio_inv c s"
  "radio_inv c (s\<lparr>m_prev_channel := x4\<rparr>) = radio_inv c s"
  "radio_inv c (s\<lparr>m_active := x5\<rparr>) = radio_inv c s"
  "radio_inv c (s\<lparr>m_post_hop_burst_remaining := x6\<rparr>) = radio_inv c s"
  "radio_inv c (s\<lparr>m_pending_candidate := x7\<rparr>) = radio_inv c s"
  "radio_inv c (s\<lparr>m_request_burst_remaining := x8\<rparr>) = radio_inv c s"
  "radio_inv c (s\<lparr>m_hop_cooldown_until := x9\<rparr>) = radio_inv c s"
  "radio_inv c (s\<lparr>m_last_link_event_ms := x10\<rparr>) = radio_inv c s"
  "radio_inv c (s\<lparr>m_rendezvous_fallback_pending := x11\<rparr>) = radio_inv c s"
  "radio_inv c (s\<lparr>m_coop_hop_state := x12\<rparr>) = radio_inv c s"
  "radio_inv c (s\<lparr>m_coop_hop_target := x13\<rparr>) = radio_inv c s"
  "radio_inv c (s\<lparr>m_coop_hop_seq := x14\<rparr>) = radio_inv c s"
  "radio_inv c (s\<lparr>m_last_tx_was_offer := x15\<rparr>) = radio_inv c s"
  "radio_inv c (s\<lparr>m_coop_hop_cooldown_until := x16\<rparr>) = radio_inv c s"
  "radio_inv c (k_work_reschedule w ms t) = radio_inv c t"
  "radio_inv c (k_work_submit w t) = radio_inv c t"
  "radio_inv c (k_work_cancel w t) = radio_inv c t"
  by (rule radio_inv_same; (rule same_radio_intros)?; simp add: same_radio_def)+

lemma disconnected_fields:
  assumes "CHANNEL_HOP c" "t = channel_hop_ep_on_disconnected c s"
  shows "m_addr t = m_addr s" "\<not> m_link_up t" "\<not> m_active t"
    "m_post_hop_burst_remaining t = 0" "\<not> (COOP_HOP c \<and> m_coop_hop_state t = COOP_ARMED)"
    "m_state t = m_state s" "kb_pending t = kb_pending s" "cons_pending t = cons_pending s"
    "ip_devs t = ip_devs s" "m_shell_active t = m_shell_active s" "stdout_buf t = stdout_buf s"
    "m_bench_state t = m_bench_state s" "esb_initialized t = esb_initialized s"
    "w \<notin> {NegotiateWork, IdleCheckWork, PostHopBurstWork, HopRetryWork, CoopHopOfferWork, CoopHopCommitWork}
       \<Longrightarrow> pending w t = pending w s"
  unfolding assms(2)
  by (cases "RENDEZVOUS c"; cases "COOP_HOP c"; simp add: channel_hop_ep_on_disconnected_def assms(1)
      coop_hop_abort_def k_work_cancel_def pending_def Let_def)+

lemma fw_disconnected:
  assumes "fw_inv c (insert ReportDown X) s" "m_state s \<noteq> PAIRING_STATE_CONNECTED"
  shows "fw_inv c X (channel_hop_ep_on_disconnected c s)"
proof (cases "CHANNEL_HOP c")
  case True
  note f = disconnected_fields [OF True refl]
  have "radio_inv c (channel_hop_ep_on_disconnected c s) = radio_inv c s"
    by (simp add: channel_hop_ep_on_disconnected_def coop_hop_abort_def Let_def)
  then have "fw_core c (channel_hop_ep_on_disconnected c s)"
    using fw_inv_core [OF assms(1)] hop_inv_disconnected [of c s]
    by (simp add: fw_core_def addr_ok_def f(1))
  then show ?thesis using assms by (simp add: fw_inv_iff f(2-))
next
  case False
  then show ?thesis
    using fw_inv_discharge [OF assms(1)] by (simp add: channel_hop_ep_on_disconnected_def)
qed

lemma fw_tx_fail_trigger: "fw_inv c X s \<Longrightarrow> fw_inv c X (tx_fail_trigger c s)"
  by (simp add: tx_fail_trigger_def rendezvous_fallback_def fw_schedule_keeps Let_def)

lemma fw_tx_fail_isr: "fw_inv c X s \<Longrightarrow> fw_inv c X (channel_hop_ep_on_tx_fail_isr c s)"
  by (simp add: channel_hop_ep_on_tx_fail_isr_def fw_tx_fail_trigger fw_intros Let_def)

lemma fw_tx_success_isr:
  assumes "fw_inv c X s"
  shows "fw_inv c X (channel_hop_ep_on_tx_success_isr c s)"
proof -
  have "m_active s" if "COOP_HOP c" "m_coop_hop_state s = COOP_OFFERED"
    using fw_hop [OF assms] that by (simp add: hop_inv_def)
  then show ?thesis
    using assms by (simp add: channel_hop_ep_on_tx_success_isr_def fw_schedule fw_intros Let_def)
qed

lemma fw_link_degraded: "fw_inv c X s \<Longrightarrow> fw_inv c X (channel_hop_ep_on_link_degraded_isr c s)"
  by (simp add: channel_hop_ep_on_link_degraded_isr_def fw_schedule_keeps fw_intros)

lemma fw_hop_rx: "fw_inv c X s \<Longrightarrow> fw_inv c X (channel_hop_ep_on_rx c bs s)"
  by (simp add: channel_hop_ep_on_rx_def on_hop_accept_def on_hop_confirm_def channel_ok_def fw_schedule_keeps
      fw_intros Let_def)

lemma fw_hop_request: "fw_inv c X s \<Longrightarrow> fw_inv c X (channel_hop_ep_on_request c s)"
  by (simp add: channel_hop_ep_on_request_def fw_tx_fail_isr fw_schedule_keeps Let_def)

lemma fw_pick:
  assumes "fw_inv c X s"
  shows "fw_inv c X (snd (pick_candidate c s))" "channel_ok (fst (pick_candidate c s))"
proof -
  obtain ch t where p: "pick_candidate c s = (ch, t)" by fastforce
  then obtain x where "t = s\<lparr>m_prng_state := x\<rparr>" by (rule pick_candidate_state)
  with assms p show "fw_inv c X (snd (pick_candidate c s))" by simp
  show "channel_ok (fst (pick_candidate c s))"
    using pick_candidate_ok(1) [OF p] p by (auto simp: channel_ok_def)
qed

lemma fw_proposal: "fw_inv c X s \<Longrightarrow> fw_inv c X (send_proposal c ch s)"
  by (simp add: send_proposal_def fw_send)

lemma fw_negotiate:
  assumes "fw_inv c (insert (Wake NegotiateWork) X) s"
  shows "fw_inv c X (negotiate_work_fn c s)"
proof -
  have "fw_inv c (insert (Wake NegotiateWork) X) (negotiate_send c s)"
    using assms fw_pick [of c _ "s\<lparr>m_committed_synced := False\<rparr>"]
    by (simp add: negotiate_send_def fw_proposal case_prod_beta)
  moreover have "fw_inv c X s" if "\<not> m_link_up s"
    using fw_inv_discharge [OF assms] fw_hop [OF assms] that by (auto simp: met_Wake hop_inv_def)
  ultimately show ?thesis
    using assms by (simp add: negotiate_work_fn_def fw_schedule Let_def)
qed

lemma fw_addr:
  assumes "fw_inv c X s" "ad_configured (m_addr s)"
  shows "channel_ok (esb_transport_get_channel s)"
  using assms by (simp add: fw_inv_def fw_core_def addr_ok_def esb_transport_get_channel_def channel_ok_def)

lemma fw_wf_quarantine: "fw_inv c X s \<Longrightarrow> wf_quarantine (m_quarantine s)"
  by (simp add: fw_inv_def fw_core_def hop_inv_def)

text \<open>Going idle. What runs during the sleep keeps the invariant too.\<close>

lemma fw_send_idle:
  assumes "\<And>u. fw_inv c X u \<Longrightarrow> fw_inv c X (sleep u)" "fw_inv c X s" "send_idle_packet c sleep s = Some t"
  shows "fw_inv c X t"
proof -
  obtain u where u: "esb_transport_flush_tx c sleep s = Some u"
    "t = snd (esb_transport_send c ESB_PIPE_DATA (encode PktIdle) u)"
    using assms(3) by (auto simp: send_idle_packet_def)
  have "fw_inv c X u"
    by (rule flush_tx_keeps [where I = "fw_inv c X", OF assms(1) fw_flush assms(2) u(1)])
  then show ?thesis by (simp add: u(2) fw_send)
qed

lemma fw_inactive:
  assumes "fw_inv c (insert (Wake IdleCheckWork) X) s"
    and "t = (let s = s\<lparr>m_active := False\<rparr>; s = k_work_cancel NegotiateWork s;
                  s = k_work_cancel IdleCheckWork s
              in if COOP_HOP c then coop_hop_abort s else s)"
  shows "fw_inv c X t"
  using assms(1) unfolding assms(2)
  by (cases "COOP_HOP c") (simp_all add: fw_inv_iff core_defs pending_def coop_hop_abort_def k_work_cancel_def Let_def)

lemma fw_idle_check:
  assumes "\<And>u. fw_inv c X u \<Longrightarrow> fw_inv c X (sleep u)" "fw_inv c (insert (Wake IdleCheckWork) X) s"
    and "idle_check_work_fn c sleep s = Some t"
  shows "fw_inv c X t"
proof (cases "m_active s")
  case False
  then show ?thesis
    using fw_inv_discharge [OF assms(2)] assms(3)
    by (auto simp: idle_check_work_fn_def enter_idle_state_def met_Wake split: if_splits)
next
  case True
  then have "m_link_up s" using fw_hop [OF assms(2)] by (simp add: hop_inv_def)
  with True assms(3) have "send_idle_packet c sleep
      (let s = s\<lparr>m_active := False\<rparr>; s = k_work_cancel NegotiateWork s; s = k_work_cancel IdleCheckWork s
       in if COOP_HOP c then coop_hop_abort s else s) = Some t"
    by (simp add: idle_check_work_fn_def enter_idle_state_def Let_def)
  from fw_send_idle [OF assms(1) fw_inactive [OF assms(2) refl] this] show ?thesis .
qed

lemma fw_burst_candidate:
  assumes "fw_inv c X s"
  shows "fw_inv c X (snd (burst_candidate c s))"
proof -
  obtain ch t where p: "pick_candidate c s = (ch, t)" by fastforce
  then have "fw_inv c X (t\<lparr>m_pending_candidate := ch\<rparr>)"
    using fw_pick [OF assms] by (simp add: fw_intros)
  with p assms show ?thesis by (simp add: burst_candidate_def select_pending_candidate_def)
qed

lemma fw_send_blocking:
  assumes "\<And>u. fw_inv c X u \<Longrightarrow> fw_inv c X (wait u)" "fw_inv c X s"
  shows "fw_inv c X (snd (esb_transport_send_blocking c wait ch pipe bs s))"
proof -
  have w: "fw_inv c X (snd (k_sem_take_done wait u))" if "fw_inv c X u" for u
    using assms(1) [OF that] by (simp add: k_sem_take_done_def Let_def)
  let ?p = "\<lparr>pl_pipe = pipe, pl_noack = False, pl_pid = 0, pl_rssi = 0, pl_data = bs\<rparr>"
  obtain e u where e: "esb_set_rf_channel (ucast ch) (esb_flush_tx_and_reset c s) = (e, u)" by fastforce
  have u: "fw_inv c X u" using fw_esb(4) [OF fw_flush [OF assms(2)], of "ucast ch"] e by simp
  let ?u = "u\<lparr>m_sync_tx_done := 0, m_sync_tx_result_success := False, m_sync_tx_in_progress := True\<rparr>"
  obtain r v where r: "esb_write_payload c ?p ?u = (r, v)" by fastforce
  have v: "fw_inv c X v" using fw_esb(1) [of c X ?u ?p] u r by simp
  obtain taken x where x: "k_sem_take_done wait v = (taken, x)" by fastforce
  have "fw_inv c X x" using w [OF v] x by simp
  with assms(2) e u r v x show ?thesis
    by (auto simp: esb_transport_send_blocking_def fw_esb Let_def split: option.split)
qed

lemma fw_burst:
  assumes "\<And>Y u. X \<subseteq> Y \<Longrightarrow> fw_inv c Y u \<Longrightarrow> fw_inv c Y (sleep u)"
    and "\<And>Y u. X \<subseteq> Y \<Longrightarrow> fw_inv c Y u \<Longrightarrow> fw_inv c Y (wait u)"
    and "fw_inv c (insert (Wake PostHopBurstWork) X) s" "post_hop_burst_work_fn c sleep wait s = Some t"
  shows "fw_inv c X t"
proof (cases "m_post_hop_burst_remaining s = 0")
  case True
  then show ?thesis
    using fw_inv_discharge [OF assms(3)] assms(4) by (simp add: post_hop_burst_work_fn_def met_Wake)
next
  case False
  obtain ch u where u: "burst_candidate c s = (ch, u)" by fastforce
  have "fw_inv c (insert (Wake PostHopBurstWork) X) u" using fw_burst_candidate [OF assms(3)] u by simp
  then have b: "fw_inv c (insert (Wake PostHopBurstWork) X) (burst_send c wait ch u)"
    by (auto simp: burst_send_def fw_proposal Let_def intro!: fw_send_blocking assms(2))
  define v where "v = burst_send c wait ch u"
  let ?v = "v\<lparr>m_post_hop_burst_remaining := m_post_hop_burst_remaining v - 1\<rparr>"
  have v: "fw_inv c (insert (Wake PostHopBurstWork) X) ?v"
    using fw_burst_updates(2) [OF b] by (simp add: v_def)
  show ?thesis
  proof (cases "m_post_hop_burst_remaining v - 1 = 0")
    case False2: False
    with False assms(4) u have "t = k_work_reschedule PostHopBurstWork (POST_BURST_INTERVAL_MS c) ?v"
      by (simp add: post_hop_burst_work_fn_def v_def word_gt_0 Let_def)
    then show ?thesis using v by (simp add: fw_schedule)
  next
    case True
    have "fw_inv c X ?v" by (rule fw_inv_discharge [OF v]) (simp add: met_Wake True)
    then have w: "fw_inv c X (?v\<lparr>m_pending_candidate := CHANNEL_HOP_INVALID\<rparr>)" (is "fw_inv c X ?w")
      by (simp add: fw_intros)
    have "t = ?w \<or> send_idle_packet c sleep ?w = Some t"
      using False True assms(4) u by (auto simp: post_hop_burst_work_fn_def v_def Let_def split: if_splits)
    then show ?thesis using w fw_send_idle [OF assms(1) w] by auto
  qed
qed

text \<open>Hopping.\<close>

lemma fw_set_channel:
  assumes "fw_inv c X s"
  shows "fw_inv c X (snd (esb_transport_set_channel c ch s))"
proof (cases "ad_configured (m_addr s)")
  case True
  obtain e t where e: "esb_set_rf_channel (ucast ch) (esb_flush_tx_and_reset c s) = (e, t)" by fastforce
  have t: "fw_inv c X t" using fw_esb(4) [OF fw_flush [OF assms], of "ucast ch"] e by simp
  show ?thesis
  proof (cases e)
    case None
    have "unat ch \<le> 100" using set_rf_outcome(1) [of ch "esb_flush_tx_and_reset c s"] e None
      by (auto split: if_splits)
    then have "addr_ok (t\<lparr>m_addr := (m_addr t)\<lparr>ad_channel := ch\<rparr>\<rparr>)"
      using t by (auto simp: fw_inv_def fw_core_def addr_ok_def CHANNEL_HOP_CHANNEL_COUNT_def)
    then have "fw_core c (t\<lparr>m_addr := (m_addr t)\<lparr>ad_channel := ch\<rparr>\<rparr>)"
      using t by (simp add: fw_inv_def core_defs)
    then have "fw_inv c X (t\<lparr>m_addr := (m_addr t)\<lparr>ad_channel := ch\<rparr>\<rparr>)"
      by (rule fw_frame [OF t]) (simp add: duty_view_def)
    then show ?thesis
      using e None True by (simp add: esb_transport_set_channel_def reset_link_history_def Let_def)
  qed (use e t True in \<open>simp add: esb_transport_set_channel_def\<close>)
qed (use assms in \<open>simp add: esb_transport_set_channel_def\<close>)

lemma fw_hop_committed: "fw_inv c X s \<Longrightarrow> fw_inv c X (hop_committed c s)"
  by (simp add: hop_committed_def start_post_hop_burst_def fw_schedule fw_schedule_keeps fw_intros Let_def)

lemma fw_commit: "fw_inv c X s \<Longrightarrow> fw_inv c X (commit_hop_bookkeeping c prev ms s)"
  by (simp add: commit_hop_bookkeeping_def fw_hop_committed fw_intros fw_wf_quarantine)

lemma fw_clear_quarantine: "fw_inv c X s \<Longrightarrow> fw_inv c X (clear_quarantine ch s)"
  using fw_wf_quarantine [of c X s] by (simp add: clear_quarantine_def fw_intros wf_quarantine_def)

lemma fw_hop_work:
  assumes "fw_inv c X s"
  shows "fw_inv c X (hop_work_fn c s)"
proof -
  obtain d u where g: "hop_goal c s = (d, u)" by fastforce
  then obtain x where x: "u = (hop_clear c s)\<lparr>m_prng_state := x\<rparr>" by (rule hop_goal_state)
  have u: "fw_inv c X u" using assms by (simp add: x hop_clear_def)
  have a: "m_addr u = m_addr s" by (simp add: x hop_clear_def)
  show ?thesis
  proof (cases d)
    case (HopTo target)
    obtain e t where e: "esb_transport_set_channel c target u = (e, t)" by fastforce
    have t: "fw_inv c X t" using fw_set_channel [OF u, of target] e by simp
    show ?thesis
    proof (cases e)
      case None
      have "channel_ok (esb_transport_get_channel s)"
        using set_channel_done(6) [of c target u t] fw_addr [OF assms] e None a by simp
      then show ?thesis
        using e None HopTo t by (simp add: hop_work_eq g hop_apply_def fw_hop_committed fw_commit
            fw_clear_quarantine fw_intros)
    qed (use e HopTo t in \<open>simp add: hop_work_eq g hop_apply_def fw_schedule_keeps
        esb_transport_reset_consecutive_fail_def\<close>)
  qed (use u in \<open>simp_all add: hop_work_eq g hop_apply_def esb_transport_reset_consecutive_fail_def\<close>)
qed

lemma fw_coop_offer:
  assumes "fw_inv c X s"
  shows "fw_inv c X (coop_hop_offer_work_fn c s)"
proof -
  obtain ch t where p: "coop_hop_pick_target c s = (ch, t)" by fastforce
  have t: "fw_inv c X t" "channel_ok ch"
    using fw_pick [OF assms] fw_hop [OF assms] assms p
    by (auto simp: coop_hop_pick_target_def hop_inv_def split: if_splits)
  let ?o = "t\<lparr>m_coop_hop_target := ch, m_coop_hop_seq := m_coop_hop_seq t + 1, m_last_tx_was_offer := True\<rparr>"
  let ?p = "encode (PktHopOffer ch (of_nat (COOP_HOP_HOP_IN_MS c)) (m_coop_hop_seq t + 1))"
  obtain e u where e: "esb_transport_send c ESB_PIPE_DATA ?p ?o = (e, u)" by fastforce
  have "fw_inv c X ?o" using t by (simp add: fw_intros)
  from fw_send [OF this, of ESB_PIPE_DATA ?p] e have "fw_inv c X u" by simp
  then show ?thesis
    using assms t p e by (simp add: coop_hop_offer_work_fn_def coop_send_offer_def fw_intros Let_def split: option.split)
qed

lemma fw_coop_over:
  "fw_inv c (insert (Wake CoopHopCommitWork) X) s \<Longrightarrow> fw_inv c X (s\<lparr>m_coop_hop_state := COOP_IDLE\<rparr>)"
  by (rule fw_inv_discharge [OF fw_coop_updates(1)], assumption) (simp add: met_Wake)

lemma fw_coop_commit:
  assumes "fw_inv c (insert (Wake CoopHopCommitWork) X) s"
  shows "fw_inv c X (coop_hop_commit_work_fn c s)"
proof (cases "m_coop_hop_state s = COOP_ARMED")
  case False
  then show ?thesis
    using fw_inv_discharge [OF assms] by (simp add: coop_hop_commit_work_fn_def met_Wake)
next
  case True
  obtain e t where e: "esb_transport_set_channel c (m_coop_hop_target s) s = (e, t)" by fastforce
  have t: "fw_inv c (insert (Wake CoopHopCommitWork) X) t" using fw_set_channel [OF assms] e by (metis snd_conv)
  let ?b = "commit_hop_bookkeeping c (esb_transport_get_channel s) (msec (COOP_HOP_QUARANTINE_MS c))
              (t\<lparr>m_prev_channel := CHANNEL_HOP_INVALID\<rparr>)"
  have "fw_inv c (insert (Wake CoopHopCommitWork) X) ?b" using t by (simp add: fw_commit fw_intros)
  from fw_coop_over [of c X "?b\<lparr>m_coop_hop_cooldown_until := k_uptime_get_32 ?b + msec (COOP_HOP_COOLDOWN_MS c)\<rparr>"] this
  have "fw_inv c X (?b\<lparr>m_coop_hop_cooldown_until := k_uptime_get_32 ?b + msec (COOP_HOP_COOLDOWN_MS c),
      m_coop_hop_state := COOP_IDLE\<rparr>)" by simp
  then show ?thesis
    using True e fw_coop_over [OF t] fw_coop_over [OF assms]
    by (simp add: coop_hop_commit_work_fn_def fw_schedule_keeps Let_def split: option.split)
qed

section \<open>Radio events\<close>

lemma fw_bench_notify:
  "fw_inv c X s \<Longrightarrow> fw_inv c X (esb_bench_notify_tx_success s)"
  "fw_inv c X s \<Longrightarrow> fw_inv c X (esb_bench_notify_tx_fail s)"
  by (simp_all add: esb_bench_notify_tx_success_def esb_bench_notify_tx_fail_def fw_schedule_keeps)

lemma fw_shell_notify: "fw_inv c X s \<Longrightarrow> fw_inv c X (esb_shell_relay_notify_tx s)"
  by (simp add: esb_shell_relay_notify_tx_def fw_schedule_keeps)

lemma fw_motion_consume: "fw_inv c X s \<Longrightarrow> fw_inv c X (motion_ring_consume c b s)"
  by (simp add: motion_ring_consume_def fw_restore Let_def)

lemma fw_override: "fw_inv c X s \<Longrightarrow> fw_inv c X (consume_override c s)"
  by (simp add: consume_override_def consume_recent_override_def fw_restore)

lemma fw_link_quality:
  "fw_inv c X (link_quality_shift_window k b s) = fw_inv c X s"
  "fw_inv c X (link_quality_record k n b s) = fw_inv c X s"
  "fw_inv c X (snd (consume_recent_noack k s)) = fw_inv c X s"
  by (simp_all add: link_quality_record_def link_quality_shift_window_def consume_recent_noack_def Let_def)

lemma fw_coop_trigger: "fw_inv c X s \<Longrightarrow> fw_inv c X (coop_trigger c s)"
  by (simp add: coop_trigger_def fw_link_degraded)

lemma fw_success_link:
  assumes "fw_inv c X s"
  shows "fw_inv c X (tx_success_link c n s)"
proof -
  have "fw_inv c X (s\<lparr>m_first_fail_ms := 0, m_last_tx_success_ms := stamp (k_uptime_get_32 (s\<lparr>m_first_fail_ms := 0\<rparr>))\<rparr>)"
    using assms by simp
  from fw_tx_success_isr [OF this] show ?thesis
    by (simp add: tx_success_link_def case_prod_beta fw_link_quality fw_coop_trigger Let_def)
qed

lemma fw_on_success:
  assumes "fw_inv c X s"
  shows "fw_inv c X (on_tx_success c n s)"
proof -
  have i: "fw_inv c X (if A then f s else s)" if "fw_inv c X s" "\<And>s. fw_inv c X s \<Longrightarrow> fw_inv c X (f s)"
    for A and f :: "'a ctl_scheme \<Rightarrow> 'a ctl_scheme" and s
    using that by simp
  show ?thesis
    using assms unfolding on_tx_success_def Let_def
    by (auto intro!: fw_motion_consume fw_override i fw_bench_notify fw_shell_notify fw_success_link)
qed

lemma fw_fail_link: "fw_inv c X s \<Longrightarrow> fw_inv c X (tx_fail_link c s)"
  by (simp add: tx_fail_link_def fail_window_def weak_link_def fw_link_quality fw_tx_fail_isr Let_def)

lemma fw_on_failed: "fw_inv c X s \<Longrightarrow> fw_inv c X (on_tx_failed c s)"
  by (simp add: on_tx_failed_def tx_failed_books_def fw_flush fw_motion_consume fw_override fw_bench_notify
      fw_fail_link Let_def)

lemma fw_accept_rx: "fw_inv c X s \<Longrightarrow> fw_inv c X (accept_rx c p s)"
  by (simp add: accept_rx_def fw_schedule_keeps)

lemma fw_rx_loop: "fw_inv c X s \<Longrightarrow> fw_inv c X (rx_loop c s)"
proof (induction c s rule: rx_loop.induct)
  case (1 c s)
  obtain r t where r: "esb_read_rx_payload c s = (r, t)" by fastforce
  have t: "fw_inv c X t" using fw_esb(3) [OF 1(2)] r by simp
  show ?case
    using 1(1) [OF r [symmetric]] fw_accept_rx [OF t] t r by (cases r) (simp_all add: rx_loop.simps [of c s])
qed

lemma fw_event_cb: "fw_inv c X s \<Longrightarrow> fw_inv c X (zmk_esb_transport_evt_cb c ev s)"
  by (simp add: zmk_esb_transport_evt_cb_def fw_on_success fw_on_failed fw_rx_loop Let_def split: esb_evt_id.split)

lemma fw_event_irq: "fw_inv c X s \<Longrightarrow> fw_inv c X (endpoint_evt_irq c s)"
  by (simp add: endpoint_evt_irq_def esb_evt_irq_handler_def get_and_clear_irqs_def fw_event_cb Let_def)

section \<open>The shell relay\<close>

lemma fw_shell_off:
  "fw_inv c (insert (Wake ShellPollWork) (insert (Wake InactivityWork) X)) s \<Longrightarrow>
     fw_inv c X (s\<lparr>m_shell_active := False\<rparr>)"
  by (simp add: fw_inv_iff core_defs pending_def)

lemma fw_shell_on:
  "fw_inv c X s \<Longrightarrow>
     fw_inv c (insert (Wake ShellPollWork) (insert (Wake InactivityWork) X)) (s\<lparr>m_shell_active := True\<rparr>)"
  by (simp add: fw_inv_iff core_defs pending_def)

lemma fw_stdout_clear:
  "fw_inv c (insert (Wake StdoutFlushWork) X) s \<Longrightarrow> fw_inv c X (s\<lparr>stdout_buf := []\<rparr>)"
  by (simp add: fw_inv_iff core_defs pending_def)

lemma fw_stdout_reset: "fw_inv c X s \<Longrightarrow> fw_inv c X (stdout_buf_reset s)"
  unfolding stdout_buf_reset_def by (rule fw_stdout_clear) (rule fw_cancel)

lemma fw_out: "fw_inv c X s \<Longrightarrow> fw_inv c X (out_enqueue c' bs s)" "fw_inv c X s \<Longrightarrow> fw_inv c X (send_prompt c' s)"
  by (simp_all add: send_prompt_def out_enqueue_def fw_schedule_keeps Let_def)

lemma fw_out_drain_loop: "fw_inv c X s \<Longrightarrow> fw_inv c X (snd (out_drain_loop c claim rb s))"
proof (induction c claim rb s rule: out_drain_loop.induct)
  case (1 c claim rb s)
  let ?got = "min (claim (length rb)) (min (length rb) (ESB_PKT_DATA_MAX c))"
  obtain e t where e: "esb_transport_send c ESB_PIPE_DATA (shell_data_bytes c (take ?got rb)) s = (e, t)"
    by fastforce
  have t: "fw_inv c X t"
    using fw_send [OF 1(2), of ESB_PIPE_DATA "shell_data_bytes c (take ?got rb)"] e by simp
  show ?case
  proof (cases "?got = 0")
    case False
    show ?thesis
    proof (cases e)
      case None
      with 1(1) [OF refl False] 1(2) e t False show ?thesis by (simp add: out_drain_loop.simps [of c claim rb] Let_def)
    next
      case (Some er)
      with 1(2) e t False show ?thesis
        by (cases er) (simp_all add: out_drain_loop.simps [of c claim rb] Let_def)
    qed
  qed (use 1(2) in \<open>simp add: out_drain_loop.simps [of c claim rb] Let_def\<close>)
qed

lemma fw_out_drain: "fw_inv c X s \<Longrightarrow> fw_inv c X (out_drain_work_fn c claim s)"
  using fw_out_drain_loop [of c X s claim "out_rb s"] by (simp add: out_drain_work_fn_def case_prod_beta)

lemma fw_shell_exec:
  assumes "\<And>cmd u. fw_inv c X u \<Longrightarrow> fw_inv c X (snd (snd (exec cmd u)))" "fw_inv c X s"
  shows "fw_inv c X (shell_exec_work_fn c exec s)"
  using assms by (simp add: shell_exec_work_fn_def fw_out case_prod_beta Let_def)

lemma fw_shell_poll:
  assumes "fw_inv c (insert (Wake ShellPollWork) X) s"
  shows "fw_inv c X (shell_poll_work_fn c s)"
  using assms fw_inv_discharge [OF assms]
  by (simp add: shell_poll_work_fn_def fw_schedule fw_send met_Wake)

lemma fw_inactivity:
  assumes "fw_inv c (insert (Wake InactivityWork) X) s"
  shows "fw_inv c X (inactivity_work_fn c s)"
proof -
  have "fw_inv c X (s\<lparr>m_shell_active := False\<rparr>)"
    by (rule fw_shell_off, rule fw_inv_mono [OF assms]) blast
  then have "fw_inv c X (k_work_cancel ShellPollWork (s\<lparr>m_shell_active := False\<rparr>))"
    by (rule fw_cancel_unwanted) simp
  from fw_stdout_reset [OF this] show ?thesis by (simp add: inactivity_work_fn_def fw_send Let_def)
qed

lemma fw_bg_poll: "fw_inv c X s \<Longrightarrow> fw_inv c X (bg_poll_work_fn c s)"
  by (simp add: bg_poll_work_fn_def fw_schedule_keeps fw_send Let_def)

lemma fw_log: "fw_inv c X s \<Longrightarrow> fw_inv c X (esb_log_backend_process c line s)"
  by (simp add: esb_log_backend_process_def log_out_func_def fw_schedule_keeps fw_out Let_def)

lemma fw_stdout_flush:
  assumes "fw_inv c (insert (Wake StdoutFlushWork) X) s"
  shows "fw_inv c X (stdout_flush_work_fn c s)"
  using fw_stdout_clear [OF assms] by (simp add: stdout_flush_work_fn_def fw_schedule_keeps fw_out Let_def)

lemma fw_stdout_hook:
  assumes "fw_inv c X s"
  shows "fw_inv c X (esb_stdout_hook c ch s)"
proof -
  have "fw_inv c (insert (Wake StdoutFlushWork) X) (s\<lparr>stdout_buf := b\<rparr>)" for b
    using assms by (simp add: fw_inv_iff core_defs pending_def)
  then show ?thesis
    using assms fw_schedule_keeps(1) [OF assms] by (simp add: esb_stdout_hook_def fw_schedule Let_def)
qed

lemma fw_shell_connected:
  assumes "fw_inv c X s"
  shows "fw_inv c X (esb_shell_relay_on_connected c s)"
proof -
  have "fw_inv c X (s\<lparr>m_shell_active := False\<rparr>)"
    by (rule fw_shell_off, rule fw_inv_mono [OF assms]) blast
  then have "fw_inv c X (k_work_cancel ShellPollWork (s\<lparr>m_shell_active := False\<rparr>))"
    by (rule fw_cancel_unwanted) simp
  then have "fw_inv c X (k_work_cancel InactivityWork (k_work_cancel ShellPollWork (s\<lparr>m_shell_active := False\<rparr>)))"
    by (rule fw_cancel_unwanted) (simp add: k_work_cancel_def)
  from fw_stdout_reset [OF this] show ?thesis
    by (simp add: esb_shell_relay_on_connected_def fw_schedule_keeps Let_def)
qed

lemma fw_shell_disconnected:
  assumes "fw_inv c X s"
  shows "fw_inv c X (esb_shell_relay_on_disconnected c s)"
proof -
  define u where "u = (if SHELL_BG_POLL c then k_work_cancel BgPollWork s else s)"
  have u: "fw_inv c X u" using assms by (simp add: u_def fw_cancel_unwanted)
  have "fw_inv c X (u\<lparr>m_shell_active := False\<rparr>)"
    by (rule fw_shell_off, rule fw_inv_mono [OF u]) blast
  then have "fw_inv c X (k_work_cancel ShellPollWork (u\<lparr>m_shell_active := False\<rparr>))"
    by (rule fw_cancel_unwanted) simp
  then have "fw_inv c X (k_work_cancel InactivityWork (k_work_cancel ShellPollWork (u\<lparr>m_shell_active := False\<rparr>)))"
    by (rule fw_cancel_unwanted) (simp add: k_work_cancel_def)
  from fw_stdout_reset [OF this] u show ?thesis
    unfolding esb_shell_relay_on_disconnected_def u_def [symmetric] by (simp add: Let_def)
qed

lemma fw_shell_req:
  assumes "fw_inv c X s"
  shows "fw_inv c X (esb_shell_relay_on_req c s)"
proof (cases "m_shell_active s")
  case False
  let ?Y = "insert (Wake ShellPollWork) (insert (Wake InactivityWork) X)"
  define u where "u = (stdout_buf_reset (s\<lparr>m_shell_active := True, cmd_len := 0\<rparr>))\<lparr>out_rb := []\<rparr>"
  have "fw_inv c ?Y u" using fw_stdout_reset [of c ?Y "s\<lparr>m_shell_active := True, cmd_len := 0\<rparr>"] fw_shell_on [OF assms]
    by (simp add: u_def)
  then have "fw_inv c ?Y (if SHELL_BG_POLL c then k_work_cancel BgPollWork u else u)" (is "fw_inv c ?Y ?v")
    by (simp add: fw_cancel_unwanted)
  then have w: "fw_inv c (insert (Wake InactivityWork) X) (k_work_reschedule ShellPollWork ms ?v)" for ms
    by (rule fw_schedule)
  have "fw_inv c X (k_work_reschedule ShellPollWork ms ?v)" if "SHELL_INACTIVITY_S c = 0" for ms
    by (rule fw_inv_discharge [OF w]) (simp add: met_Wake that)
  with w False show ?thesis
    unfolding esb_shell_relay_on_req_def u_def [symmetric] Let_def by (simp add: fw_out fw_schedule)
qed (use assms in \<open>simp add: esb_shell_relay_on_req_def\<close>)

lemma fw_data_byte: "fw_inv c X (snd d) \<Longrightarrow> fw_inv c X (snd (on_data_byte k b d))"
  by (cases d) (simp add: on_data_byte_def fw_schedule_keeps fw_out)

lemma fw_shell_data: "fw_inv c X s \<Longrightarrow> fw_inv c X (esb_shell_relay_on_data c bs s)"
proof -
  assume s: "fw_inv c X s"
  have f: "fw_inv c X (snd (fold (on_data_byte c) bs d))" if "fw_inv c X (snd d)" for d
    using that by (induction bs arbitrary: d) (simp_all add: fw_data_byte)
  have "fw_inv c X (snd (fold (on_data_byte c) bs
      (False, if 0 < SHELL_INACTIVITY_S c then k_work_reschedule InactivityWork (1000 * SHELL_INACTIVITY_S c) s else s)))"
    by (rule f) (use s in \<open>simp add: fw_schedule_keeps\<close>)
  then show ?thesis
    using s fw_send [of c X "s\<lparr>last_nudge_ms := uptime s\<rparr>"]
    by (simp add: esb_shell_relay_on_data_def fw_schedule_keeps case_prod_beta Let_def)
qed

lemma fw_shell_request: "fw_inv c X s \<Longrightarrow> fw_inv c X (snd (esb_shell_relay_request c a s))"
  by (simp add: esb_shell_relay_request_def fw_send)

section \<open>The benchmark\<close>

lemma fw_bench_state:
  "fw_inv c X s \<Longrightarrow> fw_inv c (insert (Wake BenchCompleteWork) X) (s\<lparr>m_bench_state := BENCH_RUNNING\<rparr>)"
  "fw_inv c (insert (Wake BenchCompleteWork) X) s \<Longrightarrow>
     fw_inv c (insert (Wake BenchResultPollWork) (insert (Wake BenchResultTimeoutWork) X))
       (s\<lparr>m_bench_state := BENCH_STOPPING\<rparr>)"
  "fw_inv c (insert (Wake BenchCompleteWork) (insert (Wake BenchResultPollWork)
       (insert (Wake BenchResultTimeoutWork) X))) s \<Longrightarrow> fw_inv c X (s\<lparr>m_bench_state := BENCH_DONE\<rparr>)"
  "fw_inv c (insert (Wake BenchCompleteWork) (insert (Wake BenchResultPollWork)
       (insert (Wake BenchResultTimeoutWork) X))) s \<Longrightarrow> fw_inv c X (s\<lparr>m_bench_state := BENCH_IDLE\<rparr>)"
  by (simp_all add: fw_inv_iff core_defs pending_def)

lemma fw_bench_fill:
  assumes "bench_fill c s = Some t"
  shows "fw_inv c X s \<longrightarrow> fw_inv c X t"
proof (rule bench_fill.raw_induct [OF _ assms], intro impI)
  fix fill c t and s :: "'a ctl_scheme"
  assume IH: "\<And>c s t. fill c s = Some t \<Longrightarrow> fw_inv c X s \<longrightarrow> fw_inv c X t" and s: "fw_inv c X s"
    and e: "(case esb_write_payload c (bench_ping c (m_seq s)) (s\<lparr>m_seq := m_seq s + 1\<rparr>) of
        (None, s) \<Rightarrow> fill c s | (Some _, s) \<Rightarrow> Some s) = Some t"
  obtain r u where w: "esb_write_payload c (bench_ping c (m_seq s)) (s\<lparr>m_seq := m_seq s + 1\<rparr>) = (r, u)"
    by fastforce
  have "fw_inv c X u" using fw_esb(1) [of c X "s\<lparr>m_seq := m_seq s + 1\<rparr>" "bench_ping c (m_seq s)"] s w by simp
  with e w IH [of c u t] show "fw_inv c X t" by (cases r) simp_all
qed

lemma fw_bench_tx: "fw_inv c X s \<Longrightarrow> bench_tx_fn c s = Some t \<Longrightarrow> fw_inv c X t"
  using fw_bench_fill [of c s t X] by (auto simp: bench_tx_fn_def split: if_splits)

lemma fw_bench_complete:
  assumes "fw_inv c (insert (Wake BenchCompleteWork) X) s"
  shows "fw_inv c X (bench_complete_fn c s)"
proof -
  have "fw_inv c (insert (Wake BenchCompleteWork) X) (k_work_cancel BenchTxWork s)"
    using assms by (simp add: fw_cancel_unwanted)
  from fw_bench_state(2) [OF fw_send [OF this]] have
    "fw_inv c X (k_work_reschedule BenchResultTimeoutWork a (k_work_reschedule BenchResultPollWork b
       ((snd (esb_transport_send c ESB_PIPE_DATA (encode PktBenchStop) (k_work_cancel BenchTxWork s)))
          \<lparr>m_bench_state := BENCH_STOPPING\<rparr>)))" for a b
    by (intro fw_schedule)
  then show ?thesis
    using fw_inv_discharge [OF assms] by (simp add: bench_complete_fn_def met_Wake Let_def)
qed

lemma fw_bench_result_poll:
  assumes "fw_inv c (insert (Wake BenchResultPollWork) X) s"
  shows "fw_inv c X (bench_result_poll_fn c s)"
  using fw_inv_discharge [OF assms] fw_send [OF assms]
  by (simp add: bench_result_poll_fn_def fw_schedule met_Wake)

lemma fw_bench_done:
  assumes "fw_inv c (insert (Wake BenchResultTimeoutWork) (insert (Wake BenchResultPollWork) X)) s"
  shows "fw_inv c X (s\<lparr>m_result := r, m_bench_state := BENCH_DONE\<rparr>)"
  by (rule fw_bench_state(3), simp, rule fw_inv_mono [OF assms]) blast

lemma fw_bench_result_timeout:
  assumes "fw_inv c (insert (Wake BenchResultTimeoutWork) X) s"
  shows "fw_inv c X (bench_result_timeout_fn c s)"
proof -
  have "fw_inv c (insert (Wake BenchResultTimeoutWork) (insert (Wake BenchResultPollWork) X))
      (k_work_cancel BenchResultPollWork s)"
    using fw_cancel [OF assms] by (simp add: insert_commute)
  from fw_bench_done [OF this] show ?thesis
    using fw_inv_discharge [OF assms] by (simp add: bench_result_timeout_fn_def met_Wake Let_def)
qed

lemma fw_bench_rx:
  assumes "fw_inv c X s"
  shows "fw_inv c X (esb_bench_on_rx c bs s)"
  using assms fw_bench_done [OF fw_cancel [OF fw_cancel [OF assms]]] by (simp add: esb_bench_on_rx_def Let_def)

lemma fw_bench_start:
  assumes "fw_inv c X s"
  shows "fw_inv c X (esb_bench_start c s)"
  using fw_bench_state(1) [OF assms] by (simp add: esb_bench_start_def fw_schedule fw_schedule_keeps Let_def)

lemma fw_bench_reset:
  assumes "fw_inv c X s"
  shows "fw_inv c X (esb_bench_reset s)"
proof -
  let ?t = "k_work_cancel BenchTxWork s"
  have "fw_inv c X ?t" using assms by (simp add: fw_cancel_unwanted)
  from fw_bench_state(4) [OF fw_inv_mono [OF fw_cancel [OF fw_cancel [OF fw_cancel [OF this]]]], of BenchResultTimeoutWork
      BenchResultPollWork BenchCompleteWork]
  show ?thesis by (auto simp: esb_bench_reset_def insert_commute Let_def)
qed

end
