(* ===== verification/KeepsApp.thy ===== *)
theory KeepsApp
  imports Keeps
begin

text \<open>
  The second half of what \<open>Keeps\<close> shows: pairing, key and pointer events, the endpoint's control
  thread and commands keep the invariant.
\<close>

section \<open>Pairing\<close>

text \<open>The pairing state, with what each of its values owes.\<close>

lemma fw_state_connected:
  "fw_inv c (insert (Wake BeaconWork) (insert (Wake VerifyWork) X)) s \<Longrightarrow>
     fw_inv c (insert ReportUp X) (s\<lparr>m_state := PAIRING_STATE_CONNECTED\<rparr>)"
  by (simp add: fw_inv_iff core_defs pending_def)

lemma fw_state_down:
  "fw_inv c (insert (Wake VerifyWork) X) s \<Longrightarrow>
     fw_inv c (insert (Wake BeaconWork) (insert ReportDown X)) (s\<lparr>m_state := PAIRING_STATE_UNPAIRED\<rparr>)"
  "fw_inv c (insert (Wake BeaconWork) X) s \<Longrightarrow>
     fw_inv c (insert (Wake VerifyWork) (insert ReportDown X)) (s\<lparr>m_state := PAIRING_STATE_VERIFYING\<rparr>)"
  "fw_inv c (insert (Wake BeaconWork) (insert (Wake VerifyWork) X)) s \<Longrightarrow>
     fw_inv c (insert ReportDown X) (s\<lparr>m_state := PAIRING_STATE_IDLE\<rparr>)"
  by (simp_all add: fw_inv_iff core_defs pending_def)

text \<open>A change between unconnected states leaves the report of the disconnection as it was.\<close>

lemma fw_report_kept:
  assumes "fw_inv c (insert ReportDown X) t" "fw_inv c Y s" "ReportDown \<in> Y \<Longrightarrow> ReportDown \<in> X"
    and "m_state s \<noteq> PAIRING_STATE_CONNECTED \<or> ReportDown \<in> X" "m_link_up t = m_link_up s"
  shows "fw_inv c X t"
proof (cases "ReportDown \<in> X")
  case True
  then show ?thesis using assms(1) by (simp add: insert_absorb)
next
  case False
  then have "met c s ReportDown" using assms(2,3) by (auto simp only: fw_inv_def)
  then have "met c t ReportDown" using assms(4,5) False by auto
  with assms(1) show ?thesis by (rule fw_inv_discharge)
qed

lemma m_state_work [simp]:
  "m_state (k_work_reschedule w ms s) = m_state s" "m_state (k_work_cancel w s) = m_state s"
  by (simp_all add: k_work_reschedule_def k_work_cancel_def)

lemma fw_settings: "fw_inv c X (save_paired b s) = fw_inv c X s"
  by (simp add: save_paired_def)

lemma fw_notify_connected:
  assumes "fw_inv c (insert ReportUp X) s" "m_state s = PAIRING_STATE_CONNECTED"
  shows "fw_inv c X (notify_connected c s)"
proof -
  have "m_state (esb_shell_relay_on_connected c s) = m_state s"
    by (rule pair_view_fields(1)) simp
  then show ?thesis
    using assms fw_shell_connected [OF assms(1)] by (simp add: notify_connected_def fw_connected)
qed

lemma fw_notify_disconnected:
  assumes "fw_inv c (insert ReportDown X) s" "m_state s \<noteq> PAIRING_STATE_CONNECTED"
  shows "fw_inv c X (notify_disconnected c s)"
proof -
  have "m_state (esb_shell_relay_on_disconnected c s) = m_state s"
    by (rule pair_view_fields(1)) simp
  then show ?thesis
    using assms fw_shell_disconnected [OF assms(1)] by (simp add: notify_disconnected_def fw_disconnected)
qed

lemma fw_pairing_start:
  assumes "fw_inv c X s" "m_state s \<noteq> PAIRING_STATE_CONNECTED \<or> ReportDown \<in> X"
  shows "fw_inv c X (pairing_start c s)"
proof -
  have b: "fw_inv c (insert (Wake BeaconWork) X) s" "fw_inv c (insert (Wake VerifyWork) X) s"
    by (rule fw_inv_mono [OF assms(1)], blast)+
  have "fw_inv c (insert ReportDown X) (k_work_reschedule BeaconWork ms (s\<lparr>m_state := PAIRING_STATE_UNPAIRED\<rparr>))"
    "fw_inv c (insert ReportDown X) (k_work_reschedule VerifyWork ms (s\<lparr>m_state := PAIRING_STATE_VERIFYING\<rparr>))" for ms
    using fw_state_down(1) [OF b(2)] fw_state_down(2) [OF b(1)] by (simp_all add: fw_schedule)
  then have "fw_inv c (insert ReportDown X) (pairing_start c s)" by (simp add: pairing_start_def)
  then show ?thesis by (rule fw_report_kept [OF _ assms(1) _ assms(2)]) (simp_all add: pairing_start_def)
qed

lemma fw_pairing_stop:
  assumes "fw_inv c X s"
  shows "fw_inv c X (pairing_stop c s)"
proof -
  have "fw_inv c (insert ReportDown X) (s\<lparr>m_state := PAIRING_STATE_IDLE\<rparr>)"
    by (rule fw_state_down(3), rule fw_inv_mono [OF assms]) blast
  then have "fw_inv c (insert ReportDown X)
      (k_work_cancel VerifyWork (k_work_cancel BeaconWork (s\<lparr>m_state := PAIRING_STATE_IDLE\<rparr>)))"
    by (intro fw_cancel_unwanted) (simp_all add: k_work_cancel_def)
  then show ?thesis
    unfolding pairing_stop_def Let_def by (rule fw_notify_disconnected) (simp add: k_work_cancel_def)
qed

lemma fw_unpair:
  assumes "fw_inv c X s" "m_state s \<noteq> PAIRING_STATE_CONNECTED \<or> ReportDown \<in> X"
  shows "fw_inv c X (pairing_unpair c s)"
proof -
  define u where "u = save_paired False (s\<lparr>m_has_stored_peer := False, m_peer_device_id := zero_id\<rparr>)"
  have u: "fw_inv c (insert (Wake VerifyWork) X) (k_work_cancel VerifyWork u)"
    using assms(1) by (intro fw_cancel) (simp add: u_def fw_settings)
  have m: "m_state u = m_state s" "m_link_up u = m_link_up s" by (simp_all add: u_def save_paired_def)
  show ?thesis
  proof (cases "m_state s = PAIRING_STATE_IDLE")
    case True
    then show ?thesis
      using fw_inv_discharge [OF u] m unfolding pairing_unpair_def u_def [symmetric] Let_def
      by (simp add: met_Wake k_work_cancel_def)
  next
    case False
    have "fw_inv c (insert (Wake VerifyWork) (insert (Wake BeaconWork) X)) (k_work_cancel BeaconWork (k_work_cancel VerifyWork u))"
      using fw_cancel [OF u] by (simp add: insert_commute)
    from fw_schedule(1) [OF fw_state_down(1) [OF this, unfolded insert_absorb2 insert_commute [of ReportDown]]]
    have "fw_inv c (insert ReportDown X) (pairing_unpair c s)"
      using False m unfolding pairing_unpair_def u_def [symmetric] Let_def by (simp add: k_work_cancel_def insert_commute)
    then show ?thesis
      by (rule fw_report_kept [OF _ assms(1) _ assms(2)])
        (simp_all add: hop_view_fields(7) [OF unpair_keeps_hop])
  qed
qed

lemma fw_pair_req:
  assumes "fw_inv c X s"
  shows "fw_inv c X (on_pair_req c bs s)"
proof (cases "m_state s = PAIRING_STATE_UNPAIRED \<and> sizeof_id_pkt \<le> length bs")
  case True
  define u where "u = send_pair_resp c (k_work_cancel BeaconWork (s\<lparr>m_peer_device_id := pkt_device_id bs\<rparr>))"
  have "fw_inv c (insert (Wake BeaconWork) X) u"
    using assms by (simp add: u_def send_pair_resp_def fw_send fw_cancel)
  then have "fw_inv c (insert (Wake BeaconWork) (insert (Wake VerifyWork) X)) (u\<lparr>m_has_stored_peer := True\<rparr>)"
    by (simp) (erule fw_inv_mono, blast)
  from fw_state_connected [OF this] have "fw_inv c X (notify_connected c
      (save_paired True (u\<lparr>m_has_stored_peer := True, m_state := PAIRING_STATE_CONNECTED\<rparr>)))"
    by (intro fw_notify_connected) (simp_all add: fw_settings, simp add: save_paired_def)
  then show ?thesis using True by (simp add: on_pair_req_def u_def Let_def)
qed (use assms in \<open>auto simp: on_pair_req_def\<close>)

lemma fw_verify_resp:
  assumes "fw_inv c X s"
  shows "fw_inv c X (on_verify_resp c bs s)"
proof -
  have "fw_inv c (insert (Wake BeaconWork) (insert (Wake VerifyWork) X)) (k_work_cancel VerifyWork s)"
    by (rule fw_inv_mono [OF fw_cancel [OF assms]]) blast
  from fw_notify_connected [OF fw_state_connected [OF this]] show ?thesis
    using assms by (simp add: on_verify_resp_def)
qed

lemma fw_on_disconnect:
  assumes "fw_inv c X s"
  shows "fw_inv c X (on_disconnect c s)"
proof -
  have v: "fw_inv c (insert (Wake VerifyWork) X) s" by (rule fw_inv_mono [OF assms]) blast
  define u where "u = save_paired False (s\<lparr>m_state := PAIRING_STATE_UNPAIRED, m_has_stored_peer := False,
    m_peer_device_id := zero_id\<rparr>)"
  have m: "m_state u = PAIRING_STATE_UNPAIRED" by (simp add: u_def save_paired_def)
  have "fw_inv c (insert (Wake BeaconWork) (insert ReportDown X)) u"
    using fw_state_down(1) [OF v] by (simp add: u_def fw_settings)
  then have "fw_inv c (insert (Wake BeaconWork) (insert ReportDown X)) (k_work_cancel VerifyWork u)"
    by (rule fw_cancel_unwanted) (simp add: m)
  from fw_notify_disconnected [OF fw_schedule(1) [OF this]] show ?thesis
    unfolding on_disconnect_def u_def [symmetric] Let_def by (simp add: m k_work_cancel_def k_work_reschedule_def)
qed

lemma fw_resync:
  assumes "fw_inv c X s"
  shows "fw_inv c X (on_resync c s)"
proof -
  have v: "fw_inv c (insert (Wake BeaconWork) X) s" by (rule fw_inv_mono [OF assms]) blast
  from fw_notify_disconnected [OF fw_schedule(1) [OF fw_state_down(2) [OF v]]] show ?thesis
    using assms by (simp add: on_resync_def)
qed

lemma fw_pairing_rx:
  assumes "fw_inv c X s"
  shows "fw_inv c X (pairing_on_rx c buf len s)"
  using assms unfolding pairing_on_rx_def Let_def
  by (simp add: fw_pair_req fw_verify_resp fw_on_disconnect fw_resync fw_hop_rx fw_hop_request
      esb_transport_on_rx_link_stats_def fw_shell_req on_shell_data_def fw_shell_data Let_def)

lemma fw_beacon:
  assumes "fw_inv c (insert (Wake BeaconWork) X) s"
  shows "fw_inv c X (beacon_work_fn c s)"
  using assms fw_inv_discharge [OF assms]
  by (simp add: beacon_work_fn_def send_beacon_def fw_schedule fw_send met_Wake)

lemma fw_verify:
  assumes "fw_inv c (insert (Wake VerifyWork) X) s"
  shows "fw_inv c X (verify_work_fn c s)"
  using assms fw_inv_discharge [OF assms]
  by (simp add: verify_work_fn_def fw_schedule fw_send met_Wake)

lemma fw_rx_work: "fw_inv c X s \<Longrightarrow> fw_inv c X (rx_work_fn (on_transport_evt c) s)"
  by (simp add: rx_work_fn_def on_transport_evt_def note_activity_def fw_pairing_rx fw_bench_rx Let_def)

section \<open>Key and pointer events\<close>

lemma fw_send_bodies:
  "fw_inv c X s \<Longrightarrow> fw_inv c X (send_kb_body c z b s)" "fw_inv c X s \<Longrightarrow> fw_inv c X (send_cons_body c z b' s)"
  by (simp_all add: send_kb_body_def send_cons_body_def send_hid_pkt_def fw_send)

lemma fw_fold: "(\<And>x u. fw_inv c X u \<Longrightarrow> fw_inv c X (f x u)) \<Longrightarrow> fw_inv c X s \<Longrightarrow> fw_inv c X (fold f xs s)"
  by (induction xs arbitrary: s) simp_all

lemma fw_kb_pending:
  "fw_inv c X s \<Longrightarrow> fw_inv c (insert (Wake HidRetryWork) X) (s\<lparr>kb_pending := q\<rparr>)"
  "fw_inv c X s \<Longrightarrow> fw_inv c (insert (Wake HidRetryWork) X) (s\<lparr>cons_pending := q'\<rparr>)"
  "fw_inv c X s \<Longrightarrow> fw_inv c X (s\<lparr>kb_pending := []\<rparr>)"
  "fw_inv c X s \<Longrightarrow> fw_inv c X (s\<lparr>cons_pending := []\<rparr>)"
  by (simp_all add: fw_inv_iff core_defs pending_def)

lemma fw_drain_pending:
  "fw_inv c X s \<Longrightarrow> fw_inv c X (drain_pending_kb c z s)" "fw_inv c X s \<Longrightarrow> fw_inv c X (drain_pending_cons c z s)"
  by (simp_all add: drain_pending_kb_def drain_pending_cons_def fw_kb_pending fw_fold fw_send_bodies)


text \<open>What the reports wait in is not touched by a send.\<close>

definition pend_view where
  "pend_view s = (kb_pending s, cons_pending s, ip_devs s)"

lemma pend_frames:
  "pend_view (snd (jittered_retransmit_delay c s)) = pend_view s"
  "pend_view (snd (esb_set_retransmit_delay d s)) = pend_view s"
  "pend_view (snd (esb_set_retransmit_count k s)) = pend_view s"
  "pend_view (esb_flush_tx_and_reset c s) = pend_view s"
  "pend_view (note_activity s) = pend_view s"
  "pend_view (hid_tx_account bs s) = pend_view s"
  "pend_view (channel_hop_ep_note_user_tx c s) = pend_view s"
  "pend_view (critical_ring_push c bs s) = pend_view s"
  "pend_view (motion_ring_push c body b s) = pend_view s"
  "pend_view (snd (motion_refund_apply c body' s)) = pend_view s"
  "pend_view (snd (esb_write_payload c p s)) = pend_view s"
  by (simp_all add: pend_view_def jittered_retransmit_delay_def esb_set_retransmit_delay_def
      esb_set_retransmit_count_def esb_flush_tx_and_reset_def restore_retransmit_count_def
      esb_flush_tx_def clear_ack_wraps_def note_activity_def hid_tx_account_def critical_ring_push_def
      motion_ring_push_def motion_refund_apply_def esb_write_payload_def start_tx_transaction_def
      channel_hop_ep_note_user_tx_def enter_active_state_def k_work_reschedule_def Let_def
      split: option.splits)

lemma pend_pointer: "pend_view (snd (pointer_prepare c k bs s)) = pend_view s"
  by (simp add: pointer_prepare_def pend_frames case_prod_beta Let_def)

interpretation send_pend: send_invariant c "\<lambda>s. pend_view s = v" "\<lambda>_. True"
  by unfold_locales (simp_all add: pend_frames pend_pointer, simp_all add: pend_view_def)

lemma send_keeps_pending [simp]: "pend_view (snd (esb_transport_send c pipe bs s)) = pend_view s"
  by (rule send_pend.keep_send [OF refl TrueI])

lemma pend_view_fields:
  "pend_view s = pend_view t \<Longrightarrow> kb_pending s = kb_pending t"
  "pend_view s = pend_view t \<Longrightarrow> cons_pending s = cons_pending t"
  "pend_view s = pend_view t \<Longrightarrow> ip_devs s = ip_devs t"
  by (simp_all add: pend_view_def)

lemma fold_send_pending [simp]:
  "pend_view (fold (send_kb_body c z) bs s) = pend_view s"
  "pend_view (fold (send_cons_body c z) cs s) = pend_view s"
  by (induction bs arbitrary: s, simp_all add: send_kb_body_def send_hid_pkt_def)
    (induction cs arbitrary: s, simp_all add: send_cons_body_def send_hid_pkt_def)

lemma fw_hid_retry:
  assumes "fw_inv c (insert (Wake HidRetryWork) X) s"
  shows "fw_inv c X (hid_retry_work_fn c z s)"
proof -
  let ?t = "drain_pending_cons c z (drain_pending_kb c z s)"
  have "kb_pending ?t = [] \<and> cons_pending ?t = []"
    by (simp add: drain_pending_kb_def drain_pending_cons_def pend_view_fields [OF fold_send_pending(2)])
  then have "fw_inv c X ?t"
    by (intro fw_inv_discharge [OF fw_drain_pending(2) [OF fw_drain_pending(1) [OF assms]]]) (simp add: met_Wake)
  then show ?thesis using assms by (simp add: hid_retry_work_fn_def fw_schedule)
qed

lemma fw_send_keyboard:
  assumes "fw_inv c X s"
  shows "fw_inv c X (send_keyboard c z s)"
proof -
  let ?s = "s\<lparr>kb_body := (kb_body s)\<lparr>modifiers := explicit_mods s OR implicit_mods s\<rparr>\<rparr>"
  have "fw_inv c X ?s" using assms by simp
  then show ?thesis
    by (simp add: send_keyboard_def enqueue_pending_kb_def fw_schedule fw_kb_pending fw_drain_pending fw_send_bodies Let_def)
qed

lemma fw_send_consumer: "fw_inv c X s \<Longrightarrow> fw_inv c X (send_consumer c z s)"
  by (simp add: send_consumer_def enqueue_pending_cons_def fw_schedule fw_kb_pending fw_drain_pending fw_send_bodies Let_def)

lemma fw_key_pages:
  "fw_inv c X (on_key_page c' z ev s) = fw_inv c X s" "fw_inv c X (on_consumer_page z ev s) = fw_inv c X s"
  by (simp_all add: on_key_page_def on_consumer_page_def explicit_update_def implicit_update_def kb_keys_press_def
      kb_keys_release_def cons_keys_press_def cons_keys_release_def case_prod_beta Let_def)

lemma fw_falling_edge:
  assumes "fw_inv c X s"
  shows "fw_inv c X (falling_edge a s)"
proof -
  let ?t = "(k_work_cancel HidRetryWork s)\<lparr>kb_pending := [], cons_pending := []\<rparr>"
  have "fw_inv c (insert (Wake HidRetryWork) X) ?t"
    by (rule fw_kb_pending(4) [OF fw_kb_pending(3) [OF fw_cancel [OF assms]]])
  then have "fw_inv c X ?t" by (rule fw_inv_discharge) (simp add: met_Wake)
  then show ?thesis using assms by (simp add: falling_edge_def Let_def)
qed

lemma fw_key_event: "fw_inv c X s \<Longrightarrow> fw_inv c X (snd (hid_relay_cb c z a ev s))"
  by (simp add: hid_relay_cb_def fw_falling_edge fw_key_pages fw_send_keyboard fw_send_consumer Let_def
      split: option.split usage_page.split)

lemma fw_ip_devs:
  assumes "fw_inv c X s" "X \<subseteq> Y" "length ds = length (ip_devs s)"
    and "\<And>k. Wake (IpRetryWork k) \<notin> Y \<Longrightarrow> k < length ds \<Longrightarrow> pending_buttons (ds ! k) \<noteq> [] \<Longrightarrow>
           Wake (IpRetryWork k) \<notin> X \<and> pending_buttons (ip_devs s ! k) \<noteq> []"
  shows "fw_inv c Y (s\<lparr>ip_devs := ds\<rparr>)"
proof -
  have core: "fw_core c (s\<lparr>ip_devs := ds\<rparr>)" using fw_inv_core [OF assms(1)] by (simp add: core_defs)
  have "met c (s\<lparr>ip_devs := ds\<rparr>) d" if "d \<notin> Y" for d
  proof (cases "\<exists>k. d = Wake (IpRetryWork k)")
    case True
    then obtain k where k: "d = Wake (IpRetryWork k)" by blast
    have "met c s d" if "Wake (IpRetryWork k) \<notin> X" using assms(1) that k by (simp add: fw_inv_def)
    then show ?thesis
      using assms(3) assms(4) [of k] \<open>d \<notin> Y\<close> k by (auto simp: met_Wake pending_def)
  next
    case False
    have "met c s d" using assms(1,2) that by (auto simp: fw_inv_def)
    moreover have "met c (s\<lparr>ip_devs := ds\<rparr>) d = met c s d"
    proof (cases d)
      case (Wake w)
      then show ?thesis using False by (cases w) (simp_all add: met_Wake pending_def)
    qed simp_all
    ultimately show ?thesis by simp
  qed
  with core show ?thesis by (simp add: fw_inv_def)
qed

lemma fw_ip_any:
  "fw_inv c X s \<Longrightarrow> fw_inv c (insert (Wake (IpRetryWork n)) X) (upd_dev n f s)"
  unfolding upd_dev_def by (erule fw_ip_devs) (auto simp: nth_list_update split: if_splits)

lemma fw_ip_keep:
  "fw_inv c X s \<Longrightarrow> (\<And>d. pending_buttons (f d) = pending_buttons d) \<Longrightarrow> fw_inv c X (upd_dev n f s)"
  unfolding upd_dev_def
  by (cases "n < length (ip_devs s)", erule fw_ip_devs)
    (auto simp: nth_list_update list_update_beyond split: if_splits)

lemma fw_ip_clear:
  assumes "fw_inv c (insert (Wake (IpRetryWork n)) X) s" "\<And>d. pending_buttons (f d) = []"
  shows "fw_inv c X (upd_dev n f s)"
proof (rule fw_inv_discharge)
  show "fw_inv c (insert (Wake (IpRetryWork n)) X) (upd_dev n f s)"
    using fw_ip_any [OF assms(1), of n f] by simp
  show "met c (upd_dev n f s) (Wake (IpRetryWork n))"
    by (simp add: met_Wake upd_dev_def assms(2) cong: conj_cong)
qed

lemma fw_send_raw: "fw_inv c X s \<Longrightarrow> fw_inv c X (send_hid_report_raw c b dx dy sx sy s)"
  by (simp add: send_hid_report_raw_def fw_send)

lemma fw_drain_buttons:
  "fw_inv c (insert (Wake (IpRetryWork n)) X) s \<Longrightarrow> fw_inv c X (drain_pending_buttons c n s)"
  by (simp add: drain_pending_buttons_def fw_ip_clear fw_fold fw_send_raw)

lemma fw_motion_dev:
  "fw_inv c X s \<Longrightarrow> fw_inv c X (upd_dev n clear_accum s)"
  "fw_inv c X s \<Longrightarrow> fw_inv c X (upd_dev n (on_rel now e) s)"
  "fw_inv c X s \<Longrightarrow> fw_inv c X (upd_dev n (on_key e) s)"
  by (erule fw_ip_keep; simp add: clear_accum_def on_rel_def on_key_def Let_def)+

lemma fw_ip_retry:
  assumes "fw_inv c (insert (Wake (IpRetryWork n)) X) s"
  shows "fw_inv c X (ip_retry_work_fn c n s)"
  using fw_drain_buttons [OF assms] fw_schedule(1) [OF assms]
  by (simp add: ip_retry_work_fn_def send_accum_def fw_send_raw fw_motion_dev Let_def)

lemma fw_mouse:
  assumes "fw_inv c X s"
  shows "fw_inv c X (send_mouse_report c n b s)"
proof -
  have "fw_inv c (insert (Wake (IpRetryWork n)) X) s" by (rule fw_inv_mono [OF assms]) blast
  from fw_drain_buttons [OF this] fw_schedule(1) [OF fw_ip_any [OF assms]] assms show ?thesis
    by (simp add: send_mouse_report_def enqueue_pending_button_def send_accum_def fw_send_raw fw_motion_dev Let_def)
qed

lemma fw_pointer_event: "fw_inv c X s \<Longrightarrow> fw_inv c X (snd (esb_ip_handle_event c a n e s))"
  by (simp add: esb_ip_handle_event_def fw_mouse fw_motion_dev Let_def)

section \<open>The endpoint\<close>

text \<open>Setting the radio up or shutting it down: only the adaptive retry depends on it.\<close>

lemma fw_setup:
  assumes "fw_inv c X s" "radio_inv c t" "hop_view t = hop_view s" "m_addr t = m_addr s"
    and "duty_view (t\<lparr>esb_initialized := False\<rparr>) = duty_view (s\<lparr>esb_initialized := False\<rparr>)"
  shows "fw_inv c (insert (Wake AdaptiveRetryWork) X) t"
proof -
  have "fw_core c t"
    using assms(2,4) fw_inv_core [OF assms(1)] hop_inv_view [OF assms(3)] by (simp add: fw_core_def addr_ok_def)
  moreover have "sched t = sched s" "m_active t = m_active s" "m_link_up t = m_link_up s"
    "m_post_hop_burst_remaining t = m_post_hop_burst_remaining s" "m_coop_hop_state t = m_coop_hop_state s"
    "m_state t = m_state s" "kb_pending t = kb_pending s" "cons_pending t = cons_pending s" "ip_devs t = ip_devs s"
    "m_shell_active t = m_shell_active s" "stdout_buf t = stdout_buf s" "m_bench_state t = m_bench_state s"
    using assms(5) by (simp_all add: duty_view_def)
  ultimately show ?thesis using assms(1) by (simp add: fw_inv_iff pending_def)
qed

lemma setup_views:
  "duty_view ((esb_disable s)\<lparr>esb_initialized := False\<rparr>) = duty_view (s\<lparr>esb_initialized := False\<rparr>)"
  "hop_view (esb_disable s) = hop_view s" "m_addr (esb_disable s) = m_addr s"
  "\<not> esb_initialized (esb_disable s)"
  "duty_view ((snd (esb_init c hw cfg s))\<lparr>esb_initialized := False\<rparr>) = duty_view (s\<lparr>esb_initialized := False\<rparr>)"
  "hop_view (snd (esb_init c hw cfg s)) = hop_view s" "m_addr (snd (esb_init c hw cfg s)) = m_addr s"
  "fst (esb_init c hw cfg s) = hw" "hw \<noteq> None \<Longrightarrow> \<not> esb_initialized (snd (esb_init c hw cfg s))"
  by (simp_all add: duty_view_def hop_view_def esb_init_def esb_disable_def reset_fifos_def initialize_fifos_def
      clear_ack_wraps_def Let_def split: option.split)

lemma fw_addresses:
  "fw_inv c X s \<Longrightarrow> fw_inv c X (snd (esb_set_base_address_0 a s))"
  "fw_inv c X s \<Longrightarrow> fw_inv c X (snd (esb_set_base_address_1 a s))"
  "fw_inv c X s \<Longrightarrow> fw_inv c X (snd (esb_set_prefixes ps n s))"
  by (simp_all add: esb_set_base_address_0_def esb_set_base_address_1_def esb_set_prefixes_def)

lemma fw_init_configure:
  assumes "fw_inv c X s" "0 < ESB_TX_FIFO_SIZE c" "0 < ESB_RX_FIFO_SIZE c"
  shows "fw_inv c (insert (Wake AdaptiveRetryWork) X) (snd (esb_init_and_configure c hw s))"
    and "fst (esb_init_and_configure c hw s) \<noteq> None \<Longrightarrow>
       \<not> esb_initialized (snd (esb_init_and_configure c hw s))"
proof -
  let ?cfg = "\<lparr>cfg_mode = ESB_MODE_PTX, retransmit_delay = of_nat (RETRANSMIT_DELAY_US c),
     retransmit_count = of_nat (RETRANSMIT_COUNT c), tx_mode = ESB_TXMODE_AUTO,
     payload_length = of_nat (ESB_MAX_PAYLOAD_LEN c), selective_auto_ack = HID_NOACK c, use_fast_ramp_up = True\<rparr>"
  obtain e t where e: "esb_init c hw ?cfg s = (e, t)" by fastforce
  have "radio_inv c s" using fw_inv_core [OF assms(1)] by (simp add: fw_core_def)
  from radio_inv_init [OF this, of ?cfg hw] assms(2,3) e have "radio_inv c t" by simp
  moreover have "t = snd (esb_init c hw ?cfg s)" "e = fst (esb_init c hw ?cfg s)" using e by simp_all
  ultimately have t: "fw_inv c (insert (Wake AdaptiveRetryWork) X) t"
    "e = hw" "hw \<noteq> None \<Longrightarrow> \<not> esb_initialized t"
    by (auto intro!: fw_setup [OF assms(1)] simp: setup_views)
  from t(1) show "fw_inv c (insert (Wake AdaptiveRetryWork) X) (snd (esb_init_and_configure c hw s))"
    using e by (auto simp: esb_init_and_configure_def fw_addresses fw_esb Let_def split: option.split)
  show "\<not> esb_initialized (snd (esb_init_and_configure c hw s))"
    if "fst (esb_init_and_configure c hw s) \<noteq> None"
    using that e t(2,3)
    by (auto simp: esb_init_and_configure_def Let_def split: option.splits if_splits)
qed

lemma fw_slot_start:
  assumes "fw_inv c X s" "0 < ESB_TX_FIFO_SIZE c" "0 < ESB_RX_FIFO_SIZE c"
  shows "fw_inv c X (esb_transport_on_slot_start c hf hw s)"
proof -
  define u where "u = snd (hfxo_request hf (bt_ll_suspend s))"
  have u: "fw_inv c X u" using assms(1) by (simp add: u_def hfxo_request_def bt_ll_suspend_def)
  obtain e t where e: "esb_init_and_configure c hw u = (e, t)" by fastforce
  have t: "fw_inv c (insert (Wake AdaptiveRetryWork) X) t"
    using fw_init_configure(1) [OF u assms(2,3), of hw] e by simp
  show ?thesis
  proof (cases e)
    case None
    have "fw_inv c X (t\<lparr>radio_vector_esb := True, consecutive_tx_fail := 0\<rparr>)" if "\<not> (CHANNEL_HOP c \<and> ADAPTIVE_RETRY c)"
      using fw_inv_discharge [OF t] that by (auto simp: met_Wake)
    with t e None show ?thesis
      by (auto simp: esb_transport_on_slot_start_def u_def [symmetric] Let_def intro!: fw_schedule)
  next
    case (Some er)
    have "\<not> esb_initialized t" using fw_init_configure(2) [OF u assms(2,3), of hw] e Some by simp
    then have "fw_inv c X t" using fw_inv_discharge [OF t] by (simp add: met_Wake)
    with e Some show ?thesis
      by (simp add: esb_transport_on_slot_start_def u_def [symmetric] Let_def)
  qed
qed

lemma fw_slot_stop:
  assumes "fw_inv c X s"
  shows "fw_inv c X (esb_transport_on_slot_stop c s)"
proof -
  define u where "u = (if CHANNEL_HOP c \<and> ADAPTIVE_RETRY c
    then k_work_cancel AdaptiveRetryWork (s\<lparr>consecutive_tx_fail := 0\<rparr>) else s\<lparr>consecutive_tx_fail := 0\<rparr>)"
  let ?Y = "insert (Wake AdaptiveRetryWork) X"
  have "fw_inv c ?Y (s\<lparr>consecutive_tx_fail := 0\<rparr>)" using fw_inv_mono [OF assms] by auto
  from this fw_cancel [OF this, of AdaptiveRetryWork] have u: "fw_inv c ?Y u" by (simp add: u_def)
  have "radio_inv c u" using fw_inv_core [OF u] by (simp add: fw_core_def)
  then have "fw_inv c (insert (Wake AdaptiveRetryWork) ?Y) (esb_disable u)"
    by (intro fw_setup [OF u] radio_inv_disable setup_views)
  then have "fw_inv c ?Y (esb_disable u)" by simp
  then have "fw_inv c X (esb_disable u)"
    by (rule fw_inv_discharge) (simp add: met_Wake setup_views)
  then show ?thesis
    unfolding esb_transport_on_slot_stop_def Let_def u_def [symmetric] by (simp add: bt_ll_resume_def hfxo_release_def)
qed

lemma fw_configure:
  assumes "fw_inv c X s" "unat (dts_esb_channel d) < CHANNEL_HOP_CHANNEL_COUNT"
  shows "fw_inv c X (configure_esb_addresses d s)"
  by (rule fw_frame [OF assms(1)])
    (use fw_inv_core [OF assms(1)] assms(2) in \<open>simp_all add: configure_esb_addresses_def
       esb_transport_set_addresses_def core_defs duty_view_def\<close>)

lemma fw_deinit:
  assumes "fw_inv c X s"
  shows "fw_inv c X (esb_transport_deinit s)"
  by (rule fw_frame [OF assms])
    (use fw_inv_core [OF assms] in \<open>simp_all add: esb_transport_deinit_def core_defs duty_view_def\<close>)

lemma fw_shell_activate: "fw_inv c X (esb_shell_relay_on_activate b s) = fw_inv c X s"
  "fw_inv c X (esb_shell_relay_on_deactivate s) = fw_inv c X s"
  by (simp_all add: esb_shell_relay_on_activate_def esb_shell_relay_on_deactivate_def)

lemma fw_activate:
  assumes "fw_inv c X (quiesce s)" "0 < ESB_TX_FIFO_SIZE c" "0 < ESB_RX_FIFO_SIZE c"
    and "unat (dts_esb_channel d) < CHANNEL_HOP_CHANNEL_COUNT"
    and "m_state (quiesce s) \<noteq> PAIRING_STATE_CONNECTED \<or> ReportDown \<in> X"
  shows "fw_inv c X (ctrl_activate c d hf hw quiesce s)"
proof -
  have "m_state (configure_esb_addresses d (quiesce s)) = m_state (quiesce s)"
    by (simp add: configure_esb_addresses_def esb_transport_set_addresses_def)
  then have "fw_inv c X (esb_transport_on_slot_start c hf hw (pairing_start c (configure_esb_addresses d (quiesce s))))"
    using assms by (intro fw_slot_start fw_pairing_start fw_configure) simp_all
  then show ?thesis by (simp add: ctrl_activate_def fw_shell_activate Let_def)
qed

lemma fw_deactivate:
  assumes "fw_inv c X s"
  shows "fw_inv c X (ctrl_deactivate c s)"
proof -
  have "fw_inv c X ((if SHELL_RELAY c then esb_shell_relay_on_deactivate s else s)\<lparr>esb_active := False\<rparr>)"
    using assms by (simp add: fw_shell_activate)
  then show ?thesis
    unfolding ctrl_deactivate_def Let_def by (intro fw_deinit fw_pairing_stop fw_slot_stop)
qed

lemma fw_profile:
  "fw_inv c X (k_msgq_put c cmd s) = fw_inv c X s"
  "fw_inv c X (snd (profile_listener_cb c n ev s)) = fw_inv c X s"
  "fw_inv c X (boot_profile_check_fn c n k s) = fw_inv c X s"
  by (simp_all add: profile_listener_cb_def boot_profile_check_fn_def k_msgq_put_def Let_def split: option.split)

lemma fw_cmd_bench: "fw_inv c X s \<Longrightarrow> fw_inv c X (snd (snd (cmd_esb_bench c s)))"
  by (simp add: cmd_esb_bench_def fw_bench_start fw_bench_reset split: esb_bench_state.split)

lemma fw_adaptive:
  assumes "fw_inv c (insert (Wake AdaptiveRetryWork) X) s"
  shows "fw_inv c X (adaptive_retry_work_fn c s)"
proof -
  obtain e t where e: "esb_set_retransmit_count (ucast (adaptive_retry_target c s)) s = (e, t)" by fastforce
  have "fw_inv c (insert (Wake AdaptiveRetryWork) X) t" using fw_esb(5) [OF assms] e by (metis snd_conv)
  with e assms show ?thesis by (simp add: adaptive_retry_work_fn_def fw_schedule Let_def split: option.split)
qed

end
