(* ===== verification/Firmware.thy ===== *)
theory Firmware
  imports KeepsApp
begin

text \<open>
  The endpoint as a running system: the memory it boots with, its work items and their functions,
  the events that reach it and the control thread. A run is any interleaving of these; a work
  function or the control thread that sleeps lets an arbitrary run happen meanwhile. The theorems
  say what every reachable state satisfies.
\<close>

section \<open>Boot\<close>

text \<open>
  Zero-initialised memory and the static initialisers; \<open>devs\<close> is the number of input processor
  instances, \<open>stored\<close> the pairing record in the settings storage.
\<close>

definition boot_memory :: "kcfg \<Rightarrow> nat \<Rightarrow> u8 list option \<Rightarrow> u32 \<Rightarrow> u8 list \<Rightarrow> ctl" where
  "boot_memory c devs stored rng_addr prompt =
     \<lparr>uptime = 0, cycles = 0, sched = (\<lambda>_. None), m_prng_state = 0,
      esb_initialized = False,
      esb_cfg = \<lparr>cfg_mode = ESB_MODE_PTX, retransmit_delay = 0, retransmit_count = 0,
        tx_mode = ESB_TXMODE_AUTO, payload_length = 0, selective_auto_ack = False, use_fast_ramp_up = False\<rparr>,
      m_esb_state = ESB_STATE_IDLE,
      tx_fifo = \<lparr>rslots = replicate (ESB_TX_FIFO_SIZE c) empty_payload, rback = 0, rfront = 0, rcount = 0\<rparr>,
      rx_fifo = \<lparr>rslots = replicate (ESB_RX_FIFO_SIZE c) empty_payload, rback = 0, rfront = 0, rcount = 0\<rparr>,
      tx_payload_buffer = \<lparr>pdu_pid = 0, pdu_no_ack = False, pdu_data = []\<rparr>,
      on_radio_disabled = NoHandler, tx_noack_timer = False, esb_pids = replicate ESB_PIPE_COUNT 0,
      rx_pipe_info = replicate ESB_PIPE_COUNT \<lparr>pi_crc = 0, pi_pid = 0, pi_ack_payload = False\<rparr>,
      ack_in_use = replicate (ESB_TX_FIFO_SIZE c) False, ack_pl_wrap_pipe = replicate ESB_PIPE_COUNT [],
      int_tx_success = False, int_tx_failed = False, int_rx_received = False,
      retransmits_remaining = 0, last_tx_attempts = 0, base_addr_p0 = [], base_addr_p1 = [],
      pipe_prefixes = [], num_pipes = 0, rx_pipes_enabled = 0, rf_channel = 0, radio_txaddress = 0,
      radio_frequency = 0,
      m_quarantine = \<lparr>expires_at = replicate CHANNEL_HOP_CHANNEL_COUNT 0\<rparr>,
      m_committed_next = CHANNEL_HOP_INVALID, m_link_up = False, m_committed_synced = False,
      m_prev_channel = CHANNEL_HOP_INVALID, m_active = False, m_post_hop_burst_remaining = 0,
      m_pending_candidate = CHANNEL_HOP_INVALID, m_request_burst_remaining = 0, m_hop_cooldown_until = 0,
      m_last_link_event_ms = 0, m_rendezvous_fallback_pending = False, m_coop_hop_state = COOP_IDLE,
      m_coop_hop_target = 0, m_coop_hop_seq = 0, m_last_tx_was_offer = False, m_coop_hop_cooldown_until = 0,
      m_cb_set = False,
      m_addr = \<lparr>ad_base0 = [], ad_base1 = [], ad_prefixes = [], ad_channel = 0, ad_boot_channel = 0,
        ad_configured = False\<rparr>,
      m_sync_tx_done = 0, m_sync_tx_in_progress = False, m_sync_tx_result_success = False,
      t_rx_buf = replicate (ESB_MAX_PAYLOAD_LEN c) 0, t_rx_len = 0, tx_ok_count = 0, tx_fail_count = 0,
      tx_retried_count = 0, tx_exhausted_count = 0, consecutive_tx_fail = 0, m_hid_tx_count = 0,
      m_hid_tx_bucket_count = 0, m_hid_tx_bucket_ms = 0, m_hid_tx_rate_hz = 0,
      m_recent_critical_override = \<lparr>er_buf = replicate (CRIT_OVERRIDE_RING_SIZE c) False, er_head = 0, er_tail = 0\<rparr>,
      m_recent_motion = replicate (POINTER_MOTION_RING_SIZE c) (motion_record None False), m_recent_motion_head = 0,
      m_recent_motion_tail = 0, m_motion_refund = zero_refund, m_pointer_inflight_count = 0,
      m_adaptive_retransmit_count = of_nat (RETRANSMIT_COUNT c), m_first_fail_ms = 0, m_last_tx_success_ms = 0,
      m_tx_quiet_until_ms = 0, m_link_quality_window = 0, m_link_quality_count = 0, m_link_quality_ewma_x10 = 0,
      m_recent_noack = \<lparr>er_buf = replicate (NOACK_RING_SIZE c) False, er_head = 0, er_tail = 0\<rparr>,
      m_link_degraded_armed = False, m_last_activity_ms = 0, m_activity_seen = False, m_last_tx_event_ms = 0,
      m_jitter_rng = 0, m_jitter_rng_addr = rng_addr, m_peer_rssi_last = 0, m_peer_rssi_ewma = 0,
      m_peer_rssi_valid = False, ppi_chen = 0, saved_bt_ll_ppi_chen = 0, bt_ll_suspended = False,
      hfclk_held = False, m_ram_vtor_installed = False, radio_vector_esb = False,
      m_shell_active = False, cmd_buf = replicate (SHELL_CMD_BUF_SIZE c) 0, cmd_len = 0, out_rb = [],
      stdout_buf = [], m_at_line_start = True, in_log_emit = False, last_nudge_ms = 0,
      stdout_hook_installed = False, shell_prompt = prompt,
      m_bench_state = BENCH_IDLE, m_start_ms = 0, m_tx_ok = 0, m_tx_fail = 0, m_seq = 0, m_result = zero_result,
      m_state = PAIRING_STATE_IDLE, m_device_id = zero_id, m_peer_device_id = zero_id,
      m_has_stored_peer = False, settings_paired = stored,
      kb_body = \<lparr>modifiers = 0, kb_keys = []\<rparr>, cons_body = \<lparr>cons_keys = []\<rparr>,
      explicit_mod_refcount = replicate 8 0, implicit_mod_refcount = replicate 8 0, explicit_mods = 0,
      implicit_mods = 0, kb_pending = [], cons_pending = [], was_active = False,
      ip_devs = replicate devs zero_ip_data,
      esb_active = False, esb_ctrl_msgq = []\<rparr>"

section \<open>Work items and events\<close>

text \<open>What the repository does not define: devicetree, ZMK's reports and profiles, other shell commands.\<close>

datatype shell_cmd = EsbUnpair "u8 list" | EsbBench "u8 list" | OtherCmd bool "u8 list"

record env =
  env_dts :: esb_dts
  env_hid :: zmk_hid
  env_profiles :: nat
  env_cmd :: "u8 list \<Rightarrow> shell_cmd"

definition shell_execute :: "kcfg \<Rightarrow> env \<Rightarrow> u8 list \<Rightarrow> ctl \<Rightarrow> bool \<times> u8 list \<times> ctl" where
  "shell_execute c e cmd s =
     (case env_cmd e cmd of
        EsbUnpair out \<Rightarrow> (True, out, cmd_esb_unpair c s)
      | EsbBench out \<Rightarrow> (True, out, snd (snd (cmd_esb_bench c s)))
      | OtherCmd found out \<Rightarrow> (found, out, s))"

text \<open>
  The function of each work item. \<open>claim\<close> is the ring buffer's answer to a claim, \<open>index\<close> the active
  profile, \<open>sleep\<close> and \<open>wait\<close> what happens while the function sleeps or waits for a semaphore.
\<close>

fun fw_work :: "kcfg \<Rightarrow> env \<Rightarrow> (nat \<Rightarrow> nat) \<Rightarrow> nat \<Rightarrow> (ctl \<Rightarrow> ctl) \<Rightarrow> (ctl \<Rightarrow> ctl) \<Rightarrow> work \<Rightarrow> ctl \<Rightarrow> ctl option" where
  "fw_work c e claim index sleep wait NegotiateWork s = Some (negotiate_work_fn c s)"
| "fw_work c e claim index sleep wait IdleCheckWork s = idle_check_work_fn c sleep s"
| "fw_work c e claim index sleep wait PostHopBurstWork s = post_hop_burst_work_fn c sleep wait s"
| "fw_work c e claim index sleep wait HopRetryWork s = Some (hop_retry_work_fn s)"
| "fw_work c e claim index sleep wait HopWork s = Some (hop_work_fn c s)"
| "fw_work c e claim index sleep wait CoopHopOfferWork s = Some (coop_hop_offer_work_fn c s)"
| "fw_work c e claim index sleep wait CoopHopCommitWork s = Some (coop_hop_commit_work_fn c s)"
| "fw_work c e claim index sleep wait RxWork s = Some (rx_work_fn (on_transport_evt c) s)"
| "fw_work c e claim index sleep wait AdaptiveRetryWork s = Some (adaptive_retry_work_fn c s)"
| "fw_work c e claim index sleep wait BeaconWork s = Some (beacon_work_fn c s)"
| "fw_work c e claim index sleep wait VerifyWork s = Some (verify_work_fn c s)"
| "fw_work c e claim index sleep wait HidRetryWork s = Some (hid_retry_work_fn c (env_hid e) s)"
| "fw_work c e claim index sleep wait (IpRetryWork n) s = Some (ip_retry_work_fn c n s)"
| "fw_work c e claim index sleep wait ShellExecWork s = Some (shell_exec_work_fn c (shell_execute c e) s)"
| "fw_work c e claim index sleep wait ShellPollWork s = Some (shell_poll_work_fn c s)"
| "fw_work c e claim index sleep wait InactivityWork s = Some (inactivity_work_fn c s)"
| "fw_work c e claim index sleep wait OutDrainWork s = Some (out_drain_work_fn c claim s)"
| "fw_work c e claim index sleep wait StdoutFlushWork s = Some (stdout_flush_work_fn c s)"
| "fw_work c e claim index sleep wait BgPollWork s = Some (bg_poll_work_fn c s)"
| "fw_work c e claim index sleep wait BenchTxWork s = bench_tx_fn c s"
| "fw_work c e claim index sleep wait BenchCompleteWork s = Some (bench_complete_fn c s)"
| "fw_work c e claim index sleep wait BenchResultPollWork s = Some (bench_result_poll_fn c s)"
| "fw_work c e claim index sleep wait BenchResultTimeoutWork s = Some (bench_result_timeout_fn c s)"
| "fw_work c e claim index sleep wait BootProfileCheckWork s = Some (boot_profile_check_fn c (env_profiles e) index s)"

text \<open>An item runs once it is due, and is no longer pending while it runs.\<close>

definition work_due :: "work \<Rightarrow> 'a kern_scheme \<Rightarrow> bool" where
  "work_due w s = (case sched s w of None \<Rightarrow> False | Some t \<Rightarrow> t \<le> uptime s)"

datatype fw_event =
    TimePasses nat u32
  | RadioIrq "esb_pdu option" i8 nat u16
  | TimerIrq
  | EventIrq
  | KeyEvent "keycode_state_changed option"
  | PointerEvent nat input_event
  | LogLine "u8 list"
  | StdoutByte u8
  | ProfileChanged "nat option"
  | UnpairKey
  | ShellReqKey

text \<open>The ESB interrupts are enabled from \<open>esb_init\<close> to \<open>esb_disable\<close>.\<close>

fun fw_do :: "kcfg \<Rightarrow> env \<Rightarrow> fw_event \<Rightarrow> ctl \<Rightarrow> ctl" where
  "fw_do c e (TimePasses ms cyc) s = s\<lparr>uptime := uptime s + ms, cycles := cyc\<rparr>"
| "fw_do c e (RadioIrq rx rssi pipe crc) s =
     (if esb_initialized s then radio_irq_handler c rx rssi pipe crc s else s)"
| "fw_do c e TimerIrq s = (if esb_initialized s then esb_timer_handler c s else s)"
| "fw_do c e EventIrq s = (if esb_initialized s then endpoint_evt_irq c s else s)"
| "fw_do c e (KeyEvent ev) s = snd (hid_relay_cb c (env_hid e) (zmk_esb_endpoint_is_active s) ev s)"
| "fw_do c e (PointerEvent n ev) s = snd (esb_ip_handle_event c (zmk_esb_endpoint_is_active s) n ev s)"
| "fw_do c e (LogLine line) s = esb_log_backend_process c line s"
| "fw_do c e (StdoutByte ch) s = (if stdout_hook_installed s then esb_stdout_hook c ch s else s)"
| "fw_do c e (ProfileChanged index) s = snd (profile_listener_cb c (env_profiles e) index s)"
| "fw_do c e UnpairKey s = snd (unpair_binding_pressed c s)"
| "fw_do c e ShellReqKey s = snd (shell_req_binding_pressed c s)"

section \<open>Runs\<close>

text \<open>
  The three steps that put a connected link down without telling the hop manager: the unpair key,
  the unpair command, and activating an endpoint that is still connected.
\<close>

definition unpair_pressed :: "fw_event \<Rightarrow> ctl \<Rightarrow> bool" where
  "unpair_pressed ev s \<longleftrightarrow> ev = UnpairKey \<and> m_state s = PAIRING_STATE_CONNECTED"

definition unpair_typed :: "kcfg \<Rightarrow> env \<Rightarrow> work \<Rightarrow> ctl \<Rightarrow> bool" where
  "unpair_typed c e w s \<longleftrightarrow> w = ShellExecWork \<and> m_state s = PAIRING_STATE_CONNECTED \<and>
     (case env_cmd e (trim (c_string (take (SHELL_CMD_BUF_SIZE c - 1) (cmd_buf s)))) of
        EsbUnpair out \<Rightarrow> True | _ \<Rightarrow> False)"

definition reactivated :: "(ctl \<Rightarrow> ctl) \<Rightarrow> ctl \<Rightarrow> bool" where
  "reactivated quiesce s \<longleftrightarrow>
     (case esb_ctrl_msgq s of
        ESB_CMD_ACTIVATE # rest \<Rightarrow> m_state (quiesce (s\<lparr>esb_ctrl_msgq := rest\<rparr>)) = PAIRING_STATE_CONNECTED
      | _ \<Rightarrow> False)"

text \<open>\<open>fw_run c e abrupt s t\<close>: some run leads from \<open>s\<close> to \<open>t\<close>; \<open>abrupt\<close> says whether it may have such steps.\<close>

inductive fw_run :: "kcfg \<Rightarrow> env \<Rightarrow> bool \<Rightarrow> ctl \<Rightarrow> ctl \<Rightarrow> bool" for c e abrupt where
  start: "fw_run c e abrupt s s"
| event: "fw_run c e abrupt s t \<Longrightarrow> abrupt \<or> \<not> unpair_pressed ev t \<Longrightarrow> fw_run c e abrupt s (fw_do c e ev t)"
| work: "fw_run c e abrupt s t \<Longrightarrow> work_due w t \<Longrightarrow> abrupt \<or> \<not> unpair_typed c e w t \<Longrightarrow>
    (\<And>u. fw_run c e abrupt u (sleep u)) \<Longrightarrow> (\<And>u. fw_run c e abrupt u (wait u)) \<Longrightarrow>
    fw_work c e claim index sleep wait w (k_work_cancel w t) = Some t' \<Longrightarrow> fw_run c e abrupt s t'"
| control: "fw_run c e abrupt s t \<Longrightarrow> abrupt \<or> \<not> reactivated quiesce t \<Longrightarrow>
    (\<And>u. fw_run c e abrupt u (quiesce u)) \<Longrightarrow>
    esb_ctrl_thread_step c (env_dts e) hf hw quiesce t = Some t' \<Longrightarrow> fw_run c e abrupt s t'"

text \<open>What the build guarantees: non-empty FIFOs and a channel of the band.\<close>

definition fw_config :: "kcfg \<Rightarrow> env \<Rightarrow> bool" where
  "fw_config c e \<longleftrightarrow> 0 < ESB_TX_FIFO_SIZE c \<and> 0 < ESB_RX_FIFO_SIZE c \<and>
     unat (dts_esb_channel (env_dts e)) < CHANNEL_HOP_CHANNEL_COUNT"

section \<open>The invariant of runs\<close>

lemma boot_fields:
  assumes "s = boot_memory c devs stored rng_addr prompt"
  shows "fw_core c s" "m_state s = PAIRING_STATE_IDLE" "\<not> m_active s" "\<not> m_link_up s"
    "m_post_hop_burst_remaining s = 0" "m_coop_hop_state s = COOP_IDLE" "\<not> esb_initialized s"
    "kb_pending s = []" "cons_pending s = []" "\<not> m_shell_active s" "stdout_buf s = []"
    "m_bench_state s = BENCH_IDLE" "ip_devs s = replicate devs zero_ip_data"
  by (simp_all add: assms boot_memory_def core_defs ring_wf_def wf_quarantine_def channel_ok_def chop_consts)

lemma fw_hop_init:
  assumes "fw_inv c X s" "m_coop_hop_state s = COOP_IDLE"
  shows "fw_inv c X (channel_hop_ep_init c s)"
  using assms by (simp add: channel_hop_ep_init_def fw_inv_iff core_defs pending_def Let_def)

lemma fw_boot: "fw_inv c X (esb_endpoint_init c lo hi (boot_memory c devs stored rng_addr prompt))"
proof -
  let ?s = "boot_memory c devs stored rng_addr prompt"
  have "fw_inv c X ?s" by (simp add: fw_inv_iff boot_fields [OF refl] zero_ip_data_def cong: conj_cong)
  then have "fw_inv c X (esb_transport_init c ?s)"
    by (simp add: esb_transport_init_def Let_def)
  then have "fw_inv c X (pairing_init lo hi (esb_transport_init c ?s))"
    by (simp add: pairing_init_def settings_load_def settings_load_cb_def build_device_id_def split: option.split)
  then have "fw_inv c X (channel_hop_ep_init c (pairing_init lo hi (esb_transport_init c ?s)))"
    by (rule fw_hop_init) (simp add: pairing_init_def settings_load_def settings_load_cb_def build_device_id_def
      esb_transport_init_def boot_fields [OF refl] Let_def split: option.split)
  then show ?thesis by (simp add: esb_endpoint_init_def fw_schedule_keeps Let_def)
qed

lemma fw_execute:
  assumes "fw_inv c X s" "\<not> unpair_typed c e ShellExecWork s \<or> ReportDown \<in> X"
  shows "fw_inv c X (shell_exec_work_fn c (shell_execute c e) s)"
  using assms by (simp add: shell_exec_work_fn_def shell_execute_def cmd_esb_unpair_def unpair_typed_def fw_unpair fw_cmd_bench fw_out Let_def
      split: shell_cmd.split)

lemma fw_do_keeps:
  assumes "fw_inv c X s" "\<not> unpair_pressed ev s \<or> ReportDown \<in> X"
  shows "fw_inv c X (fw_do c e ev s)"
proof (cases ev)
  case UnpairKey
  then show ?thesis using assms by (simp add: unpair_binding_pressed_def unpair_pressed_def fw_unpair)
qed (use assms(1) in \<open>simp_all add: fw_interrupts fw_event_irq fw_key_event fw_pointer_event fw_log fw_stdout_hook
      fw_profile shell_req_binding_pressed_def fw_shell_request\<close>)

lemma fw_work_keeps:
  assumes "fw_inv c X s" "\<not> unpair_typed c e w s \<or> ReportDown \<in> X"
    and "\<And>Y u. X \<subseteq> Y \<Longrightarrow> fw_inv c Y u \<Longrightarrow> fw_inv c Y (sleep u)"
    and "\<And>Y u. X \<subseteq> Y \<Longrightarrow> fw_inv c Y u \<Longrightarrow> fw_inv c Y (wait u)"
    and "fw_work c e claim index sleep wait w (k_work_cancel w s) = Some t"
  shows "fw_inv c X t"
proof -
  have d: "fw_inv c (insert (Wake w) X) (k_work_cancel w s)" using assms(1) by (rule fw_cancel)
  have k: "fw_inv c X (k_work_cancel w s)" if "\<not> wanted c s w" using assms(1) that by (rule fw_cancel_unwanted)
  show ?thesis
  proof (cases w)
    case IdleCheckWork
    then show ?thesis using fw_idle_check [OF assms(3), of X] d assms(5) by simp
  next
    case PostHopBurstWork
    then have b: "fw_inv c (insert (Wake PostHopBurstWork) X) (k_work_cancel w s)"
      "post_hop_burst_work_fn c sleep wait (k_work_cancel w s) = Some t"
      using d assms(5) by simp_all
    show ?thesis by (rule fw_burst [OF assms(3,4) b])
  next
    case BenchTxWork
    then show ?thesis using fw_bench_tx k assms(5) by simp
  next
    case ShellExecWork
    then have t: "t = shell_exec_work_fn c (shell_execute c e) (k_work_cancel w s)" using assms(5) by simp
    show ?thesis unfolding t
      by (rule fw_execute) (use k assms(2) ShellExecWork in \<open>simp_all add: unpair_typed_def k_work_cancel_def\<close>)
  next
    case NegotiateWork
    then show ?thesis using d assms(5) by (auto intro: fw_negotiate)
  next
    case CoopHopCommitWork
    then show ?thesis using d assms(5) by (auto intro: fw_coop_commit)
  next
    case AdaptiveRetryWork
    then show ?thesis using d assms(5) by (auto intro: fw_adaptive)
  next
    case BeaconWork
    then show ?thesis using d assms(5) by (auto intro: fw_beacon)
  next
    case VerifyWork
    then show ?thesis using d assms(5) by (auto intro: fw_verify)
  next
    case HidRetryWork
    then show ?thesis using d assms(5) by (auto intro: fw_hid_retry)
  next
    case (IpRetryWork n)
    then show ?thesis using d assms(5) by (auto intro: fw_ip_retry)
  next
    case ShellPollWork
    then show ?thesis using d assms(5) by (auto intro: fw_shell_poll)
  next
    case InactivityWork
    then show ?thesis using d assms(5) by (auto intro: fw_inactivity)
  next
    case StdoutFlushWork
    then show ?thesis using d assms(5) by (auto intro: fw_stdout_flush)
  next
    case BenchCompleteWork
    then show ?thesis using d assms(5) by (auto intro: fw_bench_complete)
  next
    case BenchResultPollWork
    then show ?thesis using d assms(5) by (auto intro: fw_bench_result_poll)
  next
    case BenchResultTimeoutWork
    then show ?thesis using d assms(5) by (auto intro: fw_bench_result_timeout)
  next
    case HopRetryWork
    then show ?thesis using k assms(5) by (auto simp: hop_retry_work_fn_def intro: fw_schedule_keeps(2))
  next
    case HopWork
    then show ?thesis using k assms(5) by (auto simp: hop_retry_work_fn_def intro: fw_hop_work)
  next
    case CoopHopOfferWork
    then show ?thesis using k assms(5) by (auto simp: hop_retry_work_fn_def intro: fw_coop_offer)
  next
    case RxWork
    then show ?thesis using k assms(5) by (auto simp: hop_retry_work_fn_def intro: fw_rx_work)
  next
    case OutDrainWork
    then show ?thesis using k assms(5) by (auto simp: hop_retry_work_fn_def intro: fw_out_drain)
  next
    case BgPollWork
    then show ?thesis using k assms(5) by (auto simp: hop_retry_work_fn_def intro: fw_bg_poll)
  next
    case BootProfileCheckWork
    then show ?thesis using k assms(5) by (auto simp: hop_retry_work_fn_def intro: fw_profile(3) [THEN iffD2])
  qed
qed


lemma fw_run_keeps:
  assumes "fw_run c e abrupt s t" "fw_config c e" "abrupt \<longrightarrow> ReportDown \<in> X" "fw_inv c X s"
  shows "fw_inv c X t"
  using assms(1,3,4)
proof (induction arbitrary: X)
  case (event s t ev)
  then show ?case by (intro fw_do_keeps) auto
next
  case (work s t w sleep wait claim index t')
  then have t: "fw_inv c X t" by simp
  show ?case
    by (rule fw_work_keeps [OF t _ _ _ work.hyps(6)]) (use work in \<open>blast+\<close>)
next
  case (control s t quiesce hf hw t')
  then have t: "fw_inv c X t" by simp
  have pop: "fw_inv c X (t\<lparr>esb_ctrl_msgq := rest\<rparr>)" "fw_inv c X (quiesce (t\<lparr>esb_ctrl_msgq := rest\<rparr>))" for rest
    using t control by simp_all
  show ?case
    using control.hyps control.prems assms(2) pop
    by (auto simp: esb_ctrl_thread_step_def reactivated_def fw_config_def fw_deactivate Let_def
        split: list.splits esb_cmd.splits intro!: fw_activate)
qed


text \<open>A state some run leads to after booting with any settings.\<close>

definition fw_reachable :: "kcfg \<Rightarrow> env \<Rightarrow> bool \<Rightarrow> ctl \<Rightarrow> bool" where
  "fw_reachable c e abrupt s \<longleftrightarrow>
     (\<exists>lo hi devs stored rng_addr prompt.
        fw_run c e abrupt (esb_endpoint_init c lo hi (boot_memory c devs stored rng_addr prompt)) s)"

lemma fw_reachable_inv:
  assumes "fw_config c e" "fw_reachable c e abrupt s" "abrupt \<longrightarrow> ReportDown \<in> X"
  shows "fw_inv c X s"
  using assms fw_run_keeps [OF _ assms(1,3) fw_boot] by (auto simp: fw_reachable_def)

section \<open>A disconnection during the burst\<close>

text \<open>
  The side trip of \<open>post_hop_burst_work_fn\<close> waits; when the link goes down meanwhile, the counter is
  zero and its decrement wraps: the burst goes on for 255 more packets.
\<close>

lemma burst_count_wraps:
  assumes "burst_candidate c s = (ch, u)" "m_post_hop_burst_remaining s \<noteq> 0"
    and "m_post_hop_burst_remaining (burst_send c wait ch u) = 0"
  shows "\<exists>t. post_hop_burst_work_fn c sleep wait s = Some t \<and> m_post_hop_burst_remaining t = 255 \<and>
    pending PostHopBurstWork t"
proof -
  have "(0 :: u8) < - 1" by (simp add: word_gt_0)
  with assms show ?thesis by (simp add: post_hop_burst_work_fn_def pending_def k_work_reschedule_def Let_def)
qed

section \<open>A run\<close>

text \<open>The ESB profile is selected and the control thread activates the endpoint.\<close>

definition env_example :: env where
  "env_example =
     \<lparr>env_dts = \<lparr>pairing_base_address = [1, 2, 3, 4], data_base_address = [5, 6, 7, 8], pairing_prefix = 9,
        data_prefix = 10, dts_esb_channel = 78\<rparr>,
      env_hid = \<lparr>nkro_max_usage = 0xE7, cons_elem = id, kb_body_bytes = (\<lambda>b. modifiers b # 0 # kb_keys b),
        cons_body_bytes = (\<lambda>b. map ucast (cons_keys b)), is_mod = (\<lambda>_ k. 0xE0 \<le> k \<and> k \<le> 0xE7)\<rparr>,
      env_profiles = 5, env_cmd = (\<lambda>_. OtherCmd False [])\<rparr>"

definition booted_example :: ctl where
  "booted_example =
     esb_endpoint_init default_kcfg 1 2 (boot_memory default_kcfg 1 None 0x20001000 [126, 36, 32])"

definition activated_example :: ctl where
  "activated_example =
     ctrl_activate default_kcfg (env_dts env_example) None None id
       ((fw_do default_kcfg env_example (ProfileChanged (Some 4)) booted_example)\<lparr>esb_ctrl_msgq := []\<rparr>)"

lemma init_state: "m_state (snd (esb_init c hw cfg s)) = m_state (s :: 'a ctl_scheme)"
  using setup_views(5) [of c hw cfg s] by (simp add: duty_view_def)

lemma configure_state: "m_state (snd (esb_init_and_configure c hw s)) = m_state (s :: 'a ctl_scheme)"
  by (simp add: esb_init_and_configure_def init_state esb_set_base_address_0_def
      esb_set_base_address_1_def esb_set_prefixes_def esb_set_rf_channel_def case_prod_beta Let_def split: option.split)

lemma setup_state: "m_state (esb_transport_on_slot_start c hf hw s) = m_state (s :: 'a ctl_scheme)"
  by (simp add: esb_transport_on_slot_start_def configure_state hfxo_request_def bt_ll_suspend_def
      case_prod_beta Let_def split: option.split)

lemma ctrl_activate_state:
  "m_state (ctrl_activate c d hf hw quiesce s) =
     (if m_has_stored_peer (quiesce s) then PAIRING_STATE_VERIFYING else PAIRING_STATE_UNPAIRED)"
  by (simp add: ctrl_activate_def configure_esb_addresses_def esb_transport_set_addresses_def pairing_start_def
      setup_state esb_shell_relay_on_activate_def Let_def)

lemma booted_example_fields:
  "esb_ctrl_msgq booted_example = []" "\<not> esb_active booted_example" "\<not> m_has_stored_peer booted_example"
  "m_state booted_example = PAIRING_STATE_IDLE"
  by (simp_all add: booted_example_def esb_endpoint_init_def esb_transport_init_def pairing_init_def
      settings_load_def build_device_id_def channel_hop_ep_init_def boot_memory_def k_work_reschedule_def Let_def)

lemma booted_example_profile:
  "fw_do default_kcfg env_example (ProfileChanged (Some 4)) booted_example =
     booted_example\<lparr>esb_ctrl_msgq := [ESB_CMD_ACTIVATE]\<rparr>"
  by (simp add: profile_listener_cb_def k_msgq_put_def env_example_def booted_example_fields)

lemma activated_example_state: "m_state activated_example = PAIRING_STATE_UNPAIRED"
  by (simp add: activated_example_def ctrl_activate_state booted_example_profile booted_example_fields del: fw_do.simps)

lemma activated_example_reachable:
  "fw_config default_kcfg env_example" "fw_reachable default_kcfg env_example abrupt activated_example"
proof -
  have "valid_kcfg default_kcfg" by (rule default_kcfg_valid)
  then show "fw_config default_kcfg env_example"
    by (simp add: fw_config_def valid_kcfg_def kcfg_asserts_def env_example_def chop_consts)
  let ?p = "fw_do default_kcfg env_example (ProfileChanged (Some 4)) booted_example"
  have "fw_run default_kcfg env_example abrupt booted_example ?p"
    by (rule fw_run.event [OF fw_run.start]) (simp add: unpair_pressed_def)
  then have "fw_run default_kcfg env_example abrupt booted_example activated_example"
  proof (rule fw_run.control [where quiesce = id and hf = None and hw = None])
    show "abrupt \<or> \<not> reactivated id ?p"
      by (simp add: booted_example_profile reactivated_def booted_example_fields del: fw_do.simps)
    show "esb_ctrl_thread_step default_kcfg (env_dts env_example) None None id ?p = Some activated_example"
      by (simp add: booted_example_profile esb_ctrl_thread_step_def activated_example_def del: fw_do.simps)
  qed (simp add: fw_run.start)
  then show "fw_reachable default_kcfg env_example abrupt activated_example"
    unfolding fw_reachable_def booted_example_def by blast
qed

section \<open>Properties\<close>

text \<open>
  C11. Fifteen wake-ups are never lost. In every reachable state these work items are scheduled: the beacon
  while the endpoint is unpaired, and the verify request while it is verifying; the proposal and the
  idle check while the hop manager is active; the burst while packets of it remain; the commit while a
  cooperative hop is armed; the adaptive retry while the radio is set up; the HID retry while
  keyboard or consumer reports are held back; the pointer retry while button edges are; the poll
  and, when configured, the inactivity timeout while a shell session is active; the flush while captured output
  waits; the end of a running benchmark, and the poll and the timeout of one that is stopping. The
  interleaving of events, work and control thread is arbitrary. Two waits are not among them: the background
  poll, which an inactivity timeout leaves unscheduled, and pointer motion deferred without a button
  edge, which the next input event sends.
\<close>

theorem no_lost_wakeups:
  assumes "fw_config c e" "fw_reachable c e abrupt s"
  shows "(m_state s = PAIRING_STATE_UNPAIRED \<longrightarrow> pending BeaconWork s) \<and>
    (m_state s = PAIRING_STATE_VERIFYING \<longrightarrow> pending VerifyWork s) \<and>
    (m_active s \<longrightarrow> pending NegotiateWork s \<and> pending IdleCheckWork s) \<and>
    (0 < m_post_hop_burst_remaining s \<longrightarrow> pending PostHopBurstWork s) \<and>
    (COOP_HOP c \<and> m_coop_hop_state s = COOP_ARMED \<longrightarrow> pending CoopHopCommitWork s) \<and>
    (CHANNEL_HOP c \<and> ADAPTIVE_RETRY c \<and> esb_initialized s \<longrightarrow> pending AdaptiveRetryWork s) \<and>
    (kb_pending s \<noteq> [] \<or> cons_pending s \<noteq> [] \<longrightarrow> pending HidRetryWork s) \<and>
    (\<forall>n < length (ip_devs s). pending_buttons (ip_devs s ! n) \<noteq> [] \<longrightarrow> pending (IpRetryWork n) s) \<and>
    (m_shell_active s \<longrightarrow> pending ShellPollWork s \<and> (0 < SHELL_INACTIVITY_S c \<longrightarrow> pending InactivityWork s)) \<and>
    (stdout_buf s \<noteq> [] \<longrightarrow> pending StdoutFlushWork s) \<and>
    (m_bench_state s = BENCH_RUNNING \<longrightarrow> pending BenchCompleteWork s) \<and>
    (m_bench_state s = BENCH_STOPPING \<longrightarrow> pending BenchResultPollWork s \<and> pending BenchResultTimeoutWork s)"
  using fw_reachable_inv [OF assms, of "{ReportDown}"] unfolding fw_inv_iff by simp

theorem no_lost_wakeups_witness: "pending BeaconWork activated_example"
  using no_lost_wakeups [OF activated_example_reachable] activated_example_state by simp

text \<open>
  C12. In every reachable state of a run without the three abrupt steps the hop manager believes the
  link is up exactly when pairing is connected. With them one direction is left: a connected
  endpoint has its hop manager up.
\<close>

theorem link_report_agrees:
  assumes "fw_config c e" "CHANNEL_HOP c" "fw_reachable c e abrupt s"
  shows "(m_state s = PAIRING_STATE_CONNECTED \<longrightarrow> m_link_up s) \<and>
    (abrupt \<or> (m_link_up s \<longrightarrow> m_state s = PAIRING_STATE_CONNECTED))"
proof -
  have u: "met c s ReportUp"
    using fw_reachable_inv [OF assms(1,3), of "{ReportDown}"] by (simp add: fw_inv_def del: met_report)
  have d: "met c s ReportDown" if "\<not> abrupt"
    using fw_reachable_inv [OF assms(1,3), of "{}"] that by (simp add: fw_inv_def del: met_report)
  show ?thesis using u d assms(2) by auto
qed

theorem link_report_agrees_witness:
  "m_link_up activated_example \<longleftrightarrow> m_state activated_example = PAIRING_STATE_CONNECTED"
  using link_report_agrees [OF activated_example_reachable(1) _ activated_example_reachable(2) [of False]] by auto

text \<open>
  C13. In every reachable state the radio is a transmitter in a consistent state (it never is in a
  receiver state, its queues are well formed, its channel is in the band), the hop manager holds
  only channels of the band, is active only while the link is up and in a cooperative hop only while active.
\<close>

theorem reachable_radio_sound:
  assumes "fw_config c e" "fw_reachable c e abrupt s"
  shows "(esb_initialized s \<longrightarrow> ptx_inv c s) \<and>
    m_esb_state s \<notin> {ESB_STATE_PRX, ESB_STATE_PRX_SEND_ACK} \<and> unat (rf_channel s) \<le> 100 \<and>
    hop_inv c s \<and>
    (ad_configured (m_addr s) \<longrightarrow> unat (ad_channel (m_addr s)) < CHANNEL_HOP_CHANNEL_COUNT)"
proof -
  have "fw_core c s" using fw_inv_core [OF fw_reachable_inv [OF assms, of UNIV]] by simp
  then show ?thesis by (auto simp: fw_core_def radio_inv_def radio_untouched_def ptx_inv_def addr_ok_def)
qed

theorem reachable_radio_sound_witness: "unat (rf_channel activated_example) \<le> 100"
  using reachable_radio_sound [OF activated_example_reachable(1) activated_example_reachable(2) [of True]] by simp

end
