(* ===== verification/EsbAddr.thy ===== *)
theory EsbAddr
  imports Protocol
begin

text \<open>
  The address conversion of \<open>vendor/nrf-esb/subsys/esb.c\<close>: \<open>bytewise_bit_swap\<close>, in both of the
  versions the C preprocessor chooses between, and \<open>addr_conv\<close>. A 32-bit load is little endian
  on both cores; \<open>RBIT\<close> and \<open>REV\<close> are the Arm instructions.
\<close>

definition RBIT :: "u32 \<Rightarrow> u32" where
  "RBIT w = horner_sum of_bool 2 (map (\<lambda>i. bit w (31 - i)) [0..<32])"

definition REV :: "u32 \<Rightarrow> u32" where
  "REV w = push_bit 24 (w AND 0xFF) OR push_bit 8 (w AND 0xFF00) OR
           drop_bit 8 (w AND 0xFF0000) OR drop_bit 24 w"

definition bytewise_bit_swap_m4 :: "u8 list \<Rightarrow> u32" where
  "bytewise_bit_swap_m4 input = REV (RBIT (of_le32 input))"

definition bytewise_bit_swap :: "u8 list \<Rightarrow> u32" where
  "bytewise_bit_swap input =
     (let inp = of_le32 input;
          inp = drop_bit 4 (inp AND 0xF0F0F0F0) OR push_bit 4 (inp AND 0x0F0F0F0F);
          inp = drop_bit 2 (inp AND 0xCCCCCCCC) OR push_bit 2 (inp AND 0x33333333)
      in drop_bit 1 (inp AND 0xAAAAAAAA) OR push_bit 1 (inp AND 0x55555555))"

definition addr_conv :: "u8 list \<Rightarrow> u32" where
  "addr_conv addr = REV (bytewise_bit_swap addr)"

lemma bit_RBIT: "n < 32 \<Longrightarrow> bit (RBIT w) n = bit w (31 - n)"
  by (simp add: RBIT_def bit_horner_sum_bit_iff)

lemma less_32_cases:
  "n < (32::nat) \<Longrightarrow> n \<in>
    {0, 1, 2, 3, 4, 5, 6, 7, 8, 9, 10, 11, 12, 13, 14, 15, 16, 17, 18, 19, 20, 21,
     22, 23, 24, 25, 26, 27, 28, 29, 30, 31}"
  by (simp, presburger)

lemma bit_oob: "32 \<le> n \<Longrightarrow> \<not> bit (w :: u32) n"
  by (auto dest: bit_imp_le_length)

lemma bit_REV: "n < 32 \<Longrightarrow> bit (REV w) n = bit w (8 * (3 - n div 8) + n mod 8)"
  by (drule less_32_cases, elim insertE emptyE;
      (simp add: REV_def bit_simps bit_oob; simp add: numeral_2_eq_2))

lemma bit_bytewise_swap:
  "n < 32 \<Longrightarrow> bit (bytewise_bit_swap input) n = bit (of_le32 input) (8 * (n div 8) + (7 - n mod 8))"
  unfolding bytewise_bit_swap_def Let_def bit_or_iff bit_and_iff bit_push_bit_iff bit_drop_bit_eq comp_def
  by (drule less_32_cases, elim insertE emptyE) (simp_all add: bit_simps bit_oob numeral_2_eq_2)

text \<open>
  C24. The two versions of \<open>bytewise_bit_swap\<close> the preprocessor chooses between compute the
  same register value, and the converted base address is the address word with all its 32 bits
  in the opposite order.
\<close>

theorem addr_conv_reverses_bits:
  "bytewise_bit_swap_m4 input = bytewise_bit_swap input \<and>
   (\<forall>n. n < 32 \<longrightarrow> bit (addr_conv input) n = bit (of_le32 input) (31 - n))"
proof -
  have "bytewise_bit_swap_m4 input = bytewise_bit_swap input"
  proof (rule bit_word_eqI)
    fix n assume "n < LENGTH(32)"
    then have "n < 32" by simp
    from less_32_cases [OF this]
    show "bit (bytewise_bit_swap_m4 input) n = bit (bytewise_bit_swap input) n"
      by (elim insertE emptyE;
        simp add: bytewise_bit_swap_m4_def bit_REV bit_RBIT bit_bytewise_swap numeral_2_eq_2)
  qed
  moreover have "bit (addr_conv input) n = bit (of_le32 input) (31 - n)" if "n < 32" for n
    using less_32_cases [OF that]
    by (elim insertE emptyE; (simp add: addr_conv_def bit_REV bit_bytewise_swap; simp add: numeral_2_eq_2))
  ultimately show ?thesis by blast
qed

theorem addr_conv_reverses_bits_witness:
  "bytewise_bit_swap_m4 [0x17, 0xF4, 0x07, 0xAA] = bytewise_bit_swap [0x17, 0xF4, 0x07, 0xAA] \<and>
   bit (addr_conv [0x17, 0xF4, 0x07, 0xAA]) 31"
  using addr_conv_reverses_bits [of "[0x17, 0xF4, 0x07, 0xAA]"] by (simp add: of_le32_def bit_simps)

end
