(* ===== verification/Dongle.thy ===== *)
theory Dongle
  imports EsbAddr Esb
begin

text \<open>
  The dongle's firmware, \<open>dongle/src/main.c\<close>. It runs the same radio library as the endpoint, as
  a receiver. \<open>usb_out\<close> collects the HID reports written to the USB endpoint, oldest first; the
  return value of \<open>hid_int_ep_write\<close> is not used by the code. \<open>hw\<close>, \<open>usb_found\<close> and \<open>usb_ok\<close> are the
  outcomes of starting the radio and the USB stack. What \<open>main\<close> does to the interrupt vectors is in
  \<open>VectorTable\<close>; the properties here are those the program would have with its vectors intact.
\<close>

section \<open>State\<close>

datatype dongle_state =
  DONGLE_IDLE | DONGLE_LISTENING | DONGLE_PAIRING | DONGLE_CONNECTED | DONGLE_VERIFYING

record dongle = esb +
  d_state :: dongle_state
  d_peer_id :: "u8 list"
  d_has_peer :: bool
  m_my_device_id :: "u8 list"
  usb_out :: "u8 list list"

definition pairing_base_addr :: "u8 list" where "pairing_base_addr = [0x17, 0xF4, 0x07, 0xAA]"
definition data_base_addr :: "u8 list" where "data_base_addr = [0xB9, 0x8A, 0x16, 0x22]"
definition addr_prefixes :: "u8 list" where
  "addr_prefixes = [0x24, 0xC2, 0xC3, 0xC4, 0xC5, 0xC6, 0xC7, 0xC8]"
definition default_channel :: u8 where "default_channel = 78"

section \<open>Forwarding reports to USB\<close>

definition send_hid_report :: "u8 list \<Rightarrow> 'a dongle_scheme \<Rightarrow> 'a dongle_scheme" where
  "send_hid_report bs s = s\<lparr>usb_out := usb_out s @ [bs]\<rparr>"

text \<open>A report of \<open>n\<close> data bytes behind its ID, cut or zero-filled.\<close>

definition usb_report :: "u8 \<Rightarrow> nat \<Rightarrow> u8 list \<Rightarrow> u8 list" where
  "usb_report rid n bs = rid # take n bs @ replicate (n - length bs) 0"

definition forward_keyboard :: "u8 list \<Rightarrow> 'a dongle_scheme \<Rightarrow> 'a dongle_scheme" where
  "forward_keyboard bs s = send_hid_report (usb_report 1 8 bs) s"

definition forward_consumer :: "u8 list \<Rightarrow> 'a dongle_scheme \<Rightarrow> 'a dongle_scheme" where
  "forward_consumer bs s = send_hid_report (usb_report 2 2 bs) s"

definition forward_mouse :: "u8 list \<Rightarrow> 'a dongle_scheme \<Rightarrow> 'a dongle_scheme" where
  "forward_mouse bs s = send_hid_report (usb_report 3 6 bs) s"

section \<open>Packets from the keyboard\<close>

definition dongle_ack :: "kcfg \<Rightarrow> u8 \<Rightarrow> esb_pkt \<Rightarrow> 'a dongle_scheme \<Rightarrow> 'a dongle_scheme" where
  "dongle_ack c pipe pkt s =
     snd (esb_write_payload c
            \<lparr>pl_pipe = pipe, pl_noack = False, pl_pid = 0, pl_rssi = 0, pl_data = encode pkt\<rparr> s)"

definition on_beacon :: "kcfg \<Rightarrow> u8 \<Rightarrow> u8 list \<Rightarrow> 'a dongle_scheme \<Rightarrow> 'a dongle_scheme" where
  "on_beacon c pipe bs s =
     (if sizeof_beacon \<le> length bs \<and> d_state s = DONGLE_LISTENING
      then
        (let s = s\<lparr>d_peer_id := pkt_device_id bs, d_has_peer := True\<rparr>;
             s = dongle_ack c pipe (PktPairReq (m_my_device_id s)) s
         in s\<lparr>d_state := DONGLE_PAIRING\<rparr>)
      else s)"

definition on_hid_report :: "u8 list \<Rightarrow> 'a dongle_scheme \<Rightarrow> 'a dongle_scheme" where
  "on_hid_report bs s =
     (if d_state s \<noteq> DONGLE_CONNECTED \<and> d_state s \<noteq> DONGLE_VERIFYING then s
      else if 2 \<le> length bs
      then (let body = drop 2 bs
            in if pkt_byte 1 bs = ESB_REPORT_KEYBOARD then forward_keyboard body s
               else if pkt_byte 1 bs = ESB_REPORT_CONSUMER then forward_consumer body s
               else if pkt_byte 1 bs = ESB_REPORT_MOUSE then forward_mouse body s
               else s)
      else s)"

definition on_verify_req :: "kcfg \<Rightarrow> u8 \<Rightarrow> u8 list \<Rightarrow> 'a dongle_scheme \<Rightarrow> 'a dongle_scheme" where
  "on_verify_req c pipe bs s =
     (if sizeof_id_pkt \<le> length bs
      then (if d_has_peer s \<and> pkt_device_id bs = d_peer_id s
            then (dongle_ack c pipe (PktVerifyResp (m_my_device_id s)) s)\<lparr>d_state := DONGLE_VERIFYING\<rparr>
            else dongle_ack c pipe PktDisconnect s)
      else s)"

definition dongle_packet :: "kcfg \<Rightarrow> esb_payload \<Rightarrow> 'a dongle_scheme \<Rightarrow> 'a dongle_scheme" where
  "dongle_packet c p s =
     (let bs = pl_data p;
          ty = pkt_type bs
      in if length bs < 1 then s
         else if ty = ESB_PKT_BEACON then on_beacon c (pl_pipe p) bs s
         else if ty = ESB_PKT_PAIR_RESP
         then (if sizeof_beacon \<le> length bs \<and> d_state s = DONGLE_PAIRING
               then s\<lparr>d_state := DONGLE_CONNECTED\<rparr> else s)
         else if ty = ESB_PKT_HID_REPORT then on_hid_report bs s
         else if ty = ESB_PKT_VERIFY_REQ then on_verify_req c (pl_pipe p) bs s
         else if ty = ESB_PKT_DISCONNECT then s\<lparr>d_state := DONGLE_LISTENING\<rparr>
         else s)"

text \<open>The read loop takes one packet from the receive FIFO in every round; \<open>fuel\<close> is the number
  of packets in it when the handler starts, since nothing it calls adds to it.\<close>

fun dongle_rx_loop :: "kcfg \<Rightarrow> nat \<Rightarrow> 'a dongle_scheme \<Rightarrow> 'a dongle_scheme" where
  "dongle_rx_loop c 0 s = s"
| "dongle_rx_loop c (Suc fuel) s =
     (case esb_read_rx_payload c s of
        (Inr p, s) \<Rightarrow> dongle_rx_loop c fuel (dongle_packet c p s)
      | (Inl _, s) \<Rightarrow> s)"

definition dongle_evt_handler :: "kcfg \<Rightarrow> esb_evt \<Rightarrow> 'a dongle_scheme \<Rightarrow> 'a dongle_scheme" where
  "dongle_evt_handler c event s =
     (case evt_id event of
        ESB_EVENT_RX_RECEIVED \<Rightarrow> dongle_rx_loop c (Suc (rcount (rx_fifo s))) s
      | ESB_EVENT_TX_SUCCESS \<Rightarrow> s
      | ESB_EVENT_TX_FAILED \<Rightarrow> s)"

section \<open>Start-up\<close>

definition esb_dongle_init :: "kcfg \<Rightarrow> rc \<Rightarrow> 'a dongle_scheme \<Rightarrow> rc \<times> 'a dongle_scheme" where
  "esb_dongle_init c hw s =
     (let cfg = \<lparr>cfg_mode = ESB_MODE_PRX, retransmit_delay = 570, retransmit_count = 5,
                 tx_mode = ESB_TXMODE_AUTO, payload_length = 32, selective_auto_ack = True,
                 use_fast_ramp_up = True\<rparr>
      in case esb_init c hw cfg s of
           (Some err, s) \<Rightarrow> (Some err, s)
         | (None, s) \<Rightarrow>
             (let s = snd (esb_set_base_address_0 pairing_base_addr s);
                  s = snd (esb_set_base_address_1 data_base_addr s);
                  s = snd (esb_set_prefixes addr_prefixes 2 s);
                  s = snd (esb_set_rf_channel (ucast default_channel) s);
                  s = snd (esb_enable_pipes 0x03 s)
              in (None, s)))"

definition dongle_build_device_id :: "u32 \<Rightarrow> u32 \<Rightarrow> 'a dongle_scheme \<Rightarrow> 'a dongle_scheme" where
  "dongle_build_device_id lo hi s = s\<lparr>m_my_device_id := le32 lo @ take 2 (le32 hi)\<rparr>"

definition dongle_main ::
    "kcfg \<Rightarrow> u32 \<Rightarrow> u32 \<Rightarrow> rc \<Rightarrow> bool \<Rightarrow> bool \<Rightarrow> 'a dongle_scheme \<Rightarrow> 'a dongle_scheme" where
  "dongle_main c lo hi hw usb_found usb_ok s =
     (let s = dongle_build_device_id lo hi s
      in case esb_dongle_init c hw s of
           (Some _, s) \<Rightarrow> s
         | (None, s) \<Rightarrow> if \<not> usb_found then s else if \<not> usb_ok then s else s\<lparr>d_state := DONGLE_LISTENING\<rparr>)"

section \<open>Running\<close>

text \<open>After \<open>main\<close> only interrupts run: the radio's, the timer's and the library's event interrupt.\<close>

inductive dongle_run :: "kcfg \<Rightarrow> 'a dongle_scheme \<Rightarrow> 'a dongle_scheme \<Rightarrow> bool" for c where
  start: "dongle_run c s s"
| radio: "dongle_run c s t \<Longrightarrow> dongle_run c s (radio_irq_handler c rx rssi pipe crc t)"
| timer: "dongle_run c s t \<Longrightarrow> dongle_run c s (esb_timer_handler c t)"
| event: "dongle_run c s t \<Longrightarrow> dongle_run c s (esb_evt_irq_handler (dongle_evt_handler c) t)"

text \<open>A radio nobody started.\<close>

definition radio_silent :: "'a esb_scheme \<Rightarrow> bool" where
  "radio_silent s \<longleftrightarrow> on_radio_disabled s = NoHandler \<and> \<not> tx_noack_timer s \<and>
     \<not> int_tx_success s \<and> \<not> int_tx_failed s \<and> \<not> int_rx_received s"

lemma silent_steps:
  assumes "radio_silent s"
  shows "radio_irq_handler c rx rssi pipe crc s = s" "esb_timer_handler c s = s"
    "esb_evt_irq_handler h s = s"
  using assms by (simp_all add: radio_silent_def radio_irq_handler_def esb_timer_handler_def
      esb_evt_irq_handler_def get_and_clear_irqs_def Let_def)

lemma silent_run: "dongle_run c s t \<Longrightarrow> radio_silent s \<Longrightarrow> t = s"
  by (induction rule: dongle_run.induct) (simp_all add: silent_steps)

definition set_addresses :: "'a dongle_scheme \<Rightarrow> 'a dongle_scheme" where
  "set_addresses s =
     (let s = snd (esb_set_base_address_0 pairing_base_addr s);
          s = snd (esb_set_base_address_1 data_base_addr s);
          s = snd (esb_set_prefixes addr_prefixes 2 s);
          s = snd (esb_set_rf_channel (ucast default_channel) s)
      in snd (esb_enable_pipes 0x03 s))"

text \<open>What the address calls keep.\<close>

definition air_view where
  "air_view s = (radio_silent s, m_esb_state s, usb_out s, d_state s, d_has_peer s, cfg_mode (esb_cfg s),
                 esb_initialized s)"

lemma set_addresses_frames: "air_view (set_addresses s) = air_view s"
proof -
  have a: "air_view (snd (esb_set_base_address_0 a u)) = air_view u"
    "air_view (snd (esb_set_base_address_1 a u)) = air_view u"
    "air_view (snd (esb_set_prefixes p n u)) = air_view u"
    "air_view (snd (esb_set_rf_channel ch u)) = air_view u"
    "air_view (snd (esb_enable_pipes m u)) = air_view u" for a p n ch m and u :: "'a dongle_scheme"
    by (simp_all add: air_view_def radio_silent_def esb_set_base_address_0_def esb_set_base_address_1_def
        esb_set_prefixes_def esb_set_rf_channel_def esb_enable_pipes_def Let_def)
  then show ?thesis by (simp add: set_addresses_def Let_def)
qed

lemma init_parts:
  "on_radio_disabled (esb_disable s) = on_radio_disabled s" "tx_noack_timer (esb_disable s) = tx_noack_timer s"
  "usb_out (esb_disable s) = usb_out s" "d_state (esb_disable s) = d_state s"
  "d_has_peer (esb_disable s) = d_has_peer s"
  "air_view (initialize_fifos c s) = air_view s"
  by (simp_all add: esb_disable_def reset_fifos_def initialize_fifos_def clear_ack_wraps_def air_view_def
      radio_silent_def Let_def)

lemma init_silent:
  assumes "on_radio_disabled s = NoHandler" "\<not> tx_noack_timer s" "esb_init c hw config s = (err, t)"
  shows "radio_silent t \<and> usb_out t = usb_out s \<and> d_state t = d_state s \<and> d_has_peer t = d_has_peer s \<and>
    cfg_mode (esb_cfg t) = cfg_mode config \<and> (err = None \<longrightarrow> m_esb_state t = ESB_STATE_IDLE)"
proof -
  define s0 where "s0 = (if esb_initialized s then esb_disable s else s)"
  define s1 where "s1 = s0\<lparr>esb_cfg := config, int_tx_success := False, int_tx_failed := False,
    int_rx_received := False, rx_pipe_info := replicate ESB_PIPE_COUNT \<lparr>pi_crc = 0, pi_pid = 0, pi_ack_payload = False\<rparr>,
    esb_pids := replicate ESB_PIPE_COUNT 0\<rparr>"
  define s2 where "s2 = initialize_fifos c s1"
  have "radio_silent s1 \<and> usb_out s1 = usb_out s \<and> d_state s1 = d_state s \<and> d_has_peer s1 = d_has_peer s \<and>
      cfg_mode (esb_cfg s1) = cfg_mode config"
    using assms(1,2) by (simp add: s1_def s0_def radio_silent_def init_parts)
  then have s2: "radio_silent s2 \<and> usb_out s2 = usb_out s \<and> d_state s2 = d_state s \<and>
      d_has_peer s2 = d_has_peer s \<and> cfg_mode (esb_cfg s2) = cfg_mode config"
    using init_parts(6) [of c s1] by (simp add: s2_def air_view_def)
  have "(err, t) = (case hw of Some e \<Rightarrow> (Some e, s2)
      | None \<Rightarrow> (None, s2\<lparr>m_esb_state := ESB_STATE_IDLE, esb_initialized := True\<rparr>))"
    unfolding assms(3) [symmetric] esb_init_def Let_def s2_def s1_def s0_def by simp
  then show ?thesis using s2 by (auto simp: radio_silent_def split: option.splits)
qed

lemma dongle_init_silent:
  assumes "on_radio_disabled s = NoHandler" "\<not> tx_noack_timer s" "esb_dongle_init c hw s = (err, t)"
  shows "radio_silent t \<and> usb_out t = usb_out s \<and> d_state t = d_state s \<and> d_has_peer t = d_has_peer s \<and>
    (err = None \<longrightarrow> m_esb_state t = ESB_STATE_IDLE \<and> cfg_mode (esb_cfg t) = ESB_MODE_PRX)"
proof -
  let ?cfg = "\<lparr>cfg_mode = ESB_MODE_PRX, retransmit_delay = 570, retransmit_count = 5,
                 tx_mode = ESB_TXMODE_AUTO, payload_length = 32, selective_auto_ack = True,
                 use_fast_ramp_up = True\<rparr>"
  obtain e u where i: "esb_init c hw ?cfg s = (e, u)" by fastforce
  have "(err, t) = (if e = None then (None, set_addresses u) else (e, u))"
    using assms(3) i by (auto simp: esb_dongle_init_def set_addresses_def Let_def split: option.splits)
  then show ?thesis
    using init_silent [OF assms(1,2) i] set_addresses_frames [of u] by (auto simp: air_view_def split: if_splits)
qed

section \<open>Properties\<close>

text \<open>
  C40. The dongle never hears a keyboard. Its \<open>main\<close> configures the radio as a receiver and
  announces that it is listening, but nothing starts the receiver: whatever interrupts follow,
  the state stays the one \<open>main\<close> left, no packet is delivered, no peer is learnt and no report
  reaches USB. One call of \<open>esb_start_rx\<close> would have installed the receive handler.
\<close>

theorem dongle_never_receives:
  assumes "on_radio_disabled s = NoHandler" "\<not> tx_noack_timer s" "usb_out s = []"
    and "d_state s = DONGLE_IDLE" "\<not> d_has_peer s"
    and "m = dongle_main c lo hi None True True s" "dongle_run c m t"
  shows "t = m \<and> d_state t = DONGLE_LISTENING \<and> m_esb_state t = ESB_STATE_IDLE \<and> usb_out t = [] \<and>
    \<not> d_has_peer t \<and> on_radio_disabled (snd (esb_start_rx m)) = OnDisabledRx"
proof -
  let ?b = "dongle_build_device_id lo hi s"
  have b: "on_radio_disabled ?b = NoHandler" "\<not> tx_noack_timer ?b" "usb_out ?b = []"
    "d_state ?b = DONGLE_IDLE" "\<not> d_has_peer ?b"
    using assms(1-5) by (simp_all add: dongle_build_device_id_def)
  obtain e u where i: "esb_dongle_init c None ?b = (e, u)" by fastforce
  have "e = None" using i by (auto simp: esb_dongle_init_def esb_init_def Let_def)
  note f = dongle_init_silent [OF b(1,2) i]
  have m: "m = u\<lparr>d_state := DONGLE_LISTENING\<rparr>"
    using assms(6) i \<open>e = None\<close> by (simp add: dongle_main_def Let_def)
  have "radio_silent m" using f by (simp add: m radio_silent_def)
  from silent_run [OF assms(7) this] f b \<open>e = None\<close> show ?thesis
    by (simp add: m esb_start_rx_def Let_def)
qed

text \<open>The dongle's memory at reset: all of it zero.\<close>

definition dongle_boot :: dongle where
  "dongle_boot = \<lparr>uptime = 0, cycles = 0, sched = (\<lambda>_. None), m_prng_state = 0,
     esb_initialized = False, esb_cfg = ptx_config, m_esb_state = ESB_STATE_IDLE,
     tx_fifo = \<lparr>rslots = [], rback = 0, rfront = 0, rcount = 0\<rparr>,
     rx_fifo = \<lparr>rslots = [], rback = 0, rfront = 0, rcount = 0\<rparr>,
     tx_payload_buffer = \<lparr>pdu_pid = 0, pdu_no_ack = False, pdu_data = []\<rparr>,
     on_radio_disabled = NoHandler, tx_noack_timer = False, esb_pids = [0, 0],
     rx_pipe_info = replicate 2 \<lparr>pi_crc = 0, pi_pid = 0, pi_ack_payload = False\<rparr>,
     ack_in_use = [], ack_pl_wrap_pipe = [[], []],
     int_tx_success = False, int_tx_failed = False, int_rx_received = False,
     retransmits_remaining = 0, last_tx_attempts = 0,
     base_addr_p0 = [], base_addr_p1 = [], pipe_prefixes = [], num_pipes = 0, rx_pipes_enabled = 0,
     rf_channel = 0, radio_txaddress = 0, radio_frequency = 0,
     d_state = DONGLE_IDLE, d_peer_id = replicate 6 0, d_has_peer = False,
     m_my_device_id = replicate 6 0, usb_out = []\<rparr>"

theorem dongle_never_receives_witness:
  "let m = dongle_main default_kcfg 1 2 None True True dongle_boot;
       t = radio_irq_handler default_kcfg (Some \<lparr>pdu_pid = 1, pdu_no_ack = False, pdu_data = [1]\<rparr>) 0 0 7 m
   in d_state t = DONGLE_LISTENING \<and> usb_out t = []"
proof -
  let ?m = "dongle_main default_kcfg 1 2 None True True dongle_boot"
  let ?rx = "Some \<lparr>pdu_pid = 1, pdu_no_ack = False, pdu_data = [1]\<rparr>"
  have "dongle_run default_kcfg ?m (radio_irq_handler default_kcfg ?rx 0 0 7 ?m)"
    by (rule dongle_run.radio [OF dongle_run.start])
  note never = dongle_never_receives [OF _ _ _ _ _ refl this]
  have "on_radio_disabled dongle_boot = NoHandler" "\<not> tx_noack_timer dongle_boot" "usb_out dongle_boot = []"
    "d_state dongle_boot = DONGLE_IDLE" "\<not> d_has_peer dongle_boot"
    by (simp_all add: dongle_boot_def)
  from never [OF this] show ?thesis unfolding Let_def by blast
qed

end
