(* ===== verification/EsbProgress.thy ===== *)
theory EsbProgress
  imports Esb
begin

text \<open>
  Progress of the transmitter of \<open>vendor/nrf-esb/subsys/esb.c\<close>: what a run of its interrupts does
  to the whole transmit FIFO when every packet is acknowledged within its retransmission budget.
\<close>

section \<open>One packet\<close>

text \<open>An attempt that is answered by \<open>p\<close>, and a packet answered after \<open>k\<close> unanswered attempts.\<close>

definition answered :: "kcfg \<Rightarrow> esb_pdu \<Rightarrow> i8 \<Rightarrow> 'a esb_scheme \<Rightarrow> 'a esb_scheme" where
  "answered c p rssi s = radio_irq_handler c (Some p) rssi 0 0 (radio_irq_handler c None 0 0 0 s)"

definition delivered :: "kcfg \<Rightarrow> esb_pdu \<Rightarrow> i8 \<Rightarrow> nat \<Rightarrow> 'a esb_scheme \<Rightarrow> 'a esb_scheme" where
  "delivered c p rssi k s = answered c p rssi ((unanswered c ^^ k) s)"

text \<open>
  What the radio sends in an attempt, its address and its packet; and all that it sends in a run, \<open>ks\<close> unanswered
  attempts and an answered one for each transaction in turn.
\<close>

definition on_air :: "'a esb_scheme \<Rightarrow> u8 \<times> esb_pdu" where
  "on_air s = (radio_txaddress s, tx_payload_buffer s)"

fun transmitted :: "kcfg \<Rightarrow> esb_pdu \<Rightarrow> i8 \<Rightarrow> nat list \<Rightarrow> 'a esb_scheme \<Rightarrow> (u8 \<times> esb_pdu) list" where
  "transmitted c p rssi [] s = []"
| "transmitted c p rssi (k # ks) s =
     map (\<lambda>i. on_air ((unanswered c ^^ i) s)) [0..<Suc k] @ transmitted c p rssi ks (delivered c p rssi k s)"

text \<open>The transmitter in the middle of the transaction of its first packet with its whole budget left.\<close>

definition sending :: "kcfg \<Rightarrow> 'a esb_scheme \<Rightarrow> bool" where
  "sending c s \<longleftrightarrow> ptx_inv c s \<and> on_radio_disabled s = OnDisabledTx \<and>
     m_esb_state s = ESB_STATE_PTX_TX_ACK \<and> \<not> selective_auto_ack (esb_cfg s) \<and>
     retransmits_remaining s = ucast (retransmit_count (esb_cfg s)) \<and>
     on_air s = (pl_pipe (hd (tx_queue s)), pdu_of (hd (tx_queue s)))"

lemma sending_start:
  assumes "ptx_inv c s" "\<not> selective_auto_ack (esb_cfg s)" "tx_queue s \<noteq> []"
  shows "sending c (start_tx_transaction s)"
proof -
  have "0 < rcount (tx_fifo s)" using assms(3) rcount_0_iff [of "tx_fifo s"] by simp
  then have "ring_head (tx_fifo s) = hd (tx_queue s)"
    using assms(1) ring_head_list [of "ESB_TX_FIFO_SIZE c" "tx_fifo s"] by (simp add: ptx_inv_def)
  moreover have "radio_txaddress (start_tx_transaction s) = pl_pipe (ring_head (tx_fifo s))"
    by (simp add: start_tx_transaction_def Let_def)
  ultimately show ?thesis
    using assms(1,2) start_tx_ack [of s] ptx_inv_start_tx [of c s] start_tx_frames [of s]
    by (simp add: sending_def on_air_def pdu_of_def Let_def)
qed

lemma receive_ack_frames:
  "tx_fifo (receive_ack_payload c p rssi s) = tx_fifo s"
  "esb_cfg (receive_ack_payload c p rssi s) = esb_cfg s"
  "int_tx_success (receive_ack_payload c p rssi s) = int_tx_success s"
  "int_tx_failed (receive_ack_payload c p rssi s) = int_tx_failed s"
  by (simp_all add: receive_ack_payload_def rx_fifo_push_rfbuf_def)

lemma answered_step:
  assumes "on_radio_disabled s = OnDisabledTx" "ptx_inv c s" "\<not> selective_auto_ack (esb_cfg s)"
    and "s' = answered c p rssi s"
  shows "tx_queue s' = tl (tx_queue s)" "int_tx_success s'" "int_tx_failed s' = int_tx_failed s"
    "esb_cfg s' = esb_cfg s"
    "if tl (tx_queue s) = [] then m_esb_state s' = ESB_STATE_IDLE \<and> ptx_inv c s' else sending c s'"
proof -
  define t where "t = receive_ack_payload c p rssi (tx_fifo_remove_last c
      (s\<lparr>on_radio_disabled := OnDisabledTxWaitForAck, m_esb_state := ESB_STATE_PTX_RX_ACK, int_tx_success := True,
         last_tx_attempts := ucast (retransmit_count (esb_cfg s)) - retransmits_remaining s + 1\<rparr>))"
  have s': "s' = next_transaction t"
    using assms(1,4) by (simp add: answered_def radio_irq_handler_def on_radio_disabled_tx_def
        on_radio_disabled_tx_wait_for_ack_def t_def)
  have "ptx_inv c (s\<lparr>on_radio_disabled := OnDisabledTxWaitForAck, m_esb_state := ESB_STATE_PTX_RX_ACK,
      int_tx_success := True, last_tx_attempts := n\<rparr>)" for n
    using assms(2) by (simp add: ptx_inv_def)
  then have inv: "ptx_inv c t" unfolding t_def by (intro ptx_inv_receive_ack ptx_inv_remove_last)
  have t: "tx_queue t = tl (tx_queue s)" "esb_cfg t = esb_cfg s" "int_tx_success t"
    "int_tx_failed t = int_tx_failed s" "tx_mode (esb_cfg t) = ESB_TXMODE_AUTO"
    using assms(2) by (simp_all add: t_def receive_ack_frames tx_fifo_remove_last_def ring_list_pop ptx_inv_def)
  have e: "tl (tx_queue s) = [] \<longleftrightarrow> rcount (tx_fifo t) = 0" using t(1) rcount_0_iff by metis
  show "tx_queue s' = tl (tx_queue s)" "int_tx_success s'" "int_tx_failed s' = int_tx_failed s"
    "esb_cfg s' = esb_cfg s"
    using t start_tx_frames [of t] by (simp_all add: s' next_transaction_def)
  show "if tl (tx_queue s) = [] then m_esb_state s' = ESB_STATE_IDLE \<and> ptx_inv c s' else sending c s'"
    using e t inv assms(3) ptx_inv_idle [OF inv] sending_start [OF inv] rcount_0_iff [of "tx_fifo t"]
    by (simp add: s' next_transaction_def)
qed

lemma unanswered_sending:
  assumes "sending c s" "i \<le> unat (retransmit_count (esb_cfg s))"
  shows "(unanswered c ^^ i) s = s\<lparr>retransmits_remaining := retransmits_remaining s - of_nat i\<rparr>"
proof -
  have "i \<le> unat (retransmits_remaining s)"
    using assms unsigned_less [of "retransmit_count (esb_cfg s)", where 'a = nat]
    by (simp add: sending_def unsigned_ucast_eq take_bit_eq_mod)
  then show ?thesis using assms(1) by (intro unanswered_many) (simp_all add: sending_def)
qed

lemma delivered_sends:
  assumes "sending c s" "k \<le> unat (retransmit_count (esb_cfg s))"
  shows "map (\<lambda>i. on_air ((unanswered c ^^ i) s)) [0..<Suc k] =
    replicate (Suc k) (pl_pipe (hd (tx_queue s)), pdu_of (hd (tx_queue s)))"
proof (rule replicate_eqI)
  show "length (map (\<lambda>i. on_air ((unanswered c ^^ i) s)) [0..<Suc k]) = Suc k" by simp
  fix y assume "y \<in> set (map (\<lambda>i. on_air ((unanswered c ^^ i) s)) [0..<Suc k])"
  then obtain i where i: "i \<le> k" "y = on_air ((unanswered c ^^ i) s)"
    by (auto simp: less_Suc_eq_le simp del: upt_Suc)
  have "y = on_air s" using unanswered_sending [OF assms(1), of i] assms(2) i by (simp add: on_air_def)
  then show "y = (pl_pipe (hd (tx_queue s)), pdu_of (hd (tx_queue s)))" using assms(1) by (simp add: sending_def)
qed

lemma delivered_step:
  assumes "sending c s" "k \<le> unat (retransmit_count (esb_cfg s))" "s' = delivered c p rssi k s"
  shows "tx_queue s' = tl (tx_queue s)" "int_tx_success s'" "int_tx_failed s' = int_tx_failed s"
    "esb_cfg s' = esb_cfg s"
    "if tl (tx_queue s) = [] then m_esb_state s' = ESB_STATE_IDLE \<and> ptx_inv c s' else sending c s'"
proof -
  let ?u = "s\<lparr>retransmits_remaining := retransmits_remaining s - of_nat k\<rparr>"
  have "on_radio_disabled ?u = OnDisabledTx" "ptx_inv c ?u" "\<not> selective_auto_ack (esb_cfg ?u)"
    "s' = answered c p rssi ?u"
    using assms(1,3) by (simp_all add: sending_def delivered_def unanswered_sending [OF assms(1,2)])
  from answered_step [OF this]
  show "tx_queue s' = tl (tx_queue s)" "int_tx_success s'" "int_tx_failed s' = int_tx_failed s"
    "esb_cfg s' = esb_cfg s"
    "if tl (tx_queue s) = [] then m_esb_state s' = ESB_STATE_IDLE \<and> ptx_inv c s' else sending c s'"
    by simp_all
qed

section \<open>The whole queue\<close>

lemma queue_drains:
  assumes "sending c s" "length ks = length (tx_queue s)" "ks \<noteq> []"
    "\<forall>k \<in> set ks. k \<le> unat (retransmit_count (esb_cfg s))" "\<not> int_tx_failed s"
  shows "(let s' = fold (delivered c p rssi) ks s in tx_queue s' = [] \<and> m_esb_state s' = ESB_STATE_IDLE \<and>
    ptx_inv c s' \<and> int_tx_success s' \<and> \<not> int_tx_failed s') \<and>
    transmitted c p rssi ks s = concat (map2 (\<lambda>k x. replicate (Suc k) (pl_pipe x, pdu_of x)) ks (tx_queue s))"
  using assms
proof (induction ks arbitrary: s)
  case (Cons k ks)
  let ?s = "delivered c p rssi k s"
  note d = delivered_step [OF Cons.prems(1) _ refl, of k p rssi] and t = delivered_sends [OF Cons.prems(1), of k]
  have k: "k \<le> unat (retransmit_count (esb_cfg s))" using Cons.prems(4) by simp
  obtain x xs where q: "tx_queue s = x # xs" using Cons.prems(2) by (cases "tx_queue s") auto
  show ?case
  proof (cases "ks = []")
    case True
    then have "xs = []" using Cons.prems(2) q by auto
    with True d [OF k] t [OF k] q Cons.prems(5) show ?thesis by (simp add: Let_def del: upt_Suc)
  next
    case False
    then have "xs \<noteq> []" "length ks = length (tx_queue ?s)"
      using Cons.prems(2) d(1) [OF k] q by auto
    with Cons.IH [of ?s] False d [OF k] t [OF k] q Cons.prems show ?thesis by (simp add: Let_def del: upt_Suc)
  qed
qed simp

text \<open>
  C25. On a link that loses at most the retransmission budget of each packet, the transmit FIFO
  drains: however many of the attempts of each queued packet go unanswered, as long as one of
  its \<open>retransmit_count + 1\<close> is answered, what goes on the air, without being asked for again, is every queued packet
  in turn, to its own pipe and once more than it went unanswered; the transmitter then is idle with an empty FIFO and
  reports only success.
\<close>

theorem esb_queue_drains:
  assumes "ptx_inv c s" "\<not> selective_auto_ack (esb_cfg s)" "tx_queue s \<noteq> []" "\<not> int_tx_failed s"
    and "length ks = length (tx_queue s)" "\<forall>k \<in> set ks. k \<le> unat (retransmit_count (esb_cfg s))"
  shows "let s' = fold (delivered c p rssi) ks (start_tx_transaction s)
    in tx_queue s' = [] \<and> m_esb_state s' = ESB_STATE_IDLE \<and> ptx_inv c s' \<and>
       int_tx_success s' \<and> \<not> int_tx_failed s' \<and>
       transmitted c p rssi ks (start_tx_transaction s) =
         concat (map2 (\<lambda>k x. replicate (Suc k) (pl_pipe x, pdu_of x)) ks (tx_queue s))"
proof -
  have "length ks = length (tx_queue (start_tx_transaction s))" "ks \<noteq> []"
    using assms(3,5) start_tx_frames [of s] by (auto simp: rcount_0_iff)
  moreover have "\<forall>k \<in> set ks. k \<le> unat (retransmit_count (esb_cfg (start_tx_transaction s)))"
    "\<not> int_tx_failed (start_tx_transaction s)"
    using assms(4,6) start_tx_frames [of s] by simp_all
  ultimately show ?thesis
    using queue_drains [OF sending_start [OF assms(1-3)], of ks p rssi] start_tx_frames(1) [of s] by (simp add: Let_def)
qed

definition queued_example :: esb where
  "queued_example = esb_example\<lparr>tx_fifo := \<lparr>rslots = [pkt_example [1], pkt_example [2]] @ replicate 6 empty_payload,
     rback = 2, rfront = 0, rcount = 2\<rparr>\<rparr>"

theorem esb_queue_drains_witness:
  "\<exists>p. tx_queue (fold (delivered default_kcfg p 0) [0, 3] (start_tx_transaction queued_example)) = [] \<and>
     map (pdu_data \<circ> snd) (transmitted default_kcfg p 0 [0, 3] (start_tx_transaction queued_example)) =
       [[1], [2], [2], [2], [2]]"
proof -
  let ?p = "\<lparr>pdu_pid = 0, pdu_no_ack = True, pdu_data = []\<rparr>"
  have e: "ptx_inv default_kcfg queued_example" "\<not> selective_auto_ack (esb_cfg queued_example)"
    "\<not> int_tx_failed queued_example" "retransmit_count (esb_cfg queued_example) = 5"
    by (simp_all add: queued_example_def ptx_inv_def esb_example_def ptx_config_def ring_wf_def)
  have q: "tx_queue queued_example = [pkt_example [1], pkt_example [2]]"
    by (simp add: queued_example_def ring_list_def upt_conv_Cons)
  have r: "replicate 3 y = [y, y, y]" for y :: "u8 list" by (simp add: numeral_eq_Suc)
  have "tx_queue (fold (delivered default_kcfg ?p 0) [0, 3] (start_tx_transaction queued_example)) = [] \<and>
    transmitted default_kcfg ?p 0 [0, 3] (start_tx_transaction queued_example) =
      concat (map2 (\<lambda>k x. replicate (Suc k) (pl_pipe x, pdu_of x)) [0, 3] (tx_queue queued_example))"
    using esb_queue_drains [OF e(1,2) _ e(3), of "[0, 3]" ?p 0] by (simp add: q e(4) Let_def del: transmitted.simps)
  then show ?thesis
    by (intro exI [of _ ?p]) (simp add: q r pdu_of_def pkt_example_def del: transmitted.simps)
qed

end
