(* ===== verification/Air.thy ===== *)
theory Air
  imports Dongle EsbProgress HidRelay
begin

text \<open>
  Endpoint and dongle on the air: the radio library of \<open>vendor/nrf-esb/subsys/esb.c\<close> as transmitter and
  as receiver, with a medium between them that may lose any packet and any acknowledgement. \<open>crc\<close> is
  the checksum the radio hardware computes over a packet and its address.
\<close>

section \<open>One attempt\<close>

text \<open>
  The transmitter's packet is out; if it is heard and a receiver answers it, the answer is on the air
  and the receiver listens again; the transmitter has the answer unless that is lost too.
\<close>

definition exchange ::
    "kcfg \<Rightarrow> (u8 \<Rightarrow> esb_pdu \<Rightarrow> u16) \<Rightarrow> bool \<Rightarrow> bool \<Rightarrow> i8 \<Rightarrow> i8 \<Rightarrow> 'a esb_scheme \<Rightarrow> 'b esb_scheme \<Rightarrow>
     'a esb_scheme \<times> 'b esb_scheme" where
  "exchange c crc heard acked rssi ack_rssi p r =
     (let pipe = radio_txaddress p;
          pdu = tx_payload_buffer p;
          p = radio_irq_handler c None 0 0 0 p;
          r = (if heard then radio_irq_handler c (Some pdu) rssi (unat pipe) (crc pipe pdu) r else r);
          answered = (heard \<and> m_esb_state r = ESB_STATE_PRX_SEND_ACK);
          ack = (if answered \<and> acked then Some (tx_payload_buffer r) else None);
          r = (if answered then radio_irq_handler c None 0 0 0 r else r)
      in (radio_irq_handler c ack ack_rssi 0 0 p, r))"

section \<open>Runs\<close>

text \<open>
  \<open>air_run c crc p0 r0 p r sent got\<close>: transmitter and receiver get from \<open>p0\<close>, \<open>r0\<close> to \<open>p\<close>, \<open>r\<close>; \<open>sent\<close> are
  the packets written meanwhile, with the packet ids they got, \<open>got\<close> the packets the dongle's event handler has
  read. The transmitter writes, retunes, reads and clears its interrupts at any time, an attempt may be lost in
  either direction, and the dongle's event interrupt runs when it does.
\<close>

inductive air_run ::
    "kcfg \<Rightarrow> (u8 \<Rightarrow> esb_pdu \<Rightarrow> u16) \<Rightarrow> 'a esb_scheme \<Rightarrow> 'b dongle_scheme \<Rightarrow>
     'a esb_scheme \<Rightarrow> 'b dongle_scheme \<Rightarrow> esb_payload list \<Rightarrow> esb_payload list \<Rightarrow> bool"
  for c crc p0 r0 where
  start: "air_run c crc p0 r0 p0 r0 [] []"
| writes: "air_run c crc p0 r0 p r sent got \<Longrightarrow> \<not> pl_noack x \<Longrightarrow> esb_write_payload c x p = (None, p') \<Longrightarrow>
    air_run c crc p0 r0 p' r (sent @ [x\<lparr>pl_pid := next_pid (pl_pipe x) p\<rparr>]) got"
| attempt: "air_run c crc p0 r0 p r sent got \<Longrightarrow> on_radio_disabled p = OnDisabledTx \<Longrightarrow>
    exchange c crc heard acked rssi ack_rssi p r = (p', r') \<Longrightarrow> air_run c crc p0 r0 p' r' sent got"
| retune: "air_run c crc p0 r0 p r sent got \<Longrightarrow> air_run c crc p0 r0 (snd (esb_set_rf_channel ch p)) r sent got"
| recount: "air_run c crc p0 r0 p r sent got \<Longrightarrow>
    air_run c crc p0 r0 (snd (esb_set_retransmit_count n p)) r sent got"
| reads: "air_run c crc p0 r0 p r sent got \<Longrightarrow> air_run c crc p0 r0 (snd (esb_read_rx_payload c p)) r sent got"
| clears: "air_run c crc p0 r0 p r sent got \<Longrightarrow> air_run c crc p0 r0 (snd (get_and_clear_irqs p)) r sent got"
| event: "air_run c crc p0 r0 p r sent got \<Longrightarrow>
    air_run c crc p0 r0 p (esb_evt_irq_handler (dongle_evt_handler c) r) sent
      (got @ (if int_rx_received r then rx_queue r else []))"

section \<open>The transmitter between two steps\<close>

definition packet_ok :: "kcfg \<Rightarrow> esb_payload \<Rightarrow> bool" where
  "packet_ok c x \<longleftrightarrow> \<not> pl_noack x \<and> unat (pl_pipe x) < ESB_PIPE_COUNT \<and>
     length (pl_data x) \<le> ESB_MAX_PAYLOAD_LENGTH c"

definition tx_ok :: "kcfg \<Rightarrow> 'a esb_scheme \<Rightarrow> bool" where
  "tx_ok c p \<longleftrightarrow> ptx_inv c p \<and> length (esb_pids p) = ESB_PIPE_COUNT \<and> (\<forall>x \<in> set (tx_queue p). packet_ok c x) \<and>
     (on_radio_disabled p = OnDisabledTx \<longrightarrow> tx_queue p \<noteq> [] \<and>
        tx_payload_buffer p = pdu_of (hd (tx_queue p)) \<and> radio_txaddress p = pl_pipe (hd (tx_queue p)))"

lemma tx_ok_start:
  assumes "ptx_inv c p" "length (esb_pids p) = ESB_PIPE_COUNT" "\<forall>x \<in> set (tx_queue p). packet_ok c x" "tx_queue p \<noteq> []"
  shows "tx_ok c (start_tx_transaction p)"
proof -
  have "0 < rcount (tx_fifo p)" using assms(4) rcount_0_iff by blast
  with assms ring_head_list [of "ESB_TX_FIFO_SIZE c" "tx_fifo p"] ptx_inv_start_tx [OF assms(1)] show ?thesis
    by (auto simp: tx_ok_def pdu_of_def ptx_inv_def start_tx_transaction_def Let_def)
qed

lemma tx_ok_keep:
  assumes "tx_ok c p" "ptx_inv c p'" "tx_queue p' = tx_queue p" "esb_pids p' = esb_pids p"
    "on_radio_disabled p' = on_radio_disabled p" "tx_payload_buffer p' = tx_payload_buffer p"
    "radio_txaddress p' = radio_txaddress p"
  shows "tx_ok c p'"
  using assms by (simp add: tx_ok_def)

lemma tx_ok_write:
  assumes "tx_ok c p" "\<not> pl_noack x" "esb_write_payload c x p = (None, p')"
  shows "tx_ok c p'" "tx_queue p' = tx_queue p @ [x\<lparr>pl_pid := next_pid (pl_pipe x) p\<rparr>]"
    "esb_pids p' = (esb_pids p)[unat (pl_pipe x) := next_pid (pl_pipe x) p]" "unat (pl_pipe x) < ESB_PIPE_COUNT"
proof -
  have inv: "ptx_inv c p" using assms(1) by (simp add: tx_ok_def)
  note w = write_ptx [OF inv assms(3)]
  let ?x = "x\<lparr>pl_pid := next_pid (pl_pipe x) p\<rparr>"
  show q: "tx_queue p' = tx_queue p @ [?x]" using w(3) by simp
  have x: "packet_ok c ?x" and pipe: "unat (pl_pipe x) < ESB_PIPE_COUNT"
    using w(1) assms(2) by (auto simp: packet_ok_def split: if_splits)
  show "unat (pl_pipe x) < ESB_PIPE_COUNT" by (rule pipe)
  define s1 where "s1 = p\<lparr>esb_pids := (esb_pids p)[unat (pl_pipe x) := next_pid (pl_pipe x) p],
    tx_fifo := ring_push (ESB_TX_FIFO_SIZE c) ?x (tx_fifo p)\<rparr>"
  have p': "p' = (if m_esb_state p = ESB_STATE_IDLE \<or> m_esb_state p = ESB_STATE_PTX_TXIDLE
                  then start_tx_transaction s1 else s1)"
    using assms(3) inv by (auto simp: esb_write_payload_def s1_def ptx_inv_def Let_def split: if_splits)
  show pids: "esb_pids p' = (esb_pids p)[unat (pl_pipe x) := next_pid (pl_pipe x) p]"
    unfolding p' using start_tx_frames(9) [of s1] by (simp add: s1_def)
  have all: "\<forall>y \<in> set (tx_queue p'). packet_ok c y"
    using assms(1) x by (auto simp: q tx_ok_def)
  have inv': "ptx_inv c p'" by (rule w(2))
  have len: "length (esb_pids p') = ESB_PIPE_COUNT" using assms(1) by (simp add: pids tx_ok_def)
  show "tx_ok c p'"
  proof (cases "m_esb_state p = ESB_STATE_IDLE \<or> m_esb_state p = ESB_STATE_PTX_TXIDLE")
    case True
    have q1: "tx_queue s1 = tx_queue p'" using True p' start_tx_frames(1) [of s1] by simp
    have "ptx_inv c s1"
      using inv assms(3) by (auto simp: s1_def ptx_inv_def ring_wf_push esb_write_payload_def split: if_splits)
    moreover have "length (esb_pids s1) = ESB_PIPE_COUNT" using assms(1) by (simp add: s1_def tx_ok_def)
    ultimately have "tx_ok c (start_tx_transaction s1)"
      by (rule tx_ok_start) (use all q q1 in \<open>simp_all\<close>)
    then show ?thesis using True p' by simp
  next
    case False
    then have "p' = s1" using p' by simp
    then have same: "on_radio_disabled p' = on_radio_disabled p" "tx_payload_buffer p' = tx_payload_buffer p"
      "radio_txaddress p' = radio_txaddress p" by (simp_all add: s1_def)
    then show ?thesis using assms(1) inv' len all by (simp add: tx_ok_def q hd_append)
  qed
qed

lemma tx_ok_api:
  assumes "tx_ok c p"
  shows "tx_ok c (snd (esb_set_rf_channel ch p))" "tx_ok c (snd (esb_set_retransmit_count n p))"
    "tx_ok c (snd (esb_read_rx_payload c p))" "tx_ok c (snd (get_and_clear_irqs p))"
proof -
  have inv: "ptx_inv c p" using assms by (simp add: tx_ok_def)
  show "tx_ok c (snd (esb_set_rf_channel ch p))"
    by (rule tx_ok_keep [OF assms ptx_inv_api(5) [OF inv]]; simp add: esb_set_rf_channel_def)
  show "tx_ok c (snd (esb_set_retransmit_count n p))" "tx_ok c (snd (get_and_clear_irqs p))"
    using assms by (simp_all add: tx_ok_def ptx_inv_def esb_set_retransmit_count_def get_and_clear_irqs_def)
  show "tx_ok c (snd (esb_read_rx_payload c p))"
    by (rule tx_ok_keep [OF assms ptx_inv_api(3) [OF inv]]; simp add: esb_read_rx_payload_def)
qed

lemma api_frames:
  "tx_queue (snd (esb_set_rf_channel ch p)) = tx_queue p" "esb_pids (snd (esb_set_rf_channel ch p)) = esb_pids p"
  "tx_queue (snd (esb_set_retransmit_count n p)) = tx_queue p"
  "esb_pids (snd (esb_set_retransmit_count n p)) = esb_pids p"
  "tx_queue (snd (esb_read_rx_payload c p)) = tx_queue p" "esb_pids (snd (esb_read_rx_payload c p)) = esb_pids p"
  "tx_queue (snd (get_and_clear_irqs p)) = tx_queue p" "esb_pids (snd (get_and_clear_irqs p)) = esb_pids p"
  by (simp_all add: esb_set_rf_channel_def esb_set_retransmit_count_def esb_read_rx_payload_def
      get_and_clear_irqs_def)

lemma tx_ok_unanswered:
  assumes "tx_ok c p" "on_radio_disabled p = OnDisabledTx"
    and "p' = radio_irq_handler c None rssi 0 0 (radio_irq_handler c None 0 0 0 p)"
  shows "tx_ok c p'" "tx_queue p' = tx_queue p" "esb_pids p' = esb_pids p"
proof -
  have p': "p' = on_radio_disabled_tx_wait_for_ack c None rssi (on_radio_disabled_tx p)"
    using assms(2,3) by (simp add: radio_irq_handler_def on_radio_disabled_tx_def)
  show "tx_ok c p'" "tx_queue p' = tx_queue p" "esb_pids p' = esb_pids p"
    using assms(1,2) unfolding p'
    by (auto simp: tx_ok_def ptx_inv_def on_radio_disabled_tx_wait_for_ack_def on_radio_disabled_tx_def)
qed

lemma tx_ok_answered:
  assumes "tx_ok c p" "on_radio_disabled p = OnDisabledTx"
    and "p' = radio_irq_handler c (Some ack) rssi 0 0 (radio_irq_handler c None 0 0 0 p)"
  shows "tx_ok c p'" "tx_queue p' = tl (tx_queue p)" "esb_pids p' = esb_pids p"
proof -
  define t where "t = receive_ack_payload c ack rssi (tx_fifo_remove_last c
      (p\<lparr>on_radio_disabled := OnDisabledTxWaitForAck, m_esb_state := ESB_STATE_PTX_RX_ACK, int_tx_success := True,
         last_tx_attempts := ucast (retransmit_count (esb_cfg p)) - retransmits_remaining p + 1\<rparr>))"
  have p': "p' = next_transaction t"
    using assms(2,3) by (simp add: radio_irq_handler_def on_radio_disabled_tx_def
        on_radio_disabled_tx_wait_for_ack_def t_def)
  have ok: "ptx_inv c p" "\<forall>x \<in> set (tx_queue p). packet_ok c x" "length (esb_pids p) = ESB_PIPE_COUNT"
    using assms(1) by (simp_all add: tx_ok_def)
  have "ptx_inv c (p\<lparr>on_radio_disabled := OnDisabledTxWaitForAck, m_esb_state := ESB_STATE_PTX_RX_ACK,
      int_tx_success := True, last_tx_attempts := n\<rparr>)" for n
    using ok(1) by (simp add: ptx_inv_def)
  then have inv: "ptx_inv c t" unfolding t_def by (intro ptx_inv_receive_ack ptx_inv_remove_last)
  have t: "tx_queue t = tl (tx_queue p)" "esb_pids t = esb_pids p"
    "on_radio_disabled t = OnDisabledTxWaitForAck"
    using ok(1) by (simp_all add: t_def receive_ack_frames tx_fifo_remove_last_def ring_list_pop ptx_inv_def)
     (simp_all add: receive_ack_payload_def rx_fifo_push_rfbuf_def tx_fifo_remove_last_def)
  have all: "\<forall>x \<in> set (tx_queue t). packet_ok c x" using ok(2) t(1) by (metis list.set_sel(2) tl_Nil)
  show "tx_queue p' = tl (tx_queue p)" "esb_pids p' = esb_pids p"
    using t start_tx_frames [of t] by (simp_all add: p' next_transaction_def)
  show "tx_ok c p'"
  proof (cases "tx_queue t = []")
    case True
    then have "p' = t\<lparr>m_esb_state := ESB_STATE_IDLE\<rparr>" by (simp add: p' next_transaction_def rcount_0_iff)
    then show ?thesis using ptx_inv_idle [OF inv] t ok True by (simp add: tx_ok_def)
  next
    case False
    moreover have "tx_mode (esb_cfg t) = ESB_TXMODE_AUTO" using inv by (simp add: ptx_inv_def)
    ultimately have "p' = start_tx_transaction t" by (simp add: p' next_transaction_def rcount_0_iff)
    then show ?thesis using tx_ok_start [OF inv _ all False] t(2) ok(3) by simp
  qed
qed

section \<open>What the dongle does with a packet\<close>

text \<open>
  The dongle's program without its radio: the pairing state, the keyboard it knows and the reports for
  USB. \<open>app_step\<close> is what a packet means to it.
\<close>

record dongle_app =
  da_state :: dongle_state
  da_peer :: "u8 list"
  da_has_peer :: bool
  da_usb :: "u8 list list"

definition app_of :: "'a dongle_scheme \<Rightarrow> dongle_app" where
  "app_of s = \<lparr>da_state = d_state s, da_peer = d_peer_id s, da_has_peer = d_has_peer s, da_usb = usb_out s\<rparr>"

text \<open>The USB reports of a HID packet.\<close>

definition usb_of :: "u8 list \<Rightarrow> u8 list list" where
  "usb_of bs =
     (if length bs < 2 then []
      else if bs ! 1 = ESB_REPORT_KEYBOARD then [usb_report 1 8 (drop 2 bs)]
      else if bs ! 1 = ESB_REPORT_CONSUMER then [usb_report 2 2 (drop 2 bs)]
      else if bs ! 1 = ESB_REPORT_MOUSE then [usb_report 3 6 (drop 2 bs)]
      else [])"

definition app_step :: "u8 list \<Rightarrow> dongle_app \<Rightarrow> dongle_app" where
  "app_step bs a =
     (if bs = [] then a
      else if hd bs = ESB_PKT_HID_REPORT \<and> da_state a \<in> {DONGLE_CONNECTED, DONGLE_VERIFYING}
      then a\<lparr>da_usb := da_usb a @ usb_of bs\<rparr>
      else if hd bs = ESB_PKT_BEACON \<and> sizeof_beacon \<le> length bs \<and> da_state a = DONGLE_LISTENING
      then a\<lparr>da_peer := pkt_device_id bs, da_has_peer := True, da_state := DONGLE_PAIRING\<rparr>
      else if hd bs = ESB_PKT_PAIR_RESP \<and> sizeof_beacon \<le> length bs \<and> da_state a = DONGLE_PAIRING
      then a\<lparr>da_state := DONGLE_CONNECTED\<rparr>
      else if hd bs = ESB_PKT_VERIFY_REQ \<and> sizeof_id_pkt \<le> length bs \<and> da_has_peer a \<and>
        pkt_device_id bs = da_peer a
      then a\<lparr>da_state := DONGLE_VERIFYING\<rparr>
      else if hd bs = ESB_PKT_DISCONNECT then a\<lparr>da_state := DONGLE_LISTENING\<rparr>
      else a)"

text \<open>The receiver while the dongle runs.\<close>

definition rx_view where
  "rx_view r = (esb_initialized r, cfg_mode (esb_cfg r), selective_auto_ack (esb_cfg r), rx_fifo r, rx_pipe_info r,
     m_esb_state r, on_radio_disabled r, int_rx_received r)"

lemma ack_write:
  assumes "cfg_mode (esb_cfg s) = ESB_MODE_PRX"
  shows "rx_view (dongle_ack c pipe pkt s) = rx_view s" "app_of (dongle_ack c pipe pkt s) = app_of s"
    "m_my_device_id (dongle_ack c pipe pkt s) = m_my_device_id s"
  using assms by (simp_all add: dongle_ack_def esb_write_payload_def rx_view_def app_of_def Let_def split: option.split)

lemma packet_frames:
  assumes "cfg_mode (esb_cfg s) = ESB_MODE_PRX"
  shows "rx_view (dongle_packet c x s) = rx_view s"
proof -
  have u: "rx_view (s\<lparr>d_state := st\<rparr>) = rx_view s" "rx_view (s\<lparr>d_peer_id := i, d_has_peer := b\<rparr>) = rx_view s"
    "rx_view (send_hid_report bs s) = rx_view s" for st i b bs and s :: "'a dongle_scheme"
    by (simp_all add: rx_view_def send_hid_report_def)
  show ?thesis
    using assms by (simp add: dongle_packet_def on_beacon_def on_hid_report_def on_verify_req_def forward_keyboard_def
        forward_consumer_def forward_mouse_def u ack_write Let_def)
qed

lemma handler_app:
  "app_of (on_hid_report bs s) =
     (if d_state s \<in> {DONGLE_CONNECTED, DONGLE_VERIFYING} then (app_of s)\<lparr>da_usb := usb_out s @ usb_of bs\<rparr> else app_of s)"
  "cfg_mode (esb_cfg s) = ESB_MODE_PRX \<Longrightarrow> app_of (on_beacon c pipe bs s) =
     (if sizeof_beacon \<le> length bs \<and> d_state s = DONGLE_LISTENING
      then (app_of s)\<lparr>da_peer := pkt_device_id bs, da_has_peer := True, da_state := DONGLE_PAIRING\<rparr> else app_of s)"
  "cfg_mode (esb_cfg s) = ESB_MODE_PRX \<Longrightarrow> app_of (on_verify_req c pipe bs s) =
     (if sizeof_id_pkt \<le> length bs \<and> d_has_peer s \<and> pkt_device_id bs = d_peer_id s
      then (app_of s)\<lparr>da_state := DONGLE_VERIFYING\<rparr> else app_of s)"
proof -
  show "app_of (on_hid_report bs s) =
     (if d_state s \<in> {DONGLE_CONNECTED, DONGLE_VERIFYING} then (app_of s)\<lparr>da_usb := usb_out s @ usb_of bs\<rparr> else app_of s)"
    by (simp add: on_hid_report_def usb_of_def app_of_def forward_keyboard_def forward_consumer_def forward_mouse_def
        send_hid_report_def pkt_byte_def Let_def)
  assume prx: "cfg_mode (esb_cfg s) = ESB_MODE_PRX"
  have d: "app_of (s\<lparr>d_state := st\<rparr>) = (app_of s)\<lparr>da_state := st\<rparr>"
    "app_of (s\<lparr>d_peer_id := i, d_has_peer := b\<rparr>) = (app_of s)\<lparr>da_peer := i, da_has_peer := b\<rparr>"
    for st i b and s :: "'a dongle_scheme" by (simp_all add: app_of_def)
  show "app_of (on_beacon c pipe bs s) =
     (if sizeof_beacon \<le> length bs \<and> d_state s = DONGLE_LISTENING
      then (app_of s)\<lparr>da_peer := pkt_device_id bs, da_has_peer := True, da_state := DONGLE_PAIRING\<rparr> else app_of s)"
    using prx by (simp add: on_beacon_def d ack_write Let_def)
  show "app_of (on_verify_req c pipe bs s) =
     (if sizeof_id_pkt \<le> length bs \<and> d_has_peer s \<and> pkt_device_id bs = d_peer_id s
      then (app_of s)\<lparr>da_state := DONGLE_VERIFYING\<rparr> else app_of s)"
    using prx by (simp add: on_verify_req_def d ack_write)
qed

lemma packet_app:
  assumes "cfg_mode (esb_cfg s) = ESB_MODE_PRX"
  shows "app_of (dongle_packet c x s) = app_step (pl_data x) (app_of s)"
proof (cases "pl_data x")
  case Nil
  then show ?thesis by (simp add: dongle_packet_def app_step_def Let_def)
next
  case (Cons b bs)
  have a: "da_state (app_of s) = d_state s" "da_peer (app_of s) = d_peer_id s" "da_has_peer (app_of s) = d_has_peer s"
    "da_usb (app_of s) = usb_out s" by (simp_all add: app_of_def)
  have d: "app_of (s\<lparr>d_state := st\<rparr>) = (app_of s)\<lparr>da_state := st\<rparr>" for st by (simp add: app_of_def)
  consider (beacon) "b = ESB_PKT_BEACON" | (resp) "b = ESB_PKT_PAIR_RESP" | (hid) "b = ESB_PKT_HID_REPORT"
    | (verify) "b = ESB_PKT_VERIFY_REQ" | (bye) "b = ESB_PKT_DISCONNECT"
    | (other) "b \<notin> {ESB_PKT_BEACON, ESB_PKT_PAIR_RESP, ESB_PKT_HID_REPORT, ESB_PKT_VERIFY_REQ, ESB_PKT_DISCONNECT}"
    by blast
  then show ?thesis
    by cases (simp_all add: dongle_packet_def app_step_def Cons pkt_type_def pkt_consts handler_app assms a d Let_def)
qed

text \<open>The receiver between two steps: set up, listening, its FIFO well formed and announced.\<close>

definition rx_ok :: "kcfg \<Rightarrow> 'a esb_scheme \<Rightarrow> bool" where
  "rx_ok c r \<longleftrightarrow> esb_initialized r \<and> cfg_mode (esb_cfg r) = ESB_MODE_PRX \<and>
     ring_wf (ESB_RX_FIFO_SIZE c) (rx_fifo r) \<and> length (rx_pipe_info r) = ESB_PIPE_COUNT \<and>
     m_esb_state r = ESB_STATE_PRX \<and> on_radio_disabled r = OnDisabledRx \<and>
     (rx_queue r \<noteq> [] \<longrightarrow> int_rx_received r)"

lemma rx_loop_reads:
  assumes "esb_initialized s" "cfg_mode (esb_cfg s) = ESB_MODE_PRX" "ring_wf (ESB_RX_FIFO_SIZE c) (rx_fifo s)"
    and "n = rcount (rx_fifo s)" "t = dongle_rx_loop c (Suc n) s"
  shows "rx_queue t = [] \<and> app_of t = fold app_step (map pl_data (rx_queue s)) (app_of s) \<and>
    ring_wf (ESB_RX_FIFO_SIZE c) (rx_fifo t) \<and>
    rx_view (t\<lparr>rx_fifo := rx_fifo s\<rparr>) = rx_view s"
  using assms
proof (induction n arbitrary: s)
  case 0
  then show ?case by (simp add: esb_read_rx_payload_def rcount_0_iff)
next
  case (Suc n)
  let ?u = "s\<lparr>rx_fifo := ring_pop (ESB_RX_FIFO_SIZE c) (rx_fifo s)\<rparr>"
  let ?x = "ring_head (rx_fifo s)"
  let ?v = "dongle_packet c ?x ?u"
  have x: "rx_queue s = ?x # rx_queue ?u"
    using Suc.prems(3,4) ring_head_list [of "ESB_RX_FIFO_SIZE c" "rx_fifo s"] rcount_0_iff [of "rx_fifo s"]
    by (simp add: ring_list_pop)
  have v: "rx_view ?v = rx_view ?u" "app_of ?v = app_step (pl_data ?x) (app_of s)"
    using Suc.prems(2) packet_frames [of ?u c ?x] packet_app [of ?u c ?x] by (simp_all add: app_of_def)
  have f: "esb_initialized ?v" "cfg_mode (esb_cfg ?v) = ESB_MODE_PRX" "rx_fifo ?v = rx_fifo ?u"
    using v(1) Suc.prems(1,2) by (simp_all add: rx_view_def)
  have n: "n = rcount (rx_fifo ?v)" "ring_wf (ESB_RX_FIFO_SIZE c) (rx_fifo ?v)"
    unfolding f(3) using Suc.prems(3) ring_wf_pop [OF Suc.prems(3)] Suc.prems(4) [symmetric]
    by (simp_all add: ring_pop_def)
  have "esb_read_rx_payload c s = (Inr ?x, ?u)"
    using Suc.prems(1,4) by (simp add: esb_read_rx_payload_def)
  then have "t = dongle_rx_loop c (Suc n) ?v"
    by (simp only: Suc.prems(5) dongle_rx_loop.simps(2) [of c "Suc n" s] prod.case sum.case)
  from Suc.IH [OF f(1,2) n(2,1) this] x v f(3) show ?case
    by (simp add: rx_view_def)
qed

lemma rx_event:
  assumes "rx_ok c r" "r' = esb_evt_irq_handler (dongle_evt_handler c) r"
  shows "rx_ok c r'" "rx_queue r' = []" "rx_pipe_info r' = rx_pipe_info r"
    "app_of r' = fold app_step (map pl_data (rx_queue r)) (app_of r)"
    "selective_auto_ack (esb_cfg r') = selective_auto_ack (esb_cfg r)"
proof -
  define u where "u = r\<lparr>int_tx_success := False, int_tx_failed := False, int_rx_received := False\<rparr>"
  have r': "r' = (if int_rx_received r then dongle_rx_loop c (Suc (rcount (rx_fifo u))) u else u)"
    by (simp add: assms(2) u_def esb_evt_irq_handler_def get_and_clear_irqs_def dongle_evt_handler_def Let_def
        del: dongle_rx_loop.simps)
  have u: "esb_initialized u" "cfg_mode (esb_cfg u) = ESB_MODE_PRX" "ring_wf (ESB_RX_FIFO_SIZE c) (rx_fifo u)"
    "app_of u = app_of r" "rx_fifo u = rx_fifo r"
    using assms(1) by (simp_all add: u_def rx_ok_def app_of_def)
  note l = rx_loop_reads [OF u(1,2,3) refl refl]
  show "rx_ok c r'" "rx_queue r' = []" "rx_pipe_info r' = rx_pipe_info r"
    "app_of r' = fold app_step (map pl_data (rx_queue r)) (app_of r)"
    "selective_auto_ack (esb_cfg r') = selective_auto_ack (esb_cfg r)"
    using assms(1) l u(4,5) by (auto simp: r' rx_ok_def rx_view_def u_def simp del: dongle_rx_loop.simps)
qed

text \<open>What the radio handlers of the receiver leave alone.\<close>

definition rx_rest where
  "rx_rest r = (esb_initialized r, cfg_mode (esb_cfg r), app_of r)"

lemma answer_parts:
  assumes "pdu_no_ack pdu" "pipe < length (rx_pipe_info r)" "a = answer_packet dup pipe pdu r"
  shows "rx_rest a = rx_rest r" "rx_fifo a = rx_fifo r" "m_esb_state a = ESB_STATE_PRX_SEND_ACK"
    "on_radio_disabled a = OnDisabledRxAck" "int_rx_received a = int_rx_received r"
    "length (rx_pipe_info a) = length (rx_pipe_info r)"
    "pi_pid (rx_pipe_info a ! b) = pi_pid (rx_pipe_info r ! b)"
    "pi_crc (rx_pipe_info a ! b) = pi_crc (rx_pipe_info r ! b)"
  using assms(1,2) unfolding assms(3)
  by (simp_all add: answer_packet_def on_radio_disabled_rx_dpl_def rx_rest_def app_of_def Let_def nth_list_update
      split: option.split)

lemma deliver_parts:
  assumes "rcount (rx_fifo r) < ESB_RX_FIFO_SIZE c" "length (pdu_data pdu) \<le> ESB_MAX_PAYLOAD_LENGTH c"
    "a = deliver_packet c pdu rssi pipe r"
  shows "rx_rest a = rx_rest r" "m_esb_state a = m_esb_state r" "on_radio_disabled a = on_radio_disabled r"
    "int_rx_received a" "rx_pipe_info a = rx_pipe_info r"
  using assms by (simp_all add: deliver_packet_def rx_fifo_push_rfbuf_def rx_rest_def app_of_def)

text \<open>Hearing a packet: a new one is queued, a repeated one is not, both are answered; with a full FIFO nothing happens.\<close>

lemma rx_hears:
  assumes "rx_ok c r" "unat pipe < ESB_PIPE_COUNT" "packet_ok c x"
    and "r1 = radio_irq_handler c (Some (pdu_of x)) rssi (unat pipe) crc r"
    and "r2 = (if m_esb_state r1 = ESB_STATE_PRX_SEND_ACK then radio_irq_handler c None 0 0 0 r1 else r1)"
    and "dup \<longleftrightarrow> crc = pi_crc (rx_pipe_info r ! unat pipe) \<and> pl_pid x = pi_pid (rx_pipe_info r ! unat pipe)"
    and "free \<longleftrightarrow> rcount (rx_fifo r) < ESB_RX_FIFO_SIZE c"
  shows "m_esb_state r1 = ESB_STATE_PRX_SEND_ACK \<longleftrightarrow> free" "rx_ok c r2"
    "app_of r2 = app_of r"
    "rx_queue r2 = rx_queue r @ (if free \<and> \<not> dup then
       [\<lparr>pl_pipe = pipe, pl_noack = False, pl_pid = pl_pid x, pl_rssi = rssi, pl_data = pl_data x\<rparr>] else [])"
    "\<forall>b. pi_pid (rx_pipe_info r2 ! b) = (if free \<and> b = unat pipe then pl_pid x else pi_pid (rx_pipe_info r ! b)) \<and>
       pi_crc (rx_pipe_info r2 ! b) = (if free \<and> b = unat pipe then crc else pi_crc (rx_pipe_info r ! b))"
proof -
  have r: "m_esb_state r = ESB_STATE_PRX" "on_radio_disabled r = OnDisabledRx"
    "length (rx_pipe_info r) = ESB_PIPE_COUNT" "ring_wf (ESB_RX_FIFO_SIZE c) (rx_fifo r)"
    using assms(1) by (simp_all add: rx_ok_def)
  have all: "(m_esb_state r1 = ESB_STATE_PRX_SEND_ACK \<longleftrightarrow> free) \<and> rx_ok c r2 \<and> app_of r2 = app_of r \<and>
    rx_queue r2 = rx_queue r @ (if free \<and> \<not> dup then
       [\<lparr>pl_pipe = pipe, pl_noack = False, pl_pid = pl_pid x, pl_rssi = rssi, pl_data = pl_data x\<rparr>] else []) \<and>
    (\<forall>b. pi_pid (rx_pipe_info r2 ! b) = (if free \<and> b = unat pipe then pl_pid x else pi_pid (rx_pipe_info r ! b)) \<and>
       pi_crc (rx_pipe_info r2 ! b) = (if free \<and> b = unat pipe then crc else pi_crc (rx_pipe_info r ! b)))"
  proof (cases free)
    case False
    then have "r1 = r" using assms(4,7) r(2) by (simp add: radio_irq_handler_def on_radio_disabled_rx_def)
    then show ?thesis using False assms(1,5) r(1) by simp
  next
    case True
    define i where "i = r\<lparr>rx_pipe_info := (rx_pipe_info r)[unat pipe :=
      (rx_pipe_info r ! unat pipe)\<lparr>pi_pid := pl_pid x, pi_crc := crc\<rparr>]\<rparr>"
    define a where "a = answer_packet dup (unat pipe) (pdu_of x) i"
    have want: "pdu_no_ack (pdu_of x)" "length (pdu_data (pdu_of x)) \<le> ESB_MAX_PAYLOAD_LENGTH c"
      using assms(3) by (simp_all add: packet_ok_def pdu_of_def)
    have r1: "r1 = (if dup then a else deliver_packet c (pdu_of x) rssi (unat pipe) a)"
      using assms(4,6,7) r(2) True
      by (simp add: radio_irq_handler_def on_radio_disabled_rx_def Let_def a_def i_def pdu_of_def)
    have i: "unat pipe < length (rx_pipe_info i)" "rx_rest i = rx_rest r" "rx_fifo i = rx_fifo r"
      "int_rx_received i = int_rx_received r"
      using assms(2) r(3) by (simp_all add: i_def rx_rest_def app_of_def)
    note ap = answer_parts [OF want(1) i(1) a_def]
    have free: "rcount (rx_fifo a) < ESB_RX_FIFO_SIZE c" "rcount (rx_fifo r) < ESB_RX_FIFO_SIZE c"
      using True assms(7) ap(2) i(3) by simp_all
    note dp = deliver_parts [OF free(1) want(2) refl, of rssi "unat pipe"]
    note df = deliver_packet_frames(2) [OF free(1) want(2), of rssi "unat pipe"]
    have s1: "m_esb_state r1 = ESB_STATE_PRX_SEND_ACK" "on_radio_disabled r1 = OnDisabledRxAck"
      using ap dp r1 by simp_all
    have r2: "r2 = r1\<lparr>on_radio_disabled := OnDisabledRx, m_esb_state := ESB_STATE_PRX\<rparr>"
      using assms(5) s1 by (simp add: radio_irq_handler_def on_radio_disabled_rx_ack_def)
    have rest: "rx_rest r1 = rx_rest r" "rx_pipe_info r1 = rx_pipe_info a"
      using ap dp i r1 by simp_all
    have q: "rx_queue r1 = rx_queue r @ (if dup then [] else
       [\<lparr>pl_pipe = pipe, pl_noack = False, pl_pid = pl_pid x, pl_rssi = rssi, pl_data = pl_data x\<rparr>])"
      "ring_wf (ESB_RX_FIFO_SIZE c) (rx_fifo r1)" "rx_queue r1 \<noteq> [] \<longrightarrow> int_rx_received r1"
      using r1 ap(2,5) i(3,4) df dp(4) r(4) free(2) assms(1,3)
      by (auto simp: ring_list_push ring_wf_push pdu_of_def packet_ok_def rx_ok_def)
    have "rx_ok c r2"
      using rest q(2,3) ap(6) i(1) r(3) assms(1) by (simp add: rx_ok_def r2 rx_rest_def i_def)
    moreover have "\<forall>b. pi_pid (rx_pipe_info r2 ! b) = (if b = unat pipe then pl_pid x else pi_pid (rx_pipe_info r ! b)) \<and>
       pi_crc (rx_pipe_info r2 ! b) = (if b = unat pipe then crc else pi_crc (rx_pipe_info r ! b))"
      using rest(2) ap(7,8) assms(2) r(3) by (simp add: r2 i_def nth_list_update)
    moreover have "app_of r2 = app_of r" using rest(1) by (simp add: r2 rx_rest_def app_of_def)
    ultimately show ?thesis using True s1(1) q(1) by (simp add: r2)
  qed
  then show "m_esb_state r1 = ESB_STATE_PRX_SEND_ACK \<longleftrightarrow> free" "rx_ok c r2" "app_of r2 = app_of r"
    "rx_queue r2 = rx_queue r @ (if free \<and> \<not> dup then
       [\<lparr>pl_pipe = pipe, pl_noack = False, pl_pid = pl_pid x, pl_rssi = rssi, pl_data = pl_data x\<rparr>] else [])"
    "\<forall>b. pi_pid (rx_pipe_info r2 ! b) = (if free \<and> b = unat pipe then pl_pid x else pi_pid (rx_pipe_info r ! b)) \<and>
       pi_crc (rx_pipe_info r2 ! b) = (if free \<and> b = unat pipe then crc else pi_crc (rx_pipe_info r ! b))"
    by blast+
qed

section \<open>The invariant of a run\<close>

text \<open>The last packet of a pipe in a history, its packet id, and histories whose ids count up on each pipe.\<close>

definition last_on :: "u8 \<Rightarrow> esb_payload list \<Rightarrow> esb_payload option" where
  "last_on b xs = fold (\<lambda>x a. if pl_pipe x = b then Some x else a) xs None"

definition pid_after :: "u8 \<Rightarrow> esb_payload list \<Rightarrow> u8" where
  "pid_after b xs = (case last_on b xs of None \<Rightarrow> 0 | Some x \<Rightarrow> pl_pid x)"

definition pids_count :: "esb_payload list \<Rightarrow> bool" where
  "pids_count xs \<longleftrightarrow> (\<forall>i < length xs.
     pl_pid (xs ! i) = (pid_after (pl_pipe (xs ! i)) (take i xs) + 1) mod (PID_MAX + 1))"

lemma last_on_snoc [simp]:
  "last_on b [] = None" "last_on b (xs @ [x]) = (if pl_pipe x = b then Some x else last_on b xs)"
  by (simp_all add: last_on_def)

lemma pid_after_snoc [simp]:
  "pid_after b [] = 0" "pid_after b (xs @ [x]) = (if pl_pipe x = b then pl_pid x else pid_after b xs)"
  by (simp_all add: pid_after_def)

lemma pids_count_snoc:
  "pids_count [] " "pids_count (xs @ [x]) \<longleftrightarrow>
     pids_count xs \<and> pl_pid x = (pid_after (pl_pipe x) xs + 1) mod (PID_MAX + 1)"
  by (auto simp: pids_count_def nth_append less_Suc_eq)

lemma pids_count_at:
  assumes "pids_count (xs @ x # ys)"
  shows "pl_pid x = (pid_after (pl_pipe x) xs + 1) mod (PID_MAX + 1)"
  using assms [unfolded pids_count_def, rule_format, of "length xs"] by simp

lemma next_pid_differs: "(n + 1) mod (PID_MAX + 1) \<noteq> (n :: u8)"
proof
  assume "(n + 1) mod (PID_MAX + 1) = n"
  then have n: "unat ((n + 1) mod 4) = unat n" by (simp add: PID_MAX_def)
  have "unat ((n + 1) mod 4) = unat (n + 1) mod 4" by (simp add: unat_mod)
  moreover have "unat (n + 1) = (unat n + 1) mod 256" by (simp add: unat_word_ariths)
  ultimately have m: "(unat n + 1) mod 256 mod 4 = unat n" using n by metis
  then have "unat n < 4" by (metis mod_less_divisor zero_less_numeral)
  then have "unat n = 0 \<or> unat n = 1 \<or> unat n = 2 \<or> unat n = 3" by linarith
  then show False using m by auto
qed

lemma same_pipe: "unat a = unat b \<longleftrightarrow> a = (b :: u8)"
  by (simp add: word_unat_eq_iff)

text \<open>What the receiver remembers of the packets it has taken.\<close>

definition remembers :: "(u8 \<Rightarrow> esb_pdu \<Rightarrow> u16) \<Rightarrow> pipe_info list \<Rightarrow> esb_payload list \<Rightarrow> bool" where
  "remembers crc info xs \<longleftrightarrow> (\<forall>b. unat b < ESB_PIPE_COUNT \<longrightarrow>
     pi_pid (info ! unat b) = pid_after b xs \<and>
     (\<forall>x. last_on b xs = Some x \<longrightarrow> pi_crc (info ! unat b) = crc b (pdu_of x)))"

text \<open>What both ends agree on: the pipe and the bytes.\<close>

definition seen :: "esb_payload \<Rightarrow> u8 \<times> u8 list" where
  "seen x = (pl_pipe x, pl_data x)"

text \<open>\<open>k\<close> is how many packets the receiver has taken: those acknowledged, and perhaps the one in flight.\<close>

definition air_inv where
  "air_inv c crc r0 p r sent got k \<longleftrightarrow> tx_ok c p \<and> rx_ok c r \<and>
     (\<exists>done. sent = done @ tx_queue p \<and> (k = length done \<or> k = Suc (length done) \<and> tx_queue p \<noteq> [])) \<and>
     pids_count sent \<and> (\<forall>b. unat b < ESB_PIPE_COUNT \<longrightarrow> esb_pids p ! unat b = pid_after b sent) \<and>
     remembers crc (rx_pipe_info r) (take k sent) \<and>
     map seen (got @ rx_queue r) = map seen (take k sent) \<and>
     app_of r = fold app_step (map pl_data got) (app_of r0)"

lemma air_writes:
  assumes "air_inv c crc r0 p r sent got k" "\<not> pl_noack x" "esb_write_payload c x p = (None, p')"
  shows "air_inv c crc r0 p' r (sent @ [x\<lparr>pl_pid := next_pid (pl_pipe x) p\<rparr>]) got k"
proof -
  let ?x = "x\<lparr>pl_pid := next_pid (pl_pipe x) p\<rparr>"
  have tx: "tx_ok c p" using assms(1) by (simp add: air_inv_def)
  note w = tx_ok_write [OF tx assms(2,3)]
  obtain ds where d: "sent = ds @ tx_queue p" "k = length ds \<or> k = Suc (length ds) \<and> tx_queue p \<noteq> []"
    using assms(1) by (auto simp: air_inv_def)
  have k: "k \<le> length sent"
  proof -
    have "0 < length (tx_queue p)" if "tx_queue p \<noteq> []" using that by blast
    then show ?thesis using d by auto
  qed
  have pid: "next_pid (pl_pipe x) p = (pid_after (pl_pipe x) sent + 1) mod (PID_MAX + 1)"
    using assms(1) w(4) by (simp add: air_inv_def next_pid_def)
  have len: "length (esb_pids p) = ESB_PIPE_COUNT" using tx by (simp add: tx_ok_def)
  have pids: "esb_pids p' ! unat b = pid_after b (sent @ [?x])" if "unat b < ESB_PIPE_COUNT" for b
    using that assms(1) w(3,4) len same_pipe [of "pl_pipe x" b] by (simp add: air_inv_def nth_list_update)
  have "sent @ [?x] = ds @ tx_queue p'" using d(1) w(2) by simp
  then have dn: "\<exists>ds. sent @ [?x] = ds @ tx_queue p' \<and> (k = length ds \<or> k = Suc (length ds) \<and> tx_queue p' \<noteq> [])"
    using d(2) w(2) by (intro exI [of _ ds] conjI) auto
  have rest: "rx_ok c r" "pids_count sent" "remembers crc (rx_pipe_info r) (take k sent)"
    "map seen (got @ rx_queue r) = map seen (take k sent)" "app_of r = fold app_step (map pl_data got) (app_of r0)"
    using assms(1) by (simp_all add: air_inv_def)
  have tk: "take k (sent @ [?x]) = take k sent" using k by simp
  have "pids_count (sent @ [?x])" using rest(2) pid by (simp add: pids_count_snoc)
  with w(1) rest(1) dn have a: "tx_ok c p' \<and> rx_ok c r \<and>
      (\<exists>ds. sent @ [?x] = ds @ tx_queue p' \<and> (k = length ds \<or> k = Suc (length ds) \<and> tx_queue p' \<noteq> [])) \<and>
      pids_count (sent @ [?x])" by (intro conjI)
  have "\<forall>b. unat b < ESB_PIPE_COUNT \<longrightarrow> esb_pids p' ! unat b = pid_after b (sent @ [?x])" using pids by (intro allI impI)
  with rest(3-5) have b: "(\<forall>b. unat b < ESB_PIPE_COUNT \<longrightarrow> esb_pids p' ! unat b = pid_after b (sent @ [?x])) \<and>
      remembers crc (rx_pipe_info r) (take k sent) \<and> map seen (got @ rx_queue r) = map seen (take k sent) \<and>
      app_of r = fold app_step (map pl_data got) (app_of r0)" by (intro conjI)
  show ?thesis unfolding air_inv_def tk using a b by (elim conjE) (intro conjI)
qed

lemma air_start:
  assumes "tx_ok c p" "rx_ok c r" "tx_queue p = []" "rx_queue r = []"
    and "esb_pids p = [0, 0]" "\<forall>i \<in> set (rx_pipe_info r). pi_pid i = 0"
  shows "air_inv c crc r p r [] [] 0"
  using assms
  by (auto simp: air_inv_def pids_count_snoc remembers_def rx_ok_def less_Suc_eq numeral_2_eq_2 ESB_PIPE_COUNT_def)

lemma remembers_taken:
  assumes "remembers crc info xs" "packet_ok c x"
    and "\<forall>b. pi_pid (info' ! b) = (if b = unat (pl_pipe x) then pl_pid x else pi_pid (info ! b)) \<and>
       pi_crc (info' ! b) = (if b = unat (pl_pipe x) then crc (pl_pipe x) (pdu_of x) else pi_crc (info ! b))"
  shows "remembers crc info' (xs @ [x])"
  unfolding remembers_def
proof (intro allI impI)
  fix b :: u8 assume b: "unat b < ESB_PIPE_COUNT"
  show "pi_pid (info' ! unat b) = pid_after b (xs @ [x]) \<and>
      (\<forall>y. last_on b (xs @ [x]) = Some y \<longrightarrow> pi_crc (info' ! unat b) = crc b (pdu_of y))"
  proof (cases "pl_pipe x = b")
    case False
    then have "unat b \<noteq> unat (pl_pipe x)" using same_pipe by metis
    then show ?thesis using assms(1,3) b False by (simp add: remembers_def)
  qed (use assms(3) in simp)
qed

lemma remembers_dup:
  assumes "remembers crc info xs" "unat (pl_pipe x) < ESB_PIPE_COUNT"
  shows "last_on (pl_pipe x) xs = Some x \<Longrightarrow>
      crc (pl_pipe x) (pdu_of x) = pi_crc (info ! unat (pl_pipe x)) \<and> pl_pid x = pi_pid (info ! unat (pl_pipe x))"
    and "pl_pid x = (pid_after (pl_pipe x) xs + 1) mod (PID_MAX + 1) \<Longrightarrow> pl_pid x \<noteq> pi_pid (info ! unat (pl_pipe x))"
  using assms next_pid_differs by (auto simp: remembers_def pid_after_def)

lemma air_attempt:
  assumes "air_inv c crc r0 p r sent got k" "on_radio_disabled p = OnDisabledTx"
    and "exchange c crc heard acked rssi ack_rssi p r = (p', r')"
  shows "\<exists>k'. air_inv c crc r0 p' r' sent got k'"
proof -
  have tx: "tx_ok c p" and rx: "rx_ok c r" using assms(1) by (simp_all add: air_inv_def)
  then obtain x q where q: "tx_queue p = x # q" and buf: "tx_payload_buffer p = pdu_of x"
      and adr: "radio_txaddress p = pl_pipe x" and x: "packet_ok c x"
    using assms(2) by (cases "tx_queue p") (auto simp: tx_ok_def)
  obtain ds where d: "sent = ds @ x # q" "k = length ds \<or> k = Suc (length ds)"
    using assms(1) q by (auto simp: air_inv_def)
  have pipe: "unat (pl_pipe x) < ESB_PIPE_COUNT" using x by (simp add: packet_ok_def)
  define r1 where "r1 = radio_irq_handler c (Some (pdu_of x)) rssi (unat (pl_pipe x)) (crc (pl_pipe x) (pdu_of x)) r"
  define r2 where "r2 = (if m_esb_state r1 = ESB_STATE_PRX_SEND_ACK then radio_irq_handler c None 0 0 0 r1 else r1)"
  define free where "free \<longleftrightarrow> rcount (rx_fifo r) < ESB_RX_FIFO_SIZE c"
  define dup where "dup \<longleftrightarrow> crc (pl_pipe x) (pdu_of x) = pi_crc (rx_pipe_info r ! unat (pl_pipe x)) \<and>
    pl_pid x = pi_pid (rx_pipe_info r ! unat (pl_pipe x))"
  note h = rx_hears [OF rx pipe x r1_def r2_def dup_def free_def]
  have ex: "p' = radio_irq_handler c (if heard \<and> free \<and> acked then Some (tx_payload_buffer r1) else None) ack_rssi 0 0
      (radio_irq_handler c None 0 0 0 p)" "r' = (if heard then r2 else r)"
    using assms(3) h(1) by (auto simp: exchange_def buf adr r2_def Let_def simp flip: r1_def split: if_splits)
  have mem: "remembers crc (rx_pipe_info r) (take k sent)" using assms(1) by (simp add: air_inv_def)
  have pid: "pl_pid x = (pid_after (pl_pipe x) ds + 1) mod (PID_MAX + 1)"
    using assms(1) unfolding d(1) air_inv_def by (intro pids_count_at) blast
  have dup: "dup \<longleftrightarrow> k = Suc (length ds)"
  proof (cases "k = Suc (length ds)")
    case True
    then have "last_on (pl_pipe x) (take k sent) = Some x" by (simp add: d(1))
    then show ?thesis using remembers_dup(1) [OF mem pipe] True by (simp add: dup_def)
  next
    case False
    then have "take k sent = ds" using d by simp
    then show ?thesis using remembers_dup(2) [OF mem pipe] pid False by (simp add: dup_def)
  qed
  define took where "took \<longleftrightarrow> heard \<and> free"
  define k' where "k' = (if took then Suc (length ds) else k)"
  have tk: "take k' sent = (if took then ds @ [x] else take k sent)" by (simp add: k'_def d(1))
  have prev: "take k sent = (if dup then ds @ [x] else ds)" using dup d by auto
  have rx': "rx_ok c r'" "app_of r' = app_of r" using h(2,3) rx by (simp_all add: ex(2))
  have info: "remembers crc (rx_pipe_info r') (take k' sent)"
  proof (cases took)
    case True
    have "remembers crc (rx_pipe_info r2) (ds @ [x])"
    proof (cases dup)
      case True
      then have "\<forall>b. pi_pid (rx_pipe_info r2 ! b) = pi_pid (rx_pipe_info r ! b) \<and>
          pi_crc (rx_pipe_info r2 ! b) = pi_crc (rx_pipe_info r ! b)"
        using h(5) by (auto simp: dup_def)
      then show ?thesis using mem prev True by (simp add: remembers_def)
    next
      case False
      then show ?thesis using mem prev remembers_taken [OF _ x] h(5) \<open>took\<close> by (simp add: took_def)
    qed
    then show ?thesis using True tk by (simp add: ex(2) took_def)
  next
    case False
    have "remembers crc (rx_pipe_info r2) (take k sent)" if "\<not> free"
      using h(5) mem that by (simp add: remembers_def)
    then show ?thesis using False mem tk by (auto simp: ex(2) took_def)
  qed
  have queue: "map seen (got @ rx_queue r') = map seen (take k' sent)"
  proof -
    have "map seen (got @ rx_queue r) = map seen (take k sent)" using assms(1) by (simp add: air_inv_def)
    then show ?thesis using h(4) tk prev by (auto simp: ex(2) took_def seen_def)
  qed
  have tx': "tx_ok c p' \<and> esb_pids p' = esb_pids p \<and> tx_queue p' = (if took \<and> acked then q else x # q)"
  proof (cases "took \<and> acked")
    case True
    then have "p' = radio_irq_handler c (Some (tx_payload_buffer r1)) ack_rssi 0 0 (radio_irq_handler c None 0 0 0 p)"
      by (simp add: ex(1) took_def)
    from tx_ok_answered [OF tx assms(2) this] True q show ?thesis by simp
  next
    case False
    then have "\<not> (heard \<and> free \<and> acked)" by (simp add: took_def)
    then have "p' = radio_irq_handler c None ack_rssi 0 0 (radio_irq_handler c None 0 0 0 p)"
      unfolding ex(1) by (simp only: if_False)
    from tx_ok_unanswered [OF tx assms(2) this] False q show ?thesis by simp
  qed
  have "\<exists>ds'. sent = ds' @ tx_queue p' \<and> (k' = length ds' \<or> k' = Suc (length ds') \<and> tx_queue p' \<noteq> [])"
  proof (cases "took \<and> acked")
    case True
    then have "sent = (ds @ [x]) @ tx_queue p'" "k' = length (ds @ [x])" using tx' d(1) by (simp_all add: k'_def)
    then show ?thesis by blast
  next
    case False
    then have "sent = ds @ tx_queue p'" "k' = length ds \<or> k' = Suc (length ds)" "tx_queue p' \<noteq> []"
      using tx' d by (auto simp: k'_def)
    then show ?thesis by blast
  qed
  then have "air_inv c crc r0 p' r' sent got k'"
    using assms(1) tx' rx' info queue by (simp add: air_inv_def)
  then show ?thesis ..
qed

lemma exchange_acked:
  assumes "tx_ok c p" "rx_ok c (r :: 'b dongle_scheme)" "on_radio_disabled p = OnDisabledTx" "rcount (rx_fifo r) < ESB_RX_FIFO_SIZE c"
    and "exchange c crc True True rssi ack_rssi p r = (p', r')"
  shows "tx_queue p' = tl (tx_queue p)"
proof -
  obtain x q where q: "tx_queue p = x # q" and buf: "tx_payload_buffer p = pdu_of x"
      and adr: "radio_txaddress p = pl_pipe x" and x: "packet_ok c x"
    using assms(1,3) by (cases "tx_queue p") (auto simp: tx_ok_def)
  have pipe: "unat (pl_pipe x) < ESB_PIPE_COUNT" using x by (simp add: packet_ok_def)
  define r1 where "r1 = radio_irq_handler c (Some (pdu_of x)) rssi (unat (pl_pipe x)) (crc (pl_pipe x) (pdu_of x)) r"
  have "m_esb_state r1 = ESB_STATE_PRX_SEND_ACK"
    using rx_hears(1) [OF assms(2) pipe x r1_def refl refl refl] assms(4) by simp
  then have "p' = radio_irq_handler c (Some (tx_payload_buffer r1)) ack_rssi 0 0 (radio_irq_handler c None 0 0 0 p)"
    using assms(5) by (simp add: exchange_def buf adr Let_def flip: r1_def)
  from tx_ok_answered(2) [OF assms(1,3) this] show ?thesis .
qed

lemma air_keeps:
  assumes "air_inv c crc r0 p r sent got k" "tx_ok c p'" "tx_queue p' = tx_queue p" "esb_pids p' = esb_pids p"
  shows "air_inv c crc r0 p' r sent got k"
  using assms by (simp add: air_inv_def)

lemma air_event:
  assumes "air_inv c crc r0 p r sent got k" "r' = esb_evt_irq_handler (dongle_evt_handler c) r"
  shows "air_inv c crc r0 p r' sent (got @ (if int_rx_received r then rx_queue r else [])) k"
proof -
  have rx: "rx_ok c r" using assms(1) by (simp add: air_inv_def)
  note e = rx_event [OF rx assms(2)]
  have "rx_queue r \<noteq> [] \<longrightarrow> int_rx_received r" using rx by (simp add: rx_ok_def)
  then have "(if int_rx_received r then rx_queue r else []) = rx_queue r" by auto
  then show ?thesis using assms(1) e by (simp add: air_inv_def)
qed

lemma air_run_from:
  assumes "air_run c crc p r p' r' xs ys" "air_inv c crc r0 p r sent got k"
  shows "\<exists>k'. air_inv c crc r0 p' r' (sent @ xs) (got @ ys) k'"
  using assms(1)
proof induction
  case start
  then show ?case using assms(2) by auto
next
  case (writes p r sent got x p')
  then show ?case unfolding append_assoc [symmetric] using air_writes by blast
next
  case (attempt p r sent got heard acked rssi ack_rssi p' r')
  then show ?case using air_attempt by blast
next
  case (event p r sent got)
  then show ?case unfolding append_assoc [symmetric] using air_event by blast
qed (metis air_keeps tx_ok_api api_frames air_inv_def)+

lemma air_run_inv:
  assumes "air_run c crc p0 r0 p r sent got" "air_inv c crc r0 p0 r0 [] [] 0"
  shows "\<exists>k. air_inv c crc r0 p r sent got k"
  using air_run_from [OF assms] by simp


section \<open>Properties\<close>

text \<open>The start of both ends: nothing on the air, no packet sent or taken yet.\<close>

definition air_ready :: "kcfg \<Rightarrow> 'a esb_scheme \<Rightarrow> 'b esb_scheme \<Rightarrow> bool" where
  "air_ready c p r \<longleftrightarrow> tx_ok c p \<and> tx_queue p = [] \<and> esb_pids p = [0, 0] \<and>
     rx_ok c r \<and> rx_queue r = [] \<and> (\<forall>i \<in> set (rx_pipe_info r). pi_pid i = 0)"

text \<open>What starting the radio leaves of the receiver; the address calls keep it.\<close>

definition fresh_rx where
  "fresh_rx c r \<longleftrightarrow> esb_initialized r \<and> cfg_mode (esb_cfg r) = ESB_MODE_PRX \<and> m_esb_state r = ESB_STATE_IDLE \<and>
     rx_fifo r = \<lparr>rslots = replicate (ESB_RX_FIFO_SIZE c) empty_payload, rback = 0, rfront = 0, rcount = 0\<rparr> \<and>
     rx_pipe_info r = replicate ESB_PIPE_COUNT \<lparr>pi_crc = 0, pi_pid = 0, pi_ack_payload = False\<rparr>"

lemma fresh_rx_init:
  assumes "cfg_mode config = ESB_MODE_PRX" "esb_init c None config s = (err, t)"
  shows "err = None" "fresh_rx c t"
proof -
  have f: "rx_fifo (initialize_fifos c u) =
      \<lparr>rslots = replicate (ESB_RX_FIFO_SIZE c) empty_payload, rback = 0, rfront = 0, rcount = 0\<rparr>"
    "rx_pipe_info (initialize_fifos c u) = rx_pipe_info u" "esb_cfg (initialize_fifos c u) = esb_cfg u"
    for u :: "'a esb_scheme"
    by (simp_all add: initialize_fifos_def reset_fifos_def ring_clear_def clear_ack_wraps_def Let_def)
  show "err = None" "fresh_rx c t"
    using assms f by (auto simp: esb_init_def fresh_rx_def Let_def)
qed

lemma fresh_rx_addresses:
  assumes "fresh_rx c (s :: 'a dongle_scheme)"
  shows "fresh_rx c (set_addresses s)"
proof -
  have a: "fresh_rx c (snd (esb_set_base_address_0 a u)) = fresh_rx c u"
    "fresh_rx c (snd (esb_set_base_address_1 a u)) = fresh_rx c u"
    "fresh_rx c (snd (esb_set_prefixes p n u)) = fresh_rx c u"
    "fresh_rx c (snd (esb_set_rf_channel ch u)) = fresh_rx c u"
    "fresh_rx c (snd (esb_enable_pipes m u)) = fresh_rx c u" for a p n ch m and u :: "'a dongle_scheme"
    by (simp_all add: fresh_rx_def esb_set_base_address_0_def esb_set_base_address_1_def
        esb_set_prefixes_def esb_set_rf_channel_def esb_enable_pipes_def Let_def)
  show ?thesis using assms by (simp add: a set_addresses_def Let_def)
qed

lemma dongle_start_ready:
  assumes "0 < ESB_RX_FIFO_SIZE c" "m = dongle_main c lo hi None True True s" "r = snd (esb_start_rx m)"
  shows "rx_ok c r \<and> rx_queue r = [] \<and> (\<forall>i \<in> set (rx_pipe_info r). pi_pid i = 0)"
proof -
  let ?cfg = "\<lparr>cfg_mode = ESB_MODE_PRX, retransmit_delay = 570, retransmit_count = 5,
                 tx_mode = ESB_TXMODE_AUTO, payload_length = 32, selective_auto_ack = True,
                 use_fast_ramp_up = True\<rparr>"
  obtain e u where i: "esb_init c None ?cfg (dongle_build_device_id lo hi s) = (e, u)" by fastforce
  note f = fresh_rx_init [OF _ i]
  have "m = (set_addresses u)\<lparr>d_state := DONGLE_LISTENING\<rparr>"
    using i f(1) by (simp add: assms(2) dongle_main_def esb_dongle_init_def set_addresses_def Let_def)
  then have "fresh_rx c m" using fresh_rx_addresses [of c u] f(2) by (simp add: fresh_rx_def)
  then show ?thesis using assms(1)
    by (simp add: assms(3) esb_start_rx_def fresh_rx_def rx_ok_def ring_wf_def ring_list_def)
qed

lemma seen_data: "map seen xs = map seen ys \<Longrightarrow> map pl_data xs = map pl_data ys"
  by (drule arg_cong [where f = "map snd"]) (simp add: seen_def comp_def)

lemma air_taken:
  assumes "air_run c crc p0 r0 p r sent got" "air_ready c p0 r0"
  shows "\<exists>k. length sent - length (tx_queue p) \<le> k \<and> k \<le> Suc (length sent - length (tx_queue p)) \<and>
    k \<le> length sent \<and> map seen (got @ rx_queue r) = map seen (take k sent) \<and>
    app_of r = fold app_step (map pl_data (take (length got) sent)) (app_of r0)"
proof -
  have "air_inv c crc r0 p0 r0 [] [] 0"
    using assms(2) by (intro air_start) (simp_all add: air_ready_def)
  from air_run_inv [OF assms(1) this] obtain k where i: "air_inv c crc r0 p r sent got k" ..
  obtain ds where d: "sent = ds @ tx_queue p" "k = length ds \<or> k = Suc (length ds) \<and> tx_queue p \<noteq> []"
    using i by (auto simp: air_inv_def)
  have m: "map seen (got @ rx_queue r) = map seen (take k sent)"
    and app: "app_of r = fold app_step (map pl_data got) (app_of r0)"
    using i by (simp_all add: air_inv_def)
  have k: "length sent - length (tx_queue p) \<le> k" "k \<le> Suc (length sent - length (tx_queue p))" "k \<le> length sent"
    using d by (cases "tx_queue p"; auto)+
  have "map pl_data (got @ rx_queue r) = map pl_data (take k sent)" by (rule seen_data [OF m])
  then have "take (length got) (map pl_data (got @ rx_queue r)) = take (length got) (map pl_data (take k sent))"
    by simp
  moreover have "length got \<le> k" using arg_cong [OF m, of length] k(3) by simp
  ultimately have "map pl_data got = map pl_data (take (length got) sent)"
    by (simp add: take_map min_def split: if_splits)
  then show ?thesis using k m app by auto
qed

text \<open>A connected dongle that listens, and a run that loses an acknowledgement.\<close>

definition dongle_connected :: dongle where
  "dongle_connected = dongle_boot\<lparr>esb_initialized := True, esb_cfg := ptx_config\<lparr>cfg_mode := ESB_MODE_PRX\<rparr>,
     m_esb_state := ESB_STATE_PRX, on_radio_disabled := OnDisabledRx,
     tx_fifo := \<lparr>rslots = replicate 8 empty_payload, rback = 0, rfront = 0, rcount = 0\<rparr>,
     rx_fifo := \<lparr>rslots = replicate 8 empty_payload, rback = 0, rfront = 0, rcount = 0\<rparr>,
     ack_in_use := replicate 8 False, d_state := DONGLE_CONNECTED\<rparr>"

definition key_a :: "u8 list" where "key_a = [0, 0, 4, 0, 0, 0, 0, 0]"

definition key_a_pkt :: esb_payload where
  "key_a_pkt = pkt_example (hid_pkt_bytes default_kcfg ESB_REPORT_KEYBOARD key_a)"

definition key_a_written :: esb where
  "key_a_written = snd (esb_write_payload default_kcfg key_a_pkt esb_example)"

definition key_a_unacked :: "esb \<times> dongle" where
  "key_a_unacked = exchange default_kcfg (\<lambda>_ _. 7) True False 0 0 key_a_written dongle_connected"

definition key_a_acked :: "esb \<times> dongle" where
  "key_a_acked = exchange default_kcfg (\<lambda>_ _. 7) True True 0 0 (fst key_a_unacked) (snd key_a_unacked)"

definition key_a_handled :: dongle where
  "key_a_handled = esb_evt_irq_handler (dongle_evt_handler default_kcfg) (snd key_a_acked)"

lemma air_example_ready: "air_ready default_kcfg esb_example dongle_connected"
proof -
  have "ring_list (tx_fifo esb_example) = []" "ring_list (rx_fifo dongle_connected) = []"
    by (simp_all add: esb_example_def dongle_connected_def ring_list_def)
  then show ?thesis
    using esb_example_inv
    by (simp add: air_ready_def tx_ok_def rx_ok_def dongle_connected_def ring_wf_def) (simp add: esb_example_def dongle_boot_def ESB_PIPE_COUNT_def)
qed

lemmas key_a_steps = esb_write_payload_def esb_example_def pkt_example_def
     hid_pkt_bytes_def key_a_def ptx_config_def start_tx_transaction_def ESB_PIPE_COUNT_def ESB_PKT_DATA_MAX_def

lemma key_a_sent:
  "esb_write_payload default_kcfg key_a_pkt esb_example = (None, key_a_written)"
  "on_radio_disabled key_a_written = OnDisabledTx"
  by (simp_all add: key_a_written_def key_a_pkt_def key_a_steps Let_def)

lemmas key_a_radio = exchange_def radio_irq_handler_def on_radio_disabled_tx_def on_radio_disabled_tx_wait_for_ack_def
  on_radio_disabled_rx_def on_radio_disabled_rx_ack_def answer_packet_def on_radio_disabled_rx_dpl_def
  deliver_packet_def rx_fifo_push_rfbuf_def ring_push_def

lemma key_a_lost: "on_radio_disabled (fst key_a_unacked) = OnDisabledTx"
  by (simp add: key_a_unacked_def key_a_written_def key_a_pkt_def key_a_steps key_a_radio dongle_connected_def
      dongle_boot_def Let_def)

lemma key_a_waits:
  "rcount (rx_fifo (snd key_a_unacked)) < ESB_RX_FIFO_SIZE default_kcfg"
  "tx_queue (fst key_a_unacked) = [key_a_pkt\<lparr>pl_pid := 1\<rparr>]"
  by (simp_all add: key_a_unacked_def key_a_written_def key_a_pkt_def key_a_steps key_a_radio dongle_connected_def
      dongle_boot_def Let_def ring_list_def next_pid_def PID_MAX_def)

lemma key_a_run:
  "air_run default_kcfg (\<lambda>_ _. 7) esb_example dongle_connected (fst key_a_acked)
     key_a_handled [key_a_pkt\<lparr>pl_pid := 1\<rparr>] (if int_rx_received (snd key_a_acked) then rx_queue (snd key_a_acked) else [])"
  "tx_queue (fst key_a_acked) = []" "rx_queue key_a_handled = []" "usb_out (snd key_a_acked) = []"
proof -
  let ?run = "air_run default_kcfg (\<lambda>_ _. 7) esb_example dongle_connected"
  have "next_pid (pl_pipe key_a_pkt) esb_example = 1" "\<not> pl_noack key_a_pkt"
    by (simp_all add: next_pid_def key_a_pkt_def pkt_example_def esb_example_def PID_MAX_def)
  with air_run.writes [OF air_run.start _ key_a_sent(1)]
  have 1: "?run key_a_written dongle_connected [key_a_pkt\<lparr>pl_pid := 1\<rparr>] []" by simp
  have 2: "?run (fst key_a_unacked) (snd key_a_unacked) [key_a_pkt\<lparr>pl_pid := 1\<rparr>] []"
    by (rule air_run.attempt [OF 1 key_a_sent(2)]) (simp add: key_a_unacked_def)
  have a: "exchange default_kcfg (\<lambda>_ _. 7) True True 0 0 (fst key_a_unacked) (snd key_a_unacked) =
      (fst key_a_acked, snd key_a_acked)" by (simp add: key_a_acked_def)
  have 3: "?run (fst key_a_acked) (snd key_a_acked) [key_a_pkt\<lparr>pl_pid := 1\<rparr>] []"
    by (rule air_run.attempt [OF 2 key_a_lost a])
  have 0: "air_inv default_kcfg (\<lambda>_ _. 7) dongle_connected esb_example dongle_connected [] [] 0"
    using air_example_ready by (intro air_start) (simp_all add: air_ready_def)
  have i2: "tx_ok default_kcfg (fst key_a_unacked)" "rx_ok default_kcfg (snd key_a_unacked)"
    using air_run_inv [OF 2 0] by (auto simp: air_inv_def)
  show "tx_queue (fst key_a_acked) = []"
    using exchange_acked [OF i2 key_a_lost key_a_waits(1) a] key_a_waits(2) by simp
  have "rx_ok default_kcfg (snd key_a_acked)"
    using air_run_inv [OF 3 0] by (auto simp: air_inv_def)
  have "app_of (snd key_a_acked) = app_of dongle_connected" using air_taken [OF 3 air_example_ready] by auto
  then show "usb_out (snd key_a_acked) = []" by (simp add: app_of_def dongle_connected_def dongle_boot_def)
  from \<open>rx_ok default_kcfg (snd key_a_acked)\<close> rx_event(2) [OF _ key_a_handled_def] show "rx_queue key_a_handled = []" by blast
  from air_run.event [OF 3] show "air_run default_kcfg (\<lambda>_ _. 7) esb_example dongle_connected (fst key_a_acked)
     key_a_handled [key_a_pkt\<lparr>pl_pid := 1\<rparr>] (if int_rx_received (snd key_a_acked) then rx_queue (snd key_a_acked) else [])"
    by (simp add: key_a_handled_def)
qed

text \<open>
  C3. Over a medium that may lose any packet and any acknowledgement, whatever the retransmissions, the
  dongle takes every packet the endpoint writes exactly once and in the order of the writes: what it has read or
  still holds is a prefix of what was written, which covers every packet that has left the transmit FIFO and
  at most the one in flight besides, and its program is where the abstract program is after those packets.
  Nothing is assumed of the checksum.
\<close>

theorem air_delivers_once:
  assumes "air_run c crc p0 r0 p r sent got" "air_ready c p0 r0"
  shows "\<exists>k. length sent - length (tx_queue p) \<le> k \<and> k \<le> Suc (length sent - length (tx_queue p)) \<and>
    k \<le> length sent \<and> map seen (got @ rx_queue r) = map seen (take k sent) \<and>
    app_of r = fold app_step (map pl_data (take (length got) sent)) (app_of r0)"
  by (rule air_taken [OF assms])

theorem air_delivers_once_witness:
  "app_of key_a_handled = app_step (hid_pkt_bytes default_kcfg ESB_REPORT_KEYBOARD key_a) (app_of dongle_connected)"
proof -
  obtain got where g: "air_run default_kcfg (\<lambda>_ _. 7) esb_example dongle_connected (fst key_a_acked) key_a_handled
     [key_a_pkt\<lparr>pl_pid := 1\<rparr>] got" using key_a_run(1) by blast
  have got: "map seen got = map seen [key_a_pkt\<lparr>pl_pid := 1\<rparr>]"
    and app: "app_of key_a_handled =
      fold app_step (map pl_data (take (length got) [key_a_pkt\<lparr>pl_pid := 1\<rparr>])) (app_of dongle_connected)"
    using air_delivers_once [OF g air_example_ready] key_a_run(2,3) by auto
  have "length got = 1" using arg_cong [OF got, of length] by simp
  with app show ?thesis by (simp add: key_a_pkt_def pkt_example_def)
qed

lemma app_step_report:
  assumes "da_state a \<in> {DONGLE_CONNECTED, DONGLE_VERIFYING}" "length b = 8" "8 \<le> ESB_PKT_DATA_MAX c"
  shows "app_step (hid_pkt_bytes c ESB_REPORT_KEYBOARD b) a = a\<lparr>da_usb := da_usb a @ [1 # b]\<rparr>"
  using assms by (simp add: app_step_def hid_pkt_bytes_def usb_of_def usb_report_def Let_def)

lemma app_steps_reports:
  assumes "da_state a \<in> {DONGLE_CONNECTED, DONGLE_VERIFYING}" "\<forall>b \<in> set bodies. length b = 8"
    "8 \<le> ESB_PKT_DATA_MAX c"
  shows "fold app_step (map (hid_pkt_bytes c ESB_REPORT_KEYBOARD) bodies) a =
    a\<lparr>da_usb := da_usb a @ map (Cons 1) bodies\<rparr>"
  using assms by (induction bodies arbitrary: a) (simp_all add: app_step_report)

text \<open>
  With a connected dongle, keyboard reports of eight bytes come out of its USB port exactly as the endpoint
  sent them, each once, in order, behind report ID 1, when the transmit FIFO is empty and the dongle has
  handled what it received.
\<close>

theorem air_reports_reach_usb:
  assumes "air_run c crc p0 r0 p r sent got" "air_ready c p0 r0"
    and "d_state r0 \<in> {DONGLE_CONNECTED, DONGLE_VERIFYING}"
    and "map pl_data sent = map (hid_pkt_bytes c ESB_REPORT_KEYBOARD) bodies"
    and "\<forall>b \<in> set bodies. length b = 8" "8 \<le> ESB_PKT_DATA_MAX c"
    and "tx_queue p = []" "rx_queue r = []"
  shows "usb_out r = usb_out r0 @ map (Cons 1) bodies \<and> d_state r = d_state r0"
proof -
  have k: "map seen got = map seen sent"
    and app: "app_of r = fold app_step (map pl_data (take (length got) sent)) (app_of r0)"
    using air_taken [OF assms(1,2)] assms(7,8) by auto
  have "length got = length sent" using arg_cong [OF k, of length] by simp
  then have "app_of r = fold app_step (map (hid_pkt_bytes c ESB_REPORT_KEYBOARD) bodies) (app_of r0)"
    using app assms(4) by simp
  then show ?thesis
    using app_steps_reports [of "app_of r0" bodies c] assms(3,5,6) by (simp add: app_of_def)
qed

theorem air_reports_reach_usb_witness: "usb_out key_a_handled = [[1, 0, 0, 4, 0, 0, 0, 0, 0]]"
proof -
  have "d_state dongle_connected \<in> {DONGLE_CONNECTED, DONGLE_VERIFYING}" "usb_out dongle_connected = []"
    "map pl_data [key_a_pkt\<lparr>pl_pid := 1\<rparr>] = map (hid_pkt_bytes default_kcfg ESB_REPORT_KEYBOARD) [key_a]"
    "\<forall>b \<in> set [key_a]. length b = 8" "8 \<le> ESB_PKT_DATA_MAX default_kcfg"
    by (simp_all add: dongle_connected_def dongle_boot_def key_a_pkt_def pkt_example_def key_a_def ESB_PKT_DATA_MAX_def)
  with air_reports_reach_usb [OF key_a_run(1) air_example_ready this(1,3,4,5) key_a_run(2,3)] show ?thesis
    by (simp add: key_a_def)
qed

end
