(* ===== verification/AirSend.thy ===== *)
theory AirSend
  imports Air
begin

text \<open>
  The transport's send (\<open>src/esb/esb_transport.c\<close>) as a step on the air: what it leaves of the books of a run between
  endpoint and dongle, and of the quiet window.
\<close>

section \<open>Sending into the air\<close>

lemma tx_ok_same_radio: "same_radio t p \<Longrightarrow> tx_ok c p \<Longrightarrow> tx_ok c t"
  using same_radio_inv [of t p c] by (simp add: tx_ok_def same_radio_def)

lemma air_same_radio:
  assumes "same_radio t p" "air_inv c crc r0 p r sent got k"
  shows "air_inv c crc r0 t r sent got k"
  using air_keeps [OF assms(2), of t] tx_ok_same_radio [OF assms(1)] assms by (simp add: same_radio_def air_inv_def)

text \<open>A write to an idle transmitter starts it.\<close>

lemma write_starts:
  assumes "tx_ok c u" "\<not> pl_noack x" "esb_write_payload c x u = (None, t)" "m_esb_state u = ESB_STATE_IDLE"
  shows "on_radio_disabled t = OnDisabledTx"
proof -
  note w = tx_ok_write [OF assms(1-3)]
  define s1 where "s1 = u\<lparr>esb_pids := (esb_pids u)[unat (pl_pipe x) := next_pid (pl_pipe x) u],
    tx_fifo := ring_push (ESB_TX_FIFO_SIZE c) (x\<lparr>pl_pid := next_pid (pl_pipe x) u\<rparr>) (tx_fifo u)\<rparr>"
  have t: "t = start_tx_transaction s1"
    using assms by (auto simp: esb_write_payload_def s1_def tx_ok_def ptx_inv_def Let_def split: if_splits)
  have "tx_fifo t = tx_fifo s1" by (simp add: t)
  moreover have "0 < rcount (tx_fifo t)" "hd (tx_queue t) \<in> set (tx_queue t)"
    using w(2) rcount_0_iff [of "tx_fifo t"] by (simp_all add: hd_append)
  ultimately have "\<not> pl_noack (ring_head (tx_fifo s1))"
    using w(1) ring_head_list [of "ESB_TX_FIFO_SIZE c" "tx_fifo t"] by (auto simp: tx_ok_def ptx_inv_def packet_ok_def)
  then show ?thesis by (simp add: t start_tx_transaction_def Let_def)
qed

text \<open>The transport's send is at most one write, unless it flushes a full FIFO.\<close>

lemma send_is_write:
  assumes "ptx_inv c p" "esb_transport_send c pipe bs p = (err, p')"
    and "\<not> esb_tx_full c p" "\<not> send_noack c pipe bs" "\<not> is_mouse_report bs"
  obtains (unsent) "same_radio p' p" "esb_transport_is_quiet c p \<or> \<not> esb_initialized p \<or>
      ESB_MAX_PAYLOAD_LEN c < length bs \<or> bs = [] \<or> ESB_PIPE_COUNT \<le> unat pipe"
  | (written) u where "same_radio u p"
      "esb_write_payload c \<lparr>pl_pipe = pipe, pl_noack = False, pl_pid = 0, pl_rssi = 0, pl_data = bs\<rparr> u = (None, p')"
      "\<not> (esb_transport_is_quiet c p \<or> \<not> esb_initialized p \<or> ESB_MAX_PAYLOAD_LEN c < length bs \<or> bs = [] \<or>
          ESB_PIPE_COUNT \<le> unat pipe)"
  using assms(2)
proof (cases rule: send_cases)
  case toolong
  then show ?thesis using same_radio_refl [of p] by (intro unsent) simp_all
next
  case dropped
  then show ?thesis by (intro unsent) simp_all
next
  case (admitted t)
  have full: "\<not> esb_tx_full c t" using assms(3) admitted(3) by (simp add: esb_tx_full_def same_radio_def)
  obtain bytes u where pp: "pointer_prepare c False bs (send_account c pipe bs t) = (bytes, u)" by fastforce
  let ?x = "\<lparr>pl_pipe = pipe, pl_noack = False, pl_pid = 0, pl_rssi = 0, pl_data = bs\<rparr>"
  have "bytes = bs" using prepared_bytes [OF pp] assms(5) by simp
  then have w: "esb_write_payload c ?x u = (err, p')"
    using admitted(5) full assms(4) pp by (simp add: send_admitted_eq)
  have "same_radio u (send_account c pipe bs t)"
    using same_radio_pointer [of c False bs "send_account c pipe bs t"] pp by simp
  then have u: "same_radio u p" using admitted(3) same_radio_account same_radio_trans by blast
  then have uq: "esb_initialized u = esb_initialized p" "tx_fifo u = tx_fifo p" "ptx_inv c u"
    using assms(1) same_radio_inv [OF u] by (simp_all add: same_radio_def)
  have room: "length (tx_queue u) \<noteq> ESB_TX_FIFO_SIZE c"
    using assms(3) uq(2) by (simp add: esb_tx_full_def ring_full_def)
  note p = write_ptx [OF uq(3) w]
  show ?thesis
  proof (cases err)
    case None
    then show ?thesis using written [OF u w [unfolded None]] p(1) uq(1) admitted(1,2)
      by (auto simp: ESB_MAX_PAYLOAD_LEN_def split: if_splits)
  next
    case (Some e)
    then have "p' = u" using p(4) by simp
    then show ?thesis using unsent u Some p(1) uq(1) room admitted(1)
      by (auto simp: ESB_MAX_PAYLOAD_LEN_def split: if_splits)
  qed
qed

section \<open>The quiet window\<close>

text \<open>A send does not start a quiet window; it may end one that is over.\<close>

definition quiet_until :: "bool \<Rightarrow> nat \<Rightarrow> u32 \<Rightarrow> 'a tport_scheme \<Rightarrow> bool" where
  "quiet_until b u q s \<longleftrightarrow> m_sync_tx_in_progress s = b \<and> uptime s = u \<and>
     (m_tx_quiet_until_ms s = q \<or> m_tx_quiet_until_ms s = 0)"

lemma quiet_frames:
  "quiet_until b u q (snd (jittered_retransmit_delay c s)) = quiet_until b u q s"
  "quiet_until b u q (snd (esb_set_retransmit_delay d s)) = quiet_until b u q s"
  "quiet_until b u q (snd (esb_set_retransmit_count k s)) = quiet_until b u q s"
  "quiet_until b u q (esb_flush_tx_and_reset c s) = quiet_until b u q s"
  "quiet_until b u q (note_activity s) = quiet_until b u q s"
  "quiet_until b u q (hid_tx_account bs s) = quiet_until b u q s"
  "quiet_until b u q (channel_hop_ep_note_user_tx c s) = quiet_until b u q s"
  "quiet_until b u q (critical_ring_push c bs s) = quiet_until b u q s"
  "quiet_until b u q (motion_ring_push c body bd s) = quiet_until b u q s"
  "quiet_until b u q (snd (motion_refund_apply c body' s)) = quiet_until b u q s"
  "quiet_until b u q (snd (esb_write_payload c p s)) = quiet_until b u q s"
  by (simp_all add: quiet_until_def jittered_retransmit_delay_def esb_set_retransmit_delay_def
      esb_set_retransmit_count_def esb_flush_tx_and_reset_def restore_retransmit_count_def
      esb_flush_tx_def clear_ack_wraps_def note_activity_def hid_tx_account_def critical_ring_push_def
      motion_ring_push_def motion_refund_apply_def esb_write_payload_def start_tx_transaction_def
      channel_hop_ep_note_user_tx_def enter_active_state_def k_work_reschedule_def Let_def
      split: option.splits)

lemma quiet_pointer: "quiet_until b u q (snd (pointer_prepare c k bs s)) = quiet_until b u q s"
  by (simp add: pointer_prepare_def quiet_frames case_prod_beta Let_def)

interpretation send_quiet: send_invariant c "quiet_until b u q" "\<lambda>_. True"
  by unfold_locales (simp_all add: quiet_frames quiet_pointer, simp_all add: quiet_until_def)

lemma send_stays_loud:
  assumes "\<not> esb_transport_is_quiet c s"
  shows "\<not> esb_transport_is_quiet c (snd (esb_transport_send c pipe bs s))"
proof -
  have "quiet_until (m_sync_tx_in_progress s) (uptime s) (m_tx_quiet_until_ms s) (snd (esb_transport_send c pipe bs s))"
    by (rule send_quiet.keep_send [OF _ TrueI]) (simp add: quiet_until_def)
  then show ?thesis using assms
    by (auto simp: quiet_until_def esb_transport_is_quiet_def k_uptime_get_32_def split: if_splits)
qed

text \<open>The endpoint may send, and packets are big enough for their header.\<close>

definition loud where
  "loud c p \<longleftrightarrow> \<not> esb_transport_is_quiet c p \<and> esb_initialized p \<and> 2 \<le> ESB_MAX_PAYLOAD_LENGTH c"

end
