(* ===== verification/KeyPath.thy ===== *)
theory KeyPath
  imports AirSend
begin

text \<open>
  From the key to USB: the key event listener (\<open>src/esb/hid_relay.c\<close>), the transport (\<open>src/esb/esb_transport.c\<close>), the
  radio of both ends (\<open>vendor/nrf-esb/subsys/esb.c\<close>) and the dongle (\<open>dongle/src/main.c\<close>) in one run, over a medium that
  loses packets and acknowledgements.
\<close>

section \<open>The fields of the HID relay while reports are sent\<close>

definition key_view where "key_view s = (kb_body s, kb_pending s, cons_pending s)"

lemma key_view_fields:
  "key_view s = key_view t \<Longrightarrow> kb_body s = kb_body t \<and> kb_pending s = kb_pending t \<and> cons_pending s = cons_pending t"
  by (simp add: key_view_def)

lemma key_frames:
  "key_view (snd (jittered_retransmit_delay c s)) = key_view s"
  "key_view (snd (esb_set_retransmit_delay d s)) = key_view s"
  "key_view (snd (esb_set_retransmit_count k s)) = key_view s"
  "key_view (esb_flush_tx_and_reset c s) = key_view s"
  "key_view (note_activity s) = key_view s"
  "key_view (hid_tx_account bs s) = key_view s"
  "key_view (channel_hop_ep_note_user_tx c s) = key_view s"
  "key_view (critical_ring_push c bs s) = key_view s"
  "key_view (motion_ring_push c body b s) = key_view s"
  "key_view (snd (motion_refund_apply c body' s)) = key_view s"
  "key_view (snd (esb_write_payload c p s)) = key_view s"
  by (simp_all add: key_view_def jittered_retransmit_delay_def esb_set_retransmit_delay_def
      esb_set_retransmit_count_def esb_flush_tx_and_reset_def restore_retransmit_count_def
      esb_flush_tx_def clear_ack_wraps_def note_activity_def hid_tx_account_def critical_ring_push_def
      motion_ring_push_def motion_refund_apply_def esb_write_payload_def start_tx_transaction_def
      channel_hop_ep_note_user_tx_def enter_active_state_def k_work_reschedule_def Let_def
      split: option.splits)

lemma key_pointer: "key_view (snd (pointer_prepare c k bs s)) = key_view s"
  by (simp add: pointer_prepare_def key_frames case_prod_beta Let_def)

interpretation send_key: send_invariant c "\<lambda>s. key_view s = v" "\<lambda>_. True"
  by unfold_locales (simp_all add: key_frames key_pointer, simp_all add: key_view_def)

lemma send_keeps_key: "key_view (snd (esb_transport_send c pipe bs s)) = key_view s"
  by (rule send_key.keep_send [OF refl TrueI])

section \<open>Reports\<close>

text \<open>The packet of a keyboard report.\<close>

definition kb_pkt :: "kcfg \<Rightarrow> zmk_hid \<Rightarrow> kb_report_body \<Rightarrow> u8 list" where
  "kb_pkt c z body = hid_pkt_bytes c ESB_REPORT_KEYBOARD (kb_body_bytes z body)"

lemma kb_pkt:
  "\<not> send_noack c pipe (kb_pkt c z b)" "\<not> is_mouse_report (kb_pkt c z b)" "kb_pkt c z b \<noteq> []"
  "length (kb_pkt c z b) = ESB_PKT_DATA_MAX c + 2"
  by (simp_all add: kb_pkt_def hid_pkt_bytes_def send_noack_def is_mouse_report_def pkt_consts Let_def)

lemma report_sent:
  assumes "air_inv c crc r0 p r sent got k" "length (tx_queue p) < ESB_TX_FIFO_SIZE c" "loud c p"
  shows "\<exists>x. air_inv c crc r0 (send_kb_body c z b p) r (sent @ [x]) got k \<and> pl_data x = kb_pkt c z b \<and>
    tx_queue (send_kb_body c z b p) = tx_queue p @ [x] \<and> loud c (send_kb_body c z b p) \<and>
    key_view (send_kb_body c z b p) = key_view p \<and>
    (m_esb_state p = ESB_STATE_IDLE \<longrightarrow> on_radio_disabled (send_kb_body c z b p) = OnDisabledTx)"
proof -
  obtain err p' where s: "esb_transport_send c ESB_PIPE_DATA (kb_pkt c z b) p = (err, p')" by fastforce
  have p': "send_kb_body c z b p = p'" using s by (simp add: send_kb_body_def send_hid_pkt_def kb_pkt_def)
  have full: "\<not> esb_tx_full c p" using assms(2) by (simp add: esb_tx_full_def ring_full_def)
  have inv: "ptx_inv c p" using assms(1) by (simp add: air_inv_def tx_ok_def)
  have "\<not> ESB_MAX_PAYLOAD_LEN c < length (kb_pkt c z b)"
    using assms(3) unfolding loud_def kb_pkt(4) ESB_PKT_DATA_MAX_def ESB_MAX_PAYLOAD_LEN_def by linarith
  then have sendable: "\<not> (esb_transport_is_quiet c p \<or> \<not> esb_initialized p \<or> ESB_MAX_PAYLOAD_LEN c < length (kb_pkt c z b) \<or>
      kb_pkt c z b = [] \<or> ESB_PIPE_COUNT \<le> unat ESB_PIPE_DATA)"
    using assms(3) by (simp add: loud_def kb_pkt(3) ESB_PIPE_COUNT_def ESB_PIPE_DATA_def)
  from inv s full kb_pkt(1,2) show ?thesis
  proof (cases rule: send_is_write)
    case unsent
    then show ?thesis using sendable by blast
  next
    case (written u)
    let ?x = "\<lparr>pl_pipe = ESB_PIPE_DATA, pl_noack = False, pl_pid = 0, pl_rssi = 0, pl_data = kb_pkt c z b\<rparr>"
    let ?y = "?x\<lparr>pl_pid := next_pid (pl_pipe ?x) u\<rparr>"
    have i: "air_inv c crc r0 u r sent got k" by (rule air_same_radio [OF written(1) assms(1)])
    have tx: "tx_ok c u" using i by (simp add: air_inv_def)
    have "air_inv c crc r0 p' r (sent @ [?y]) got k" using air_writes [OF i _ written(2)] by simp
    moreover have "tx_queue p' = tx_queue p @ [?y]" "esb_initialized p' = esb_initialized p"
      using tx_ok_write(2) [OF tx _ written(2)] write_ptx(8) [OF _ written(2)] tx written(1)
      by (simp_all add: same_radio_def tx_ok_def)
    moreover have "m_esb_state p = ESB_STATE_IDLE \<longrightarrow> on_radio_disabled p' = OnDisabledTx"
      using write_starts [OF tx _ written(2)] written(1) by (simp add: same_radio_def)
    moreover have "\<not> esb_transport_is_quiet c p'" "key_view p' = key_view p"
      using assms(3) send_stays_loud [of c p ESB_PIPE_DATA "kb_pkt c z b"]
        send_keeps_key [of c ESB_PIPE_DATA "kb_pkt c z b" p] s by (simp_all add: loud_def)
    ultimately show ?thesis using assms(3) unfolding p' by (intro exI [of _ ?y]) (simp add: loud_def)
  qed
qed

lemma reports_sent:
  assumes "air_inv c crc r0 p r sent got k" "length (tx_queue p) + length bs \<le> ESB_TX_FIFO_SIZE c" "loud c p"
  shows "\<exists>xs. air_inv c crc r0 (fold (send_kb_body c z) bs p) r (sent @ xs) got k \<and>
    map pl_data xs = map (kb_pkt c z) bs \<and> tx_queue (fold (send_kb_body c z) bs p) = tx_queue p @ xs \<and>
    loud c (fold (send_kb_body c z) bs p) \<and> key_view (fold (send_kb_body c z) bs p) = key_view p"
  using assms
proof (induction bs arbitrary: p sent)
  case (Cons b bs)
  have "length (tx_queue p) < ESB_TX_FIFO_SIZE c" using Cons.prems(2) by (simp del: length_ring_list)
  from report_sent [OF Cons.prems(1) this Cons.prems(3)] obtain x where
    x: "air_inv c crc r0 (send_kb_body c z b p) r (sent @ [x]) got k" "pl_data x = kb_pkt c z b"
    "tx_queue (send_kb_body c z b p) = tx_queue p @ [x]" "loud c (send_kb_body c z b p)"
    "key_view (send_kb_body c z b p) = key_view p" by blast
  have n: "length (tx_queue (send_kb_body c z b p)) + length bs \<le> ESB_TX_FIFO_SIZE c"
    using Cons.prems(2) by (simp add: x(3) del: length_ring_list)
  from Cons.IH [OF x(1) n x(4)] obtain xs where
    "air_inv c crc r0 (fold (send_kb_body c z) bs (send_kb_body c z b p)) r ((sent @ [x]) @ xs) got k"
    "map pl_data xs = map (kb_pkt c z) bs"
    "tx_queue (fold (send_kb_body c z) bs (send_kb_body c z b p)) = tx_queue (send_kb_body c z b p) @ xs"
    "loud c (fold (send_kb_body c z) bs (send_kb_body c z b p))"
    "key_view (fold (send_kb_body c z) bs (send_kb_body c z b p)) = key_view (send_kb_body c z b p)" by blast
  then show ?case using x by (intro exI [of _ "x # xs"]) simp
qed (auto simp: intro: exI [of _ "[]"])

section \<open>Runs\<close>

text \<open>
  \<open>keyboard_run c z crc p0 r0 p r out\<close>: endpoint and dongle get from \<open>p0\<close>, \<open>r0\<close> to \<open>p\<close>, \<open>r\<close> while keys are
  pressed and released; \<open>out\<close> are the reports the listener makes of them. Between the key events the radio of both ends
  runs, the retry work of deferred reports runs whenever it likes, and \<open>elsewhere\<close> is anything that leaves the radio
  and the deferred reports alone, the passing of time included. Reports are lost for good where the deferred ones or the
  transmit FIFO overflow, so a run has room for the next.
\<close>

definition elsewhere :: "'a hid_scheme \<Rightarrow> 'a hid_scheme \<Rightarrow> bool" where
  "elsewhere p' p \<longleftrightarrow> same_radio (p'\<lparr>uptime := uptime p\<rparr>) p \<and> kb_pending p' = kb_pending p \<and> cons_pending p' = cons_pending p"

inductive keyboard_run ::
    "kcfg \<Rightarrow> zmk_hid \<Rightarrow> (u8 \<Rightarrow> esb_pdu \<Rightarrow> u16) \<Rightarrow> 'a hid_scheme \<Rightarrow> 'b dongle_scheme \<Rightarrow> 'a hid_scheme \<Rightarrow> 'b dongle_scheme \<Rightarrow>
     kb_report_body list \<Rightarrow> bool"
  for c z crc p0 r0 where
  start: "keyboard_run c z crc p0 r0 p0 r0 []"
| air: "keyboard_run c z crc p0 r0 p r out \<Longrightarrow> air_run c crc p r p' r' [] got \<Longrightarrow> keyboard_run c z crc p0 r0 p' r' out"
| other: "keyboard_run c z crc p0 r0 p r out \<Longrightarrow> elsewhere p' p \<Longrightarrow> keyboard_run c z crc p0 r0 p' r out"
| key: "keyboard_run c z crc p0 r0 p r out \<Longrightarrow> usage_page ev = HID_USAGE_KEY \<Longrightarrow> pairing_is_connected p \<Longrightarrow>
    length (kb_pending p) < HID_QUIET_KB_QUEUE_DEPTH c \<Longrightarrow>
    length (tx_queue p) + length (kb_pending p) < ESB_TX_FIFO_SIZE c \<Longrightarrow>
    p' = snd (hid_relay_cb c z True (Some ev) p) \<Longrightarrow> keyboard_run c z crc p0 r0 p' r (out @ [kb_body p'])"
| retry: "keyboard_run c z crc p0 r0 p r out \<Longrightarrow> cons_pending p = [] \<Longrightarrow>
    length (tx_queue p) + length (kb_pending p) \<le> ESB_TX_FIFO_SIZE c \<Longrightarrow>
    keyboard_run c z crc p0 r0 (hid_retry_work_fn c z p) r out"

text \<open>What an air run leaves alone in the endpoint.\<close>

definition endpoint_view where "endpoint_view s = (esb_initialized s, key_view s)"

lemma radio_frames:
  "endpoint_view (next_transaction s) = endpoint_view s"
  "endpoint_view (receive_ack_payload c ack rssi s) = endpoint_view s"
  "endpoint_view (deliver_packet c pdu rssi pipe s) = endpoint_view s"
  "endpoint_view (answer_packet dup pipe pdu s) = endpoint_view s"
  "endpoint_view (snd (esb_write_payload c p s)) = endpoint_view s"
  "endpoint_view (snd (esb_set_rf_channel ch s)) = endpoint_view s"
  "endpoint_view (snd (esb_set_retransmit_count n s)) = endpoint_view s"
  "endpoint_view (snd (esb_read_rx_payload c s)) = endpoint_view s"
  "endpoint_view (snd (get_and_clear_irqs s)) = endpoint_view s"
  by (simp_all add: endpoint_view_def key_view_def next_transaction_def start_tx_transaction_def receive_ack_payload_def
      rx_fifo_push_rfbuf_def deliver_packet_def answer_packet_def on_radio_disabled_rx_dpl_def esb_write_payload_def
      esb_set_rf_channel_def esb_set_retransmit_count_def esb_read_rx_payload_def get_and_clear_irqs_def Let_def
      split: option.split)

lemma irq_endpoint: "endpoint_view (radio_irq_handler c rx rssi pipe crc s) = endpoint_view s"
proof -
  have u: "endpoint_view (s\<lparr>m_esb_state := st\<rparr>) = endpoint_view s" "endpoint_view (s\<lparr>on_radio_disabled := h\<rparr>) = endpoint_view s"
    "endpoint_view (s\<lparr>retransmits_remaining := n\<rparr>) = endpoint_view s" "endpoint_view (s\<lparr>tx_fifo := f\<rparr>) = endpoint_view s"
    "endpoint_view (s\<lparr>int_tx_success := b\<rparr>) = endpoint_view s" "endpoint_view (s\<lparr>int_tx_failed := b\<rparr>) = endpoint_view s"
    "endpoint_view (s\<lparr>last_tx_attempts := n'\<rparr>) = endpoint_view s" "endpoint_view (s\<lparr>tx_noack_timer := b\<rparr>) = endpoint_view s"
    "endpoint_view (s\<lparr>radio_txaddress := a\<rparr>) = endpoint_view s" "endpoint_view (s\<lparr>tx_payload_buffer := y\<rparr>) = endpoint_view s"
    "endpoint_view (s\<lparr>rx_pipe_info := ps\<rparr>) = endpoint_view s"
    for st h n n' f b a y ps and s :: "'a hid_scheme"
    by (simp_all add: endpoint_view_def key_view_def)
  show ?thesis
    by (cases "on_radio_disabled s"; cases rx)
      (simp_all add: radio_irq_handler_def on_radio_disabled_tx_def on_radio_disabled_tx_wait_for_ack_def
        on_radio_disabled_rx_def on_radio_disabled_rx_ack_def tx_fifo_remove_last_def radio_frames u Let_def)
qed

lemma air_endpoint:
  assumes "air_run c crc p r p' r' xs ys"
  shows "endpoint_view p' = endpoint_view p"
  using assms
proof induction
  case (writes p r sent got x p')
  then show ?case using radio_frames(5) [of c x p] by simp
next
  case (attempt p r sent got heard acked rssi ack_rssi p' r')
  then show ?case by (auto simp: exchange_def irq_endpoint Let_def)
qed (simp_all add: radio_frames)

text \<open>The reports made are those in the packets sent and then the deferred ones.\<close>

definition key_inv where
  "key_inv c z crc r0 p r out \<longleftrightarrow> esb_initialized p \<and> cons_pending p = [] \<and>
     (\<exists>sent got k us. air_inv c crc r0 p r sent got k \<and> out = us @ kb_pending p \<and> map pl_data sent = map (kb_pkt c z) us)"

lemma key_invI:
  assumes "esb_initialized p" "cons_pending p = []" "air_inv c crc r0 p r sent got k" "out = us @ kb_pending p"
    and "map pl_data sent = map (kb_pkt c z) us"
  shows "key_inv c z crc r0 p r out"
  using assms unfolding key_inv_def by blast

lemma key_inv_keep:
  assumes "key_inv c z crc r0 p r out" "same_radio q p" "kb_pending q = kb_pending p" "cons_pending q = cons_pending p"
  shows "key_inv c z crc r0 q r out"
proof -
  obtain sent got k us where i: "air_inv c crc r0 p r sent got k" "out = us @ kb_pending p"
    "map pl_data sent = map (kb_pkt c z) us" using assms(1) by (auto simp: key_inv_def)
  show ?thesis using assms i(2,3)
    by (intro key_invI [OF _ _ air_same_radio [OF assms(2) i(1)]]) (simp_all add: key_inv_def same_radio_def)
qed

lemma key_inv_elsewhere:
  assumes "key_inv c z crc r0 p r out" "elsewhere q p"
  shows "key_inv c z crc r0 q r out"
proof -
  have "key_inv c z crc r0 (q\<lparr>uptime := uptime p\<rparr>) r out"
    using assms by (intro key_inv_keep [OF assms(1)]) (simp_all add: elsewhere_def)
  moreover have "air_inv c crc r0 (q\<lparr>uptime := u\<rparr>) r sent got k = air_inv c crc r0 q r sent got k" for u sent got k
    by (simp add: air_inv_def tx_ok_def ptx_inv_def)
  ultimately show ?thesis by (simp add: key_inv_def)
qed

lemma key_inv_drain:
  assumes "key_inv c z crc r0 p r out" "\<not> esb_transport_is_quiet c p" "2 \<le> ESB_MAX_PAYLOAD_LENGTH c"
    and "length (tx_queue p) + length (kb_pending p) \<le> ESB_TX_FIFO_SIZE c"
  shows "key_inv c z crc r0 (drain_pending_kb c z p) r out" "kb_pending (drain_pending_kb c z p) = []"
    "kb_body (drain_pending_kb c z p) = kb_body p" "\<not> esb_transport_is_quiet c (drain_pending_kb c z p)"
    "length (tx_queue (drain_pending_kb c z p)) = length (tx_queue p) + length (kb_pending p)"
proof -
  obtain sent got k us where i: "air_inv c crc r0 p r sent got k" "out = us @ kb_pending p"
    "map pl_data sent = map (kb_pkt c z) us" using assms(1) by (auto simp: key_inv_def)
  let ?t = "fold (send_kb_body c z) (kb_pending p) p"
  have "loud c p" using assms(1-3) by (simp add: loud_def key_inv_def)
  from reports_sent [OF i(1) assms(4) this] obtain xs where
    xs: "air_inv c crc r0 ?t r (sent @ xs) got k" "map pl_data xs = map (kb_pkt c z) (kb_pending p)"
      "tx_queue ?t = tx_queue p @ xs" "loud c ?t" "key_view ?t = key_view p" by blast
  have d: "drain_pending_kb c z p = ?t\<lparr>kb_pending := []\<rparr>" by (simp add: drain_pending_kb_def)
  have "air_inv c crc r0 (?t\<lparr>kb_pending := []\<rparr>) r (sent @ xs) got k"
    by (rule air_same_radio [OF _ xs(1)]) (simp add: same_radio_def)
  then show "key_inv c z crc r0 (drain_pending_kb c z p) r out"
    using assms(1) i(2,3) xs(2,4) key_view_fields [OF xs(5)] unfolding d
    by (intro key_invI [where sent = "sent @ xs" and us = "us @ kb_pending p"]) (simp_all add: loud_def key_inv_def)
  show "kb_pending (drain_pending_kb c z p) = []" "kb_body (drain_pending_kb c z p) = kb_body p"
    using key_view_fields [OF xs(5)] by (simp_all add: d)
  show "\<not> esb_transport_is_quiet c (drain_pending_kb c z p)"
  proof -
    have "esb_transport_is_quiet c (?t\<lparr>kb_pending := []\<rparr>) = esb_transport_is_quiet c ?t"
      by (simp add: esb_transport_is_quiet_def k_uptime_get_32_def)
    then show ?thesis using xs(4) by (simp add: d loud_def)
  qed
  have "length xs = length (kb_pending p)" using arg_cong [OF xs(2), of length] by simp
  then show "length (tx_queue (drain_pending_kb c z p)) = length (tx_queue p) + length (kb_pending p)"
    by (simp add: d xs(3) del: length_ring_list)
qed

lemma key_inv_send:
  assumes "key_inv c z crc r0 p r out" "\<not> esb_transport_is_quiet c p" "2 \<le> ESB_MAX_PAYLOAD_LENGTH c"
    and "length (tx_queue p) < ESB_TX_FIFO_SIZE c" "kb_pending p = []"
  shows "key_inv c z crc r0 (send_kb_body c z b p) r (out @ [b])" "kb_body (send_kb_body c z b p) = kb_body p"
proof -
  obtain sent got k where i: "air_inv c crc r0 p r sent got k" "map pl_data sent = map (kb_pkt c z) out"
    using assms(1,5) by (auto simp: key_inv_def)
  have "loud c p" using assms(1-3) by (simp add: loud_def key_inv_def)
  from report_sent [OF i(1) assms(4) this, of z b] obtain x where
    x: "air_inv c crc r0 (send_kb_body c z b p) r (sent @ [x]) got k" "pl_data x = kb_pkt c z b"
      "loud c (send_kb_body c z b p)" "key_view (send_kb_body c z b p) = key_view p" by blast
  show "kb_body (send_kb_body c z b p) = kb_body p" using key_view_fields [OF x(4)] by simp
  show "key_inv c z crc r0 (send_kb_body c z b p) r (out @ [b])"
    using x(1-3) assms(1,5) i(2) key_view_fields [OF x(4)]
    by (intro key_invI [where sent = "sent @ [x]" and us = "out @ [b]"]) (simp_all add: loud_def key_inv_def)
qed

lemma key_page_frames:
  "same_radio (on_key_page c z ev (falling_edge True s)) s"
  "kb_pending (on_key_page c z ev (falling_edge True s)) = kb_pending s"
  "cons_pending (on_key_page c z ev (falling_edge True s)) = cons_pending s"
  by (simp_all add: on_key_page_def falling_edge_def same_radio_def explicit_update_def implicit_update_def
      kb_keys_press_def kb_keys_release_def Let_def split: prod.split)

lemma key_inv_key:
  assumes "key_inv c z crc r0 p r out" "2 \<le> ESB_MAX_PAYLOAD_LENGTH c" "usage_page ev = HID_USAGE_KEY" "pairing_is_connected p"
    and "length (kb_pending p) < HID_QUIET_KB_QUEUE_DEPTH c" "length (tx_queue p) + length (kb_pending p) < ESB_TX_FIFO_SIZE c"
    and "p' = snd (hid_relay_cb c z True (Some ev) p)"
  shows "key_inv c z crc r0 p' r (out @ [kb_body p'])"
proof -
  define q where "q = on_key_page c z ev (falling_edge True p)"
  define s where "s = q\<lparr>kb_body := (kb_body q)\<lparr>modifiers := explicit_mods q OR implicit_mods q\<rparr>\<rparr>"
  have p': "p' = (if esb_transport_is_quiet c s
      then k_work_reschedule HidRetryWork (HID_QUIET_RETRY_MS c) (enqueue_pending_kb c s)
      else (let s = drain_pending_kb c z s in send_kb_body c z (kb_body s) s))"
    using assms(3,4,7) by (simp add: hid_relay_cb_def send_keyboard_def q_def s_def Let_def)
  have f: "same_radio s p" "kb_pending s = kb_pending p" "cons_pending s = cons_pending p"
    using key_page_frames [of c z ev p] by (simp_all add: s_def q_def same_radio_def)
  have i: "key_inv c z crc r0 s r out" by (rule key_inv_keep [OF assms(1) f])
  have n: "length (tx_queue s) + length (kb_pending s) < ESB_TX_FIFO_SIZE c"
    using assms(6) f by (simp add: same_radio_def)
  show ?thesis
  proof (cases "esb_transport_is_quiet c s")
    case True
    let ?t = "k_work_reschedule HidRetryWork (HID_QUIET_RETRY_MS c) (enqueue_pending_kb c s)"
    have t: "same_radio ?t s" "kb_pending ?t = kb_pending s @ [kb_body s]" "cons_pending ?t = cons_pending s"
      "kb_body ?t = kb_body s" using assms(5) f(2)
      by (simp_all add: same_radio_def k_work_reschedule_def enqueue_pending_kb_def pending_push_def)
    obtain sent got k us where a: "air_inv c crc r0 s r sent got k" "out = us @ kb_pending s"
      "map pl_data sent = map (kb_pkt c z) us" using i by (auto simp: key_inv_def)
    have "key_inv c z crc r0 ?t r (out @ [kb_body ?t])"
      using air_same_radio [OF t(1) a(1)] a(2,3) t i by (auto simp: key_inv_def same_radio_def)
    then show ?thesis using True by (simp add: p')
  next
    case False
    note d = key_inv_drain [OF i False assms(2) less_imp_le [OF n]]
    have "length (tx_queue (drain_pending_kb c z s)) < ESB_TX_FIFO_SIZE c" using d(5) n by simp
    from key_inv_send [OF d(1,4) assms(2) this d(2), of "kb_body (drain_pending_kb c z s)"] show ?thesis
      using False by (simp add: p' Let_def)
  qed
qed

lemma key_inv_retry:
  assumes "key_inv c z crc r0 p r out" "2 \<le> ESB_MAX_PAYLOAD_LENGTH c"
    and "length (tx_queue p) + length (kb_pending p) \<le> ESB_TX_FIFO_SIZE c"
  shows "key_inv c z crc r0 (hid_retry_work_fn c z p) r out"
proof (cases "esb_transport_is_quiet c p")
  case True
  then show ?thesis
    by (simp add: hid_retry_work_fn_def) (rule key_inv_keep [OF assms(1)]; simp add: same_radio_def k_work_reschedule_def)
next
  case False
  note d = key_inv_drain [OF assms(1) False assms(2,3)]
  have "cons_pending (drain_pending_kb c z p) = []" using d(1) by (simp add: key_inv_def)
  then have "hid_retry_work_fn c z p = (drain_pending_kb c z p)\<lparr>cons_pending := []\<rparr>"
    using False by (simp add: hid_retry_work_fn_def drain_pending_cons_def)
  with \<open>cons_pending (drain_pending_kb c z p) = []\<close> show ?thesis
    using key_inv_keep [OF d(1), of "(drain_pending_kb c z p)\<lparr>cons_pending := []\<rparr>"] by (simp add: same_radio_def)
qed

lemma keyboard_run_inv:
  assumes "keyboard_run c z crc p0 r0 p r out" "key_inv c z crc r0 p0 r0 []" "2 \<le> ESB_MAX_PAYLOAD_LENGTH c"
  shows "key_inv c z crc r0 p r out"
  using assms(1)
proof induction
  case (air p r out p' r' got)
  then obtain sent got0 k us where a: "air_inv c crc r0 p r sent got0 k" "out = us @ kb_pending p"
    "map pl_data sent = map (kb_pkt c z) us" and i: "esb_initialized p" "cons_pending p = []"
    by (auto simp: key_inv_def)
  obtain k' where "air_inv c crc r0 p' r' sent (got0 @ got) k'" using air_run_from [OF air(2) a(1)] by auto
  moreover have "esb_initialized p' = esb_initialized p" "kb_pending p' = kb_pending p" "cons_pending p' = cons_pending p"
    using air_endpoint [OF air(2)] by (simp_all add: endpoint_view_def key_view_def)
  ultimately show ?case using a(2,3) i by (intro key_invI) simp_all
next
  case (key p r out ev p')
  then show ?case using key_inv_key [OF key.IH assms(3)] by blast
qed (use assms(2,3) key_inv_elsewhere key_inv_retry in \<open>blast+\<close>)

section \<open>Property\<close>

lemma keyboard_run_start:
  assumes "air_ready c p0 r0" "esb_initialized p0" "kb_pending p0 = []" "cons_pending p0 = []"
  shows "key_inv c z crc r0 p0 r0 []"
proof -
  have "air_inv c crc r0 p0 r0 [] [] 0" using assms(1) by (intro air_start) (simp_all add: air_ready_def)
  then show ?thesis using assms(2-4) by (intro key_invI [where sent = "[]" and us = "[]"]) simp_all
qed

text \<open>
  C4. From the key to USB: whatever the medium loses and however key events, deferred reports, retransmissions and
  the dongle's interrupts interleave, the reports a connected dongle has written to USB are, byte for byte and in
  order, the first of those the key event listener made, none twice and none left out, and all of them once
  no report is deferred, the transmit FIFO is empty and the dongle has handled what it received.
\<close>

theorem keys_reach_usb:
  assumes "keyboard_run c z crc p0 r0 p r out" "air_ready c p0 r0" "esb_initialized p0"
    and "kb_pending p0 = []" "cons_pending p0 = []" "d_state r0 \<in> {DONGLE_CONNECTED, DONGLE_VERIFYING}"
    and "\<forall>b \<in> set out. length (kb_body_bytes z b) = 8" "8 \<le> ESB_PKT_DATA_MAX c"
  shows "(\<exists>n. usb_out r = usb_out r0 @ map (\<lambda>b. 1 # kb_body_bytes z b) (take n out)) \<and> d_state r = d_state r0 \<and>
    (tx_queue p = [] \<and> rx_queue r = [] \<and> kb_pending p = [] \<longrightarrow>
       usb_out r = usb_out r0 @ map (\<lambda>b. 1 # kb_body_bytes z b) out)"
proof -
  have "2 \<le> ESB_MAX_PAYLOAD_LENGTH c" using assms(8) by (simp add: ESB_PKT_DATA_MAX_def)
  from keyboard_run_inv [OF assms(1) keyboard_run_start [OF assms(2-5)] this] obtain sent got k us where
    i: "air_inv c crc r0 p r sent got k" "out = us @ kb_pending p" "map pl_data sent = map (kb_pkt c z) us"
    by (auto simp: key_inv_def)
  have s: "map pl_data (got @ rx_queue r) = take k (map pl_data sent)"
  proof -
    have "map seen (got @ rx_queue r) = map seen (take k sent)" using i(1) by (simp add: air_inv_def)
    from seen_data [OF this] show ?thesis by (simp add: take_map)
  qed
  define n where "n = length got"
  have "n \<le> k" using arg_cong [OF s, of length] by (simp add: n_def min_def split: if_splits)
  then have n: "map pl_data got = map (kb_pkt c z) (take n us)"
    using arg_cong [OF s, of "take n"] i(3) by (simp add: n_def take_map min_def)
  have "app_of r = fold app_step (map (hid_pkt_bytes c ESB_REPORT_KEYBOARD) (map (kb_body_bytes z) (take n us))) (app_of r0)"
    using i(1) n by (simp add: air_inv_def kb_pkt_def [abs_def] comp_def)
  moreover have "\<forall>b \<in> set (map (kb_body_bytes z) (take n us)). length b = 8"
    using assms(7) i(2) set_take_subset [of n us] by auto
  ultimately have app: "usb_out r = usb_out r0 @ map (\<lambda>b. 1 # kb_body_bytes z b) (take n us) \<and> d_state r = d_state r0"
    using app_steps_reports [of "app_of r0" "map (kb_body_bytes z) (take n us)" c] assms(6,8) by (simp add: app_of_def comp_def)
  have "take (min n (length us)) out = take n us" using i(2) by (simp add: min_def)
  then have ex: "\<exists>n. usb_out r = usb_out r0 @ map (\<lambda>b. 1 # kb_body_bytes z b) (take n out)" using app by metis
  have "take n us = us" if "tx_queue p = []" "rx_queue r = []"
  proof -
    have "k = length sent" using i(1) that(1) by (auto simp: air_inv_def)
    then have "n = length sent" using arg_cong [OF s, of length] that(2) by (simp add: n_def)
    then show ?thesis using arg_cong [OF i(3), of length] by simp
  qed
  then show ?thesis using app ex i(2) by auto
qed

section \<open>A key press\<close>

definition hid_of_zmk :: zmk_hid where
  "hid_of_zmk = \<lparr>nkro_max_usage = 0xE7, cons_elem = id, kb_body_bytes = (\<lambda>b. modifiers b # 0 # kb_keys b),
     cons_body_bytes = (\<lambda>b. map ucast (cons_keys b)), is_mod = (\<lambda>_ k. 0xE0 \<le> k \<and> k \<le> 0xE7)\<rparr>"

definition press_a :: keycode_state_changed where
  "press_a = \<lparr>usage_page = HID_USAGE_KEY, keycode = 4, implicit_modifiers = 0, explicit_modifiers = 2, state = True\<rparr>"

definition a_pressed :: hid where
  "a_pressed = snd (hid_relay_cb default_kcfg hid_of_zmk True (Some press_a) (hid_at ()))"

lemma a_page: "on_key_page default_kcfg hid_of_zmk press_a (falling_edge True (hid_at ())) =
   (hid_at ())\<lparr>was_active := True, kb_body := \<lparr>modifiers = 0, kb_keys = [4, 0, 0, 0, 0, 0]\<rparr>,
     explicit_mod_refcount := [0, 1, 0, 0, 0, 0, 0, 0], explicit_mods := 2\<rparr>"
proof -
  have m: "mods_inc 2 (replicate 8 0, 0) = ([0, 1, 0, 0, 0, 0, 0, 0], 2)" "mods_inc 0 (replicate 8 0, 0) = (replicate 8 0, 0)"
    by code_simp+
  have k: "array_press 4 4 (replicate 6 (0 :: u8)) = [4, 0, 0, 0, 0, 0]" by code_simp
  have h: "kb_body (hid_at ()) = \<lparr>modifiers = 0, kb_keys = replicate 6 0\<rparr>" "explicit_mod_refcount (hid_at ()) = replicate 8 0"
    "implicit_mod_refcount (hid_at ()) = replicate 8 0" "explicit_mods (hid_at ()) = 0" "implicit_mods (hid_at ()) = 0"
    by (simp_all add: hid_at_def pair_at_def bench_at_def tport_at_def)
  have "(hid_at ())\<lparr>implicit_mod_refcount := replicate 8 0, implicit_mods := 0\<rparr> = hid_at ()"
    by (simp add: hid_at_def pair_at_def bench_at_def tport_at_def)
  then show ?thesis
    by (simp add: on_key_page_def press_a_def hid_of_zmk_def falling_edge_def explicit_update_def implicit_update_def
      kb_keys_press_def h m k)
qed

definition a_at :: hid where
  "a_at = (hid_at ())\<lparr>was_active := True, kb_body := \<lparr>modifiers = 2, kb_keys = [4, 0, 0, 0, 0, 0]\<rparr>,
     explicit_mod_refcount := [0, 1, 0, 0, 0, 0, 0, 0], explicit_mods := 2\<rparr>"

lemma a_sent: "a_pressed = send_kb_body default_kcfg hid_of_zmk \<lparr>modifiers = 2, kb_keys = [4, 0, 0, 0, 0, 0]\<rparr> a_at"
proof -
  have m: "pairing_is_connected (hid_at ())" by (simp add: pairing_is_connected_def hid_at_def pair_at_def bench_at_def tport_at_def)
  have k: "usage_page press_a = HID_USAGE_KEY" by (simp add: press_a_def)
  have q: "\<not> esb_transport_is_quiet default_kcfg a_at"
  proof -
    have "m_tx_quiet_until_ms a_at = 0" "\<not> m_sync_tx_in_progress a_at"
      by (simp_all add: a_at_def hid_at_def pair_at_def bench_at_def tport_at_def)
    then show ?thesis by (simp add: esb_transport_is_quiet_def)
  qed
  let ?p = "on_key_page default_kcfg hid_of_zmk press_a (falling_edge True (hid_at ()))"
  have s: "?p\<lparr>kb_body := (kb_body ?p)\<lparr>modifiers := explicit_mods ?p OR implicit_mods ?p\<rparr>\<rparr> = a_at"
    unfolding a_page by (simp add: a_at_def hid_at_def pair_at_def bench_at_def tport_at_def)
  have b: "kb_pending a_at = []" "kb_body a_at = \<lparr>modifiers = 2, kb_keys = [4, 0, 0, 0, 0, 0]\<rparr>"
    "a_at\<lparr>kb_pending := []\<rparr> = a_at"
    by (simp_all add: a_at_def hid_at_def pair_at_def bench_at_def tport_at_def)
  have "a_pressed = send_keyboard default_kcfg hid_of_zmk ?p"
    unfolding a_pressed_def hid_relay_cb_def option.case Let_def using m k by simp
  also have "\<dots> = send_kb_body default_kcfg hid_of_zmk (kb_body (drain_pending_kb default_kcfg hid_of_zmk a_at))
      (drain_pending_kb default_kcfg hid_of_zmk a_at)"
    unfolding send_keyboard_def s Let_def using q by (simp only: if_False)
  also have "drain_pending_kb default_kcfg hid_of_zmk a_at = a_at"
    unfolding drain_pending_kb_def b(1) by (simp only: fold.simps id_apply b(3))
  finally show ?thesis by (simp only: b(2))
qed

lemma hid_start:
  "air_ready default_kcfg (hid_at ()) dongle_connected" "esb_initialized (hid_at ())" "kb_pending (hid_at ()) = []"
  "cons_pending (hid_at ()) = []" "pairing_is_connected (hid_at ())" "tx_queue (hid_at ()) = []"
  "m_esb_state (hid_at ()) = ESB_STATE_IDLE" "\<not> esb_transport_is_quiet default_kcfg (hid_at ())"
proof -
  note h = hid_at_def pair_at_def bench_at_def
  show "esb_initialized (hid_at ())" "tx_queue (hid_at ()) = []" "m_esb_state (hid_at ()) = ESB_STATE_IDLE"
    "\<not> esb_transport_is_quiet default_kcfg (hid_at ())"
    unfolding h by (rule tport_example_simps)+
  show "kb_pending (hid_at ()) = []" "cons_pending (hid_at ()) = []" "pairing_is_connected (hid_at ())"
    by (simp_all add: pairing_is_connected_def h tport_at_def)
  have "ptx_inv default_kcfg (hid_at ())" unfolding h by (rule tport_example_simps)
  moreover have "esb_pids (hid_at ()) = [0, 0]" "on_radio_disabled (hid_at ()) = NoHandler"
    by (simp_all add: h tport_at_def)
  ultimately show "air_ready default_kcfg (hid_at ()) dongle_connected"
    using air_example_ready \<open>tx_queue (hid_at ()) = []\<close> by (simp add: air_ready_def tx_ok_def ESB_PIPE_COUNT_def)
qed

lemma a_at:
  "key_inv default_kcfg hid_of_zmk (\<lambda>_ _. 7) dongle_connected a_at dongle_connected []" "loud default_kcfg a_at"
  "tx_queue a_at = []" "m_esb_state a_at = ESB_STATE_IDLE"
proof -
  have r: "same_radio a_at (hid_at ())" by (simp add: a_at_def same_radio_def)
  have p: "kb_pending a_at = kb_pending (hid_at ())" "cons_pending a_at = cons_pending (hid_at ())" by (simp_all add: a_at_def)
  show "key_inv default_kcfg hid_of_zmk (\<lambda>_ _. 7) dongle_connected a_at dongle_connected []"
    by (rule key_inv_keep [OF keyboard_run_start [OF hid_start(1-4)] r p])
  show "loud default_kcfg a_at"
  proof -
    have "esb_transport_is_quiet default_kcfg a_at = esb_transport_is_quiet default_kcfg (hid_at ())"
      by (simp add: a_at_def esb_transport_is_quiet_def k_uptime_get_32_def)
    then show ?thesis using hid_start(2,8) by (simp add: loud_def a_at_def)
  qed
  show "tx_queue a_at = []" "m_esb_state a_at = ESB_STATE_IDLE" using hid_start(6,7) by (simp_all add: a_at_def)
qed

lemma a_queued:
  obtains x where "tx_ok default_kcfg a_pressed" "tx_queue a_pressed = [x]" "on_radio_disabled a_pressed = OnDisabledTx"
    "key_view a_pressed = key_view a_at"
proof -
  obtain sent got k where i: "air_inv default_kcfg (\<lambda>_ _. 7) dongle_connected a_at dongle_connected sent got k"
    using a_at(1) by (auto simp: key_inv_def)
  have "length (tx_queue a_at) < ESB_TX_FIFO_SIZE default_kcfg" unfolding a_at(3) by simp
  from report_sent [OF i this a_at(2)] obtain x where
    x: "air_inv default_kcfg (\<lambda>_ _. 7) dongle_connected a_pressed dongle_connected (sent @ [x]) got k"
    "tx_queue a_pressed = tx_queue a_at @ [x]" "key_view a_pressed = key_view a_at"
    "m_esb_state a_at = ESB_STATE_IDLE \<longrightarrow> on_radio_disabled a_pressed = OnDisabledTx"
    unfolding a_sent by blast
  show ?thesis using x(1,2,3,4) a_at(3,4) by (intro that [of x]) (simp_all add: air_inv_def)
qed

theorem keys_reach_usb_witness:
  "\<exists>p r. keyboard_run default_kcfg hid_of_zmk (\<lambda>_ _. 7) (hid_at ()) dongle_connected p r
       [\<lparr>modifiers = 2, kb_keys = [4, 0, 0, 0, 0, 0]\<rparr>] \<and> usb_out r = [[1, 2, 0, 4, 0, 0, 0, 0, 0]]"
proof -
  let ?run = "keyboard_run default_kcfg hid_of_zmk (\<lambda>_ _. 7) (hid_at ()) dongle_connected"
  obtain x where a: "tx_ok default_kcfg a_pressed" "tx_queue a_pressed = [x]" "on_radio_disabled a_pressed = OnDisabledTx"
    "key_view a_pressed = key_view a_at" by (rule a_queued)
  have kb: "kb_body a_pressed = \<lparr>modifiers = 2, kb_keys = [4, 0, 0, 0, 0, 0]\<rparr>" "kb_pending a_pressed = []"
    using key_view_fields [OF a(4)] hid_start(3) by (simp_all add: a_at_def)
  have "usage_page press_a = HID_USAGE_KEY" "length (kb_pending (hid_at ())) < HID_QUIET_KB_QUEUE_DEPTH default_kcfg"
    "length (tx_queue (hid_at ())) + length (kb_pending (hid_at ())) < ESB_TX_FIFO_SIZE default_kcfg"
    unfolding hid_start(3,6) by (simp_all add: press_a_def)
  from keyboard_run.key [OF keyboard_run.start this(1) hid_start(5) this(2,3) a_pressed_def]
  have 1: "?run a_pressed dongle_connected [\<lparr>modifiers = 2, kb_keys = [4, 0, 0, 0, 0, 0]\<rparr>]" by (simp add: kb(1))
  obtain p2 r2 where e: "exchange default_kcfg (\<lambda>_ _. 7) True True 0 0 a_pressed dongle_connected = (p2, r2)" by fastforce
  note 2 = air_run.attempt [OF air_run.start a(3) e]
  let ?r = "esb_evt_irq_handler (dongle_evt_handler default_kcfg) r2"
  obtain got where 3: "air_run default_kcfg (\<lambda>_ _. 7) a_pressed dongle_connected p2 ?r [] got"
    using air_run.event [OF 2] by blast
  have r: "rx_ok default_kcfg dongle_connected" "rcount (rx_fifo dongle_connected) < ESB_RX_FIFO_SIZE default_kcfg"
    using air_example_ready by (simp_all add: air_ready_def dongle_connected_def)
  have q: "tx_queue p2 = []" using exchange_acked [OF a(1) r(1) a(3) r(2) e] a(2) by simp
  obtain sent got k us where "air_inv default_kcfg (\<lambda>_ _. 7) dongle_connected a_pressed dongle_connected sent got k"
    using keyboard_run_inv [OF 1 keyboard_run_start [OF hid_start(1-4)]] by (auto simp: key_inv_def)
  from air_run_from [OF 2 this] have "rx_ok default_kcfg r2" by (auto simp: air_inv_def)
  from rx_event(2) [OF this refl] have rx: "rx_queue ?r = []" .
  have pend: "kb_pending p2 = []" using air_endpoint [OF 3] kb(2) by (simp add: endpoint_view_def key_view_def)
  note 4 = keyboard_run.air [OF 1 3]
  have "d_state dongle_connected \<in> {DONGLE_CONNECTED, DONGLE_VERIFYING}" "usb_out dongle_connected = []"
    "\<forall>b \<in> set [\<lparr>modifiers = 2, kb_keys = [4, 0, 0, 0, 0, 0]\<rparr>]. length (kb_body_bytes hid_of_zmk b) = 8"
    "8 \<le> ESB_PKT_DATA_MAX default_kcfg"
    by (simp_all add: dongle_connected_def dongle_boot_def hid_of_zmk_def ESB_PKT_DATA_MAX_def)
  with keys_reach_usb [OF 4 hid_start(1-4) this(1,3,4)] q rx pend
  have "usb_out ?r = [[1, 2, 0, 4, 0, 0, 0, 0, 0]]" by (simp add: hid_of_zmk_def)
  with 4 show ?thesis by blast
qed

end
