(* ===== verification/ReplyQueues.thy ===== *)
theory ReplyQueues
  imports Air "HOL-Library.Sublist"
begin

text \<open>
  The replies of the dongle, payloads of acknowledgements in \<open>vendor/nrf-esb/subsys/esb.c\<close>: one queue per
  pipe, whose head goes out with every answer until a new packet on the pipe shows that the last answer
  arrived; and what the handler of \<open>dongle/src/main.c\<close> puts into them.
\<close>

section \<open>The reply queues\<close>

definition replies :: "'a esb_scheme \<Rightarrow> nat \<Rightarrow> u8 list list" where
  "replies r b = map (\<lambda>i. pl_data (rslots (tx_fifo r) ! i)) (ack_pl_wrap_pipe r ! b)"

definition reply_ok :: "kcfg \<Rightarrow> 'a esb_scheme \<Rightarrow> bool" where
  "reply_ok c r \<longleftrightarrow> length (ack_pl_wrap_pipe r) = ESB_PIPE_COUNT \<and> length (rx_pipe_info r) = ESB_PIPE_COUNT \<and>
     length (ack_in_use r) = ESB_TX_FIFO_SIZE c \<and> length (rslots (tx_fifo r)) = ESB_TX_FIFO_SIZE c \<and>
     rcount (tx_fifo r) = length (concat (ack_pl_wrap_pipe r)) \<and> distinct (concat (ack_pl_wrap_pipe r)) \<and>
     (\<forall>i \<in> set (concat (ack_pl_wrap_pipe r)). i < ESB_TX_FIFO_SIZE c \<and> ack_in_use r ! i \<and>
        pl_data (rslots (tx_fifo r) ! i) \<noteq> [] \<and> length (pl_data (rslots (tx_fifo r) ! i)) \<le> ESB_MAX_PAYLOAD_LENGTH c) \<and>
     (\<forall>b < ESB_PIPE_COUNT. pi_ack_payload (rx_pipe_info r ! b) \<longrightarrow> ack_pl_wrap_pipe r ! b \<noteq> [])"

text \<open>The two queues.\<close>

lemma reply_queues:
  assumes "length ws = ESB_PIPE_COUNT"
  obtains u v where "ws = [u, v]"
  using assms by (auto simp: ESB_PIPE_COUNT_def length_Suc_conv numeral_2_eq_2)

lemma pipe_cases: "b < ESB_PIPE_COUNT \<longleftrightarrow> b = 0 \<or> b = Suc 0"
  by (auto simp: ESB_PIPE_COUNT_def)

lemma all_pipes: "(\<forall>b < (2 :: nat). P b) \<longleftrightarrow> P 0 \<and> P (Suc 0)"
  by (auto simp: less_Suc_eq numeral_2_eq_2)

text \<open>The two changes an answer makes.\<close>

lemma confirmed_replies:
  assumes "reply_ok c s" "pipe < ESB_PIPE_COUNT" "ack_pl_wrap_pipe s ! pipe = i # q"
    and "t = s\<lparr>ack_in_use := (ack_in_use s)[i := False], ack_pl_wrap_pipe := (ack_pl_wrap_pipe s)[pipe := q],
               tx_fifo := (tx_fifo s)\<lparr>rcount := rcount (tx_fifo s) - 1\<rparr>, int_tx_success := True,
               rx_pipe_info := (rx_pipe_info s)[pipe := (rx_pipe_info s ! pipe)\<lparr>pi_ack_payload := q \<noteq> []\<rparr>]\<rparr>"
  shows "reply_ok c t" "replies t = (replies s)(pipe := tl (replies s pipe))"
proof -
  obtain u v where w: "ack_pl_wrap_pipe s = [u, v]"
    using assms(1) reply_queues [of "ack_pl_wrap_pipe s"] by (auto simp: reply_ok_def)
  have len: "length (rx_pipe_info s) = 2" "length (ack_in_use s) = ESB_TX_FIFO_SIZE c"
    using assms(1) by (simp_all add: reply_ok_def ESB_PIPE_COUNT_def)
  have p: "pipe = 0 \<and> u = i # q \<or> pipe = Suc 0 \<and> v = i # q" using assms(2,3) w by (auto simp: pipe_cases)
  then show "reply_ok c t"
    using assms(1) len by (auto simp: assms(4) reply_ok_def w all_pipes nth_list_update ESB_PIPE_COUNT_def)
  show "replies t = (replies s)(pipe := tl (replies s pipe))"
    using p len by (auto simp: assms(4) replies_def w fun_eq_iff nth_Cons' nth_list_update)
qed

lemma attached_replies:
  assumes "reply_ok c s" "pipe < ESB_PIPE_COUNT" "b \<longrightarrow> ack_pl_wrap_pipe s ! pipe \<noteq> []"
    and "t = s\<lparr>rx_pipe_info := (rx_pipe_info s)[pipe := (rx_pipe_info s ! pipe)\<lparr>pi_ack_payload := b\<rparr>]\<rparr>"
  shows "reply_ok c t" "replies t = replies s"
  using assms(1-3) by (auto simp: assms(4) reply_ok_def replies_def nth_list_update)

lemma reply_count:
  assumes "reply_ok c s" "pipe < ESB_PIPE_COUNT"
  shows "length (ack_pl_wrap_pipe s ! pipe) \<le> rcount (tx_fifo s)"
proof -
  obtain u v where w: "ack_pl_wrap_pipe s = [u, v]"
    using assms(1) reply_queues [of "ack_pl_wrap_pipe s"] by (auto simp: reply_ok_def)
  then show ?thesis using assms by (auto simp: reply_ok_def pipe_cases)
qed

lemma reply_view_cong:
  assumes "tx_fifo t = tx_fifo s" "ack_pl_wrap_pipe t = ack_pl_wrap_pipe s" "ack_in_use t = ack_in_use s"
    and "length (rx_pipe_info t) = length (rx_pipe_info s)"
    and "\<And>b. pi_ack_payload (rx_pipe_info t ! b) = pi_ack_payload (rx_pipe_info s ! b)"
  shows "reply_ok c t = reply_ok c s" "replies t = replies s"
  using assms by (simp_all add: reply_ok_def replies_def fun_eq_iff)

text \<open>Answering a packet: the head that was confirmed goes, the next one is attached.\<close>

definition attach_next :: "bool \<Rightarrow> nat \<Rightarrow> 'a esb_scheme \<Rightarrow> 'a esb_scheme" where
  "attach_next dup pipe s =
     (let queue = ack_pl_wrap_pipe s ! pipe;
          attach = (\<lambda>b s. s\<lparr>rx_pipe_info := (rx_pipe_info s)[pipe := (rx_pipe_info s ! pipe)\<lparr>pi_ack_payload := b\<rparr>]\<rparr>)
      in if pi_ack_payload (rx_pipe_info s ! pipe) \<and> \<not> dup
         then attach (tl queue \<noteq> []) (s\<lparr>ack_in_use := (ack_in_use s)[hd queue := False],
           ack_pl_wrap_pipe := (ack_pl_wrap_pipe s)[pipe := tl queue],
           tx_fifo := (tx_fifo s)\<lparr>rcount := rcount (tx_fifo s) - 1\<rparr>, int_tx_success := True\<rparr>)
         else attach (queue \<noteq> []) s)"

lemma attach_next_replies:
  assumes "reply_ok c s" "pipe < ESB_PIPE_COUNT"
    and "w = (if pi_ack_payload (rx_pipe_info s ! pipe) \<and> \<not> dup then tl (replies s pipe) else replies s pipe)"
  shows "reply_ok c (attach_next dup pipe s)" "replies (attach_next dup pipe s) = (replies s)(pipe := w)"
    "pi_ack_payload (rx_pipe_info (attach_next dup pipe s) ! b) =
      (if b = pipe then w \<noteq> [] else pi_ack_payload (rx_pipe_info s ! b))"
proof -
  let ?drop = "pi_ack_payload (rx_pipe_info s ! pipe) \<and> \<not> dup"
  let ?t = "attach_next dup pipe s"
  have q0: "pi_ack_payload (rx_pipe_info s ! pipe) \<Longrightarrow> ack_pl_wrap_pipe s ! pipe \<noteq> []"
    and len: "pipe < length (rx_pipe_info s)" using assms(1,2) by (simp_all add: reply_ok_def)
  have "reply_ok c ?t \<and> replies ?t = (replies s)(pipe := w)"
  proof (cases ?drop)
    case True
    then obtain i q where q: "ack_pl_wrap_pipe s ! pipe = i # q" using q0 by (cases "ack_pl_wrap_pipe s ! pipe") auto
    show ?thesis using confirmed_replies [OF assms(1,2) q, of ?t] True q by (simp add: attach_next_def assms(3))
  next
    case False
    then have "?t = s\<lparr>rx_pipe_info := (rx_pipe_info s)[pipe :=
        (rx_pipe_info s ! pipe)\<lparr>pi_ack_payload := ack_pl_wrap_pipe s ! pipe \<noteq> []\<rparr>]\<rparr>"
      unfolding attach_next_def Let_def by (simp only: if_False)
    from attached_replies [OF assms(1,2) _ this] have "reply_ok c ?t \<and> replies ?t = replies s" by blast
    moreover have "w = replies s pipe" using False unfolding assms(3) by (simp only: if_False)
    ultimately show ?thesis by simp
  qed
  then show "reply_ok c ?t" "replies ?t = (replies s)(pipe := w)" by blast+
  have "w = [] \<longleftrightarrow> (if ?drop then tl (ack_pl_wrap_pipe s ! pipe) else ack_pl_wrap_pipe s ! pipe) = []"
    by (simp add: assms(3) replies_def flip: map_tl)
  then show "pi_ack_payload (rx_pipe_info ?t ! b) = (if b = pipe then w \<noteq> [] else pi_ack_payload (rx_pipe_info s ! b))"
    using len by (simp add: attach_next_def nth_list_update Let_def)
qed

lemma rx_dpl_attaches:
  assumes "reply_ok c s" "pipe < ESB_PIPE_COUNT"
    and "w = (if pi_ack_payload (rx_pipe_info s ! pipe) \<and> \<not> dup then tl (replies s pipe) else replies s pipe)"
  shows "on_radio_disabled_rx_dpl dup pipe pdu s = (attach_next dup pipe s)\<lparr>tx_payload_buffer :=
    \<lparr>pdu_pid = pdu_pid pdu, pdu_no_ack = pdu_no_ack pdu, pdu_data = (if w = [] then [] else hd w)\<rparr>\<rparr>"
proof (cases "ack_pl_wrap_pipe s ! pipe")
  case Nil
  then have "\<not> (pi_ack_payload (rx_pipe_info s ! pipe) \<and> \<not> dup)" "w = []"
    using assms(1,2) by (auto simp: assms(3) replies_def reply_ok_def)
  then show ?thesis using Nil by (auto simp: on_radio_disabled_rx_dpl_def attach_next_def Let_def)
next
  case (Cons i q)
  then have r: "0 < rcount (tx_fifo s)" "q \<noteq> [] \<Longrightarrow> 0 < rcount (tx_fifo s) - 1"
    using reply_count [OF assms(1,2)] by (cases q; simp)+
  have rep: "replies s pipe = pl_data (rslots (tx_fifo s) ! i) # map (\<lambda>i. pl_data (rslots (tx_fifo s) ! i)) q"
    by (simp add: replies_def Cons)
  show ?thesis
  proof (cases "pi_ack_payload (rx_pipe_info s ! pipe) \<and> \<not> dup")
    case True
    then have w: "w = map (\<lambda>i. pl_data (rslots (tx_fifo s) ! i)) q" by (simp add: assms(3) rep)
    show ?thesis using True r w Cons
      by (cases q) (simp_all add: on_radio_disabled_rx_dpl_def attach_next_def Let_def)
  next
    case False
    then have w: "w = replies s pipe" unfolding assms(3) by (simp only: if_False)
    from False consider "dup" | "\<not> pi_ack_payload (rx_pipe_info s ! pipe)" by blast
    then show ?thesis
      using r(1) Cons by cases (simp_all add: on_radio_disabled_rx_dpl_def attach_next_def w rep Let_def)
  qed
qed

lemma answer_replies:
  assumes "reply_ok c s" "pipe < ESB_PIPE_COUNT" "pdu_no_ack pdu" "a = answer_packet dup pipe pdu s"
    and "w = (if pi_ack_payload (rx_pipe_info s ! pipe) \<and> \<not> dup then tl (replies s pipe) else replies s pipe)"
  shows "reply_ok c a" "replies a = (replies s)(pipe := w)"
    "pdu_data (tx_payload_buffer a) = (if w = [] then [] else hd w)"
    "\<And>b. pi_ack_payload (rx_pipe_info a ! b) = (if b = pipe then w \<noteq> [] else pi_ack_payload (rx_pipe_info s ! b))"
proof -
  let ?t = "attach_next dup pipe s"
  note t = attach_next_replies [OF assms(1,2,5)]
  have a: "a = ?t\<lparr>tx_payload_buffer := \<lparr>pdu_pid = pdu_pid pdu, pdu_no_ack = True,
      pdu_data = (if w = [] then [] else hd w)\<rparr>, m_esb_state := ESB_STATE_PRX_SEND_ACK,
      radio_txaddress := of_nat pipe, on_radio_disabled := OnDisabledRxAck\<rparr>"
    using assms(3) rx_dpl_attaches [OF assms(1,2,5)] by (simp add: assms(4) answer_packet_def)
  show "reply_ok c a" "replies a = (replies s)(pipe := w)"
    using t(1,2) reply_view_cong(1) [of a ?t c] reply_view_cong(2) [of a ?t] by (simp_all add: a)
  show "pdu_data (tx_payload_buffer a) = (if w = [] then [] else hd w)" by (simp add: a)
  show "pi_ack_payload (rx_pipe_info a ! b) = (if b = pipe then w \<noteq> [] else pi_ack_payload (rx_pipe_info s ! b))" for b
    using t(3) by (simp add: a)
qed

text \<open>Hearing a packet, as far as the reply queues are concerned.\<close>

lemma hears_replies:
  assumes "rx_ok c (r :: 'b dongle_scheme)" "reply_ok c r" "unat pipe < ESB_PIPE_COUNT" "packet_ok c x"
    and "r1 = radio_irq_handler c (Some (pdu_of x)) rssi (unat pipe) crc r"
    and "r2 = (if m_esb_state r1 = ESB_STATE_PRX_SEND_ACK then radio_irq_handler c None 0 0 0 r1 else r1)"
    and "dup \<longleftrightarrow> crc = pi_crc (rx_pipe_info r ! unat pipe) \<and> pl_pid x = pi_pid (rx_pipe_info r ! unat pipe)"
    and "rcount (rx_fifo r) < ESB_RX_FIFO_SIZE c"
    and "w = (if pi_ack_payload (rx_pipe_info r ! unat pipe) \<and> \<not> dup then tl (replies r (unat pipe))
              else replies r (unat pipe))"
  shows "reply_ok c r2" "replies r2 = (replies r)(unat pipe := w)"
    "pdu_data (tx_payload_buffer r1) = (if w = [] then [] else hd w)"
    "\<And>b. pi_ack_payload (rx_pipe_info r2 ! b) =
       (if b = unat pipe then w \<noteq> [] else pi_ack_payload (rx_pipe_info r ! b))"
proof -
  have r: "on_radio_disabled r = OnDisabledRx" "length (rx_pipe_info r) = ESB_PIPE_COUNT"
    using assms(1) by (simp_all add: rx_ok_def)
  define i where "i = r\<lparr>rx_pipe_info := (rx_pipe_info r)[unat pipe :=
    (rx_pipe_info r ! unat pipe)\<lparr>pi_pid := pl_pid x, pi_crc := crc\<rparr>]\<rparr>"
  define a where "a = answer_packet dup (unat pipe) (pdu_of x) i"
  have want: "pdu_no_ack (pdu_of x)" "length (pdu_data (pdu_of x)) \<le> ESB_MAX_PAYLOAD_LENGTH c"
    using assms(4) by (simp_all add: packet_ok_def pdu_of_def)
  have i: "pi_ack_payload (rx_pipe_info i ! b) = pi_ack_payload (rx_pipe_info r ! b)" for b
    using assms(3) r(2) by (simp add: i_def nth_list_update)
  have iv: "reply_ok c i = reply_ok c r" "replies i = replies r" "rx_fifo i = rx_fifo r"
    "length (rx_pipe_info i) = length (rx_pipe_info r)"
    using reply_view_cong(1) [of i r c] reply_view_cong(2) [of i r] i by (simp_all add: i_def)
  have wi: "w = (if pi_ack_payload (rx_pipe_info i ! unat pipe) \<and> \<not> dup then tl (replies i (unat pipe))
      else replies i (unat pipe))" by (simp add: assms(9) iv i)
  note an = answer_replies [OF iv(1) [THEN iffD2, OF assms(2)] assms(3) want(1) a_def wi]
  have "unat pipe < length (rx_pipe_info i)" using assms(3) r(2) iv(4) by simp
  note ap = answer_parts [OF want(1) this a_def]
  have r1: "r1 = (if dup then a else deliver_packet c (pdu_of x) rssi (unat pipe) a)"
    using assms(5,7,8) r(1) by (simp add: radio_irq_handler_def on_radio_disabled_rx_def Let_def a_def i_def pdu_of_def)
  have d: "\<exists>f b. r1 = a\<lparr>rx_fifo := f, int_rx_received := b\<rparr>"
  proof (cases dup)
    case True
    then have "r1 = a\<lparr>rx_fifo := rx_fifo a, int_rx_received := int_rx_received a\<rparr>" using r1 by simp
    then show ?thesis by blast
  next
    case False
    have "rcount (rx_fifo a) < ESB_RX_FIFO_SIZE c" using assms(8) ap(2) iv(3) by simp
    then have "r1 = a\<lparr>rx_fifo := ring_push (ESB_RX_FIFO_SIZE c)
        \<lparr>pl_pipe = of_nat (unat pipe), pl_noack = \<not> pdu_no_ack (pdu_of x), pl_pid = pdu_pid (pdu_of x), pl_rssi = rssi,
         pl_data = pdu_data (pdu_of x)\<rparr> (rx_fifo a), int_rx_received := True\<rparr>"
      using False want(2) r1 by (simp add: deliver_packet_def rx_fifo_push_rfbuf_def)
    then show ?thesis by blast
  qed
  then obtain f b where d: "r1 = a\<lparr>rx_fifo := f, int_rx_received := b\<rparr>" by blast
  have r2: "r2 = r1\<lparr>on_radio_disabled := OnDisabledRx, m_esb_state := ESB_STATE_PRX\<rparr>"
    using assms(6) ap(3,4) d by (simp add: radio_irq_handler_def on_radio_disabled_rx_ack_def)
  show "reply_ok c r2" "replies r2 = (replies r)(unat pipe := w)"
    using an(1,2) reply_view_cong(1) [of r2 a c] reply_view_cong(2) [of r2 a] by (simp_all add: r2 d iv(2))
  show "pdu_data (tx_payload_buffer r1) = (if w = [] then [] else hd w)" using an(3) by (simp add: d)
  show "pi_ack_payload (rx_pipe_info r2 ! b) =
      (if b = unat pipe then w \<noteq> [] else pi_ack_payload (rx_pipe_info r ! b))" for b
    using an(4) i by (simp add: r2 d)
qed

lemma read_next:
  assumes "esb_read_rx_payload c p = (Inr x, p')" "ring_wf (ESB_RX_FIFO_SIZE c) (rx_fifo p)"
  shows "rx_queue p = x # rx_queue p'" "tx_queue p' = tx_queue p"
proof -
  have "0 < rcount (rx_fifo p)" "x = ring_head (rx_fifo p)"
    "p' = p\<lparr>rx_fifo := ring_pop (ESB_RX_FIFO_SIZE c) (rx_fifo p)\<rparr>"
    using assms(1) by (auto simp: esb_read_rx_payload_def split: if_splits)
  moreover from this(1) have "rx_queue p \<noteq> []" by (simp flip: rcount_0_iff)
  ultimately show "rx_queue p = x # rx_queue p'" "tx_queue p' = tx_queue p"
    using ring_head_list [OF assms(2)] ring_list_pop [OF assms(2)] by simp_all
qed

section \<open>The dongle's handler\<close>

lemma find_free_spec:
  "find_free k us = Some i \<Longrightarrow> k \<le> i \<and> i < k + length us \<and> \<not> us ! (i - k)"
  by (induction k us rule: find_free.induct) (auto split: if_splits simp: nth_Cons')

lemma ack_replies:
  assumes "reply_ok c s" "cfg_mode (esb_cfg s) = ESB_MODE_PRX" "t = dongle_ack c pipe pkt s" "b < ESB_PIPE_COUNT"
  shows "reply_ok c t" "\<exists>xs. replies t b = replies s b @ xs \<and> subseq xs (if b = unat pipe then [encode pkt] else [])"
    "rx_pipe_info t = rx_pipe_info s"
proof -
  let ?x = "\<lparr>pl_pipe = pipe, pl_noack = False, pl_pid = next_pid pipe s, pl_rssi = 0, pl_data = encode pkt\<rparr>"
  have len: "length (ack_in_use s) = ESB_TX_FIFO_SIZE c" "length (rslots (tx_fifo s)) = ESB_TX_FIFO_SIZE c"
    "length (ack_pl_wrap_pipe s) = ESB_PIPE_COUNT" using assms(1) by (simp_all add: reply_ok_def)
  define put where "put i = s\<lparr>ack_in_use := (ack_in_use s)[i := True],
        esb_pids := (esb_pids s)[unat pipe := next_pid pipe s],
        ack_pl_wrap_pipe := (ack_pl_wrap_pipe s)[unat pipe := ack_pl_wrap_pipe s ! unat pipe @ [i]],
        tx_fifo := (tx_fifo s)\<lparr>rslots := (rslots (tx_fifo s))[i := ?x], rcount := Suc (rcount (tx_fifo s))\<rparr>\<rparr>" for i
  let ?ok = "esb_initialized s \<and> encode pkt \<noteq> [] \<and> length (encode pkt) \<le> ESB_MAX_PAYLOAD_LENGTH c \<and>
    rcount (tx_fifo s) < ESB_TX_FIFO_SIZE c \<and> unat pipe < ESB_PIPE_COUNT"
  have t: "t = (if ?ok then (case find_free 0 (ack_in_use s) of None \<Rightarrow> s | Some i \<Rightarrow> put i) else s)"
    using assms(2) by (simp add: assms(3) dongle_ack_def esb_write_payload_def find_free_payload_cont_def put_def Let_def
        split: option.split)
  consider (no) "t = s"
    | (yes) i where "find_free 0 (ack_in_use s) = Some i" "unat pipe < ESB_PIPE_COUNT" "encode pkt \<noteq> []"
      "length (encode pkt) \<le> ESB_MAX_PAYLOAD_LENGTH c" "t = put i"
  proof (cases "find_free 0 (ack_in_use s)")
    case None
    then show ?thesis using t that(1) by (simp split: if_splits)
  next
    case (Some i)
    show ?thesis
    proof (cases ?ok)
      case True
      then show ?thesis using t that(2) [OF Some] Some by simp
    qed (use t that(1) in \<open>simp only: if_False\<close>)
  qed
  then have "reply_ok c t \<and>
    (\<exists>xs. replies t b = replies s b @ xs \<and> subseq xs (if b = unat pipe then [encode pkt] else [])) \<and>
    rx_pipe_info t = rx_pipe_info s"
  proof cases
    case no
    then show ?thesis using assms(1) by simp
  next
    case (yes i)
    have i: "i < ESB_TX_FIFO_SIZE c" "\<not> ack_in_use s ! i" using find_free_spec [OF yes(1)] len(1) by simp_all
    have fresh: "i \<notin> set (concat (ack_pl_wrap_pipe s))" using i(2) assms(1) by (auto simp: reply_ok_def)
    obtain u v where w: "ack_pl_wrap_pipe s = [u, v]" using len(3) reply_queues by blast
    have "reply_ok c t"
      using assms(1) yes(2-4) i fresh len
      by (auto simp: yes(5) put_def reply_ok_def w pipe_cases nth_list_update nth_Cons')
    moreover have "replies t b = replies s b @ (if b = unat pipe then [encode pkt] else [])"
    proof -
      have n: "(rslots (tx_fifo s))[i := ?x] ! j = rslots (tx_fifo s) ! j" if "j \<in> set (concat (ack_pl_wrap_pipe s))" for j
        using fresh that by (metis nth_list_update_neq)
      have "map (\<lambda>j. pl_data ((rslots (tx_fifo s))[i := ?x] ! j)) (ack_pl_wrap_pipe s ! b) = replies s b"
        using fresh assms(4) n by (auto simp: replies_def w pipe_cases)
      moreover have "replies t b = map (\<lambda>j. pl_data ((rslots (tx_fifo s))[i := ?x] ! j)) (ack_pl_wrap_pipe s ! b @
          (if b = unat pipe then [i] else []))"
        using yes(2) len(3) by (auto simp: yes(5) put_def replies_def nth_list_update)
      ultimately show ?thesis using i(1) len(2) by simp
    qed
    ultimately show ?thesis using yes(5) by (auto simp: put_def)
  qed
  then show "reply_ok c t" "rx_pipe_info t = rx_pipe_info s"
    "\<exists>xs. replies t b = replies s b @ xs \<and> subseq xs (if b = unat pipe then [encode pkt] else [])" by blast+
qed

text \<open>
  What the dongle's program answers to a packet, in the terms of \<open>app_step\<close>, and to packets on pipe \<open>b\<close>.
\<close>

definition answer :: "u8 list \<Rightarrow> dongle_app \<Rightarrow> u8 list \<Rightarrow> u8 list list" where
  "answer me a bs =
     (if bs = [] then []
      else if hd bs = ESB_PKT_BEACON \<and> sizeof_beacon \<le> length bs \<and> da_state a = DONGLE_LISTENING
      then [encode (PktPairReq me)]
      else if hd bs = ESB_PKT_VERIFY_REQ \<and> sizeof_id_pkt \<le> length bs
      then [encode (if da_has_peer a \<and> pkt_device_id bs = da_peer a then PktVerifyResp me else PktDisconnect)]
      else [])"

fun answers :: "u8 list \<Rightarrow> nat \<Rightarrow> dongle_app \<Rightarrow> (u8 \<times> u8 list) list \<Rightarrow> u8 list list" where
  "answers me b a [] = []"
| "answers me b a ((pipe, bs) # xs) =
     (if unat pipe = b then answer me a bs else []) @ answers me b (app_step bs a) xs"

lemma answers_append:
  "answers me b a (xs @ ys) = answers me b a xs @ answers me b (fold app_step (map snd xs) a) ys"
  by (induction xs arbitrary: a) auto

text \<open>What the event handler does to the queues: it appends some of the answers, those there was room for.\<close>

definition grows :: "kcfg \<Rightarrow> (nat \<Rightarrow> u8 list list) \<Rightarrow> 'a esb_scheme \<Rightarrow> 'a esb_scheme \<Rightarrow> bool" where
  "grows c an s t \<longleftrightarrow> reply_ok c t \<and> (\<forall>b < ESB_PIPE_COUNT. \<exists>xs. replies t b = replies s b @ xs \<and> subseq xs (an b)) \<and>
     rx_pipe_info t = rx_pipe_info s"

lemma grows_trans:
  assumes "grows c an s t" "grows c an' t u"
  shows "grows c (\<lambda>b. an b @ an' b) s u"
  unfolding grows_def
proof (intro conjI allI impI)
  fix b assume b: "b < ESB_PIPE_COUNT"
  obtain xs ys where "replies t b = replies s b @ xs" "subseq xs (an b)" "replies u b = replies t b @ ys" "subseq ys (an' b)"
    using assms b unfolding grows_def by blast
  then show "\<exists>xs. replies u b = replies s b @ xs \<and> subseq xs (an b @ an' b)"
    by (intro exI [of _ "xs @ ys"]) (simp add: list_emb_append_mono)
qed (use assms in \<open>simp_all add: grows_def\<close>)

lemma grows_keep:
  assumes "reply_ok c s" "tx_fifo t = tx_fifo s" "ack_pl_wrap_pipe t = ack_pl_wrap_pipe s" "ack_in_use t = ack_in_use s"
    "rx_pipe_info t = rx_pipe_info s"
  shows "grows c an s t"
  using assms reply_view_cong(1) [of t s c] reply_view_cong(2) [of t s] by (simp add: grows_def)

lemma grows_ack:
  assumes "reply_ok c s" "cfg_mode (esb_cfg s) = ESB_MODE_PRX"
  shows "grows c (\<lambda>b. if b = unat pipe then [encode pkt] else []) s (dongle_ack c pipe pkt s)"
  unfolding grows_def
proof (intro conjI allI impI)
  have "0 < ESB_PIPE_COUNT" by (simp add: ESB_PIPE_COUNT_def)
  from ack_replies(1,3) [OF assms refl this]
  show "reply_ok c (dongle_ack c pipe pkt s)" "rx_pipe_info (dongle_ack c pipe pkt s) = rx_pipe_info s" .
  show "\<exists>xs. replies (dongle_ack c pipe pkt s) b = replies s b @ xs \<and> subseq xs (if b = unat pipe then [encode pkt] else [])"
    if "b < ESB_PIPE_COUNT" for b by (rule ack_replies(2) [OF assms refl that])
qed

lemma grows_state: "grows c an s t \<Longrightarrow> grows c an s (t\<lparr>d_state := st\<rparr>)"
  using reply_view_cong [of "t\<lparr>d_state := st\<rparr>" t] by (simp add: grows_def)

lemma grows_peer: "grows c an (s\<lparr>d_peer_id := i, d_has_peer := h\<rparr>) t \<Longrightarrow> grows c an s t"
  using reply_view_cong(2) [of "s\<lparr>d_peer_id := i, d_has_peer := h\<rparr>" s] by (simp add: grows_def)

lemma packet_replies:
  assumes "reply_ok c s" "cfg_mode (esb_cfg s) = ESB_MODE_PRX"
  shows "grows c (\<lambda>b. if b = unat (pl_pipe x) then answer (m_my_device_id s) (app_of s) (pl_data x) else [])
    s (dongle_packet c x s)"
proof (cases "pl_data x")
  case Nil
  then show ?thesis by (simp add: dongle_packet_def grows_keep assms Let_def)
next
  case (Cons t bs)
  let ?an = "\<lambda>b. if b = unat (pl_pipe x) then answer (m_my_device_id s) (app_of s) (pl_data x) else []"
  have a: "da_state (app_of s) = d_state s" "da_peer (app_of s) = d_peer_id s" "da_has_peer (app_of s) = d_has_peer s"
    by (simp_all add: app_of_def)
  note k = grows_keep [OF assms(1)]
  have ks: "grows c an s s" for an by (rule k) simp_all
  have h: "grows c an s (on_hid_report (t # bs) s)" for an
    using k by (simp add: on_hid_report_def forward_keyboard_def forward_consumer_def forward_mouse_def
        send_hid_report_def Let_def)
  consider (beacon) "t = ESB_PKT_BEACON" | (resp) "t = ESB_PKT_PAIR_RESP" | (hid) "t = ESB_PKT_HID_REPORT"
    | (verify) "t = ESB_PKT_VERIFY_REQ" | (bye) "t = ESB_PKT_DISCONNECT"
    | (other) "t \<notin> {ESB_PKT_BEACON, ESB_PKT_PAIR_RESP, ESB_PKT_HID_REPORT, ESB_PKT_VERIFY_REQ, ESB_PKT_DISCONNECT}"
    by blast
  then have "grows c ?an s (dongle_packet c x s)"
  proof cases
    case beacon
    let ?s = "s\<lparr>d_peer_id := pkt_device_id (t # bs), d_has_peer := True\<rparr>"
    have "reply_ok c ?s" "cfg_mode (esb_cfg ?s) = ESB_MODE_PRX"
      using k [of ?s] assms(2) by (simp_all add: grows_def)
    note g = grows_state [OF grows_peer [OF grows_ack [OF this]]]
    show ?thesis
    proof (cases "sizeof_beacon \<le> length (t # bs) \<and> d_state s = DONGLE_LISTENING")
      case True
      then have "?an = (\<lambda>b. if b = unat (pl_pipe x) then [encode (PktPairReq (m_my_device_id s))] else [])"
        using beacon a Cons by (auto simp: answer_def)
      moreover have "dongle_packet c x s =
          (dongle_ack c (pl_pipe x) (PktPairReq (m_my_device_id s)) ?s)\<lparr>d_state := DONGLE_PAIRING\<rparr>"
        using True beacon Cons by (simp add: dongle_packet_def on_beacon_def pkt_type_def pkt_consts Let_def)
      ultimately show ?thesis using g by (simp only:)
    next
      case False
      then have "dongle_packet c x s = s" using beacon Cons
        by (auto simp: dongle_packet_def on_beacon_def pkt_type_def pkt_consts Let_def)
      then show ?thesis using ks by simp
    qed
  next
    case verify
    note g = grows_ack [OF assms, of "pl_pipe x"]
    show ?thesis using verify Cons a g grows_state [OF g] ks
      by (simp add: dongle_packet_def on_verify_req_def answer_def pkt_type_def pkt_consts Let_def
          del: encode.simps cong: if_cong)
  qed (use Cons k h ks in \<open>simp_all add: dongle_packet_def pkt_type_def pkt_consts Let_def\<close>)
  then show ?thesis .
qed


text \<open>The dongle's own identifier never changes.\<close>

lemma packet_me:
  assumes "cfg_mode (esb_cfg s) = ESB_MODE_PRX"
  shows "m_my_device_id (dongle_packet c x s) = m_my_device_id s"
  using assms by (simp add: dongle_packet_def on_beacon_def on_hid_report_def on_verify_req_def forward_keyboard_def
      forward_consumer_def forward_mouse_def send_hid_report_def ack_write Let_def)

lemma loop_replies:
  assumes "reply_ok c s" "cfg_mode (esb_cfg s) = ESB_MODE_PRX" "ring_wf (ESB_RX_FIFO_SIZE c) (rx_fifo s)"
  shows "grows c (\<lambda>b. answers (m_my_device_id s) b (app_of s) (take n (map seen (rx_queue s)))) s (dongle_rx_loop c n s)"
    "m_my_device_id (dongle_rx_loop c n s) = m_my_device_id s"
proof -
  have "grows c (\<lambda>b. answers (m_my_device_id s) b (app_of s) (take n (map seen (rx_queue s)))) s (dongle_rx_loop c n s) \<and>
    m_my_device_id (dongle_rx_loop c n s) = m_my_device_id s"
    using assms
  proof (induction n arbitrary: s)
    case 0
    then show ?case by (simp add: grows_keep)
  next
    case (Suc n)
    show ?case
    proof (cases "esb_read_rx_payload c s")
      case (Pair res t)
      show ?thesis
      proof (cases res)
        case (Inl e)
        then have "t = s" using Pair by (auto simp: esb_read_rx_payload_def split: if_splits)
        then show ?thesis using Pair Inl Suc.prems(1) by (simp add: grows_keep)
      next
        case (Inr x)
        have q: "rx_queue s = x # rx_queue t" by (rule read_next(1) [OF Pair [unfolded Inr] Suc.prems(3)])
        have t: "t = s\<lparr>rx_fifo := ring_pop (ESB_RX_FIFO_SIZE c) (rx_fifo s)\<rparr>"
          using Pair Inr by (auto simp: esb_read_rx_payload_def split: if_splits)
        have g: "grows c (\<lambda>_. []) s t" "cfg_mode (esb_cfg t) = ESB_MODE_PRX"
          using Suc.prems(1,2) grows_keep [of c s t] by (simp_all add: t)
        have a: "app_of t = app_of s" "m_my_device_id t = m_my_device_id s" by (simp_all add: t app_of_def)
        let ?u = "dongle_packet c x t"
        have "reply_ok c t" using g(1) by (simp add: grows_def)
        note u = packet_replies [OF this g(2), of x, unfolded a]
        have uv: "cfg_mode (esb_cfg ?u) = ESB_MODE_PRX" "rx_fifo ?u = rx_fifo t" "reply_ok c ?u"
          using packet_frames [OF g(2), of c x] g(2) u by (simp_all add: rx_view_def grows_def)
        have "ring_wf (ESB_RX_FIFO_SIZE c) (rx_fifo ?u)" unfolding uv(2) using ring_wf_pop [OF Suc.prems(3)] by (simp add: t)
        from Suc.IH [OF uv(3,1) this]
        have l: "grows c (\<lambda>b. answers (m_my_device_id s) b (app_step (pl_data x) (app_of s)) (take n (map seen (rx_queue t))))
            ?u (dongle_rx_loop c n ?u)" "m_my_device_id (dongle_rx_loop c n ?u) = m_my_device_id s"
          using packet_me [OF g(2), of c x] packet_app [OF g(2), of c x] by (simp_all add: a uv(2))
        have "(\<lambda>b. answers (m_my_device_id s) b (app_of s) (take (Suc n) (map seen (rx_queue s)))) =
          (\<lambda>b. [] @ (if b = unat (pl_pipe x) then answer (m_my_device_id s) (app_of s) (pl_data x) else []) @
            answers (m_my_device_id s) b (app_step (pl_data x) (app_of s)) (take n (map seen (rx_queue t))))"
          by (auto simp: q seen_def)
        then show ?thesis using grows_trans [OF g(1) grows_trans [OF u l(1)]] l(2) Pair Inr by simp
      qed
    qed
  qed
  then show "grows c (\<lambda>b. answers (m_my_device_id s) b (app_of s) (take n (map seen (rx_queue s)))) s (dongle_rx_loop c n s)"
    "m_my_device_id (dongle_rx_loop c n s) = m_my_device_id s" by blast+
qed

lemma event_replies:
  assumes "rx_ok c r" "reply_ok c r" "r' = esb_evt_irq_handler (dongle_evt_handler c) r"
  shows "grows c (\<lambda>b. answers (m_my_device_id r) b (app_of r) (map seen (rx_queue r))) r r'"
    "m_my_device_id r' = m_my_device_id r"
proof -
  define u where "u = r\<lparr>int_tx_success := False, int_tx_failed := False, int_rx_received := False\<rparr>"
  have r': "r' = (if int_rx_received r then dongle_rx_loop c (Suc (rcount (rx_fifo u))) u else u)"
    by (simp add: assms(3) u_def esb_evt_irq_handler_def get_and_clear_irqs_def dongle_evt_handler_def Let_def
        del: dongle_rx_loop.simps)
  have u: "grows c (\<lambda>_. []) r u" "cfg_mode (esb_cfg u) = ESB_MODE_PRX" "ring_wf (ESB_RX_FIFO_SIZE c) (rx_fifo u)"
    "app_of u = app_of r" "m_my_device_id u = m_my_device_id r" "rx_queue u = rx_queue r"
    using assms(1,2) by (simp_all add: u_def grows_keep rx_ok_def app_of_def)
  have "reply_ok c u" using u(1) by (simp add: grows_def)
  note l = loop_replies [OF this u(2,3), of "Suc (rcount (rx_fifo u))"]
  have all: "take (Suc (rcount (rx_fifo u))) (map seen (rx_queue u)) = map seen (rx_queue r)"
    unfolding u(6) [symmetric] by (simp add: ring_list_def)
  have "\<not> int_rx_received r \<Longrightarrow> rx_queue r = []" using assms(1) by (simp add: rx_ok_def)
  then show "grows c (\<lambda>b. answers (m_my_device_id r) b (app_of r) (map seen (rx_queue r))) r r'"
    using u(1) grows_trans [OF u(1) l(1)] by (simp add: r' all u(4,5) del: dongle_rx_loop.simps)
  show "m_my_device_id r' = m_my_device_id r"
    using l(2) u(5) by (simp add: r' del: dongle_rx_loop.simps)
qed

lemma handler_me:
  "m_my_device_id (next_transaction s) = m_my_device_id s"
  "m_my_device_id (receive_ack_payload c ack rssi s) = m_my_device_id s"
  "m_my_device_id (deliver_packet c pdu rssi pipe s) = m_my_device_id s"
  "m_my_device_id (answer_packet dup pipe pdu s) = m_my_device_id s"
  by (simp_all add: next_transaction_def start_tx_transaction_def receive_ack_payload_def rx_fifo_push_rfbuf_def
      deliver_packet_def answer_packet_def on_radio_disabled_rx_dpl_def Let_def split: option.split)

lemma irq_me: "m_my_device_id (radio_irq_handler c rx rssi pipe crc s) = m_my_device_id s"
  by (cases "on_radio_disabled s"; cases rx)
    (simp_all add: radio_irq_handler_def on_radio_disabled_tx_def on_radio_disabled_tx_wait_for_ack_def
      on_radio_disabled_rx_def on_radio_disabled_rx_ack_def tx_fifo_remove_last_def handler_me Let_def)

lemma exchange_me:
  "exchange c crc heard acked rssi ack_rssi p r = (p', r') \<Longrightarrow> m_my_device_id r' = m_my_device_id r"
  by (auto simp: exchange_def irq_me Let_def split: if_splits)

end
