(* ===== verification/AirReplies.thy ===== *)
theory AirReplies
  imports ReplyQueues
begin

text \<open>
  The way back over the air: what the endpoint receives of the replies the dongle queues, when packets and
  acknowledgements may be lost, and what that means for pairing.
\<close>

section \<open>Runs in both directions\<close>

text \<open>
  A run as in \<open>air_run\<close> that also records, for each pipe, the replies the dongle has queued, and the packets the
  endpoint has read. The endpoint reads early enough to have room for a reply: the library loses one otherwise.
\<close>

inductive duplex_run ::
    "kcfg \<Rightarrow> (u8 \<Rightarrow> esb_pdu \<Rightarrow> u16) \<Rightarrow> 'a esb_scheme \<Rightarrow> 'b dongle_scheme \<Rightarrow> 'a esb_scheme \<Rightarrow> 'b dongle_scheme \<Rightarrow>
     esb_payload list \<Rightarrow> esb_payload list \<Rightarrow> (nat \<Rightarrow> u8 list list) \<Rightarrow> esb_payload list \<Rightarrow> bool"
  for c crc p0 r0 where
  start: "duplex_run c crc p0 r0 p0 r0 [] [] (\<lambda>_. []) []"
| writes: "duplex_run c crc p0 r0 p r sent got queued inbox \<Longrightarrow> \<not> pl_noack x \<Longrightarrow>
    esb_write_payload c x p = (None, p') \<Longrightarrow>
    duplex_run c crc p0 r0 p' r (sent @ [x\<lparr>pl_pid := next_pid (pl_pipe x) p\<rparr>]) got queued inbox"
| attempt: "duplex_run c crc p0 r0 p r sent got queued inbox \<Longrightarrow> on_radio_disabled p = OnDisabledTx \<Longrightarrow>
    rcount (rx_fifo p) < ESB_RX_FIFO_SIZE c \<Longrightarrow>
    exchange c crc heard acked rssi ack_rssi p r = (p', r') \<Longrightarrow> duplex_run c crc p0 r0 p' r' sent got queued inbox"
| retune: "duplex_run c crc p0 r0 p r sent got queued inbox \<Longrightarrow>
    duplex_run c crc p0 r0 (snd (esb_set_rf_channel ch p)) r sent got queued inbox"
| recount: "duplex_run c crc p0 r0 p r sent got queued inbox \<Longrightarrow>
    duplex_run c crc p0 r0 (snd (esb_set_retransmit_count n p)) r sent got queued inbox"
| reads: "duplex_run c crc p0 r0 p r sent got queued inbox \<Longrightarrow> esb_read_rx_payload c p = (Inr x, p') \<Longrightarrow>
    duplex_run c crc p0 r0 p' r sent got queued (inbox @ [x])"
| clears: "duplex_run c crc p0 r0 p r sent got queued inbox \<Longrightarrow>
    duplex_run c crc p0 r0 (snd (get_and_clear_irqs p)) r sent got queued inbox"
| event: "duplex_run c crc p0 r0 p r sent got queued inbox \<Longrightarrow> r' = esb_evt_irq_handler (dongle_evt_handler c) r \<Longrightarrow>
    duplex_run c crc p0 r0 p r' sent (got @ (if int_rx_received r then rx_queue r else []))
      (\<lambda>b. queued b @ drop (length (replies r b)) (replies r' b)) inbox"

lemma duplex_air: "duplex_run c crc p0 r0 p r sent got queued inbox \<Longrightarrow> air_run c crc p0 r0 p r sent got"
proof (induction rule: duplex_run.induct)
  case (reads p r sent got queued inbox x p')
  then show ?case using air_run.reads [of c crc p0 r0 p r sent got] by simp
next
  case (event p r sent got queued inbox r')
  then show ?case using air_run.event by blast
qed (blast intro: air_run.intros)+

text \<open>The data of the packets on one pipe.\<close>

definition on_pipe :: "nat \<Rightarrow> esb_payload list \<Rightarrow> u8 list list" where
  "on_pipe b xs = map pl_data (filter (\<lambda>x. unat (pl_pipe x) = b) xs)"

lemma on_pipe_append [simp]: "on_pipe b (xs @ ys) = on_pipe b xs @ on_pipe b ys"
  by (simp add: on_pipe_def)

text \<open>The packet at the head of the transmit FIFO is on the pipe and has been taken.\<close>

definition taken :: "'a esb_scheme \<Rightarrow> 'b esb_scheme \<Rightarrow> nat \<Rightarrow> bool" where
  "taken p r b \<longleftrightarrow> tx_queue p \<noteq> [] \<and> unat (pl_pipe (hd (tx_queue p))) = b \<and>
     pl_pid (hd (tx_queue p)) = pi_pid (rx_pipe_info r ! b)"

text \<open>Of the replies queued, those no longer in the queue were heard, and the attached one was unless its answer
  is still owed.\<close>

definition heard_ok where
  "heard_ok p r queued hs b \<longleftrightarrow> (\<exists>xs. queued b = xs @ replies r b \<and>
     on_pipe b hs = xs @ (if pi_ack_payload (rx_pipe_info r ! b) \<and> \<not> taken p r b then [hd (replies r b)] else []))"

lemma answered_rx:
  assumes "ptx_inv c p" "on_radio_disabled p = OnDisabledTx" "rcount (rx_fifo p) < ESB_RX_FIFO_SIZE c"
    and "length (pdu_data ack) \<le> ESB_MAX_PAYLOAD_LENGTH c"
    and "p' = radio_irq_handler c (Some ack) rssi 0 0 (radio_irq_handler c None 0 0 0 p)"
  shows "\<exists>y. rx_queue p' = rx_queue p @ (if pdu_data ack = [] then [] else [y]) \<and> pl_pipe y = radio_txaddress p \<and>
    pl_data y = pdu_data ack"
proof -
  define t where "t = tx_fifo_remove_last c (p\<lparr>on_radio_disabled := OnDisabledTxWaitForAck,
      m_esb_state := ESB_STATE_PTX_RX_ACK, int_tx_success := True,
      last_tx_attempts := ucast (retransmit_count (esb_cfg p)) - retransmits_remaining p + 1\<rparr>)"
  have t: "rx_fifo t = rx_fifo p" "radio_txaddress t = radio_txaddress p"
    by (simp_all add: t_def tx_fifo_remove_last_def)
  have p': "p' = next_transaction (receive_ack_payload c ack rssi t)"
    using assms(2,5) by (simp add: radio_irq_handler_def on_radio_disabled_tx_def
        on_radio_disabled_tx_wait_for_ack_def t_def)
  have n: "rx_fifo (next_transaction u) = rx_fifo u" for u :: "'a esb_scheme"
    by (simp add: next_transaction_def start_tx_transaction_def Let_def)
  let ?y = "\<lparr>pl_pipe = radio_txaddress p, pl_noack = \<not> pdu_no_ack ack, pl_pid = pdu_pid ack, pl_rssi = rssi,
    pl_data = pdu_data ack\<rparr>"
  have "ring_wf (ESB_RX_FIFO_SIZE c) (rx_fifo p)" using assms(1) by (simp add: ptx_inv_def)
  then have "rx_queue p' = rx_queue p @ (if pdu_data ack = [] then [] else [?y])"
    using assms(3,4) t by (simp add: p' n receive_ack_payload_def rx_fifo_push_rfbuf_def ring_list_push)
  then show ?thesis by (intro exI [of _ ?y]) simp
qed

text \<open>What the two ends agree on about the packet at the head of the transmit FIFO.\<close>

lemma head_taken:
  assumes "air_inv c crc r0 p r sent got k" "tx_queue p = x # q" "unat (pl_pipe x) < ESB_PIPE_COUNT"
  shows "pl_pid x = pi_pid (rx_pipe_info r ! unat (pl_pipe x)) \<longleftrightarrow>
      crc (pl_pipe x) (pdu_of x) = pi_crc (rx_pipe_info r ! unat (pl_pipe x)) \<and>
      pl_pid x = pi_pid (rx_pipe_info r ! unat (pl_pipe x))"
    "pl_pid x = pi_pid (rx_pipe_info r ! unat (pl_pipe x)) \<longleftrightarrow> k = length sent - length q"
proof -
  obtain ds where d: "sent = ds @ x # q" "k = length ds \<or> k = Suc (length ds)"
    using assms(1,2) by (auto simp: air_inv_def)
  have mem: "remembers crc (rx_pipe_info r) (take k sent)" and cnt: "pids_count (ds @ x # q)"
    using assms(1) d(1) by (simp_all add: air_inv_def)
  have n: "k = Suc (length ds) \<Longrightarrow> last_on (pl_pipe x) (take k sent) = Some x" "k = length ds \<Longrightarrow> take k sent = ds"
    by (simp_all add: d(1))
  have "k = Suc (length ds) \<Longrightarrow> crc (pl_pipe x) (pdu_of x) = pi_crc (rx_pipe_info r ! unat (pl_pipe x)) \<and>
      pl_pid x = pi_pid (rx_pipe_info r ! unat (pl_pipe x))"
    using remembers_dup(1) [OF mem assms(3)] n(1) by blast
  moreover have "k = length ds \<Longrightarrow> pl_pid x \<noteq> pi_pid (rx_pipe_info r ! unat (pl_pipe x))"
    using remembers_dup(2) [OF mem assms(3)] n(2) pids_count_at [OF cnt] by simp
  ultimately show "pl_pid x = pi_pid (rx_pipe_info r ! unat (pl_pipe x)) \<longleftrightarrow>
      crc (pl_pipe x) (pdu_of x) = pi_crc (rx_pipe_info r ! unat (pl_pipe x)) \<and>
      pl_pid x = pi_pid (rx_pipe_info r ! unat (pl_pipe x))"
    "pl_pid x = pi_pid (rx_pipe_info r ! unat (pl_pipe x)) \<longleftrightarrow> k = length sent - length q"
    using d by auto
qed

lemma next_not_taken:
  assumes "air_inv c crc r0 p r sent got k" "tx_queue p = x # y # q" "unat (pl_pipe y) < ESB_PIPE_COUNT"
  shows "pl_pid y \<noteq> (if pl_pipe y = pl_pipe x then pl_pid x else pi_pid (rx_pipe_info r ! unat (pl_pipe y)))"
proof -
  obtain ds where d: "sent = ds @ x # y # q" "k = length ds \<or> k = Suc (length ds)"
    using assms(1,2) by (auto simp: air_inv_def)
  have mem: "remembers crc (rx_pipe_info r) (take k sent)" and cnt: "pids_count ((ds @ [x]) @ y # q)"
    using assms(1) d(1) by (simp_all add: air_inv_def)
  have "pl_pid y = (pid_after (pl_pipe y) (ds @ [x]) + 1) mod (PID_MAX + 1)" using pids_count_at [OF cnt] by simp
  moreover have "pl_pipe y \<noteq> pl_pipe x \<Longrightarrow>
      pi_pid (rx_pipe_info r ! unat (pl_pipe y)) = pid_after (pl_pipe y) (ds @ [x])"
    using mem d assms(3) by (auto simp: remembers_def)
  ultimately show ?thesis using next_pid_differs by auto
qed

lemma first_not_taken:
  assumes "air_inv c crc r0 p r sent got k" "tx_queue p = []" "\<not> pl_noack x"
    "esb_write_payload c x p = (None, p')" "b < ESB_PIPE_COUNT"
  shows "\<not> taken p' r b"
proof -
  let ?x = "x\<lparr>pl_pid := next_pid (pl_pipe x) p\<rparr>"
  have "tx_ok c p" using assms(1) by (simp add: air_inv_def)
  note w = tx_ok_write [OF this assms(3,4)]
  have q: "tx_queue p' = [?x]" using w(2) assms(2) by simp
  have i: "air_inv c crc r0 p' r (sent @ [?x]) got k" by (rule air_writes [OF assms(1,3,4)])
  have "k = length sent" using assms(1,2) by (auto simp: air_inv_def)
  then show ?thesis using head_taken(2) [OF i q] w(4) by (auto simp: taken_def q)
qed

text \<open>Steps that leave the transmit FIFO, the receiver and the endpoint's received packets alone.\<close>

lemma heard_keep:
  assumes "heard_ok p r queued hs b" "tx_queue p' = tx_queue p"
  shows "heard_ok p' r queued hs b"
  using assms by (simp add: heard_ok_def taken_def)

lemma heard_writes:
  assumes "heard_ok p r queued hs b" "air_inv c crc r0 p r sent got k" "\<not> pl_noack x"
    "esb_write_payload c x p = (None, p')" "b < ESB_PIPE_COUNT"
  shows "heard_ok p' r queued hs b"
proof (cases "tx_queue p = []")
  case True
  then have "\<not> taken p r b" by (simp add: taken_def)
  then show ?thesis using first_not_taken [OF assms(2) True assms(3-5)] assms(1) by (simp add: heard_ok_def)
next
  case False
  have "tx_ok c p" using assms(2) by (simp add: air_inv_def)
  from tx_ok_write(2) [OF this assms(3,4)] False have "taken p' r b = taken p r b"
    by (simp add: taken_def hd_append)
  then show ?thesis using assms(1) by (simp add: heard_ok_def)
qed

lemma heard_event:
  assumes "heard_ok p r queued hs b" "grows c an r r'" "reply_ok c r" "b < ESB_PIPE_COUNT"
  shows "heard_ok p r' (\<lambda>b. queued b @ drop (length (replies r b)) (replies r' b)) hs b"
proof -
  obtain xs where g: "replies r' b = replies r b @ xs" "rx_pipe_info r' = rx_pipe_info r"
    using assms(2,4) by (auto simp: grows_def)
  have "pi_ack_payload (rx_pipe_info r ! b) \<Longrightarrow> replies r b \<noteq> []"
    using assms(3,4) by (simp add: reply_ok_def replies_def)
  then show ?thesis using assms(1) g by (auto simp: heard_ok_def taken_def hd_append)
qed

lemma unanswered_rx:
  assumes "on_radio_disabled p = OnDisabledTx"
    and "p' = radio_irq_handler c None rssi 0 0 (radio_irq_handler c None 0 0 0 p)"
  shows "rx_queue p' = rx_queue p"
  using assms by (simp add: radio_irq_handler_def on_radio_disabled_tx_def on_radio_disabled_tx_wait_for_ack_def)

text \<open>A packet taken: \<open>w\<close> is the queue of its pipe afterwards, \<open>xs\<close> what was heard of the replies before it.\<close>

lemma heard_taken:
  assumes "heard_ok p r queued hs b" "reply_ok c r" "b < ESB_PIPE_COUNT" "tx_queue p = x # q" "unat (pl_pipe x) = b"
    and "dup \<longleftrightarrow> pl_pid x = pi_pid (rx_pipe_info r ! b)"
    and "w = (if pi_ack_payload (rx_pipe_info r ! b) \<and> \<not> dup then tl (replies r b) else replies r b)"
  shows "queued b = on_pipe b hs @ w"
proof -
  have t: "taken p r b = dup" using assms(4-6) by (simp add: taken_def)
  obtain xs where xs: "queued b = xs @ replies r b"
    "on_pipe b hs = xs @ (if pi_ack_payload (rx_pipe_info r ! b) \<and> \<not> dup then [hd (replies r b)] else [])"
    using assms(1) t by (auto simp: heard_ok_def)
  have "pi_ack_payload (rx_pipe_info r ! b) \<Longrightarrow> replies r b \<noteq> []"
    using assms(2,3) by (simp add: reply_ok_def replies_def)
  then show ?thesis using xs by (cases "pi_ack_payload (rx_pipe_info r ! b) \<and> \<not> dup") (auto simp: assms(7))
qed

text \<open>After a packet \<open>x\<close> was taken: \<open>kept\<close> says that its acknowledgement was lost.\<close>

lemma heard_delivered:
  assumes "heard_ok p r queued hs b" "unat (pl_pipe x) = b \<Longrightarrow> queued b = on_pipe b hs @ w"
    and "replies r2 b = (if unat (pl_pipe x) = b then w else replies r b)"
    and "pi_ack_payload (rx_pipe_info r2 ! b) =
      (if unat (pl_pipe x) = b then w \<noteq> [] else pi_ack_payload (rx_pipe_info r ! b))"
    and "unat (pl_pipe x) \<noteq> b \<Longrightarrow> \<not> taken p r b" "taken p' r2 b \<longleftrightarrow> kept \<and> unat (pl_pipe x) = b"
    and "on_pipe b ys = (if kept \<or> w = [] \<or> unat (pl_pipe x) \<noteq> b then [] else [hd w])"
  shows "heard_ok p' r2 queued (hs @ ys) b"
proof (cases "unat (pl_pipe x) = b")
  case True
  then show ?thesis
    unfolding heard_ok_def using assms(2-4,6,7) by (intro exI [of _ "on_pipe b hs"]) auto
next
  case False
  then have "replies r2 b = replies r b" "taken p' r2 b = taken p r b"
    "pi_ack_payload (rx_pipe_info r2 ! b) = pi_ack_payload (rx_pipe_info r ! b)" "on_pipe b (hs @ ys) = on_pipe b hs"
    using assms(3-7) by simp_all
  then show ?thesis using assms(1) unfolding heard_ok_def by (simp only:)
qed

lemma reply_data:
  assumes "reply_ok c s" "b < ESB_PIPE_COUNT" "x \<in> set (replies s b)"
  shows "x \<noteq> []" "length x \<le> ESB_MAX_PAYLOAD_LENGTH c"
proof -
  obtain u v where w: "ack_pl_wrap_pipe s = [u, v]"
    using assms(1) reply_queues [of "ack_pl_wrap_pipe s"] by (auto simp: reply_ok_def)
  then show "x \<noteq> []" "length x \<le> ESB_MAX_PAYLOAD_LENGTH c"
    using assms by (auto simp: reply_ok_def replies_def pipe_cases)
qed

lemma taken_packet:
  assumes "heard_ok p r queued hs b" "air_inv c crc r0 p (r :: 'b dongle_scheme) sent got k"
    "reply_ok c r" "b < ESB_PIPE_COUNT" "tx_queue p = x # q" "rcount (rx_fifo r) < ESB_RX_FIFO_SIZE c"
    and "r1 = radio_irq_handler c (Some (pdu_of x)) rssi (unat (pl_pipe x)) (crc (pl_pipe x) (pdu_of x)) r"
    and "r2 = (if m_esb_state r1 = ESB_STATE_PRX_SEND_ACK then radio_irq_handler c None 0 0 0 r1 else r1)"
  obtains w where "reply_ok c r2" "replies r2 b = (if unat (pl_pipe x) = b then w else replies r b)"
    "pi_ack_payload (rx_pipe_info r2 ! b) = (if unat (pl_pipe x) = b then w \<noteq> [] else pi_ack_payload (rx_pipe_info r ! b))"
    "unat (pl_pipe x) = b \<Longrightarrow> queued b = on_pipe b hs @ w"
    "pdu_data (tx_payload_buffer r1) = (if w = [] then [] else hd w)" "w \<noteq> [] \<Longrightarrow> hd w \<noteq> []"
    "length (pdu_data (tx_payload_buffer r1)) \<le> ESB_MAX_PAYLOAD_LENGTH c"
    "\<And>y :: esb_payload. pi_pid (rx_pipe_info r2 ! unat (pl_pipe y)) =
       (if pl_pipe y = pl_pipe x then pl_pid x else pi_pid (rx_pipe_info r ! unat (pl_pipe y)))"
proof -
  have rx: "rx_ok c r" and x: "packet_ok c x" using assms(2,5) by (simp_all add: air_inv_def tx_ok_def)
  then have pipe: "unat (pl_pipe x) < ESB_PIPE_COUNT" by (simp add: packet_ok_def)
  define dup where "dup \<longleftrightarrow> crc (pl_pipe x) (pdu_of x) = pi_crc (rx_pipe_info r ! unat (pl_pipe x)) \<and>
    pl_pid x = pi_pid (rx_pipe_info r ! unat (pl_pipe x))"
  define w where "w = (if pi_ack_payload (rx_pipe_info r ! unat (pl_pipe x)) \<and> \<not> dup
    then tl (replies r (unat (pl_pipe x))) else replies r (unat (pl_pipe x)))"
  note h = rx_hears(5) [OF rx pipe x assms(7,8) dup_def refl]
  note hr = hears_replies [OF rx assms(3) pipe x assms(7,8) dup_def assms(6) w_def]
  have dup: "dup \<longleftrightarrow> pl_pid x = pi_pid (rx_pipe_info r ! unat (pl_pipe x))"
    unfolding dup_def using head_taken(1) [OF assms(2,5) pipe] by simp
  have q2: "queued b = on_pipe b hs @ w" if "unat (pl_pipe x) = b"
    using heard_taken [OF assms(1,3,4,5) that] dup w_def that by blast
  have "set w \<subseteq> set (replies r (unat (pl_pipe x)))"
    by (cases "replies r (unat (pl_pipe x))") (auto simp: w_def)
  then have wd: "hd w \<noteq> []" "length (hd w) \<le> ESB_MAX_PAYLOAD_LENGTH c" if "w \<noteq> []"
    using reply_data [OF assms(3) pipe] hd_in_set [OF that] by auto
  have r2: "replies r2 b = (if unat (pl_pipe x) = b then w else replies r b)"
    "pi_ack_payload (rx_pipe_info r2 ! b) = (if unat (pl_pipe x) = b then w \<noteq> [] else pi_ack_payload (rx_pipe_info r ! b))"
    using hr(2,4) by auto
  have len: "length (pdu_data (tx_payload_buffer r1)) \<le> ESB_MAX_PAYLOAD_LENGTH c" using wd(2) hr(3) by simp
  have pid: "pi_pid (rx_pipe_info r2 ! unat (pl_pipe y)) =
      (if pl_pipe y = pl_pipe x then pl_pid x else pi_pid (rx_pipe_info r ! unat (pl_pipe y)))" for y
    using h assms(6) same_pipe by auto
  show ?thesis by (rule that [OF hr(1) r2 q2 hr(3) wd(1) len pid])
qed

text \<open>What the transmitter hears of it.\<close>

lemma sender_heard:
  assumes "air_inv c crc r0 p r sent got k" "on_radio_disabled p = OnDisabledTx" "rcount (rx_fifo p) < ESB_RX_FIFO_SIZE c"
    "tx_queue p = x # q" "radio_txaddress p = pl_pipe x"
    and "pdu_data ack = (if w = [] then [] else hd w)" "w \<noteq> [] \<Longrightarrow> hd w \<noteq> []"
    "length (pdu_data ack) \<le> ESB_MAX_PAYLOAD_LENGTH c"
    and "\<And>y :: esb_payload. pi_pid (rx_pipe_info r2 ! unat (pl_pipe y)) =
       (if pl_pipe y = pl_pipe x then pl_pid x else pi_pid (rx_pipe_info r ! unat (pl_pipe y)))"
    and "p' = radio_irq_handler c (if acked then Some ack else None) rssi 0 0 (radio_irq_handler c None 0 0 0 p)"
  shows "\<exists>ys. rx_queue p' = rx_queue p @ ys \<and> (taken p' r2 b \<longleftrightarrow> \<not> acked \<and> unat (pl_pipe x) = b) \<and>
    on_pipe b ys = (if \<not> acked \<or> w = [] \<or> unat (pl_pipe x) \<noteq> b then [] else [hd w])"
proof (cases acked)
  case False
  have tx: "tx_ok c p" using assms(1) by (simp add: air_inv_def)
  have p': "p' = radio_irq_handler c None rssi 0 0 (radio_irq_handler c None 0 0 0 p)" using False assms(10) by simp
  have "taken p' r2 b \<longleftrightarrow> unat (pl_pipe x) = b"
    using assms(9) [of x] tx_ok_unanswered(2) [OF tx assms(2) p'] assms(4) by (auto simp: taken_def)
  then show ?thesis using unanswered_rx [OF assms(2) p'] False by (simp add: on_pipe_def)
next
  case True
  have tx: "tx_ok c p" and inv: "ptx_inv c p" using assms(1) by (simp_all add: air_inv_def tx_ok_def)
  have p': "p' = radio_irq_handler c (Some ack) rssi 0 0 (radio_irq_handler c None 0 0 0 p)" using True assms(10) by simp
  have t: "tx_queue p' = q" using tx_ok_answered(2) [OF tx assms(2) p'] assms(4) by simp
  have "\<not> taken p' r2 b"
  proof (cases q)
    case (Cons z q')
    then have z: "unat (pl_pipe z) < ESB_PIPE_COUNT" using tx assms(4) by (simp add: tx_ok_def packet_ok_def)
    show ?thesis using next_not_taken [OF assms(1) _ z] assms(4) Cons assms(9) [of z] t by (auto simp: taken_def)
  qed (simp add: t taken_def)
  moreover obtain y where "rx_queue p' = rx_queue p @ (if pdu_data ack = [] then [] else [y])" "pl_pipe y = pl_pipe x"
      "pl_data y = pdu_data ack"
    using answered_rx [OF inv assms(2,3,8) p'] assms(5) by auto
  ultimately show ?thesis using assms(6,7) True
    by (intro exI [of _ "if w = [] then [] else [y]"]) (auto simp: on_pipe_def)
qed

text \<open>An attempt, on the pipe of the packet and on the other one.\<close>

lemma heard_attempt:
  assumes "heard_ok p r queued (inbox @ rx_queue p) b" "air_inv c crc r0 p (r :: 'b dongle_scheme) sent got k"
    "reply_ok c r" "on_radio_disabled p = OnDisabledTx" "rcount (rx_fifo p) < ESB_RX_FIFO_SIZE c"
    and "exchange c crc heard acked rssi ack_rssi p r = (p', r')" "b < ESB_PIPE_COUNT"
  shows "heard_ok p' r' queued (inbox @ rx_queue p') b \<and> reply_ok c r'"
proof -
  have tx: "tx_ok c p" and rx: "rx_ok c r" using assms(2) by (simp_all add: air_inv_def)
  then obtain x q where q: "tx_queue p = x # q" and buf: "tx_payload_buffer p = pdu_of x"
      and adr: "radio_txaddress p = pl_pipe x" and x: "packet_ok c x"
    using assms(4) by (cases "tx_queue p") (auto simp: tx_ok_def)
  have pipe: "unat (pl_pipe x) < ESB_PIPE_COUNT" using x by (simp add: packet_ok_def)
  define r1 where "r1 = radio_irq_handler c (Some (pdu_of x)) rssi (unat (pl_pipe x)) (crc (pl_pipe x) (pdu_of x)) r"
  define r2 where "r2 = (if m_esb_state r1 = ESB_STATE_PRX_SEND_ACK then radio_irq_handler c None 0 0 0 r1 else r1)"
  define free where "free \<longleftrightarrow> rcount (rx_fifo r) < ESB_RX_FIFO_SIZE c"
  have ex: "p' = radio_irq_handler c (if heard \<and> free \<and> acked then Some (tx_payload_buffer r1) else None) ack_rssi 0 0
      (radio_irq_handler c None 0 0 0 p)" "r' = (if heard then r2 else r)"
    using assms(6) rx_hears(1) [OF rx pipe x r1_def r2_def refl free_def]
    by (auto simp: exchange_def buf adr r2_def Let_def simp flip: r1_def split: if_splits)
  show ?thesis
  proof (cases "heard \<and> free")
    case False
    then have "heard \<Longrightarrow> r1 = r"
      using rx by (simp add: r1_def free_def radio_irq_handler_def on_radio_disabled_rx_def rx_ok_def)
    then have r': "r' = r" using rx by (simp add: ex(2) r2_def rx_ok_def)
    have "\<not> (heard \<and> free \<and> acked)" using False by blast
    then have p': "p' = radio_irq_handler c None ack_rssi 0 0 (radio_irq_handler c None 0 0 0 p)"
      unfolding ex(1) by (simp only: if_False)
    have "heard_ok p' r queued (inbox @ rx_queue p) b"
      using assms(1) tx_ok_unanswered(2) [OF tx assms(4) p'] by (rule heard_keep)
    then show ?thesis using unanswered_rx [OF assms(4) p'] r' assms(3) by simp
  next
    case True
    then have "rcount (rx_fifo r) < ESB_RX_FIFO_SIZE c" by (simp add: free_def)
    note new = taken_packet [OF assms(1-3,7) q this r1_def r2_def]
    obtain w where w: "reply_ok c r2"
      "replies r2 b = (if unat (pl_pipe x) = b then w else replies r b)"
      "pi_ack_payload (rx_pipe_info r2 ! b) = (if unat (pl_pipe x) = b then w \<noteq> [] else pi_ack_payload (rx_pipe_info r ! b))"
      "unat (pl_pipe x) = b \<Longrightarrow> queued b = on_pipe b (inbox @ rx_queue p) @ w"
      "pdu_data (tx_payload_buffer r1) = (if w = [] then [] else hd w)" "w \<noteq> [] \<Longrightarrow> hd w \<noteq> []"
      "length (pdu_data (tx_payload_buffer r1)) \<le> ESB_MAX_PAYLOAD_LENGTH c"
      "\<And>y :: esb_payload. pi_pid (rx_pipe_info r2 ! unat (pl_pipe y)) =
         (if pl_pipe y = pl_pipe x then pl_pid x else pi_pid (rx_pipe_info r ! unat (pl_pipe y)))"
      by (rule new) blast
    have other: "\<not> taken p r b" if "unat (pl_pipe x) \<noteq> b" using that q by (simp add: taken_def)
    note step = heard_delivered [OF assms(1) w(4,2,3) other, where kept = "\<not> acked"]
    have p': "p' = radio_irq_handler c (if acked then Some (tx_payload_buffer r1) else None) ack_rssi 0 0
        (radio_irq_handler c None 0 0 0 p)" using True by (simp add: ex(1))
    obtain ys where ys: "rx_queue p' = rx_queue p @ ys" "taken p' r2 b \<longleftrightarrow> \<not> acked \<and> unat (pl_pipe x) = b"
      "on_pipe b ys = (if \<not> acked \<or> w = [] \<or> unat (pl_pipe x) \<noteq> b then [] else [hd w])"
      using sender_heard [OF assms(2,4,5) q adr w(5-8) p'] by blast
    from step [OF _ _ ys(2,3)] show ?thesis using w(1) True ys(1) ex(2) by simp
  qed
qed

text \<open>Writing leaves the received packets alone.\<close>

lemma write_rx:
  assumes "cfg_mode (esb_cfg p) = ESB_MODE_PTX" "esb_write_payload c x p = (e, p')"
  shows "rx_queue p' = rx_queue p"
proof -
  have "rx_fifo p' = rx_fifo p"
    using assms by (auto simp: esb_write_payload_def start_tx_transaction_def Let_def split: if_splits)
  then show ?thesis by simp
qed

lemma attempt_rx_pipe:
  assumes "on_radio_disabled p = OnDisabledTx" "ptx_inv c p"
    and "p' = radio_irq_handler c ack rssi 0 0 (radio_irq_handler c None 0 0 0 p)"
  shows "set (map pl_pipe (rx_queue p')) \<subseteq> insert (radio_txaddress p) (set (map pl_pipe (rx_queue p)))"
proof (cases ack)
  case None
  then show ?thesis using unanswered_rx [OF assms(1), of p'] assms(3) by auto
next
  case (Some pdu)
  define t where "t = tx_fifo_remove_last c (p\<lparr>on_radio_disabled := OnDisabledTxWaitForAck,
      m_esb_state := ESB_STATE_PTX_RX_ACK, int_tx_success := True,
      last_tx_attempts := ucast (retransmit_count (esb_cfg p)) - retransmits_remaining p + 1\<rparr>)"
  have t: "rx_fifo t = rx_fifo p" "radio_txaddress t = radio_txaddress p"
    by (simp_all add: t_def tx_fifo_remove_last_def)
  have p': "p' = next_transaction (receive_ack_payload c pdu rssi t)"
    using assms(1,3) by (simp add: Some radio_irq_handler_def on_radio_disabled_tx_def
        on_radio_disabled_tx_wait_for_ack_def t_def)
  have n: "rx_fifo (next_transaction u) = rx_fifo u" for u :: "'a esb_scheme"
    by (simp add: next_transaction_def start_tx_transaction_def Let_def)
  have "ring_wf (ESB_RX_FIFO_SIZE c) (rx_fifo p)" using assms(2) by (simp add: ptx_inv_def)
  then show ?thesis
    by (auto simp: p' n t receive_ack_payload_def rx_fifo_push_rfbuf_def ring_list_push split: if_splits)
qed

text \<open>
  What holds of the two ends after a run: the books of \<open>air_inv\<close>, the dongle's reply queues, and on which pipes
  the endpoint has received.
\<close>

definition duplex_ok where
  "duplex_ok c crc r0 p r sent got queued inbox \<longleftrightarrow> (\<exists>k. air_inv c crc r0 p r sent got k) \<and> reply_ok c r \<and>
     (\<forall>b < ESB_PIPE_COUNT. heard_ok p r queued (inbox @ rx_queue p) b) \<and> m_my_device_id r = m_my_device_id r0 \<and>
     (\<forall>b < ESB_PIPE_COUNT. subseq (queued b) (answers (m_my_device_id r0) b (app_of r0) (map seen got))) \<and>
     (\<forall>y \<in> set (rx_queue p). unat (pl_pipe y) < ESB_PIPE_COUNT)"

lemma duplex_ok_start:
  assumes "air_ready c p r" "reply_ok c r" "\<forall>b < ESB_PIPE_COUNT. replies r b = []" "rx_queue p = []"
  shows "duplex_ok c crc r p r [] [] (\<lambda>_. []) []"
proof -
  have "air_inv c crc r p r [] [] 0" using assms(1) by (intro air_start) (simp_all add: air_ready_def)
  moreover have "\<not> pi_ack_payload (rx_pipe_info r ! b)" if "b < ESB_PIPE_COUNT" for b
    using assms(2,3) that by (auto simp: reply_ok_def replies_def)
  ultimately show ?thesis using assms(2-4) by (auto simp: duplex_ok_def heard_ok_def on_pipe_def)
qed

text \<open>A step of the endpoint that leaves its packets alone.\<close>

lemma duplex_ok_keep:
  assumes "duplex_ok c crc r0 p r sent got queued inbox" "tx_ok c p'" "tx_queue p' = tx_queue p" "esb_pids p' = esb_pids p"
    "rx_queue p' = rx_queue p"
  shows "duplex_ok c crc r0 p' r sent got queued inbox"
  using assms air_keeps [OF _ assms(2-4)] heard_keep [OF _ assms(3)] unfolding duplex_ok_def by metis

lemma duplex_ok_writes:
  assumes "duplex_ok c crc r0 p r sent got queued inbox" "\<not> pl_noack x" "esb_write_payload c x p = (None, p')"
  shows "duplex_ok c crc r0 p' r (sent @ [x\<lparr>pl_pid := next_pid (pl_pipe x) p\<rparr>]) got queued inbox"
proof -
  obtain k where i: "air_inv c crc r0 p r sent got k" using assms(1) by (auto simp: duplex_ok_def)
  then have "cfg_mode (esb_cfg p) = ESB_MODE_PTX" by (simp add: air_inv_def tx_ok_def ptx_inv_def)
  then have "rx_queue p' = rx_queue p" using write_rx assms(3) by blast
  then show ?thesis using assms(1) heard_writes [OF _ i assms(2,3)] air_writes [OF i assms(2,3)]
    unfolding duplex_ok_def by auto
qed

lemma duplex_ok_attempt:
  assumes "duplex_ok c crc r0 p r sent got queued inbox" "on_radio_disabled p = OnDisabledTx"
    "rcount (rx_fifo p) < ESB_RX_FIFO_SIZE c" "exchange c crc heard acked rssi ack_rssi p r = (p', r')"
  shows "duplex_ok c crc r0 p' r' sent got queued inbox"
proof -
  obtain k where i: "air_inv c crc r0 p r sent got k" using assms(1) by (auto simp: duplex_ok_def)
  have ok: "reply_ok c r" using assms(1) by (simp add: duplex_ok_def)
  have tx: "tx_ok c p" using i by (simp add: air_inv_def)
  have "unat (radio_txaddress p) < ESB_PIPE_COUNT"
    using tx assms(2) by (cases "tx_queue p") (auto simp: tx_ok_def packet_ok_def)
  moreover obtain ack where "p' = radio_irq_handler c ack ack_rssi 0 0 (radio_irq_handler c None 0 0 0 p)"
    using assms(4) unfolding exchange_def Let_def prod.inject by blast
  moreover have "ptx_inv c p" "\<forall>y \<in> set (rx_queue p). unat (pl_pipe y) < ESB_PIPE_COUNT"
    using tx assms(1) by (simp_all add: tx_ok_def duplex_ok_def)
  ultimately have pipes: "\<forall>y \<in> set (rx_queue p'). unat (pl_pipe y) < ESB_PIPE_COUNT"
    using attempt_rx_pipe [OF assms(2)] by fastforce
  have h: "\<forall>b < ESB_PIPE_COUNT. heard_ok p' r' queued (inbox @ rx_queue p') b \<and> reply_ok c r'"
    using assms(1) heard_attempt [OF _ i ok assms(2-4)] unfolding duplex_ok_def by blast
  moreover have "0 < ESB_PIPE_COUNT" by (simp add: ESB_PIPE_COUNT_def)
  ultimately show ?thesis
    using assms(1) exchange_me [OF assms(4)] air_attempt [OF i assms(2,4)] pipes unfolding duplex_ok_def by metis
qed

lemma duplex_ok_reads:
  assumes "duplex_ok c crc r0 p r sent got queued inbox" "esb_read_rx_payload c p = (Inr x, p')"
  shows "duplex_ok c crc r0 p' r sent got queued (inbox @ [x])" "unat (pl_pipe x) < ESB_PIPE_COUNT"
proof -
  obtain k where i: "air_inv c crc r0 p r sent got k" using assms(1) by (auto simp: duplex_ok_def)
  then have "ring_wf (ESB_RX_FIFO_SIZE c) (rx_fifo p)" by (simp add: air_inv_def tx_ok_def ptx_inv_def)
  with assms(2) have q: "rx_queue p = x # rx_queue p'" "tx_queue p' = tx_queue p" by (rule read_next)+
  have "air_inv c crc r0 p' r sent got k"
    using air_keeps [OF i] tx_ok_api(3) [of c p] api_frames(5,6) [of c p] i assms(2) by (simp add: air_inv_def)
  moreover have "heard_ok p' r queued ((inbox @ [x]) @ rx_queue p') b" if "heard_ok p r queued (inbox @ rx_queue p) b" for b
    using heard_keep [OF that q(2)] q(1) by simp
  ultimately show "duplex_ok c crc r0 p' r sent got queued (inbox @ [x])" "unat (pl_pipe x) < ESB_PIPE_COUNT"
    using assms(1) q(1) unfolding duplex_ok_def by auto
qed

lemma duplex_ok_event:
  assumes "duplex_ok c crc r0 p r sent got queued inbox" "r' = esb_evt_irq_handler (dongle_evt_handler c) r"
  shows "duplex_ok c crc r0 p r' sent (got @ (if int_rx_received r then rx_queue r else []))
    (\<lambda>b. queued b @ drop (length (replies r b)) (replies r' b)) inbox"
proof -
  obtain k where i: "air_inv c crc r0 p r sent got k" using assms(1) by (auto simp: duplex_ok_def)
  have ok: "reply_ok c r" and me: "m_my_device_id r = m_my_device_id r0" using assms(1) by (simp_all add: duplex_ok_def)
  have rx: "rx_ok c r" and app: "app_of r = fold app_step (map pl_data got) (app_of r0)"
    using i by (simp_all add: air_inv_def)
  note e = event_replies [OF rx ok assms(2)]
  have "reply_ok c r'" and h: "heard_ok p r queued hs b \<Longrightarrow> b < ESB_PIPE_COUNT \<Longrightarrow>
      heard_ok p r' (\<lambda>b. queued b @ drop (length (replies r b)) (replies r' b)) hs b" for hs b
    using e(1) heard_event [OF _ _ ok] by (simp_all add: grows_def)
  have got: "map seen (got @ (if int_rx_received r then rx_queue r else [])) = map seen got @ map seen (rx_queue r)"
    using rx by (auto simp: rx_ok_def)
  have "subseq (queued b @ drop (length (replies r b)) (replies r' b))
      (answers (m_my_device_id r0) b (app_of r0) (map seen got @ map seen (rx_queue r)))" if b: "b < ESB_PIPE_COUNT" for b
  proof -
    obtain xs where "replies r' b = replies r b @ xs" "subseq xs (answers (m_my_device_id r) b (app_of r) (map seen (rx_queue r)))"
      using e(1) b by (auto simp: grows_def)
    moreover have "map snd (map seen got) = map pl_data got" by (simp add: seen_def comp_def)
    ultimately show ?thesis
      using assms(1) b app me by (simp add: duplex_ok_def answers_append list_emb_append_mono del: map_map)
  qed
  then show ?thesis
    using assms(1) h e(2) \<open>reply_ok c r'\<close> air_event [OF i assms(2)] unfolding duplex_ok_def got by auto
qed

text \<open>Runs keep it, from any point on.\<close>

lemma duplex_from:
  assumes "duplex_run c crc p1 r1 p r xs ys q ib" "duplex_ok c crc r0 p1 (r1 :: 'b dongle_scheme) sent got queued inbox"
  shows "duplex_ok c crc r0 p r (sent @ xs) (got @ ys) (\<lambda>b. queued b @ q b) (inbox @ ib)"
  using assms(1)
proof induction
  case start
  then show ?case using assms(2) by simp
next
  case (writes p r xs ys q ib x p')
  then show ?case using duplex_ok_writes by fastforce
next
  case (attempt p r xs ys q ib heard acked rssi ack_rssi p' r')
  then show ?case using duplex_ok_attempt by blast
next
  case (reads p r xs ys q ib x p')
  then show ?case using duplex_ok_reads(1) by fastforce
next
  case (event p r xs ys q ib r')
  then show ?case using duplex_ok_event by fastforce
next
  case (retune p r xs ys q ib ch)
  then have "tx_ok c p" by (auto simp: duplex_ok_def air_inv_def)
  from duplex_ok_keep [OF retune.IH tx_ok_api(1) [OF this] api_frames(1,2)] show ?case by (simp add: esb_set_rf_channel_def)
next
  case (recount p r xs ys q ib n)
  then have "tx_ok c p" by (auto simp: duplex_ok_def air_inv_def)
  from duplex_ok_keep [OF recount.IH tx_ok_api(2) [OF this] api_frames(3,4)] show ?case by (simp add: esb_set_retransmit_count_def)
next
  case (clears p r xs ys q ib)
  then have "tx_ok c p" by (auto simp: duplex_ok_def air_inv_def)
  from duplex_ok_keep [OF clears.IH tx_ok_api(4) [OF this] api_frames(7,8)] show ?case by (simp add: get_and_clear_irqs_def)
qed

lemma duplex_inv:
  assumes "duplex_run c crc p0 (r0 :: 'b dongle_scheme) p r sent got queued inbox" "air_ready c p0 r0" "reply_ok c r0"
    and "\<forall>b < ESB_PIPE_COUNT. replies r0 b = []" "rx_queue p0 = []"
  shows "duplex_ok c crc r0 p r sent got queued inbox"
  using duplex_from [OF assms(1) duplex_ok_start [OF assms(2-5)]] by simp

text \<open>A dongle whose receiver has just been started has no replies.\<close>

lemma dongle_start_replies:
  assumes "m = dongle_main c lo hi None True True s" "r = snd (esb_start_rx m)"
  shows "reply_ok c r \<and> replies r 0 = [] \<and> replies r 1 = []"
proof -
  let ?cfg = "\<lparr>cfg_mode = ESB_MODE_PRX, retransmit_delay = 570, retransmit_count = 5,
                 tx_mode = ESB_TXMODE_AUTO, payload_length = 32, selective_auto_ack = True,
                 use_fast_ramp_up = True\<rparr>"
  obtain e u where i: "esb_init c None ?cfg (dongle_build_device_id lo hi s) = (e, u)" by fastforce
  define fresh where "fresh r \<longleftrightarrow> ack_pl_wrap_pipe r = [[], []] \<and> length (rx_pipe_info r) = ESB_PIPE_COUNT \<and>
    length (ack_in_use r) = ESB_TX_FIFO_SIZE c \<and> length (rslots (tx_fifo r)) = ESB_TX_FIFO_SIZE c \<and>
    rcount (tx_fifo r) = 0 \<and> (\<forall>i \<in> set (rx_pipe_info r). \<not> pi_ack_payload i)" for r :: "'a dongle_scheme"
  have u: "e = None" "fresh u"
    using i by (auto simp: esb_init_def fresh_def initialize_fifos_def reset_fifos_def ring_clear_def clear_ack_wraps_def
        Let_def ESB_PIPE_COUNT_def numeral_2_eq_2)
  have a: "fresh (snd (esb_set_base_address_0 a u)) = fresh u" "fresh (snd (esb_set_base_address_1 a u)) = fresh u"
    "fresh (snd (esb_set_prefixes p n u)) = fresh u" "fresh (snd (esb_set_rf_channel ch u)) = fresh u"
    "fresh (snd (esb_enable_pipes m u)) = fresh u" for a p n ch m and u :: "'a dongle_scheme"
    by (simp_all add: fresh_def esb_set_base_address_0_def esb_set_base_address_1_def
        esb_set_prefixes_def esb_set_rf_channel_def esb_enable_pipes_def Let_def)
  have "m = (set_addresses u)\<lparr>d_state := DONGLE_LISTENING\<rparr>"
    using i u(1) by (simp add: assms(1) dongle_main_def esb_dongle_init_def set_addresses_def Let_def)
  moreover have "fresh (set_addresses u)" using u(2) by (simp add: a set_addresses_def Let_def)
  ultimately have "fresh r" by (simp add: assms(2) esb_start_rx_def fresh_def)
  then show ?thesis by (auto simp: fresh_def reply_ok_def replies_def all_pipes ESB_PIPE_COUNT_def)
qed

lemma duplex_result:
  assumes "duplex_run c crc p0 r0 p r sent got queued inbox" "air_ready c p0 r0" "reply_ok c r0"
    and "replies r0 0 = []" "replies r0 1 = []" "rx_queue p0 = []" "b < ESB_PIPE_COUNT"
  shows "heard_ok p r queued (inbox @ rx_queue p) b \<and> reply_ok c r \<and>
    subseq (queued b) (answers (m_my_device_id r0) b (app_of r0) (map seen (take (length got) sent)))"
proof -
  have "\<forall>b < ESB_PIPE_COUNT. replies r0 b = []" using assms(4,5) by (auto simp: pipe_cases)
  note d = duplex_inv [OF assms(1-3) this assms(6)]
  obtain k where m: "map seen (got @ rx_queue r) = map seen (take k sent)" and k: "k \<le> length sent"
    using air_taken [OF duplex_air [OF assms(1)] assms(2)] by blast
  from m have "take (length got) (map seen (got @ rx_queue r)) = take (length got) (map seen (take k sent))" by simp
  moreover have "length got \<le> k" using arg_cong [OF m, of length] k by simp
  ultimately have "map seen got = map seen (take (length got) sent)" by (simp add: take_map min_def split: if_splits)
  then show ?thesis using d assms(7) by (simp add: duplex_ok_def)
qed

lemma heard_prefix:
  assumes "heard_ok p r queued hs b" "reply_ok c r" "b < ESB_PIPE_COUNT"
  shows "\<exists>m. length (queued b) - length (replies r b) \<le> m \<and> m \<le> Suc (length (queued b) - length (replies r b)) \<and>
      m \<le> length (queued b) \<and> on_pipe b hs = take m (queued b)"
    "replies r b = drop (length (queued b) - length (replies r b)) (queued b)"
proof -
  obtain xs where xs: "queued b = xs @ replies r b"
    "on_pipe b hs = xs @ (if pi_ack_payload (rx_pipe_info r ! b) \<and> \<not> taken p r b then [hd (replies r b)] else [])"
    using assms(1) by (auto simp: heard_ok_def)
  have "pi_ack_payload (rx_pipe_info r ! b) \<Longrightarrow> replies r b \<noteq> []"
    using assms(2,3) by (simp add: reply_ok_def replies_def)
  then show "\<exists>m. length (queued b) - length (replies r b) \<le> m \<and> m \<le> Suc (length (queued b) - length (replies r b)) \<and>
      m \<le> length (queued b) \<and> on_pipe b hs = take m (queued b)"
    using xs
    by (cases "pi_ack_payload (rx_pipe_info r ! b) \<and> \<not> taken p r b"; cases "replies r b")
      (auto intro: exI [of _ "length xs"] exI [of _ "Suc (length xs)"])
  show "replies r b = drop (length (queued b) - length (replies r b)) (queued b)" by (simp add: xs(1))
qed

text \<open>
  C7. What the endpoint receives from the dongle, over a medium that may lose any packet and any acknowledgement:
  on each pipe the replies the dongle has queued, each exactly once and in order. Those received are a prefix of
  those queued, which covers every reply that has left the dongle's queue and at most the one attached to
  the answers besides. And every reply is an answer the dongle's program owes to a packet the endpoint
  has sent: the replies queued are among those answers, in their order.
\<close>

theorem air_replies_once:
  assumes "duplex_run c crc p0 r0 p r sent got queued inbox" "air_ready c p0 r0" "reply_ok c r0"
    and "replies r0 0 = []" "replies r0 1 = []" "rx_queue p0 = []" "b < ESB_PIPE_COUNT"
  shows "(\<exists>m. length (queued b) - length (replies r b) \<le> m \<and> m \<le> Suc (length (queued b) - length (replies r b)) \<and>
      m \<le> length (queued b) \<and> on_pipe b (inbox @ rx_queue p) = take m (queued b)) \<and>
    replies r b = drop (length (queued b) - length (replies r b)) (queued b) \<and>
    subseq (queued b) (answers (m_my_device_id r0) b (app_of r0) (map seen (take (length got) sent)))"
  using duplex_result [OF assms] heard_prefix assms(7) by blast

lemma subseq_of_one: "subseq xs [y] \<Longrightarrow> xs = [] \<or> xs = [y]"
  by (cases xs) (auto dest: list_emb_Nil2 split: if_splits)

lemma take_of_one: "take m [y] = [] \<or> take m [y] = [y]"
  by (cases m) auto

lemma beacon_step:
  assumes "pkt_type bs = ESB_PKT_BEACON"
  shows "da_state a \<noteq> DONGLE_LISTENING \<Longrightarrow> answer me a bs = [] \<and> app_step bs a = a"
    "answer me a bs = [] \<and> app_step bs a = a \<or>
     answer me a bs = [encode (PktPairReq me)] \<and> da_state (app_step bs a) = DONGLE_PAIRING"
  using assms by (cases bs; simp add: answer_def app_step_def pkt_type_def pkt_consts)+

lemma answers_beacons:
  assumes "\<forall>x \<in> set xs. pkt_type (snd x) = ESB_PKT_BEACON"
  shows "answers me b a xs = [] \<or> da_state a = DONGLE_LISTENING \<and> answers me b a xs = [encode (PktPairReq me)]"
proof -
  have n: "da_state a \<noteq> DONGLE_LISTENING \<Longrightarrow> answers me b a xs = []"
    if "\<forall>x \<in> set xs. pkt_type (snd x) = ESB_PKT_BEACON" for xs a
    using that by (induction xs arbitrary: a) (auto simp: beacon_step(1))
  show ?thesis
    using assms
  proof (induction xs arbitrary: a)
    case (Cons x xs)
    obtain pipe bs where x: "x = (pipe, bs)" by fastforce
    have bs: "pkt_type bs = ESB_PKT_BEACON" and xs: "\<forall>x \<in> set xs. pkt_type (snd x) = ESB_PKT_BEACON"
      using Cons.prems by (simp_all add: x)
    show ?case
    proof (cases "da_state a = DONGLE_LISTENING")
      case True
      from beacon_step(2) [OF bs, of me a] show ?thesis
      proof
        assume "answer me a bs = [] \<and> app_step bs a = a"
        then show ?thesis using Cons.IH [OF xs, of a] by (simp add: x)
      next
        assume "answer me a bs = [encode (PktPairReq me)] \<and> da_state (app_step bs a) = DONGLE_PAIRING"
        then show ?thesis using n [OF xs, of "app_step bs a"] True by (simp add: x)
      qed
    qed (use n [OF Cons.prems] in simp)
  qed simp
qed

text \<open>
  C8. However often a keyboard without a dongle repeats its beacon, and whatever is lost, it receives at most one
  packet on a pipe, the pairing request of the dongle with the dongle's identifier, and that only from a dongle that was
  listening when the beacons began. A dongle that still counts itself paired answers no beacon at all: as
  unpairing the keyboard sends nothing to the dongle, the two cannot be paired again until the dongle restarts.
\<close>

theorem beacons_answered_once:
  assumes "duplex_run c crc p0 r0 p r sent got queued inbox" "air_ready c p0 r0" "reply_ok c r0"
    and "replies r0 0 = []" "replies r0 1 = []" "rx_queue p0 = []" "b < ESB_PIPE_COUNT"
    and "\<forall>x \<in> set sent. pkt_type (pl_data x) = ESB_PKT_BEACON"
  shows "on_pipe b (inbox @ rx_queue p) = [] \<or>
    d_state r0 = DONGLE_LISTENING \<and> on_pipe b (inbox @ rx_queue p) = [encode (PktPairReq (m_my_device_id r0))]"
proof -
  note d = duplex_result [OF assms(1-7)]
  have "\<forall>x \<in> set (map seen (take (length got) sent)). pkt_type (snd x) = ESB_PKT_BEACON"
    using assms(8) by (auto simp: seen_def dest: in_set_takeD)
  note a = answers_beacons [OF this, of "m_my_device_id r0" b "app_of r0"]
  have sub: "subseq (queued b) (answers (m_my_device_id r0) b (app_of r0) (map seen (take (length got) sent)))"
    using d by blast
  have st: "da_state (app_of r0) = d_state r0" by (simp add: app_of_def)
  from a have q: "queued b = [] \<or> d_state r0 = DONGLE_LISTENING \<and> queued b = [encode (PktPairReq (m_my_device_id r0))]"
  proof (elim disjE conjE)
    assume n: "answers (m_my_device_id r0) b (app_of r0) (map seen (take (length got) sent)) = []"
    show ?thesis using list_emb_Nil2 [OF sub [unfolded n]] ..
  next
    assume l: "da_state (app_of r0) = DONGLE_LISTENING"
      and n: "answers (m_my_device_id r0) b (app_of r0) (map seen (take (length got) sent)) =
        [encode (PktPairReq (m_my_device_id r0))]"
    show ?thesis using subseq_of_one [OF sub [unfolded n]] l unfolding st by blast
  qed
  obtain m where m: "on_pipe b (inbox @ rx_queue p) = take m (queued b)"
    using heard_prefix(1) [OF d [THEN conjunct1] _ assms(7)] d by blast
  from q show ?thesis
  proof
    assume "queued b = []"
    then show ?thesis unfolding m by simp
  next
    assume "d_state r0 = DONGLE_LISTENING \<and> queued b = [encode (PktPairReq (m_my_device_id r0))]"
    then show ?thesis unfolding m using take_of_one by metis
  qed
qed

section \<open>A pairing request on its way\<close>

text \<open>
  A beacon reaches a dongle that listens, its event interrupt queues the request, and the answer to the next beacon
  carries it.
\<close>

definition dongle_listening :: dongle where
  "dongle_listening = dongle_connected\<lparr>d_state := DONGLE_LISTENING, m_my_device_id := [9, 8, 7, 6, 5, 4]\<rparr>"

definition beacon_pkt :: esb_payload where
  "beacon_pkt = (pkt_example (encode (PktBeacon [1, 2, 3, 4, 5, 6] 7)))\<lparr>pl_pipe := ESB_PIPE_PAIRING\<rparr>"

definition beacon_written :: esb where
  "beacon_written = snd (esb_write_payload default_kcfg beacon_pkt esb_example)"

definition beacon_acked :: "esb \<times> dongle" where
  "beacon_acked = exchange default_kcfg (\<lambda>_ _. 7) True True 0 0 beacon_written dongle_listening"

definition beacon_handled :: dongle where
  "beacon_handled = esb_evt_irq_handler (dongle_evt_handler default_kcfg) (snd beacon_acked)"

definition beacon_again :: esb where
  "beacon_again = snd (esb_write_payload default_kcfg beacon_pkt (fst beacon_acked))"

definition request_heard :: "esb \<times> dongle" where
  "request_heard = exchange default_kcfg (\<lambda>_ _. 7) True True 0 0 beacon_again beacon_handled"

lemma beacon_written:
  "esb_write_payload default_kcfg beacon_pkt esb_example = (None, beacon_written)"
  "on_radio_disabled beacon_written = OnDisabledTx" "rcount (rx_fifo beacon_written) = 0"
  by (simp_all add: beacon_written_def beacon_pkt_def ESB_PIPE_PAIRING_def key_a_steps Let_def)


lemma beacon_written_val: "beacon_written = esb_example\<lparr>m_esb_state := ESB_STATE_PTX_TX_ACK,
   tx_fifo := \<lparr>rslots = (replicate 8 empty_payload)[0 := beacon_pkt\<lparr>pl_pid := 1\<rparr>], rback = 1, rfront = 0, rcount = 1\<rparr>,
   tx_payload_buffer := \<lparr>pdu_pid = 1, pdu_no_ack = True, pdu_data = pl_data beacon_pkt\<rparr>, on_radio_disabled := OnDisabledTx,
   esb_pids := [1, 0], retransmits_remaining := 5, last_tx_attempts := 1, radio_txaddress := 0\<rparr>"
  by (simp add: beacon_written_def beacon_pkt_def ESB_PIPE_PAIRING_def key_a_steps next_pid_def PID_MAX_def ring_push_def ring_head_def ring_bump_def Let_def)


lemma exchange_answered:
  assumes "on_radio_disabled p = OnDisabledTx" "on_radio_disabled a = OnDisabledRxAck" "m_esb_state a = ESB_STATE_PRX_SEND_ACK"
    and "radio_irq_handler c (Some (tx_payload_buffer p)) rssi (unat (radio_txaddress p))
      (crc (radio_txaddress p) (tx_payload_buffer p)) r = a"
  shows "exchange c crc True True rssi ack_rssi p r =
    (on_radio_disabled_tx_wait_for_ack c (Some (tx_payload_buffer a)) ack_rssi (on_radio_disabled_tx p),
     on_radio_disabled_rx_ack a)"
  using assms by (simp add: exchange_def radio_irq_handler_def on_radio_disabled_tx_def Let_def)

lemmas beacon_eval = radio_irq_handler_def on_radio_disabled_rx_def answer_packet_def on_radio_disabled_rx_dpl_def
  deliver_packet_def rx_fifo_push_rfbuf_def ring_push_def ring_pop_def ring_bump_def ring_head_def
  on_radio_disabled_tx_wait_for_ack_def on_radio_disabled_tx_def on_radio_disabled_rx_ack_def
  next_transaction_def receive_ack_payload_def tx_fifo_remove_last_def start_tx_transaction_def
  beacon_pkt_def ESB_PIPE_PAIRING_def pkt_example_def pkt_consts ESB_PIPE_COUNT_def numeral_2_eq_2 Let_def

definition beacon_answering :: dongle where
  "beacon_answering = dongle_listening\<lparr>m_esb_state := ESB_STATE_PRX_SEND_ACK,
     rx_fifo := \<lparr>rslots = (replicate 8 empty_payload)[0 := beacon_pkt\<lparr>pl_pid := 1\<rparr>], rback = 1, rfront = 0, rcount = 1\<rparr>,
     tx_payload_buffer := \<lparr>pdu_pid = 1, pdu_no_ack = True, pdu_data = []\<rparr>, on_radio_disabled := OnDisabledRxAck,
     rx_pipe_info := [\<lparr>pi_crc = 7, pi_pid = 1, pi_ack_payload = False\<rparr>, \<lparr>pi_crc = 0, pi_pid = 0, pi_ack_payload = False\<rparr>],
     int_rx_received := True, radio_txaddress := 0\<rparr>"

lemma beacon_answering: "radio_irq_handler default_kcfg (Some (tx_payload_buffer beacon_written)) 0 0 7 dongle_listening = beacon_answering"
  by (simp add: beacon_written_val beacon_answering_def dongle_listening_def dongle_connected_def dongle_boot_def esb_example_def beacon_eval)

lemma beacon_acked_val: "beacon_acked = (esb_example\<lparr>
   tx_fifo := \<lparr>rslots = (replicate 8 empty_payload)[0 := beacon_pkt\<lparr>pl_pid := 1\<rparr>], rback = 1, rfront = 1, rcount = 0\<rparr>,
   tx_payload_buffer := \<lparr>pdu_pid = 1, pdu_no_ack = True, pdu_data = pl_data beacon_pkt\<rparr>,
   on_radio_disabled := OnDisabledTxWaitForAck, int_tx_success := True,
   esb_pids := [1, 0], retransmits_remaining := 5, last_tx_attempts := 1, radio_txaddress := 0\<rparr>,
   beacon_answering\<lparr>m_esb_state := ESB_STATE_PRX, on_radio_disabled := OnDisabledRx\<rparr>)"
proof -
  have p: "radio_txaddress beacon_written = 0" by (simp add: beacon_written_val)
  have a: "on_radio_disabled beacon_answering = OnDisabledRxAck" "m_esb_state beacon_answering = ESB_STATE_PRX_SEND_ACK"
    "pdu_data (tx_payload_buffer beacon_answering) = []"
    by (simp_all add: beacon_answering_def)
  have e: "beacon_acked = (on_radio_disabled_tx_wait_for_ack default_kcfg (Some (tx_payload_buffer beacon_answering)) 0
      (on_radio_disabled_tx beacon_written), on_radio_disabled_rx_ack beacon_answering)"
    unfolding beacon_acked_def by (rule exchange_answered) (simp_all add: beacon_written(2) a p beacon_answering)
  show ?thesis unfolding e
    by (simp add: beacon_written_val esb_example_def ptx_config_def on_radio_disabled_tx_wait_for_ack_def on_radio_disabled_tx_def on_radio_disabled_rx_ack_def
  next_transaction_def receive_ack_payload_def tx_fifo_remove_last_def ring_pop_def ring_bump_def a(3) Let_def)
qed

lemma beacon_again_val:
  "esb_write_payload default_kcfg beacon_pkt (fst beacon_acked) = (None, (fst beacon_acked)\<lparr>m_esb_state := ESB_STATE_PTX_TX_ACK,
   tx_fifo := \<lparr>rslots = (replicate 8 empty_payload)[0 := beacon_pkt\<lparr>pl_pid := 1\<rparr>, 1 := beacon_pkt\<lparr>pl_pid := 2\<rparr>], rback = 2, rfront = 1, rcount = 1\<rparr>,
   tx_payload_buffer := \<lparr>pdu_pid = 2, pdu_no_ack = True, pdu_data = pl_data beacon_pkt\<rparr>, on_radio_disabled := OnDisabledTx,
   esb_pids := [2, 0], retransmits_remaining := 5, last_tx_attempts := 1, radio_txaddress := 0\<rparr>)"
  by (simp add: beacon_acked_val beacon_pkt_def ESB_PIPE_PAIRING_def key_a_steps next_pid_def PID_MAX_def ring_push_def ring_head_def ring_bump_def Let_def)

lemma one_packet_loop:
  assumes "rcount (rx_fifo s) = 1" "esb_initialized s" "cfg_mode (esb_cfg s) = ESB_MODE_PRX"
  shows "dongle_rx_loop c 2 s =
    dongle_packet c (ring_head (rx_fifo s)) (s\<lparr>rx_fifo := ring_pop (ESB_RX_FIFO_SIZE c) (rx_fifo s)\<rparr>)"
proof -
  let ?t = "s\<lparr>rx_fifo := ring_pop (ESB_RX_FIFO_SIZE c) (rx_fifo s)\<rparr>"
  have "rx_view (dongle_packet c x ?t) = rx_view ?t" for x by (rule packet_frames) (simp add: assms(3))
  then have "rcount (rx_fifo (dongle_packet c x ?t)) = 0" for x
    using assms(1) by (simp add: rx_view_def ring_pop_def)
  then show ?thesis using assms(1,2) by (simp add: numeral_2_eq_2 esb_read_rx_payload_def)
qed

lemma beacon_free: "find_free 0 (replicate 8 False) = Some 0"
  by (simp add: numeral_eq_Suc)

lemma beacon_packet:
  assumes "esb_initialized s" "cfg_mode (esb_cfg s) = ESB_MODE_PRX" "d_state s = DONGLE_LISTENING"
    "ack_in_use s = replicate 8 False" "rcount (tx_fifo s) = 0" "esb_pids s = [0, 0]" "ack_pl_wrap_pipe s = [[], []]"
    "m_my_device_id s = [9, 8, 7, 6, 5, 4]"
  shows "dongle_packet default_kcfg (beacon_pkt\<lparr>pl_pid := 1\<rparr>) s =
    s\<lparr>d_peer_id := [1, 2, 3, 4, 5, 6], d_has_peer := True, ack_in_use := (replicate 8 False)[0 := True], esb_pids := [1, 0],
      ack_pl_wrap_pipe := [[0], []], tx_fifo := (tx_fifo s)\<lparr>rslots := (rslots (tx_fifo s))[0 :=
        \<lparr>pl_pipe = 0, pl_noack = False, pl_pid = 1, pl_rssi = 0, pl_data = encode (PktPairReq [9, 8, 7, 6, 5, 4])\<rparr>],
        rcount := 1\<rparr>, d_state := DONGLE_PAIRING\<rparr>"
  using assms by (simp add: dongle_packet_def on_beacon_def dongle_ack_def esb_write_payload_def find_free_payload_cont_def
    beacon_free next_pid_def PID_MAX_def beacon_pkt_def ESB_PIPE_PAIRING_def pkt_example_def pkt_fields sizeof_beacon_def pkt_consts ESB_PIPE_COUNT_def Let_def)

definition beacon_request :: esb_payload where
  "beacon_request = \<lparr>pl_pipe = 0, pl_noack = False, pl_pid = 1, pl_rssi = 0, pl_data = encode (PktPairReq [9, 8, 7, 6, 5, 4])\<rparr>"

lemma beacon_handled_val: "beacon_handled = dongle_listening\<lparr>
     rx_fifo := \<lparr>rslots = (replicate 8 empty_payload)[0 := beacon_pkt\<lparr>pl_pid := 1\<rparr>], rback = 1, rfront = 1, rcount = 0\<rparr>,
     tx_payload_buffer := \<lparr>pdu_pid = 1, pdu_no_ack = True, pdu_data = []\<rparr>,
     rx_pipe_info := [\<lparr>pi_crc = 7, pi_pid = 1, pi_ack_payload = False\<rparr>, \<lparr>pi_crc = 0, pi_pid = 0, pi_ack_payload = False\<rparr>],
     radio_txaddress := 0, d_peer_id := [1, 2, 3, 4, 5, 6], d_has_peer := True, ack_in_use := (replicate 8 False)[0 := True],
     esb_pids := [1, 0], ack_pl_wrap_pipe := [[0], []],
     tx_fifo := \<lparr>rslots = (replicate 8 empty_payload)[0 := beacon_request], rback = 0, rfront = 0, rcount = 1\<rparr>,
     d_state := DONGLE_PAIRING\<rparr>"
proof -
  let ?u = "(snd beacon_acked)\<lparr>int_rx_received := False\<rparr>"
  have r: "rx_fifo ?u = \<lparr>rslots = (replicate 8 empty_payload)[0 := beacon_pkt\<lparr>pl_pid := 1\<rparr>], rback = 1, rfront = 0, rcount = 1\<rparr>"
    "esb_initialized ?u" "cfg_mode (esb_cfg ?u) = ESB_MODE_PRX"
    by (simp_all add: beacon_acked_val beacon_answering_def dongle_listening_def dongle_connected_def)
  have l: "beacon_handled = dongle_rx_loop default_kcfg 2 ?u"
    using r(1) by (simp add: beacon_handled_def beacon_acked_val beacon_answering_def esb_evt_irq_handler_def get_and_clear_irqs_def
      dongle_evt_handler_def dongle_listening_def dongle_connected_def dongle_boot_def numeral_2_eq_2 del: dongle_rx_loop.simps)
  have "beacon_handled = dongle_packet default_kcfg (beacon_pkt\<lparr>pl_pid := 1\<rparr>)
      (?u\<lparr>rx_fifo := \<lparr>rslots = (replicate 8 empty_payload)[0 := beacon_pkt\<lparr>pl_pid := 1\<rparr>], rback = 1, rfront = 1, rcount = 0\<rparr>\<rparr>)"
    unfolding l using r by (subst one_packet_loop) (simp_all add: ring_pop_def ring_head_def ring_bump_def)
  then show ?thesis
    by (simp add: beacon_packet beacon_acked_val beacon_answering_def dongle_listening_def dongle_connected_def dongle_boot_def
      beacon_request_def)
qed

lemma beacon_again:
  "esb_write_payload default_kcfg beacon_pkt (fst beacon_acked) = (None, beacon_again)"
  "on_radio_disabled beacon_again = OnDisabledTx" "rx_queue beacon_again = []" "radio_txaddress beacon_again = 0"
proof -
  show w: "esb_write_payload default_kcfg beacon_pkt (fst beacon_acked) = (None, beacon_again)"
    by (simp add: beacon_again_def beacon_again_val)
  show "on_radio_disabled beacon_again = OnDisabledTx" "radio_txaddress beacon_again = 0"
    by (simp_all add: beacon_again_def beacon_again_val)
  show "rx_queue beacon_again = []"
    unfolding beacon_again_def beacon_again_val by (simp add: beacon_acked_val esb_example_def ring_list_def)
qed

text \<open>The answer to the second beacon.\<close>

lemma deliver_answer:
  "m_esb_state (deliver_packet c pdu rssi pipe s) = m_esb_state s"
  "tx_payload_buffer (deliver_packet c pdu rssi pipe s) = tx_payload_buffer s"
  by (simp_all add: deliver_packet_def rx_fifo_push_rfbuf_def Let_def)

lemma request_answering:
  "m_esb_state (radio_irq_handler default_kcfg (Some (tx_payload_buffer beacon_again)) 0 0 7 beacon_handled) =
    ESB_STATE_PRX_SEND_ACK"
  "pdu_data (tx_payload_buffer (radio_irq_handler default_kcfg (Some (tx_payload_buffer beacon_again)) 0 0 7 beacon_handled)) =
    pl_data beacon_request"
  by (simp_all add: radio_irq_handler_def on_radio_disabled_rx_def answer_packet_def on_radio_disabled_rx_dpl_def
      beacon_again_def beacon_again_val beacon_handled_val dongle_listening_def dongle_connected_def dongle_boot_def
      deliver_answer Let_def)

lemma beacon_ready:
  "air_ready default_kcfg esb_example dongle_listening" "reply_ok default_kcfg dongle_listening"
  "replies dongle_listening 0 = []" "replies dongle_listening 1 = []" "rx_queue esb_example = []"
proof -
  have "rx_view dongle_listening = rx_view dongle_connected" "rx_queue dongle_listening = rx_queue dongle_connected"
    by (simp_all add: rx_view_def dongle_listening_def)
  then show "air_ready default_kcfg esb_example dongle_listening"
    using air_example_ready by (simp add: air_ready_def rx_ok_def rx_view_def)
  show "reply_ok default_kcfg dongle_listening" "replies dongle_listening 0 = []" "replies dongle_listening 1 = []"
    by (simp_all add: reply_ok_def replies_def dongle_listening_def dongle_connected_def dongle_boot_def ESB_PIPE_COUNT_def
        all_pipes)
  show "rx_queue esb_example = []" by (simp add: esb_example_def ring_list_def)
qed

definition beacon_replies :: "nat \<Rightarrow> u8 list list" where
  "beacon_replies b = [] @ drop (length (replies (snd beacon_acked) b)) (replies beacon_handled b)"

definition beacons :: "esb_payload list" where
  "beacons = [beacon_pkt\<lparr>pl_pid := 1\<rparr>, beacon_pkt\<lparr>pl_pid := 2\<rparr>]"

lemma request_run:
  obtains got where "duplex_run default_kcfg (\<lambda>_ _. 7) esb_example dongle_listening (fst request_heard) (snd request_heard)
    beacons got beacon_replies []" "length got = 1"
    "on_pipe 0 (rx_queue (fst request_heard)) \<noteq> []"
proof -
  let ?run = "duplex_run default_kcfg (\<lambda>_ _. 7) esb_example dongle_listening"
  have "next_pid (pl_pipe beacon_pkt) esb_example = 1" "\<not> pl_noack beacon_pkt"
    "next_pid (pl_pipe beacon_pkt) (fst beacon_acked) = 2"
    by (simp_all add: next_pid_def beacon_pkt_def ESB_PIPE_PAIRING_def pkt_example_def esb_example_def beacon_acked_val PID_MAX_def)
  note n = this
  from n duplex_run.writes [OF duplex_run.start _ beacon_written(1)]
  have 1: "?run beacon_written dongle_listening [beacon_pkt\<lparr>pl_pid := 1\<rparr>] [] (\<lambda>_. []) []" by simp
  have 2: "?run (fst beacon_acked) (snd beacon_acked) [beacon_pkt\<lparr>pl_pid := 1\<rparr>] [] (\<lambda>_. []) []"
    by (rule duplex_run.attempt [OF 1 beacon_written(2), where heard = True and acked = True and rssi = 0 and ack_rssi = 0])
      (simp_all add: beacon_written(3) beacon_acked_def)
  let ?got = "[] @ (if int_rx_received (snd beacon_acked) then rx_queue (snd beacon_acked) else [])"
  have 3: "?run (fst beacon_acked) beacon_handled [beacon_pkt\<lparr>pl_pid := 1\<rparr>] ?got beacon_replies []"
    using duplex_run.event [OF 2 beacon_handled_def] by (simp add: beacon_replies_def [abs_def])
  from n duplex_run.writes [OF 3 _ beacon_again(1)]
  have 4: "?run beacon_again beacon_handled beacons ?got beacon_replies []" by (simp add: beacons_def)
  have e: "exchange default_kcfg (\<lambda>_ _. 7) True True 0 0 beacon_again beacon_handled = (fst request_heard, snd request_heard)"
    by (simp add: request_heard_def)
  have room: "rcount (rx_fifo beacon_again) < ESB_RX_FIFO_SIZE default_kcfg"
    using beacon_again(3) by (simp add: ring_list_def)
  have 5: "?run (fst request_heard) (snd request_heard) beacons ?got beacon_replies []"
    by (rule duplex_run.attempt [OF 4 beacon_again(2) room e])
  have "air_inv default_kcfg (\<lambda>_ _. 7) dongle_listening esb_example dongle_listening [] [] 0"
    using beacon_ready(1) by (intro air_start) (simp_all add: air_ready_def)
  from air_run_inv [OF duplex_air [OF 4] this] have inv: "ptx_inv default_kcfg beacon_again"
    by (auto simp: air_inv_def tx_ok_def)
  let ?a = "radio_irq_handler default_kcfg (Some (tx_payload_buffer beacon_again)) 0 0 7 beacon_handled"
  have q: "fst request_heard = radio_irq_handler default_kcfg (Some (tx_payload_buffer ?a)) 0 0 0
      (radio_irq_handler default_kcfg None 0 0 0 beacon_again)"
    using request_answering(1) by (simp add: request_heard_def exchange_def beacon_again(4) Let_def)
  have "length (pdu_data (tx_payload_buffer ?a)) \<le> ESB_MAX_PAYLOAD_LENGTH default_kcfg"
    unfolding request_answering(2) by (simp add: beacon_request_def)
  from answered_rx [OF inv beacon_again(2) room this q] obtain y where
    y: "rx_queue (fst request_heard) = rx_queue beacon_again @ (if pdu_data (tx_payload_buffer ?a) = [] then [] else [y])"
    "pl_pipe y = radio_txaddress beacon_again" by blast
  have "pdu_data (tx_payload_buffer ?a) \<noteq> []" unfolding request_answering(2) by (simp add: beacon_request_def)
  then have "rx_queue (fst request_heard) = [y]" "pl_pipe y = 0"
    using y(2) unfolding y(1) beacon_again(3,4) by (simp_all only: if_False append.simps)
  then have h: "on_pipe 0 (rx_queue (fst request_heard)) \<noteq> []" by (simp add: on_pipe_def)
  have "length ?got = 1" by (simp add: beacon_acked_val beacon_answering_def ring_list_def)
  from that [OF 5 this h] show ?thesis .
qed

theorem air_replies_once_witness:
  "subseq (on_pipe 0 (rx_queue (fst request_heard)))
     (answers [9, 8, 7, 6, 5, 4] 0 (app_of dongle_listening) [(0, pl_data beacon_pkt)])"
proof -
  obtain got where r: "duplex_run default_kcfg (\<lambda>_ _. 7) esb_example dongle_listening (fst request_heard) (snd request_heard)
    beacons got beacon_replies []" "length got = 1" by (rule request_run)
  have "(0 :: nat) < ESB_PIPE_COUNT" by (simp add: ESB_PIPE_COUNT_def)
  from air_replies_once [OF r(1) beacon_ready this] obtain m where
    m: "on_pipe 0 (rx_queue (fst request_heard)) = take m (beacon_replies 0)"
    and s: "subseq (beacon_replies 0) (answers (m_my_device_id dongle_listening) 0 (app_of dongle_listening)
        (map seen (take (length got) beacons)))" by auto
  have "map seen (take (length got) beacons) = [(0, pl_data beacon_pkt)]" "m_my_device_id dongle_listening = [9, 8, 7, 6, 5, 4]"
    using r(2) by (simp_all add: beacons_def seen_def beacon_pkt_def ESB_PIPE_PAIRING_def pkt_example_def dongle_listening_def)
  moreover have "subseq (take m (beacon_replies 0)) (beacon_replies 0)"
    by (simp add: prefix_imp_subseq take_is_prefix)
  ultimately show ?thesis using s unfolding m by (metis subseq_order.trans)
qed

theorem beacons_answered_once_witness:
  "on_pipe 0 (rx_queue (fst request_heard)) = [encode (PktPairReq [9, 8, 7, 6, 5, 4])]"
proof -
  obtain got where r: "duplex_run default_kcfg (\<lambda>_ _. 7) esb_example dongle_listening (fst request_heard) (snd request_heard)
    beacons got beacon_replies []" "on_pipe 0 (rx_queue (fst request_heard)) \<noteq> []" by (rule request_run)
  have "(0 :: nat) < ESB_PIPE_COUNT" "\<forall>x \<in> set beacons. pkt_type (pl_data x) = ESB_PKT_BEACON"
    by (simp_all add: ESB_PIPE_COUNT_def beacons_def beacon_pkt_def ESB_PIPE_PAIRING_def pkt_example_def pkt_type_def)
  from beacons_answered_once [OF r(1) beacon_ready this] r(2) show ?thesis
    by (simp add: dongle_listening_def)
qed

end
