(* ===== verification/PairPath.thy ===== *)
theory PairPath
  imports AirReplies AirSend
begin

text \<open>
  Pairing over the air: the pairing module of the endpoint (\<open>src/esb/pairing.c\<close>) and the dongle's program
  (\<open>dongle/src/main.c\<close>) in one run, over a medium that loses packets and acknowledgements.
\<close>

section \<open>Sends in runs in both directions\<close>

lemma duplex_ok_same_radio:
  assumes "duplex_ok c crc r0 p r sent got queued inbox" "same_radio t p"
  shows "duplex_ok c crc r0 t r sent got queued inbox"
proof -
  have "tx_ok c p" using assms(1) by (auto simp: duplex_ok_def air_inv_def)
  from duplex_ok_keep [OF assms(1) tx_ok_same_radio [OF assms(2) this]] show ?thesis
    using assms(2) by (simp add: same_radio_def)
qed

lemma duplex_ok_sends:
  assumes "duplex_ok c crc r0 p r sent got queued inbox" "esb_transport_send c pipe bs p = (err, p')"
    and "\<not> esb_tx_full c p" "\<not> send_noack c pipe bs" "\<not> is_mouse_report bs"
  obtains (unsent) "duplex_ok c crc r0 p' r sent got queued inbox" "esb_transport_is_quiet c p \<or> \<not> esb_initialized p \<or>
      ESB_MAX_PAYLOAD_LEN c < length bs \<or> bs = [] \<or> ESB_PIPE_COUNT \<le> unat pipe"
  | (queued) x where "duplex_ok c crc r0 p' r (sent @ [x]) got queued inbox" "seen x = (pipe, bs)"
proof -
  have "ptx_inv c p" using assms(1) by (auto simp: duplex_ok_def air_inv_def tx_ok_def)
  from this assms(2-5) show ?thesis
  proof (cases rule: send_is_write)
    case unsent
    from that(1) [OF duplex_ok_same_radio [OF assms(1) unsent(1)] unsent(2)] show ?thesis .
  next
    case (written u)
    let ?x = "\<lparr>pl_pipe = pipe, pl_noack = False, pl_pid = 0, pl_rssi = 0, pl_data = bs\<rparr>"
    have "duplex_ok c crc r0 p' r (sent @ [?x\<lparr>pl_pid := next_pid (pl_pipe ?x) u\<rparr>]) got queued inbox"
      by (rule duplex_ok_writes [OF duplex_ok_same_radio [OF assms(1) written(1)] _ written(2)]) simp
    from that(2) [OF this] show ?thesis by (simp add: seen_def)
  qed
qed

section \<open>The packets of a pairing\<close>

definition beacon_of :: "u8 list \<Rightarrow> u8 list" where "beacon_of me = encode (PktBeacon me all_caps)"

definition resp_of :: "u8 list \<Rightarrow> u8 list" where "resp_of me = encode (PktPairResp me all_caps)"

definition req_of :: "u8 list \<Rightarrow> u8 list" where "req_of d = encode (PktPairReq d)"

text \<open>What the endpoint sends: beacons, then its response when it has accepted a dongle.\<close>

definition pairing_packets :: "nat \<Rightarrow> bool \<Rightarrow> u8 list \<Rightarrow> (u8 \<times> u8 list) list" where
  "pairing_packets n connected me =
     replicate n (ESB_PIPE_PAIRING, beacon_of me) @ (if connected then [(ESB_PIPE_DATA, resp_of me)] else [])"

lemma packet_facts:
  "\<not> send_noack c pipe (beacon_of me)" "\<not> is_mouse_report (beacon_of me)" "\<not> send_noack c pipe (resp_of me)"
  "\<not> is_mouse_report (resp_of me)" "length (resp_of me) = length me + 2" "resp_of me \<noteq> []"
  by (simp_all add: beacon_of_def resp_of_def send_noack_def is_mouse_report_def pkt_consts)

text \<open>What they mean to a dongle that listens.\<close>

lemma beacon_means:
  assumes "length me = 6"
  shows "app_step (beacon_of me) a = (if da_state a = DONGLE_LISTENING
      then a\<lparr>da_peer := me, da_has_peer := True, da_state := DONGLE_PAIRING\<rparr> else a)"
    "answer d a (beacon_of me) = (if da_state a = DONGLE_LISTENING then [req_of d] else [])"
    "app_step (resp_of me) a = (if da_state a = DONGLE_PAIRING then a\<lparr>da_state := DONGLE_CONNECTED\<rparr> else a)"
    "answer d a (resp_of me) = []"
  using assms
  by (auto simp: beacon_of_def resp_of_def req_of_def app_step_def answer_def pkt_consts sizeof_beacon_def pkt_device_id_def)

lemma beacons_mean:
  assumes "length me = 6" "da_state a = DONGLE_LISTENING"
  shows "fold app_step (replicate n (beacon_of me)) a =
    (if n = 0 then a else a\<lparr>da_peer := me, da_has_peer := True, da_state := DONGLE_PAIRING\<rparr>)"
proof -
  have "da_state a \<noteq> DONGLE_LISTENING \<Longrightarrow> fold app_step (replicate n (beacon_of me)) a = a" for n and a :: dongle_app
    by (induction n) (simp_all add: beacon_means(1) [OF assms(1)])
  then show ?thesis using assms(2) by (cases n) (simp_all add: beacon_means(1) [OF assms(1)])
qed

lemma answers_pairing:
  assumes "length me = 6" "y \<in> set (answers d b a xs)" "set xs \<subseteq> {(ESB_PIPE_PAIRING, beacon_of me), (ESB_PIPE_DATA, resp_of me)}"
  shows "y = req_of d \<and> (ESB_PIPE_PAIRING, beacon_of me) \<in> set xs"
  using assms(2,3)
  by (induction xs arbitrary: a) (auto simp: beacon_means [OF assms(1)] split: if_splits, blast+)

section \<open>Runs\<close>

text \<open>
  \<open>pairing_run c crc p0 r0 p r\<close>: endpoint and dongle get from \<open>p0\<close>, \<open>r0\<close> to \<open>p\<close>, \<open>r\<close> while the endpoint looks for a
  dongle: its beacon work runs whenever it likes, each packet it reads goes through \<open>pairing_on_rx\<close> from a
  buffer \<open>buf\<close> that has the packet at its front, the radio of both ends runs in between, and \<open>apart\<close> is anything that
  leaves the radio and the pairing state alone. When a packet is handled the endpoint may send: a response that the
  transport drops or that flushes a full FIFO is not made up for.
\<close>

definition apart :: "'a pair_scheme \<Rightarrow> 'a pair_scheme \<Rightarrow> bool" where
  "apart p' p \<longleftrightarrow> same_radio (p'\<lparr>uptime := uptime p\<rparr>) p \<and> pair_view p' = pair_view p"

inductive pairing_run ::
    "kcfg \<Rightarrow> (u8 \<Rightarrow> esb_pdu \<Rightarrow> u16) \<Rightarrow> 'a pair_scheme \<Rightarrow> 'b dongle_scheme \<Rightarrow> 'a pair_scheme \<Rightarrow> 'b dongle_scheme \<Rightarrow> bool"
  for c crc p0 r0 where
  start: "pairing_run c crc p0 r0 p0 r0"
| air: "pairing_run c crc p0 r0 p r \<Longrightarrow> duplex_run c crc p r p' r' [] got queued [] \<Longrightarrow> pairing_run c crc p0 r0 p' r'"
| other: "pairing_run c crc p0 r0 p r \<Longrightarrow> apart p' p \<Longrightarrow> pairing_run c crc p0 r0 p' r"
| beacon: "pairing_run c crc p0 r0 p r \<Longrightarrow> \<not> esb_tx_full c p \<Longrightarrow> pairing_run c crc p0 r0 (beacon_work_fn c p) r"
| receives: "pairing_run c crc p0 r0 p r \<Longrightarrow> esb_read_rx_payload c p = (Inr x, q) \<Longrightarrow>
    take (length (pl_data x)) buf = pl_data x \<Longrightarrow> loud c q \<Longrightarrow> \<not> esb_tx_full c q \<Longrightarrow>
    pairing_run c crc p0 r0 (pairing_on_rx c buf (length (pl_data x)) q) r"

lemma duplex_ok_apart:
  assumes "duplex_ok c crc r0 p r sent got queued inbox" "apart p' p"
  shows "duplex_ok c crc r0 p' r sent got queued inbox"
proof -
  have "same_radio (p'\<lparr>uptime := uptime p\<rparr>) p" using assms(2) by (simp add: apart_def)
  then have "duplex_ok c crc r0 (p'\<lparr>uptime := uptime p\<rparr>) r sent got queued inbox" by (rule duplex_ok_same_radio [OF assms(1)])
  moreover have "duplex_ok c crc r0 (p'\<lparr>uptime := u\<rparr>) r sent got queued inbox = duplex_ok c crc r0 p' r sent got queued inbox" for u
    by (simp add: duplex_ok_def air_inv_def tx_ok_def ptx_inv_def heard_ok_def taken_def)
  ultimately show ?thesis by simp
qed

text \<open>What an air run leaves alone in the endpoint.\<close>

lemma radio_keeps_pair:
  "pair_view (next_transaction s) = pair_view s"
  "pair_view (receive_ack_payload c ack rssi s) = pair_view s"
  "pair_view (deliver_packet c pdu rssi pipe s) = pair_view s"
  "pair_view (answer_packet dup pipe pdu s) = pair_view s"
  "pair_view (snd (esb_set_rf_channel ch s)) = pair_view s"
  "pair_view (snd (esb_read_rx_payload c s)) = pair_view s"
  "pair_view (snd (get_and_clear_irqs s)) = pair_view s"
  by (simp_all add: pair_view_def next_transaction_def start_tx_transaction_def receive_ack_payload_def
      rx_fifo_push_rfbuf_def deliver_packet_def answer_packet_def on_radio_disabled_rx_dpl_def
      esb_set_rf_channel_def esb_read_rx_payload_def get_and_clear_irqs_def Let_def
      split: option.split)

lemma irq_keeps_pair: "pair_view (radio_irq_handler c rx rssi pipe crc s) = pair_view s"
proof -
  have u: "pair_view (s\<lparr>m_esb_state := st\<rparr>) = pair_view s" "pair_view (s\<lparr>on_radio_disabled := h\<rparr>) = pair_view s"
    "pair_view (s\<lparr>retransmits_remaining := n\<rparr>) = pair_view s" "pair_view (s\<lparr>tx_fifo := f\<rparr>) = pair_view s"
    "pair_view (s\<lparr>int_tx_success := b\<rparr>) = pair_view s" "pair_view (s\<lparr>int_tx_failed := b\<rparr>) = pair_view s"
    "pair_view (s\<lparr>last_tx_attempts := n'\<rparr>) = pair_view s" "pair_view (s\<lparr>rx_pipe_info := ps\<rparr>) = pair_view s"
    "pair_view (s\<lparr>radio_txaddress := a\<rparr>) = pair_view s" "pair_view (s\<lparr>tx_payload_buffer := y\<rparr>) = pair_view s"
    for st h n n' f b a y ps and s :: "'a pair_scheme"
    by (simp_all add: pair_view_def)
  show ?thesis
    by (cases "on_radio_disabled s"; cases rx)
      (simp_all add: radio_irq_handler_def on_radio_disabled_tx_def on_radio_disabled_tx_wait_for_ack_def
        on_radio_disabled_rx_def on_radio_disabled_rx_ack_def tx_fifo_remove_last_def radio_keeps_pair u Let_def)
qed

lemma duplex_keeps_pair:
  assumes "duplex_run c crc p r p' r' xs ys q ib"
  shows "pair_view p' = pair_view p"
  using assms
proof induction
  case (writes p r sent got queued inbox x p')
  then show ?case using pair_send_frames(11) [of c x p] by simp
next
  case (attempt p r sent got queued inbox heard acked rssi ack_rssi p' r')
  then show ?case by (auto simp: exchange_def irq_keeps_pair Let_def)
next
  case (reads p r sent got queued inbox x p')
  then show ?case using radio_keeps_pair(6) [of c p] by simp
qed (simp_all add: radio_keeps_pair pair_send_frames)

lemma notify_same_radio: "same_radio (notify_connected c s) s"
  by (simp add: same_radio_def notify_connected_def esb_shell_relay_on_connected_def stdout_buf_reset_def
      channel_hop_ep_on_connected_def enter_active_state_def k_work_cancel_def k_work_reschedule_def Let_def)

section \<open>What is received and taken\<close>

lemma taken_of_sent:
  assumes "duplex_ok c crc r0 p r sent got queued inbox"
  obtains k where "map seen (got @ rx_queue r) = take k (map seen sent)" "map seen got = take (length got) (map seen sent)"
    "tx_queue p = [] \<Longrightarrow> k = length sent" "app_of r = fold app_step (map snd (map seen got)) (app_of r0)"
proof -
  obtain k where i: "air_inv c crc r0 p r sent got k" using assms by (auto simp: duplex_ok_def)
  have s: "map seen (got @ rx_queue r) = take k (map seen sent)" using i by (simp add: air_inv_def take_map)
  have le: "length got \<le> k" using arg_cong [OF s, of length] by (simp add: min_def split: if_splits)
  have "map seen got = take (length got) (map seen (got @ rx_queue r))" by simp
  also have "\<dots> = take (length got) (map seen sent)" unfolding s using le by (simp add: min_def)
  finally have g: "map seen got = take (length got) (map seen sent)" .
  have "tx_queue p = [] \<Longrightarrow> k = length sent" using i by (auto simp: air_inv_def)
  moreover have "app_of r = fold app_step (map snd (map seen got)) (app_of r0)"
    using i by (simp add: air_inv_def seen_def comp_def)
  ultimately show ?thesis using that s g by blast
qed

lemma packets_subset: "set (pairing_packets n cn me) \<subseteq> {(ESB_PIPE_PAIRING, beacon_of me), (ESB_PIPE_DATA, resp_of me)}"
  by (auto simp: pairing_packets_def)

lemma received_answer:
  assumes "duplex_ok c crc r0 p r sent got queued inbox" "x \<in> set (inbox @ rx_queue p)" "unat (pl_pipe x) < ESB_PIPE_COUNT"
  shows "pl_data x \<in> set (answers (m_my_device_id r0) (unat (pl_pipe x)) (app_of r0) (map seen got))"
proof -
  let ?b = "unat (pl_pipe x)" and ?an = "answers (m_my_device_id r0) (unat (pl_pipe x)) (app_of r0) (map seen got)"
  have h: "heard_ok p r queued (inbox @ rx_queue p) ?b" "reply_ok c r" "subseq (queued ?b) ?an"
    using assms(1,3) by (simp_all add: duplex_ok_def)
  from heard_prefix(1) [OF h(1,2) assms(3)] obtain m where "on_pipe ?b (inbox @ rx_queue p) = take m (queued ?b)" by blast
  moreover have "pl_data x \<in> set (on_pipe ?b (inbox @ rx_queue p))" using assms(2) by (auto simp: on_pipe_def)
  ultimately have "pl_data x \<in> set (queued ?b)" by (metis in_set_takeD)
  then show ?thesis using list_emb_set [OF h(3)] by metis
qed

lemma received_request:
  assumes "duplex_ok c crc r0 p r sent got queued inbox" "map seen sent = pairing_packets n cn me" "length me = 6"
    and "x \<in> set (inbox @ rx_queue p)" "unat (pl_pipe x) < ESB_PIPE_COUNT"
  shows "pl_data x = req_of (m_my_device_id r0) \<and> (ESB_PIPE_PAIRING, beacon_of me) \<in> set (map seen got)"
proof -
  obtain g where "map seen got = take g (map seen sent)" using taken_of_sent [OF assms(1)] by metis
  then have "set (map seen got) \<subseteq> {(ESB_PIPE_PAIRING, beacon_of me), (ESB_PIPE_DATA, resp_of me)}"
    using set_take_subset [of g "map seen sent"] packets_subset [of n cn me] unfolding assms(2) by force
  from answers_pairing [OF assms(3) received_answer [OF assms(1,4,5)] this] show ?thesis .
qed

section \<open>The invariant\<close>

definition pairing_inv where
  "pairing_inv c crc me r0 p r \<longleftrightarrow> m_device_id p = me \<and>
     (m_state p = PAIRING_STATE_UNPAIRED \<or> m_state p = PAIRING_STATE_CONNECTED) \<and>
     (\<exists>sent got queued inbox n. duplex_ok c crc r0 p r sent got queued inbox \<and>
        map seen sent = pairing_packets n (m_state p = PAIRING_STATE_CONNECTED) me \<and>
        (m_state p = PAIRING_STATE_CONNECTED \<longrightarrow> m_peer_device_id p = m_my_device_id r0 \<and>
           (\<exists>x \<in> set inbox. unat (pl_pipe x) < ESB_PIPE_COUNT)))"

lemma pairing_invI:
  assumes "m_device_id p = me" "m_state p = PAIRING_STATE_UNPAIRED \<or> m_state p = PAIRING_STATE_CONNECTED"
    "duplex_ok c crc r0 p r sent got queued inbox" "map seen sent = pairing_packets n (m_state p = PAIRING_STATE_CONNECTED) me"
    "m_state p = PAIRING_STATE_CONNECTED \<Longrightarrow> m_peer_device_id p = m_my_device_id r0 \<and>
       (\<exists>x \<in> set inbox. unat (pl_pipe x) < ESB_PIPE_COUNT)"
  shows "pairing_inv c crc me r0 p r"
  using assms unfolding pairing_inv_def by blast

lemma pairing_invE:
  assumes "pairing_inv c crc me r0 p r"
  obtains sent got queued inbox n where "m_device_id p = me"
    "m_state p = PAIRING_STATE_UNPAIRED \<or> m_state p = PAIRING_STATE_CONNECTED"
    "duplex_ok c crc r0 p r sent got queued inbox" "map seen sent = pairing_packets n (m_state p = PAIRING_STATE_CONNECTED) me"
    "m_state p = PAIRING_STATE_CONNECTED \<longrightarrow> m_peer_device_id p = m_my_device_id r0 \<and>
       (\<exists>x \<in> set inbox. unat (pl_pipe x) < ESB_PIPE_COUNT)"
  using assms unfolding pairing_inv_def by (elim conjE exE) (rule that)

text \<open>A state with the same pairing fields whose books are those of a run on.\<close>

lemma pairing_inv_move:
  assumes "pairing_inv c crc me r0 p r" "pair_view p' = pair_view p"
    and "\<And>sent got queued inbox. duplex_ok c crc r0 p r sent got queued inbox \<Longrightarrow>
      \<exists>got' queued'. duplex_ok c crc r0 p' r' sent got' queued' inbox"
  shows "pairing_inv c crc me r0 p' r'"
proof -
  from assms(1) obtain sent got queued inbox n where f: "m_device_id p = me"
    "m_state p = PAIRING_STATE_UNPAIRED \<or> m_state p = PAIRING_STATE_CONNECTED"
    and d: "duplex_ok c crc r0 p r sent got queued inbox"
    "map seen sent = pairing_packets n (m_state p = PAIRING_STATE_CONNECTED) me"
    "m_state p = PAIRING_STATE_CONNECTED \<longrightarrow> m_peer_device_id p = m_my_device_id r0 \<and>
       (\<exists>x \<in> set inbox. unat (pl_pipe x) < ESB_PIPE_COUNT)" by (rule pairing_invE)
  from assms(3) [OF d(1)] obtain got' queued' where "duplex_ok c crc r0 p' r' sent got' queued' inbox" by (elim exE)
  then show ?thesis
    by (rule pairing_invI [rotated 2]) (use d(2,3) f in \<open>simp_all add: pair_view_fields [OF assms(2)]\<close>)
qed

lemma pairing_inv_apart:
  assumes "pairing_inv c crc me r0 p r" "apart p' p"
  shows "pairing_inv c crc me r0 p' r"
proof (rule pairing_inv_move [OF assms(1)])
  show "pair_view p' = pair_view p" using assms(2) by (simp add: apart_def)
  fix sent got queued inbox assume "duplex_ok c crc r0 p r sent got queued inbox"
  from duplex_ok_apart [OF this assms(2)] show "\<exists>got' queued'. duplex_ok c crc r0 p' r sent got' queued' inbox" by blast
qed

lemma pairing_inv_air:
  assumes "pairing_inv c crc me r0 p r" "duplex_run c crc p r p' r' [] got queued []"
  shows "pairing_inv c crc me r0 p' r'"
proof (rule pairing_inv_move [OF assms(1) duplex_keeps_pair [OF assms(2)]])
  fix sent got' queued' inbox assume "duplex_ok c crc r0 p r sent got' queued' inbox"
  from duplex_from [OF assms(2) this] show "\<exists>got' queued'. duplex_ok c crc r0 p' r' sent got' queued' inbox" by auto
qed

lemma pairing_inv_beacon:
  assumes "pairing_inv c crc me r0 p r" "\<not> esb_tx_full c p"
  shows "pairing_inv c crc me r0 (beacon_work_fn c p) r"
proof (cases "m_state p = PAIRING_STATE_UNPAIRED")
  case True
  obtain err q where s: "esb_transport_send c ESB_PIPE_PAIRING (beacon_of (m_device_id p)) p = (err, q)" by fastforce
  let ?t = "k_work_reschedule BeaconWork (BEACON_INTERVAL_MS c) q"
  have t: "beacon_work_fn c p = ?t" using True s by (simp add: beacon_work_fn_def send_beacon_def beacon_of_def)
  have v: "pair_view ?t = pair_view p"
    using send_keeps_pair [of c ESB_PIPE_PAIRING "beacon_of (m_device_id p)" p] s by simp
  from assms(1) obtain sent got queued inbox n where me: "m_device_id p = me"
    and d: "duplex_ok c crc r0 p r sent got queued inbox"
    "map seen sent = pairing_packets n (m_state p = PAIRING_STATE_CONNECTED) me" by (rule pairing_invE)
  have i: "pairing_inv c crc me r0 ?t r"
    if "duplex_ok c crc r0 q r sent' got queued inbox" "map seen sent' = pairing_packets n' False me" for sent' n'
    using me True that(2) pair_view_fields [OF v]
    by (intro pairing_invI [OF _ _ duplex_ok_same_radio [OF that(1) same_radio_set(4)]]) simp_all
  from d(1) s assms(2) packet_facts(1,2) show ?thesis
  proof (cases rule: duplex_ok_sends)
    case unsent
    then show ?thesis using i [OF unsent(1), of n] d(2) True by (simp add: t)
  next
    case (queued x)
    have "map seen (sent @ [x]) = pairing_packets (Suc n) False me"
      using d(2) True queued(2) me by (simp add: pairing_packets_def replicate_append_same)
    from i [OF queued(1) this] show ?thesis by (simp only: t)
  qed
qed (use assms(1) in \<open>simp add: beacon_work_fn_def\<close>)

text \<open>Accepting the dongle.\<close>

lemma accepting:
  assumes "m_state q = PAIRING_STATE_UNPAIRED" "length d = 6" "p' = on_pair_req c (req_of d) q"
  obtains s t err where "same_radio s q" "loud c s = loud c q" "esb_transport_send c ESB_PIPE_DATA (resp_of (m_device_id q)) s = (err, t)"
    "same_radio p' t" "m_state p' = PAIRING_STATE_CONNECTED" "m_peer_device_id p' = d" "m_device_id p' = m_device_id q"
proof -
  let ?s = "k_work_cancel BeaconWork (q\<lparr>m_peer_device_id := d\<rparr>)"
  obtain err t where s: "esb_transport_send c ESB_PIPE_DATA (resp_of (m_device_id q)) ?s = (err, t)" by fastforce
  have v: "pair_view t = pair_view ?s"
    using send_keeps_pair [of c ESB_PIPE_DATA "resp_of (m_device_id q)" ?s] s by simp
  let ?u = "save_paired True (t\<lparr>m_has_stored_peer := True, m_state := PAIRING_STATE_CONNECTED\<rparr>)"
  have len: "sizeof_id_pkt \<le> length (req_of d)" "pkt_device_id (req_of d) = d"
    using assms(2) by (simp_all add: req_of_def sizeof_id_pkt_def pkt_device_id_def)
  have "m_device_id ?s = m_device_id q" by (simp add: k_work_cancel_def)
  then have "send_pair_resp c ?s = t" using s by (simp add: send_pair_resp_def resp_of_def)
  then have p': "p' = notify_connected c ?u" using assms(1,3) len by (simp add: on_pair_req_def Let_def)
  have r: "same_radio ?u t" "same_radio ?s q" by (simp_all add: same_radio_def save_paired_def k_work_cancel_def)
  have l: "loud c ?s = loud c q"
    by (simp add: loud_def k_work_cancel_def esb_transport_is_quiet_def k_uptime_get_32_def)
  have f: "m_state p' = PAIRING_STATE_CONNECTED" "m_peer_device_id p' = d" "m_device_id p' = m_device_id q"
    using pair_view_fields [OF notify_keeps_pair(1) [of c ?u]] pair_view_fields [OF v]
    by (simp_all add: p' save_paired_def k_work_cancel_def)
  show ?thesis
    by (rule that [OF r(2) l s _ f]) (use same_radio_trans [OF notify_same_radio r(1)] p' in simp)
qed

lemma pairing_inv_receives:
  assumes "pairing_inv c crc me r0 p r" "esb_read_rx_payload c p = (Inr x, q)" "take (length (pl_data x)) buf = pl_data x"
    and "loud c q" "\<not> esb_tx_full c q" "length me = 6" "length (m_my_device_id r0) = 6" "8 \<le> ESB_MAX_PAYLOAD_LENGTH c"
  shows "pairing_inv c crc me r0 (pairing_on_rx c buf (length (pl_data x)) q) r"
proof -
  let ?d = "m_my_device_id r0"
  from assms(1) obtain sent got queued inbox n where me: "m_device_id p = me"
    and st: "m_state p = PAIRING_STATE_UNPAIRED \<or> m_state p = PAIRING_STATE_CONNECTED"
    and d: "duplex_ok c crc r0 p r sent got queued inbox"
    "map seen sent = pairing_packets n (m_state p = PAIRING_STATE_CONNECTED) me"
    "m_state p = PAIRING_STATE_CONNECTED \<longrightarrow> m_peer_device_id p = m_my_device_id r0 \<and>
       (\<exists>x \<in> set inbox. unat (pl_pipe x) < ESB_PIPE_COUNT)" by (rule pairing_invE)
  note rd = duplex_ok_reads [OF d(1) assms(2)]
  have v: "pair_view q = pair_view p" using radio_keeps_pair(6) [of c p] assms(2) by simp
  have x: "pl_data x = req_of ?d"
    using received_request [OF rd(1) d(2) assms(6) _ rd(2)] by simp
  have rx: "pairing_on_rx c buf (length (pl_data x)) q = on_pair_req c (req_of ?d) q"
    using assms(3) by (simp add: pairing_on_rx_def x) (simp add: req_of_def pkt_type_def pkt_consts Let_def)
  show ?thesis
  proof (cases "m_state p = PAIRING_STATE_CONNECTED")
    case True
    then have "on_pair_req c (req_of ?d) q = q" using pair_view_fields [OF v] by (simp add: on_pair_req_def)
    moreover have "pairing_inv c crc me r0 q r"
      by (rule pairing_invI [OF _ _ rd(1)]) (use me st d(2,3) pair_view_fields [OF v] in auto)
    ultimately show ?thesis unfolding rx by (simp only:)
  next
    case False
    then have u: "m_state q = PAIRING_STATE_UNPAIRED" using st pair_view_fields [OF v] by simp
    let ?p = "pairing_on_rx c buf (length (pl_data x)) q"
    from accepting [OF u assms(7) rx] obtain s t err where a: "same_radio s q" "loud c s = loud c q"
      "esb_transport_send c ESB_PIPE_DATA (resp_of (m_device_id q)) s = (err, t)"
      "same_radio ?p t" "m_state ?p = PAIRING_STATE_CONNECTED" "m_peer_device_id ?p = ?d" "m_device_id ?p = m_device_id q" .
    have full: "\<not> esb_tx_full c s" using assms(5) a(1) by (simp add: esb_tx_full_def same_radio_def)
    have id: "m_device_id q = me" using me pair_view_fields [OF v] by simp
    from duplex_ok_same_radio [OF rd(1) a(1)] a(3) full packet_facts(3,4) show ?thesis
    proof (cases rule: duplex_ok_sends)
      case unsent
      then show ?thesis using a(2) assms(4,6,8) packet_facts(5,6) [of me] id
        by (simp add: loud_def ESB_MAX_PAYLOAD_LEN_def ESB_PIPE_COUNT_def ESB_PIPE_DATA_def)
    next
      case (queued y)
      have "map seen (sent @ [y]) = pairing_packets n True me"
        using d(2) False queued(2) id by (simp add: pairing_packets_def)
      then show ?thesis
        by (intro pairing_invI [OF _ _ duplex_ok_same_radio [OF queued(1) a(4)]]) (use a(5-7) id rd(2) in auto)
    qed
  qed
qed

lemma pairing_run_inv:
  assumes "pairing_run c crc p0 r0 p r" "pairing_inv c crc me r0 p0 r0" "length me = 6" "length (m_my_device_id r0) = 6"
    and "8 \<le> ESB_MAX_PAYLOAD_LENGTH c"
  shows "pairing_inv c crc me r0 p r"
  using assms(1)
proof induction
  case (receives p r x q buf)
  show ?case by (rule pairing_inv_receives [OF receives.IH receives.hyps(2-5) assms(3-5)])
next
  case (air p r p' r' got queued)
  show ?case by (rule pairing_inv_air [OF air.IH air.hyps(2)])
next
  case (other p r p')
  show ?case by (rule pairing_inv_apart [OF other.IH other.hyps(2)])
next
  case (beacon p r)
  show ?case by (rule pairing_inv_beacon [OF beacon.IH beacon.hyps(2)])
qed (rule assms(2))

section \<open>Property\<close>

lemma pairing_start_inv:
  assumes "air_ready c p0 r0" "reply_ok c r0" "replies r0 0 = []" "replies r0 1 = []" "rx_queue p0 = []"
    and "m_state p0 = PAIRING_STATE_UNPAIRED"
  shows "pairing_inv c crc (m_device_id p0) r0 p0 r0"
proof -
  have "\<forall>b < ESB_PIPE_COUNT. replies r0 b = []" using assms(3,4) by (auto simp: pipe_cases)
  from duplex_ok_start [OF assms(1,2) this assms(5)] show ?thesis
    by (rule pairing_invI [where n = 0, rotated 2]) (simp_all add: assms(6) pairing_packets_def)
qed

text \<open>The dongle after a part of the packets.\<close>

lemma dongle_after:
  assumes "length me = 6" "da_state a = DONGLE_LISTENING" "ps = take g (pairing_packets n cn me)"
    and "(ESB_PIPE_PAIRING, beacon_of me) \<in> set ps"
  shows "fold app_step (map snd ps) a = a\<lparr>da_peer := me, da_has_peer := True,
    da_state := if cn \<and> length ps = Suc n then DONGLE_CONNECTED else DONGLE_PAIRING\<rparr>"
proof -
  have n: "0 < n" using assms(3,4) by (auto simp: pairing_packets_def ESB_PIPE_PAIRING_def ESB_PIPE_DATA_def
        dest!: in_set_takeD split: if_splits)
  have g: "0 < g" using assms(3,4) by (cases g) auto
  show ?thesis
  proof (cases "cn \<and> n < g")
    case True
    then obtain i where "g - n = Suc i" using gr0_conv_Suc [of "g - n"] by auto
    then have "map snd ps = replicate n (beacon_of me) @ [resp_of me]" "length ps = Suc n"
      using True by (simp_all add: assms(3) pairing_packets_def)
    then show ?thesis
      using True n by (simp add: beacons_mean [OF assms(1,2)] beacon_means(3) [OF assms(1)] del: fold_replicate)
  next
    case False
    then have "map snd ps = replicate (min g n) (beacon_of me)" "\<not> (cn \<and> length ps = Suc n)"
      by (auto simp: assms(3) pairing_packets_def min_def)
    then show ?thesis using n g by (simp add: beacons_mean [OF assms(1,2)] del: fold_replicate)
  qed
qed

text \<open>
  C5. Both ends of a pairing agree, whatever the medium loses and whatever runs in between: an endpoint without a
  dongle that has come to count itself connected has the identifier of the dongle, the dongle has the endpoint's, and it
  has left its search for good; when the endpoint's packets are out and handled, the dongle is connected too. A run
  takes it for granted that the endpoint's response is queued: when it reads the request its sends are not muted and
  its FIFO is not full.
\<close>

theorem pairing_agrees:
  assumes "pairing_run c crc p0 r0 p r" "air_ready c p0 r0" "reply_ok c r0" "replies r0 0 = []" "replies r0 1 = []"
    and "rx_queue p0 = []" "m_state p0 = PAIRING_STATE_UNPAIRED" "d_state r0 = DONGLE_LISTENING"
    and "length (m_device_id p0) = 6" "length (m_my_device_id r0) = 6" "8 \<le> ESB_MAX_PAYLOAD_LENGTH c"
    and "m_state p \<noteq> PAIRING_STATE_UNPAIRED"
  shows "m_state p = PAIRING_STATE_CONNECTED \<and> m_peer_device_id p = m_my_device_id r0 \<and>
    d_peer_id r = m_device_id p0 \<and> d_has_peer r \<and> (d_state r = DONGLE_PAIRING \<or> d_state r = DONGLE_CONNECTED) \<and>
    (tx_queue p = [] \<and> rx_queue r = [] \<longrightarrow> d_state r = DONGLE_CONNECTED)"
proof -
  let ?me = "m_device_id p0"
  from pairing_run_inv [OF assms(1) pairing_start_inv [OF assms(2-7)] assms(9-11)]
  obtain sent got queued inbox n where "m_device_id p = ?me"
    and st: "m_state p = PAIRING_STATE_UNPAIRED \<or> m_state p = PAIRING_STATE_CONNECTED"
    and d: "duplex_ok c crc r0 p r sent got queued inbox"
    and s: "map seen sent = pairing_packets n (m_state p = PAIRING_STATE_CONNECTED) ?me"
    and x: "m_state p = PAIRING_STATE_CONNECTED \<longrightarrow> m_peer_device_id p = m_my_device_id r0 \<and>
       (\<exists>x \<in> set inbox. unat (pl_pipe x) < ESB_PIPE_COUNT)" by (rule pairing_invE)
  have cn: "m_state p = PAIRING_STATE_CONNECTED" using st assms(12) by simp
  then obtain y where y: "m_peer_device_id p = m_my_device_id r0" "y \<in> set inbox" "unat (pl_pipe y) < ESB_PIPE_COUNT"
    using x by blast
  obtain k where k: "map seen (got @ rx_queue r) = take k (map seen sent)" "map seen got = take (length got) (map seen sent)"
    "tx_queue p = [] \<Longrightarrow> k = length sent" "app_of r = fold app_step (map snd (map seen got)) (app_of r0)"
    by (rule taken_of_sent [OF d]) blast
  have heard: "(ESB_PIPE_PAIRING, beacon_of ?me) \<in> set (map seen got)"
    using received_request [OF d s assms(9) _ y(3)] y(2) by simp
  have "da_state (app_of r0) = DONGLE_LISTENING" using assms(8) by (simp add: app_of_def)
  from dongle_after [OF assms(9) this k(2) [unfolded s] heard] have
    a: "app_of r = (app_of r0)\<lparr>da_peer := ?me, da_has_peer := True,
      da_state := if length got = Suc n then DONGLE_CONNECTED else DONGLE_PAIRING\<rparr>" using k(4) cn by simp
  have "length sent = Suc n" using arg_cong [OF s, of length] cn by (simp add: pairing_packets_def)
  then have "tx_queue p = [] \<and> rx_queue r = [] \<longrightarrow> length got = Suc n"
    using k(3) arg_cong [OF k(1), of length] by (auto simp del: length_ring_list)
  then show ?thesis using a cn y(1) by (auto simp: app_of_def)
qed

section \<open>A pairing\<close>

definition unpaired :: pair where "unpaired = (pair_at ())\<lparr>m_state := PAIRING_STATE_UNPAIRED\<rparr>"

text \<open>The endpoint's part of a step.\<close>

definition send_view where
  "send_view s = (esb_initialized s, uptime s, m_sync_tx_in_progress s, m_tx_quiet_until_ms s, pair_view s)"

lemma send_view_loud: "send_view s = send_view t \<Longrightarrow> loud c s = loud c t"
  by (simp add: send_view_def loud_def esb_transport_is_quiet_def k_uptime_get_32_def)

lemma radio_keeps_send:
  "send_view (next_transaction s) = send_view s"
  "send_view (receive_ack_payload c ack rssi s) = send_view s"
  "send_view (tx_fifo_remove_last c s) = send_view s"
  "send_view (snd (esb_read_rx_payload c s)) = send_view s"
  by (simp_all add: send_view_def pair_view_def next_transaction_def start_tx_transaction_def receive_ack_payload_def
      rx_fifo_push_rfbuf_def esb_read_rx_payload_def tx_fifo_remove_last_def Let_def)

lemma packet_goes_out:
  assumes "tx_ok c p" "tx_queue p = []" "m_esb_state p = ESB_STATE_IDLE" "loud c p" "0 < ESB_TX_FIFO_SIZE c"
    and "esb_transport_send c pipe bs p = (err, q)" "\<not> send_noack c pipe bs" "\<not> is_mouse_report bs"
    and "bs \<noteq> []" "length bs \<le> ESB_MAX_PAYLOAD_LENGTH c" "unat pipe < ESB_PIPE_COUNT"
    and "x = \<lparr>pl_pipe = pipe, pl_noack = False, pl_pid = next_pid pipe p, pl_rssi = 0, pl_data = bs\<rparr>"
  shows "tx_ok c q" "tx_queue q = [x]" "on_radio_disabled q = OnDisabledTx" "esb_pids q = (esb_pids p)[unat pipe := next_pid pipe p]"
    "rx_queue q = rx_queue p" "tx_payload_buffer q = pdu_of x" "radio_txaddress q = pipe" "loud c q" "pair_view q = pair_view p"
proof -
  have inv: "ptx_inv c p" and full: "\<not> esb_tx_full c p"
    using assms(1,2,5) rcount_0_iff [of "tx_fifo p"] by (simp_all add: tx_ok_def esb_tx_full_def ring_full_def)
  have v: "pair_view q = pair_view p" and l: "\<not> esb_transport_is_quiet c q"
    using send_keeps_pair [of c pipe bs p] assms(4,6) send_stays_loud [of c p pipe bs] by (simp_all add: loud_def)
  from inv assms(6) full assms(7,8) have "tx_ok c q \<and> tx_queue q = [x] \<and> on_radio_disabled q = OnDisabledTx \<and>
    esb_pids q = (esb_pids p)[unat pipe := next_pid pipe p] \<and> rx_queue q = rx_queue p \<and> tx_payload_buffer q = pdu_of x \<and>
    radio_txaddress q = pipe \<and> loud c q"
  proof (cases rule: send_is_write)
    case unsent
    then show ?thesis using assms(4,9-11) by (auto simp: loud_def ESB_MAX_PAYLOAD_LEN_def)
  next
    case (written u)
    let ?y = "\<lparr>pl_pipe = pipe, pl_noack = False, pl_pid = 0, pl_rssi = 0, pl_data = bs\<rparr>"
    have u: "tx_ok c u" "esb_pids u = esb_pids p" "tx_queue u = []" "rx_fifo u = rx_fifo p" "m_esb_state u = ESB_STATE_IDLE"
      "esb_initialized u"
      using tx_ok_same_radio [OF written(1) assms(1)] written(1) assms(2-4) by (simp_all add: same_radio_def loud_def)
    have x: "?y\<lparr>pl_pid := next_pid (pl_pipe ?y) u\<rparr> = x" by (simp add: assms(12) u(2) next_pid_def)
    note w = tx_ok_write [OF u(1) _ written(2)]
    have q: "tx_ok c q" "tx_queue q = [x]" "esb_pids q = (esb_pids p)[unat pipe := next_pid pipe p]"
      using w(1,2,3) x u(2,3) by (simp_all add: next_pid_def)
    have o: "on_radio_disabled q = OnDisabledTx" by (rule write_starts [OF u(1) _ written(2) u(5)]) simp
    have "ptx_inv c u" using u(1) by (simp add: tx_ok_def)
    from write_ptx(7,8) [OF this written(2)] have "rx_fifo q = rx_fifo p" "esb_initialized q" using u(4,6) by simp_all
    moreover have "tx_payload_buffer q = pdu_of x" "radio_txaddress q = pipe" using q(1,2) o by (simp_all add: tx_ok_def assms(12))
    ultimately show ?thesis using q o l assms(4) by (simp add: loud_def)
  qed
  then show "tx_ok c q" "tx_queue q = [x]" "on_radio_disabled q = OnDisabledTx"
    "esb_pids q = (esb_pids p)[unat pipe := next_pid pipe p]" "rx_queue q = rx_queue p" "tx_payload_buffer q = pdu_of x"
    "radio_txaddress q = pipe" "loud c q" "pair_view q = pair_view p" using v by simp_all
qed

lemma reschedule_sends:
  "send_view (k_work_reschedule w ms s) = send_view s" "loud c (k_work_reschedule w ms s) = loud c s"
proof -
  show "send_view (k_work_reschedule w ms s) = send_view s" by (simp add: send_view_def k_work_reschedule_def pair_view_def)
  then show "loud c (k_work_reschedule w ms s) = loud c s" by (rule send_view_loud)
qed

lemma beacon_goes_out:
  assumes "tx_ok c p" "tx_queue p = []" "m_esb_state p = ESB_STATE_IDLE" "loud c p" "m_state p = PAIRING_STATE_UNPAIRED"
    and "length (m_device_id p) = 6" "8 \<le> ESB_MAX_PAYLOAD_LENGTH c" "0 < ESB_TX_FIFO_SIZE c" "p' = beacon_work_fn c p"
    and "x = \<lparr>pl_pipe = 0, pl_noack = False, pl_pid = next_pid 0 p, pl_rssi = 0, pl_data = beacon_of (m_device_id p)\<rparr>"
  shows "tx_ok c p'" "tx_queue p' = [x]" "on_radio_disabled p' = OnDisabledTx" "esb_pids p' = (esb_pids p)[0 := next_pid 0 p]"
    "rx_queue p' = rx_queue p" "tx_payload_buffer p' = pdu_of x" "radio_txaddress p' = 0" "loud c p'" "pair_view p' = pair_view p"
proof -
  obtain err q where s: "esb_transport_send c ESB_PIPE_PAIRING (beacon_of (m_device_id p)) p = (err, q)" by fastforce
  have p': "p' = k_work_reschedule BeaconWork (BEACON_INTERVAL_MS c) q"
    using assms(5,9) s by (simp add: beacon_work_fn_def send_beacon_def beacon_of_def)
  have "beacon_of (m_device_id p) \<noteq> []" "length (beacon_of (m_device_id p)) \<le> ESB_MAX_PAYLOAD_LENGTH c"
    using assms(6,7) by (simp_all add: beacon_of_def)
  note g = packet_goes_out [OF assms(1-4,8) s packet_facts(1,2) this, of x]
  have q: "same_radio p' q" "loud c p' = loud c q" "pair_view p' = pair_view q"
    by (simp_all add: p' same_radio_set(4) reschedule_sends)
  show "tx_ok c p'" "tx_queue p' = [x]" "on_radio_disabled p' = OnDisabledTx" "esb_pids p' = (esb_pids p)[0 := next_pid 0 p]"
    "rx_queue p' = rx_queue p" "tx_payload_buffer p' = pdu_of x" "radio_txaddress p' = 0" "loud c p'" "pair_view p' = pair_view p"
    using g tx_ok_same_radio [OF q(1)] q by (simp_all add: assms(10) ESB_PIPE_PAIRING_def ESB_PIPE_COUNT_def same_radio_def)
qed

lemma answer_heard:
  assumes "tx_ok c p" "tx_queue p = [x]" "on_radio_disabled p = OnDisabledTx" "rcount (rx_fifo p) < ESB_RX_FIFO_SIZE c"
    and "length (pdu_data ack) \<le> ESB_MAX_PAYLOAD_LENGTH c"
    and "p' = on_radio_disabled_tx_wait_for_ack c (Some ack) rssi (on_radio_disabled_tx p)"
  shows "tx_ok c p'" "tx_queue p' = []" "m_esb_state p' = ESB_STATE_IDLE" "esb_pids p' = esb_pids p" "send_view p' = send_view p"
    "\<exists>y. rx_queue p' = rx_queue p @ (if pdu_data ack = [] then [] else [y]) \<and> pl_data y = pdu_data ack"
proof -
  have p': "p' = radio_irq_handler c (Some ack) rssi 0 0 (radio_irq_handler c None 0 0 0 p)"
    using assms(3,6) by (simp add: radio_irq_handler_def on_radio_disabled_tx_def)
  show q: "tx_ok c p'" "tx_queue p' = []" "esb_pids p' = esb_pids p"
    using tx_ok_answered [OF assms(1,3) p'] assms(2) by simp_all
  have inv: "ptx_inv c p" using assms(1) by (simp add: tx_ok_def)
  show "\<exists>y. rx_queue p' = rx_queue p @ (if pdu_data ack = [] then [] else [y]) \<and> pl_data y = pdu_data ack"
    using answered_rx [OF inv assms(3-5) p'] by blast
  obtain s where s: "p' = next_transaction s" "send_view s = send_view p"
  proof
    show "p' = next_transaction (receive_ack_payload c ack rssi (tx_fifo_remove_last c
      (p\<lparr>on_radio_disabled := OnDisabledTxWaitForAck, m_esb_state := ESB_STATE_PTX_RX_ACK, int_tx_success := True,
         last_tx_attempts := ucast (retransmit_count (esb_cfg p)) - retransmits_remaining p + 1\<rparr>)))"
      using assms(6) by (simp add: on_radio_disabled_tx_def on_radio_disabled_tx_wait_for_ack_def)
  qed (simp only: radio_keeps_send, simp add: send_view_def pair_view_def)
  then show "send_view p' = send_view p" by (simp add: radio_keeps_send)
  have "rcount (tx_fifo s) = 0" using q(2) rcount_0_iff [of "tx_fifo p'"] start_tx_frames(1) [of s]
    by (simp add: s(1) next_transaction_def split: if_splits)
  then show "m_esb_state p' = ESB_STATE_IDLE" by (simp add: s(1) next_transaction_def)
qed

text \<open>Two beacons, the request in the answer to the second, and the response.\<close>

lemma unpaired:
  "air_ready default_kcfg unpaired dongle_listening" "rx_queue unpaired = []" "tx_queue unpaired = []"
  "m_state unpaired = PAIRING_STATE_UNPAIRED" "m_device_id unpaired = [1, 2, 3, 4, 5, 6]" "m_esb_state unpaired = ESB_STATE_IDLE"
  "loud default_kcfg unpaired" "esb_pids unpaired = [0, 0]"
proof -
  note h = unpaired_def pair_at_def bench_at_def
  have e: "ptx_inv default_kcfg (pair_at ())" "esb_initialized (pair_at ())" "tx_queue (pair_at ()) = []"
    "m_esb_state (pair_at ()) = ESB_STATE_IDLE" "\<not> esb_transport_is_quiet default_kcfg (pair_at ())"
    unfolding pair_at_def bench_at_def by (rule tport_example_simps)+
  show q: "rx_queue unpaired = []" "m_state unpaired = PAIRING_STATE_UNPAIRED" "m_device_id unpaired = [1, 2, 3, 4, 5, 6]"
    "esb_pids unpaired = [0, 0]"
    by (simp_all add: h tport_at_def ring_list_def)
  show t: "tx_queue unpaired = []" "m_esb_state unpaired = ESB_STATE_IDLE" using e(3,4) by (simp_all add: unpaired_def)
  have "esb_transport_is_quiet default_kcfg unpaired = esb_transport_is_quiet default_kcfg (pair_at ())"
    by (simp add: unpaired_def esb_transport_is_quiet_def k_uptime_get_32_def)
  then show "loud default_kcfg unpaired" using e(2,5) by (simp add: loud_def unpaired_def)
  have "on_radio_disabled unpaired = NoHandler" by (simp add: h tport_at_def)
  moreover have "ptx_inv default_kcfg unpaired" using e(1) by (simp add: unpaired_def ptx_inv_def)
  ultimately show "air_ready default_kcfg unpaired dongle_listening"
    using beacon_ready(1) t(1) q(4) by (simp add: air_ready_def tx_ok_def ESB_PIPE_COUNT_def)
qed

definition searching :: pair where "searching = beacon_work_fn default_kcfg unpaired"

definition searched :: pair where
  "searched = on_radio_disabled_tx_wait_for_ack default_kcfg (Some (tx_payload_buffer beacon_answering)) 0
     (on_radio_disabled_tx searching)"

lemma caps: "beacon_of [1, 2, 3, 4, 5, 6] = pl_data beacon_pkt"
  by (simp add: beacon_of_def beacon_pkt_def pkt_example_def all_caps_def ESB_CAP_KEYBOARD_def ESB_CAP_CONSUMER_def ESB_CAP_MOUSE_def)

lemma searching:
  "tx_ok default_kcfg searching" "\<exists>x. tx_queue searching = [x]" "on_radio_disabled searching = OnDisabledTx"
  "esb_pids searching = [1, 0]" "rx_queue searching = []" "tx_payload_buffer searching = tx_payload_buffer beacon_written"
  "radio_txaddress searching = 0" "loud default_kcfg searching" "pair_view searching = pair_view unpaired"
proof -
  have tx: "tx_ok default_kcfg unpaired" using unpaired(1) by (simp add: air_ready_def)
  have n: "next_pid 0 unpaired = 1" by (simp add: next_pid_def unpaired(8) PID_MAX_def)
  note b = beacon_goes_out [OF tx unpaired(3,6,7,4) _ _ _ searching_def refl]
  from b(1-5,7-9) show "tx_ok default_kcfg searching" "\<exists>x. tx_queue searching = [x]" "on_radio_disabled searching = OnDisabledTx"
    "esb_pids searching = [1, 0]" "rx_queue searching = []"
    "radio_txaddress searching = 0" "loud default_kcfg searching" "pair_view searching = pair_view unpaired"
    by (simp_all add: unpaired(2,5,8) n)
  show "tx_payload_buffer searching = tx_payload_buffer beacon_written"
    using b(6) by (simp add: unpaired(5) n caps pdu_of_def beacon_written_val)
qed

lemma searched:
  "exchange default_kcfg (\<lambda>_ _. 7) True True 0 0 searching dongle_listening = (searched, snd beacon_acked)"
  "tx_ok default_kcfg searched" "tx_queue searched = []" "m_esb_state searched = ESB_STATE_IDLE" "esb_pids searched = [1, 0]"
  "rx_queue searched = []" "loud default_kcfg searched" "pair_view searched = pair_view unpaired"
proof -
  have a: "on_radio_disabled beacon_answering = OnDisabledRxAck" "m_esb_state beacon_answering = ESB_STATE_PRX_SEND_ACK"
    "pdu_data (tx_payload_buffer beacon_answering) = []"
    by (simp_all add: beacon_answering_def)
  have "snd beacon_acked = on_radio_disabled_rx_ack beacon_answering"
    by (simp add: beacon_acked_val on_radio_disabled_rx_ack_def)
  then show "exchange default_kcfg (\<lambda>_ _. 7) True True 0 0 searching dongle_listening = (searched, snd beacon_acked)"
    unfolding searched_def
    using exchange_answered [OF searching(3) a(1,2), of default_kcfg 0 "\<lambda>_ _. 7" dongle_listening 0] beacon_answering
    by (simp add: searching(6,7))
  obtain x where x: "tx_queue searching = [x]" using searching(2) by blast
  have r: "rcount (rx_fifo searching) < ESB_RX_FIFO_SIZE default_kcfg" using searching(5) rcount_0_iff [of "rx_fifo searching"] by simp
  note s = answer_heard [OF searching(1) x searching(3) r _ searched_def]
  from s(1-4,6) show "tx_ok default_kcfg searched" "tx_queue searched = []" "m_esb_state searched = ESB_STATE_IDLE"
    "esb_pids searched = [1, 0]" "rx_queue searched = []"
    by (simp_all add: a(3) searching(4,5))
  have v: "send_view searched = send_view searching" using s(5) by (simp add: a(3))
  then show "loud default_kcfg searched" "pair_view searched = pair_view unpaired"
    using send_view_loud [OF v] searching(8,9) by (simp_all add: send_view_def)
qed

text \<open>The second beacon, and what it brings back.\<close>

definition asking :: pair where "asking = beacon_work_fn default_kcfg searched"

lemma asking:
  obtains p r y where "exchange default_kcfg (\<lambda>_ _. 7) True True 0 0 asking beacon_handled = (p, r)"
    "on_radio_disabled asking = OnDisabledTx" "rcount (rx_fifo asking) < ESB_RX_FIFO_SIZE default_kcfg"
    "tx_ok default_kcfg p" "tx_queue p = []" "m_esb_state p = ESB_STATE_IDLE" "loud default_kcfg p"
    "pair_view p = pair_view unpaired" "rx_queue p = [y]" "pl_data y = req_of [9, 8, 7, 6, 5, 4]"
proof -
  have u: "m_state searched = PAIRING_STATE_UNPAIRED" "m_device_id searched = [1, 2, 3, 4, 5, 6]"
    using pair_view_fields [OF searched(8)] unpaired(4,5) by simp_all
  have n: "next_pid 0 searched = 2" by (simp add: next_pid_def searched(5) PID_MAX_def)
  note b = beacon_goes_out [OF searched(2-4,7) u(1) _ _ _ asking_def refl]
  have k: "tx_ok default_kcfg asking" "on_radio_disabled asking = OnDisabledTx" "rx_queue asking = []" "radio_txaddress asking = 0"
    "loud default_kcfg asking" "pair_view asking = pair_view unpaired"
    using b(1,3,5,7-9) searched(6,8) u by simp_all
  obtain x where x: "tx_queue asking = [x]" using b(2) u(2) by simp
  have pdu: "tx_payload_buffer asking = tx_payload_buffer beacon_again"
    using b(6) by (simp add: u(2) n caps pdu_of_def beacon_again_def beacon_again_val)
  let ?a = "radio_irq_handler default_kcfg (Some (tx_payload_buffer beacon_again)) 0 0 7 beacon_handled"
  obtain p r where e: "exchange default_kcfg (\<lambda>_ _. 7) True True 0 0 asking beacon_handled = (p, r)" by fastforce
  then have p: "p = on_radio_disabled_tx_wait_for_ack default_kcfg (Some (tx_payload_buffer ?a)) 0 (on_radio_disabled_tx asking)"
    using request_answering(1) k(2)
    by (simp add: exchange_def pdu k(4) Let_def) (simp add: radio_irq_handler_def on_radio_disabled_tx_def)
  have room: "rcount (rx_fifo asking) < ESB_RX_FIFO_SIZE default_kcfg" using k(3) rcount_0_iff [of "rx_fifo asking"] by simp
  have len: "length (pdu_data (tx_payload_buffer ?a)) \<le> ESB_MAX_PAYLOAD_LENGTH default_kcfg"
    unfolding request_answering(2) by (simp add: beacon_request_def)
  note s = answer_heard [OF k(1) x k(2) room len p]
  have "pdu_data (tx_payload_buffer ?a) \<noteq> []" unfolding request_answering(2) by (simp add: beacon_request_def)
  then obtain y where y: "rx_queue p = [y]" "pl_data y = pl_data beacon_request"
    using s(6) unfolding k(3) request_answering(2) by (simp only: if_False append.simps) blast
  have d: "pl_data y = req_of [9, 8, 7, 6, 5, 4]" using y(2) by (simp add: beacon_request_def req_of_def)
  have "loud default_kcfg p" "pair_view p = pair_view unpaired"
    using send_view_loud [OF s(5)] s(5) k(5,6) by (simp_all add: send_view_def)
  then show ?thesis by (rule that [OF e k(2) room s(1-3) _ _ y(1) d])
qed

lemma response_goes_out:
  assumes "tx_ok c q" "tx_queue q = []" "m_esb_state q = ESB_STATE_IDLE" "loud c q" "m_state q = PAIRING_STATE_UNPAIRED"
    and "length (m_device_id q) = 6" "8 \<le> ESB_MAX_PAYLOAD_LENGTH c" "0 < ESB_TX_FIFO_SIZE c" "length d = 6"
    and "p' = on_pair_req c (req_of d) q"
  shows "tx_ok c p' \<and> (\<exists>x. tx_queue p' = [x]) \<and> on_radio_disabled p' = OnDisabledTx \<and> rx_queue p' = rx_queue q"
proof -
  from accepting [OF assms(5,9,10)] obtain s t err where a: "same_radio s q" "loud c s = loud c q"
    "esb_transport_send c ESB_PIPE_DATA (resp_of (m_device_id q)) s = (err, t)" "same_radio p' t" .
  have s: "tx_ok c s" "tx_queue s = []" "m_esb_state s = ESB_STATE_IDLE" "rx_queue s = rx_queue q" "loud c s"
    using tx_ok_same_radio [OF a(1) assms(1)] a(1,2) assms(2-4) by (simp_all add: same_radio_def)
  have "resp_of (m_device_id q) \<noteq> []" "length (resp_of (m_device_id q)) \<le> ESB_MAX_PAYLOAD_LENGTH c"
    using packet_facts(5,6) [of "m_device_id q"] assms(6,7) by simp_all
  note g = packet_goes_out [OF s(1-3,5) assms(8) a(3) packet_facts(3,4) this _ refl]
  show ?thesis using g(1-3,5) tx_ok_same_radio [OF a(4)] a(4) s(4)
    by (simp add: ESB_PIPE_DATA_def ESB_PIPE_COUNT_def same_radio_def)
qed

text \<open>The request is read and answered.\<close>

lemma reading:
  assumes "tx_ok c p" "esb_initialized p" "rx_queue p = [y]"
  shows "\<exists>q. esb_read_rx_payload c p = (Inr y, q) \<and> rx_queue q = []"
proof -
  have wf: "ring_wf (ESB_RX_FIFO_SIZE c) (rx_fifo p)" using assms(1) by (simp add: tx_ok_def ptx_inv_def)
  have "rcount (rx_fifo p) \<noteq> 0" using assms(3) rcount_0_iff [of "rx_fifo p"] by simp
  then obtain x q where r: "esb_read_rx_payload c p = (Inr x, q)" using assms(2) by (simp add: esb_read_rx_payload_def)
  from read_next(1) [OF r wf] show ?thesis using r assms(3) by simp
qed

lemma asked_run:
  obtains p r y where "pairing_run default_kcfg (\<lambda>_ _. 7) unpaired dongle_listening p r"
    "tx_ok default_kcfg p" "tx_queue p = []" "m_esb_state p = ESB_STATE_IDLE" "loud default_kcfg p"
    "pair_view p = pair_view unpaired" "rx_queue p = [y]" "pl_data y = req_of [9, 8, 7, 6, 5, 4]"
proof -
  let ?run = "pairing_run default_kcfg (\<lambda>_ _. 7) unpaired dongle_listening"
  have room: "\<not> esb_tx_full default_kcfg unpaired" "\<not> esb_tx_full default_kcfg searched"
    using unpaired(3) searched(3) rcount_0_iff [of "tx_fifo unpaired"] rcount_0_iff [of "tx_fifo searched"]
    by (simp_all add: esb_tx_full_def ring_full_def)
  have 1: "?run searching dongle_listening" unfolding searching_def by (rule pairing_run.beacon [OF pairing_run.start room(1)])
  have r: "rcount (rx_fifo searching) < ESB_RX_FIFO_SIZE default_kcfg"
    using searching(5) rcount_0_iff [of "rx_fifo searching"] by simp
  note a = duplex_run.attempt [OF duplex_run.start searching(3) r searched(1)]
  have 2: "?run searched beacon_handled" by (rule pairing_run.air [OF 1 duplex_run.event [OF a beacon_handled_def]])
  have 3: "?run asking beacon_handled" unfolding asking_def by (rule pairing_run.beacon [OF 2 room(2)])
  show ?thesis
  proof (rule asking)
    fix p r y assume e: "exchange default_kcfg (\<lambda>_ _. 7) True True 0 0 asking beacon_handled = (p, r)"
      "on_radio_disabled asking = OnDisabledTx" "rcount (rx_fifo asking) < ESB_RX_FIFO_SIZE default_kcfg"
      and p: "tx_ok default_kcfg p" "tx_queue p = []" "m_esb_state p = ESB_STATE_IDLE" "loud default_kcfg p"
      "pair_view p = pair_view unpaired" "rx_queue p = [y]" "pl_data y = req_of [9, 8, 7, 6, 5, 4]"
    have "?run p r" by (rule pairing_run.air [OF 3 duplex_run.attempt [OF duplex_run.start e(2,3,1)]])
    from this p show ?thesis by (rule that)
  qed
qed

lemma paired_run:
  obtains p r x where "pairing_run default_kcfg (\<lambda>_ _. 7) unpaired dongle_listening p r" "m_state p = PAIRING_STATE_CONNECTED"
    "tx_ok default_kcfg p" "tx_queue p = [x]" "on_radio_disabled p = OnDisabledTx" "rx_queue p = []"
proof (rule asked_run)
  let ?run = "pairing_run default_kcfg (\<lambda>_ _. 7) unpaired dongle_listening"
  fix p r y assume run: "?run p r" and p: "tx_ok default_kcfg p" "tx_queue p = []" "m_esb_state p = ESB_STATE_IDLE"
    "loud default_kcfg p" "pair_view p = pair_view unpaired" "rx_queue p = [y]" and y: "pl_data y = req_of [9, 8, 7, 6, 5, 4]"
  have "esb_initialized p" using p(4) by (simp add: loud_def)
  from reading [OF p(1) this p(6)] obtain q where q: "esb_read_rx_payload default_kcfg p = (Inr y, q)" "rx_queue q = []" by blast
  have f: "tx_fifo q = tx_fifo p" "send_view q = send_view p" "m_esb_state q = m_esb_state p" "tx_ok default_kcfg q"
    using q(1) radio_keeps_send(4) [of default_kcfg p] tx_ok_api(3) [OF p(1)] by (auto simp: esb_read_rx_payload_def split: if_splits)
  have l: "loud default_kcfg q" and v: "pair_view q = pair_view unpaired"
    using send_view_loud [OF f(2)] p(4,5) f(2) by (simp_all add: send_view_def)
  have full: "\<not> esb_tx_full default_kcfg q"
    using p(2) f(1) rcount_0_iff [of "tx_fifo p"] by (simp add: esb_tx_full_def ring_full_def)
  let ?p = "pairing_on_rx default_kcfg (pl_data y) (length (pl_data y)) q"
  have 1: "?run ?p r" by (rule pairing_run.receives [OF run q(1) _ l full]) simp
  have rx: "?p = on_pair_req default_kcfg (req_of [9, 8, 7, 6, 5, 4]) q"
    by (simp add: y pairing_on_rx_def) (simp add: req_of_def pkt_type_def pkt_consts Let_def)
  have u: "m_state q = PAIRING_STATE_UNPAIRED" "m_device_id q = [1, 2, 3, 4, 5, 6]"
    using pair_view_fields [OF v] unpaired(4,5) by simp_all
  have st: "m_state ?p = PAIRING_STATE_CONNECTED" by (rule accepting [OF u(1) _ rx]) simp_all
  have "tx_queue q = []" "m_esb_state q = ESB_STATE_IDLE" using f(1,3) p(2,3) by simp_all
  from response_goes_out [OF f(4) this l u(1) _ _ _ _ rx] obtain x where
    "tx_ok default_kcfg ?p" "tx_queue ?p = [x]" "on_radio_disabled ?p = OnDisabledTx" "rx_queue ?p = []"
    using u(2) q(2) by auto
  from that [OF 1 st this] show ?thesis .
qed

theorem pairing_agrees_witness:
  "\<exists>p r. pairing_run default_kcfg (\<lambda>_ _. 7) unpaired dongle_listening p r \<and> m_state p = PAIRING_STATE_CONNECTED \<and>
     m_peer_device_id p = [9, 8, 7, 6, 5, 4] \<and> d_state r = DONGLE_CONNECTED \<and> d_peer_id r = [1, 2, 3, 4, 5, 6]"
proof (rule paired_run)
  let ?run = "pairing_run default_kcfg (\<lambda>_ _. 7) unpaired dongle_listening"
  let ?event = "esb_evt_irq_handler (dongle_evt_handler default_kcfg)"
  fix p r x assume run: "?run p r" and st: "m_state p = PAIRING_STATE_CONNECTED" and p: "tx_ok default_kcfg p" "tx_queue p = [x]"
    "on_radio_disabled p = OnDisabledTx" "rx_queue p = []"
  note start = pairing_start_inv [OF unpaired(1) beacon_ready(2-4) unpaired(2,4)]
  have len: "length (m_device_id unpaired) = 6" "length (m_my_device_id dongle_listening) = 6" "8 \<le> ESB_MAX_PAYLOAD_LENGTH default_kcfg"
    by (simp_all add: unpaired(5) dongle_listening_def)
  have ok: "rx_ok default_kcfg r" if "?run p r" for p r
    using pairing_run_inv [OF that start len] by (auto simp: pairing_inv_def duplex_ok_def air_inv_def)
  have 1: "?run p (?event r)" by (rule pairing_run.air [OF run duplex_run.event [OF duplex_run.start refl]])
  have r: "rcount (rx_fifo (?event r)) < ESB_RX_FIFO_SIZE default_kcfg"
    using rx_event(2) [OF ok [OF run] refl] rcount_0_iff [of "rx_fifo (?event r)"] by simp
  obtain p' r' where e: "exchange default_kcfg (\<lambda>_ _. 7) True True 0 0 p (?event r) = (p', r')" by fastforce
  have "rcount (rx_fifo p) < ESB_RX_FIFO_SIZE default_kcfg" using p(4) rcount_0_iff [of "rx_fifo p"] by simp
  note a = duplex_run.attempt [OF duplex_run.start p(3) this e]
  have 2: "?run p' r'" by (rule pairing_run.air [OF 1 a])
  have 3: "?run p' (?event r')" by (rule pairing_run.air [OF 2 duplex_run.event [OF duplex_run.start refl]])
  have q: "tx_queue p' = []" using exchange_acked [OF p(1) ok [OF 1] p(3) r e] p(2) by simp
  have "m_state p' = PAIRING_STATE_CONNECTED" using pair_view_fields [OF duplex_keeps_pair [OF a]] st by simp
  then have "m_state p' \<noteq> PAIRING_STATE_UNPAIRED" by simp
  moreover have "d_state dongle_listening = DONGLE_LISTENING" by (simp add: dongle_listening_def)
  ultimately show ?thesis
    using pairing_agrees [OF 3 unpaired(1) beacon_ready(2-4) unpaired(2,4) _ len] 3 q rx_event(2) [OF ok [OF 2] refl]
    by (auto simp: unpaired(5) dongle_listening_def)
qed

end
