(* ===== verification/VerifyPath.thy ===== *)
theory VerifyPath
  imports PairPath
begin

text \<open>
  The identity check over the air: an endpoint that has a dongle stored asks (\<open>verify_work_fn\<close> of
  \<open>src/esb/pairing.c\<close>) and the dongle's program (\<open>on_verify_req\<close> of \<open>dongle/src/main.c\<close>) answers, over a medium that
  loses packets and acknowledgements.
\<close>

section \<open>The packets of a check\<close>

definition verify_of :: "u8 list \<Rightarrow> u8 list" where "verify_of me = encode (PktVerifyReq me)"

definition knows :: "u8 list \<Rightarrow> dongle_app \<Rightarrow> bool" where "knows me a \<longleftrightarrow> da_has_peer a \<and> da_peer a = me"

definition verdict :: "bool \<Rightarrow> u8 list \<Rightarrow> u8 list" where
  "verdict known d = encode (if known then PktVerifyResp d else PktDisconnect)"

lemma verify_facts:
  "\<not> send_noack c pipe (verify_of me)" "\<not> is_mouse_report (verify_of me)"
  "length (verify_of me) = Suc (length me)" "verify_of me \<noteq> []"
  by (simp_all add: verify_of_def send_noack_def is_mouse_report_def pkt_consts)

text \<open>What a request means to the dongle's program, whatever its state: its answer depends only on whom it knows.\<close>

lemma verify_means:
  assumes "length me = 6"
  shows "app_step (verify_of me) a = (if knows me a then a\<lparr>da_state := DONGLE_VERIFYING\<rparr> else a)"
    "answer d a (verify_of me) = [verdict (knows me a) d]"
  using assms by (auto simp: verify_of_def verdict_def knows_def app_step_def answer_def pkt_consts sizeof_id_pkt_def pkt_device_id_def)

lemma verifies_mean:
  assumes "length me = 6"
  shows "fold app_step (replicate n (verify_of me)) a = (if n = 0 \<or> \<not> knows me a then a else a\<lparr>da_state := DONGLE_VERIFYING\<rparr>)"
proof -
  have "fold app_step (replicate n (verify_of me)) a = (if n = 0 then a else app_step (verify_of me) a)"
  proof (induction n arbitrary: a)
    case (Suc n)
    have "app_step (verify_of me) (app_step (verify_of me) a) = app_step (verify_of me) a"
      by (simp add: verify_means(1) [OF assms] knows_def)
    then show ?case using Suc.IH [of "app_step (verify_of me) a"] by simp
  qed simp
  then show ?thesis by (simp add: verify_means(1) [OF assms])
qed

lemma answers_verify:
  assumes "length me = 6" "y \<in> set (answers d b a xs)" "set xs \<subseteq> {(ESB_PIPE_DATA, verify_of me)}"
  shows "y = verdict (knows me a) d \<and> xs \<noteq> []"
proof -
  have k: "knows me (app_step (verify_of me) a) = knows me a" for a
    by (simp add: verify_means(1) [OF assms(1)] knows_def)
  show ?thesis using assms(2,3)
  proof (induction xs arbitrary: a)
    case (Cons x xs)
    then show ?case using Cons.IH [of "app_step (verify_of me) a"] by (auto simp: verify_means(2) [OF assms(1)] k split: if_splits)
  qed simp
qed

section \<open>Runs\<close>

text \<open>
  \<open>verify_run c crc p0 r0 p r\<close>: as \<open>pairing_run\<close>, with the endpoint's check at work instead of its beacons: the work runs
  whenever it likes, and each packet read goes through \<open>pairing_on_rx\<close>. The beacons that a forgotten pairing
  schedules belong to a run of the other kind.
\<close>

inductive verify_run ::
    "kcfg \<Rightarrow> (u8 \<Rightarrow> esb_pdu \<Rightarrow> u16) \<Rightarrow> 'a pair_scheme \<Rightarrow> 'b dongle_scheme \<Rightarrow> 'a pair_scheme \<Rightarrow> 'b dongle_scheme \<Rightarrow> bool"
  for c crc p0 r0 where
  start: "verify_run c crc p0 r0 p0 r0"
| air: "verify_run c crc p0 r0 p r \<Longrightarrow> duplex_run c crc p r p' r' [] got queued [] \<Longrightarrow> verify_run c crc p0 r0 p' r'"
| other: "verify_run c crc p0 r0 p r \<Longrightarrow> apart p' p \<Longrightarrow> verify_run c crc p0 r0 p' r"
| verify: "verify_run c crc p0 r0 p r \<Longrightarrow> \<not> esb_tx_full c p \<Longrightarrow> verify_run c crc p0 r0 (verify_work_fn c p) r"
| receives: "verify_run c crc p0 r0 p r \<Longrightarrow> esb_read_rx_payload c p = (Inr x, q) \<Longrightarrow>
    take (length (pl_data x)) buf = pl_data x \<Longrightarrow> verify_run c crc p0 r0 (pairing_on_rx c buf (length (pl_data x)) q) r"

section \<open>The invariant\<close>

text \<open>What the endpoint may have come to, by what the dongle knows and who it is.\<close>

definition verdict_ok :: "bool \<Rightarrow> u8 list \<Rightarrow> 'a pair_scheme \<Rightarrow> 'b pair_scheme \<Rightarrow> bool" where
  "verdict_ok known d p0 p \<longleftrightarrow> m_device_id p = m_device_id p0 \<and>
     ((m_state p = PAIRING_STATE_VERIFYING \<or> m_state p = PAIRING_STATE_CONNECTED \<and> known \<and> d = m_peer_device_id p0) \<and>
        m_peer_device_id p = m_peer_device_id p0 \<and> m_has_stored_peer p \<and> settings_paired p = settings_paired p0 \<or>
      m_state p = PAIRING_STATE_UNPAIRED \<and> \<not> known \<and> \<not> m_has_stored_peer p \<and> settings_paired p = Some (0 # zero_id))"

lemma verdict_ok_view: "pair_view q = pair_view p \<Longrightarrow> verdict_ok known d p0 q = verdict_ok known d p0 p"
  by (simp add: verdict_ok_def pair_view_def)

definition verifying_inv where
  "verifying_inv c crc p0 r0 p r \<longleftrightarrow>
     verdict_ok (knows (m_device_id p0) (app_of r0)) (m_my_device_id r0) p0 p \<and>
     (\<exists>sent got queued inbox n. duplex_ok c crc r0 p r sent got queued inbox \<and>
        map seen sent = replicate n (ESB_PIPE_DATA, verify_of (m_device_id p0)) \<and>
        (m_state p \<noteq> PAIRING_STATE_VERIFYING \<longrightarrow> (\<exists>x \<in> set inbox. unat (pl_pipe x) < ESB_PIPE_COUNT)))"

lemma verifying_invI:
  assumes "verdict_ok (knows (m_device_id p0) (app_of r0)) (m_my_device_id r0) p0 p"
    "duplex_ok c crc r0 p r sent got queued inbox" "map seen sent = replicate n (ESB_PIPE_DATA, verify_of (m_device_id p0))"
    "m_state p \<noteq> PAIRING_STATE_VERIFYING \<Longrightarrow> \<exists>x \<in> set inbox. unat (pl_pipe x) < ESB_PIPE_COUNT"
  shows "verifying_inv c crc p0 r0 p r"
  using assms unfolding verifying_inv_def by blast

lemma verifying_invE:
  assumes "verifying_inv c crc p0 r0 p r"
  obtains sent got queued inbox n where "verdict_ok (knows (m_device_id p0) (app_of r0)) (m_my_device_id r0) p0 p"
    "duplex_ok c crc r0 p r sent got queued inbox" "map seen sent = replicate n (ESB_PIPE_DATA, verify_of (m_device_id p0))"
    "m_state p \<noteq> PAIRING_STATE_VERIFYING \<longrightarrow> (\<exists>x \<in> set inbox. unat (pl_pipe x) < ESB_PIPE_COUNT)"
  using assms unfolding verifying_inv_def by (elim conjE exE) (rule that)

lemma verifying_inv_move:
  assumes "verifying_inv c crc p0 r0 p r" "pair_view p' = pair_view p"
    and "\<And>sent got queued inbox. duplex_ok c crc r0 p r sent got queued inbox \<Longrightarrow>
      \<exists>got' queued'. duplex_ok c crc r0 p' r' sent got' queued' inbox"
  shows "verifying_inv c crc p0 r0 p' r'"
proof -
  from assms(1) obtain sent got queued inbox n where
    v: "verdict_ok (knows (m_device_id p0) (app_of r0)) (m_my_device_id r0) p0 p"
    and d: "duplex_ok c crc r0 p r sent got queued inbox"
    "map seen sent = replicate n (ESB_PIPE_DATA, verify_of (m_device_id p0))"
    "m_state p \<noteq> PAIRING_STATE_VERIFYING \<longrightarrow> (\<exists>x \<in> set inbox. unat (pl_pipe x) < ESB_PIPE_COUNT)" by (rule verifying_invE)
  from assms(3) [OF d(1)] obtain got' queued' where "duplex_ok c crc r0 p' r' sent got' queued' inbox" by (elim exE)
  then show ?thesis
    by (rule verifying_invI [rotated]) (use d(2,3) v in \<open>simp_all add: pair_view_fields [OF assms(2)] verdict_ok_view [OF assms(2)]\<close>)
qed

lemma verifying_inv_apart:
  assumes "verifying_inv c crc p0 r0 p r" "apart p' p"
  shows "verifying_inv c crc p0 r0 p' r"
proof (rule verifying_inv_move [OF assms(1)])
  show "pair_view p' = pair_view p" using assms(2) by (simp add: apart_def)
  fix sent got queued inbox assume "duplex_ok c crc r0 p r sent got queued inbox"
  from duplex_ok_apart [OF this assms(2)] show "\<exists>got' queued'. duplex_ok c crc r0 p' r sent got' queued' inbox" by blast
qed

lemma verifying_inv_air:
  assumes "verifying_inv c crc p0 r0 p r" "duplex_run c crc p r p' r' [] got queued []"
  shows "verifying_inv c crc p0 r0 p' r'"
proof (rule verifying_inv_move [OF assms(1) duplex_keeps_pair [OF assms(2)]])
  fix sent got' queued' inbox assume "duplex_ok c crc r0 p r sent got' queued' inbox"
  from duplex_from [OF assms(2) this] show "\<exists>got' queued'. duplex_ok c crc r0 p' r' sent got' queued' inbox" by auto
qed

lemma verify_keeps_pair: "pair_view (verify_work_fn c p) = pair_view p"
  using send_keeps_pair [of c ESB_PIPE_DATA "encode (PktVerifyReq (m_device_id p))" p] by (simp add: verify_work_fn_def del: encode.simps)

lemma duplex_ok_verify:
  assumes "duplex_ok c crc r0 p r sent got queued inbox" "\<not> esb_tx_full c p"
  shows "\<exists>sent' i. duplex_ok c crc r0 (verify_work_fn c p) r sent' got queued inbox \<and>
    map seen sent' = map seen sent @ replicate i (ESB_PIPE_DATA, verify_of (m_device_id p))"
proof (cases "m_state p = PAIRING_STATE_VERIFYING")
  case True
  obtain err q where s: "esb_transport_send c ESB_PIPE_DATA (verify_of (m_device_id p)) p = (err, q)" by fastforce
  have t: "verify_work_fn c p = k_work_reschedule VerifyWork (VERIFY_INTERVAL_MS c) q"
    using True s by (simp add: verify_work_fn_def verify_of_def)
  have d: "duplex_ok c crc r0 q r sent' got queued inbox \<Longrightarrow> duplex_ok c crc r0 (verify_work_fn c p) r sent' got queued inbox" for sent'
    unfolding t by (rule duplex_ok_same_radio [OF _ same_radio_set(4)])
  from assms(1) s assms(2) verify_facts(1,2) show ?thesis
  proof (cases rule: duplex_ok_sends)
    case unsent
    then show ?thesis using d by (intro exI [of _ sent] exI [of _ 0]) simp
  next
    case (queued x)
    then show ?thesis using d by (intro exI [of _ "sent @ [x]"] exI [of _ 1]) simp
  qed
next
  case False
  then show ?thesis using assms(1) by (intro exI [of _ sent] exI [of _ 0]) (simp add: verify_work_fn_def)
qed

lemma verifying_inv_verify:
  assumes "verifying_inv c crc p0 r0 p r" "\<not> esb_tx_full c p"
  shows "verifying_inv c crc p0 r0 (verify_work_fn c p) r"
proof -
  from assms(1) obtain sent got queued inbox n where
    ok: "verdict_ok (knows (m_device_id p0) (app_of r0)) (m_my_device_id r0) p0 p"
    and d: "duplex_ok c crc r0 p r sent got queued inbox"
    "map seen sent = replicate n (ESB_PIPE_DATA, verify_of (m_device_id p0))"
    "m_state p \<noteq> PAIRING_STATE_VERIFYING \<longrightarrow> (\<exists>x \<in> set inbox. unat (pl_pipe x) < ESB_PIPE_COUNT)" by (rule verifying_invE)
  have me: "m_device_id p = m_device_id p0" using ok by (simp add: verdict_ok_def)
  from duplex_ok_verify [OF d(1) assms(2)] obtain sent' i where
    w: "duplex_ok c crc r0 (verify_work_fn c p) r sent' got queued inbox"
    "map seen sent' = map seen sent @ replicate i (ESB_PIPE_DATA, verify_of (m_device_id p0))" unfolding me by (elim exE conjE)
  have "map seen sent' = replicate (n + i) (ESB_PIPE_DATA, verify_of (m_device_id p0))" using w(2) d(2) by (simp add: replicate_add)
  from verifying_invI [OF _ w(1) this] show ?thesis
    using d(3) ok by (simp add: verdict_ok_view [OF verify_keeps_pair] pair_view_fields [OF verify_keeps_pair])
qed

text \<open>The dongle's verdict: what is received, and what the endpoint makes of it.\<close>

lemma verdict_received:
  assumes "duplex_ok c crc r0 p r sent got queued inbox" "map seen sent = replicate n (ESB_PIPE_DATA, verify_of me)" "length me = 6"
    and "x \<in> set (inbox @ rx_queue p)" "unat (pl_pipe x) < ESB_PIPE_COUNT"
  shows "pl_data x = verdict (knows me (app_of r0)) (m_my_device_id r0) \<and> map seen got \<noteq> []"
proof -
  have an: "pl_data x \<in> set (answers (m_my_device_id r0) (unat (pl_pipe x)) (app_of r0) (map seen got))"
    by (rule received_answer [OF assms(1,4,5)])
  obtain g where "map seen got = take g (map seen sent)" using taken_of_sent [OF assms(1)] by metis
  then have "set (map seen got) \<subseteq> {(ESB_PIPE_DATA, verify_of me)}"
    using set_take_subset [of g "map seen sent"] unfolding assms(2) by (auto split: if_splits)
  from answers_verify [OF assms(3) an this] show ?thesis .
qed

lemma disconnected_same_radio: "same_radio (notify_disconnected c s) s"
proof -
  have "same_radio (channel_hop_ep_on_disconnected c t) t" for t :: "'a pair_scheme"
    by (cases "RENDEZVOUS c"; cases "COOP_HOP c")
      (simp_all add: same_radio_def channel_hop_ep_on_disconnected_def coop_hop_abort_def k_work_cancel_def Let_def)
  moreover have "same_radio (esb_shell_relay_on_disconnected c s) s"
    by (cases "SHELL_BG_POLL c") (simp_all add: same_radio_def esb_shell_relay_on_disconnected_def stdout_buf_reset_def
        k_work_cancel_def Let_def)
  ultimately show ?thesis
    using same_radio_trans [of _ "if SHELL_RELAY c then esb_shell_relay_on_disconnected c s else s" s]
    by (auto simp: notify_disconnected_def same_radio_refl)
qed

lemma verdict_taken:
  assumes "take (length bs) buf = bs" "bs = verdict known d" "length d = 6" "verdict_ok known d p0 q"
    and "p = pairing_on_rx c buf (length bs) q"
  shows "same_radio p q" "verdict_ok known d p0 p"
    "m_state p = (if known then if d = m_peer_device_id p0 then PAIRING_STATE_CONNECTED else m_state q else PAIRING_STATE_UNPAIRED)"
proof -
  have ne: "length bs \<noteq> 0" by (simp add: assms(2) verdict_def)
  have rx: "p = (if known then on_verify_resp c bs q else on_disconnect c q)"
    using ne assms(1) by (simp add: assms(5) pairing_on_rx_def) (simp add: assms(2) verdict_def pkt_type_def pkt_consts Let_def)
  have id: "known \<Longrightarrow> sizeof_id_pkt \<le> length bs \<and> pkt_device_id bs = d"
    using assms(3) by (simp add: assms(2) verdict_def sizeof_id_pkt_def pkt_device_id_def)
  have "same_radio p q \<and> verdict_ok known d p0 p \<and>
    m_state p = (if known then if d = m_peer_device_id p0 then PAIRING_STATE_CONNECTED else m_state q else PAIRING_STATE_UNPAIRED)"
  proof (cases known)
    case True
    let ?s = "(k_work_cancel VerifyWork q)\<lparr>m_state := PAIRING_STATE_CONNECTED\<rparr>"
    have n: "same_radio (notify_connected c ?s) q"
      using same_radio_trans [OF notify_same_radio, of ?s q] by (simp add: same_radio_def k_work_cancel_def)
    have v: "pair_view (notify_connected c ?s) = pair_view (q\<lparr>m_state := PAIRING_STATE_CONNECTED\<rparr>)"
      by (simp add: notify_keeps_pair, simp add: pair_view_def k_work_cancel_def)
    show ?thesis
      using True rx id assms(4) n verdict_ok_view [OF v, of known d p0] pair_view_fields(1) [OF v] same_radio_refl [of q]
      by (auto simp: on_verify_resp_def verdict_ok_def)
  next
    case False
    let ?s = "k_work_reschedule BeaconWork (BEACON_INITIAL_DELAY_MS c) (k_work_cancel VerifyWork (save_paired False
      (q\<lparr>m_state := PAIRING_STATE_UNPAIRED, m_has_stored_peer := False, m_peer_device_id := zero_id\<rparr>)))"
    have p: "p = notify_disconnected c ?s" using False rx by (simp add: on_disconnect_def Let_def)
    have "same_radio ?s q" by (simp add: same_radio_def k_work_cancel_def k_work_reschedule_def save_paired_def)
    then have "same_radio p q" unfolding p by (rule same_radio_trans [OF disconnected_same_radio])
    moreover have v: "pair_view p = pair_view ?s" by (simp add: p notify_keeps_pair)
    have "m_state p = PAIRING_STATE_UNPAIRED" "\<not> m_has_stored_peer p" "settings_paired p = Some (0 # zero_id)"
      "m_device_id p = m_device_id q"
      using pair_view_fields [OF v] by (simp_all add: k_work_cancel_def k_work_reschedule_def save_paired_def)
    ultimately show ?thesis using False assms(4) by (simp add: verdict_ok_def)
  qed
  then show "same_radio p q" "verdict_ok known d p0 p"
    "m_state p = (if known then if d = m_peer_device_id p0 then PAIRING_STATE_CONNECTED else m_state q else PAIRING_STATE_UNPAIRED)"
    by blast+
qed

lemma verifying_inv_receives:
  assumes "verifying_inv c crc p0 r0 p r" "esb_read_rx_payload c p = (Inr x, q)" "take (length (pl_data x)) buf = pl_data x"
    and "length (m_device_id p0) = 6" "length (m_my_device_id r0) = 6"
  shows "verifying_inv c crc p0 r0 (pairing_on_rx c buf (length (pl_data x)) q) r"
proof -
  let ?known = "knows (m_device_id p0) (app_of r0)" and ?d = "m_my_device_id r0"
  let ?p = "pairing_on_rx c buf (length (pl_data x)) q"
  from assms(1) obtain sent got queued inbox n where ok: "verdict_ok ?known ?d p0 p"
    and d: "duplex_ok c crc r0 p r sent got queued inbox"
    "map seen sent = replicate n (ESB_PIPE_DATA, verify_of (m_device_id p0))" by (rule verifying_invE)
  note rd = duplex_ok_reads [OF d(1) assms(2)]
  have v: "pair_view q = pair_view p" using radio_keeps_pair(6) [of c p] assms(2) by simp
  have x: "pl_data x = verdict ?known ?d" using verdict_received [OF rd(1) d(2) assms(4) _ rd(2)] by simp
  note t = verdict_taken [OF assms(3) x assms(5) ok [folded verdict_ok_view [OF v]] refl]
  show ?thesis
    by (rule verifying_invI [OF t(2) duplex_ok_same_radio [OF rd(1) t(1)] d(2)]) (use rd(2) in auto)
qed

lemma verify_run_inv:
  assumes "verify_run c crc p0 r0 p r" "verifying_inv c crc p0 r0 p0 r0" "length (m_device_id p0) = 6" "length (m_my_device_id r0) = 6"
  shows "verifying_inv c crc p0 r0 p r"
  using assms(1)
proof induction
  case (receives p r x q buf)
  show ?case by (rule verifying_inv_receives [OF receives.IH receives.hyps(2,3) assms(3,4)])
next
  case (air p r p' r' got queued)
  show ?case by (rule verifying_inv_air [OF air.IH air.hyps(2)])
next
  case (other p r p')
  show ?case by (rule verifying_inv_apart [OF other.IH other.hyps(2)])
next
  case (verify p r)
  show ?case by (rule verifying_inv_verify [OF verify.IH verify.hyps(2)])
qed (rule assms(2))

section \<open>Property\<close>

lemma verify_start_inv:
  assumes "air_ready c p0 r0" "reply_ok c r0" "replies r0 0 = []" "replies r0 1 = []" "rx_queue p0 = []"
    and "m_state p0 = PAIRING_STATE_VERIFYING" "m_has_stored_peer p0"
  shows "verifying_inv c crc p0 r0 p0 r0"
proof -
  have "\<forall>b < ESB_PIPE_COUNT. replies r0 b = []" using assms(3,4) by (auto simp: pipe_cases)
  from duplex_ok_start [OF assms(1,2) this assms(5)] show ?thesis
    by (rule verifying_invI [where n = 0, rotated]) (simp_all add: assms(6,7) verdict_ok_def)
qed

text \<open>
  C6. What an endpoint with a dongle stored comes to, over a medium that loses packets and acknowledgements. Of a
  dongle that knows it, it accepts the one whose identifier it has stored and no other: it is then connected, its
  stored record as it was, and the dongle lets its reports through. A dongle that does not know it makes it erase its
  record and look for a dongle, and stays as it was. Nothing else ends the check.
\<close>

theorem check_decides:
  assumes "verify_run c crc p0 r0 p r" "air_ready c p0 r0" "reply_ok c r0" "replies r0 0 = []" "replies r0 1 = []"
    and "rx_queue p0 = []" "m_state p0 = PAIRING_STATE_VERIFYING" "m_has_stored_peer p0"
    and "length (m_device_id p0) = 6" "length (m_my_device_id r0) = 6"
    and "m_state p \<noteq> PAIRING_STATE_VERIFYING"
  shows "if d_has_peer r0 \<and> d_peer_id r0 = m_device_id p0
    then m_state p = PAIRING_STATE_CONNECTED \<and> m_my_device_id r0 = m_peer_device_id p0 \<and>
      m_peer_device_id p = m_peer_device_id p0 \<and> m_has_stored_peer p \<and> settings_paired p = settings_paired p0 \<and>
      d_state r = DONGLE_VERIFYING
    else m_state p = PAIRING_STATE_UNPAIRED \<and> \<not> m_has_stored_peer p \<and> settings_paired p = Some (0 # zero_id) \<and>
      d_state r = d_state r0"
proof -
  let ?me = "m_device_id p0"
  from verify_run_inv [OF assms(1) verify_start_inv [OF assms(2-8)] assms(9,10)]
  obtain sent got queued inbox n where ok: "verdict_ok (knows ?me (app_of r0)) (m_my_device_id r0) p0 p"
    and d: "duplex_ok c crc r0 p r sent got queued inbox" and s: "map seen sent = replicate n (ESB_PIPE_DATA, verify_of ?me)"
    and x: "m_state p \<noteq> PAIRING_STATE_VERIFYING \<longrightarrow> (\<exists>x \<in> set inbox. unat (pl_pipe x) < ESB_PIPE_COUNT)"
    by (rule verifying_invE)
  obtain y where y: "y \<in> set inbox" "unat (pl_pipe y) < ESB_PIPE_COUNT" using x assms(11) by blast
  obtain k where k: "map seen got = take (length got) (map seen sent)" "app_of r = fold app_step (map snd (map seen got)) (app_of r0)"
    by (rule taken_of_sent [OF d]) blast
  have "map seen got \<noteq> []" using verdict_received [OF d s assms(9) _ y(2)] y(1) by simp
  moreover have "map snd (map seen got) = replicate (min (length got) n) (verify_of ?me)" unfolding k(1) s by simp
  ultimately have "app_of r = (if knows ?me (app_of r0) then (app_of r0)\<lparr>da_state := DONGLE_VERIFYING\<rparr> else app_of r0)"
    using k(2) arg_cong [OF k(1), of length] s by (auto simp: verifies_mean [OF assms(9)] simp del: fold_replicate)
  then show ?thesis using ok assms(11) by (auto simp: knows_def app_of_def verdict_ok_def)
qed

section \<open>A check\<close>

text \<open>An attempt that gets through and its answer too, at the endpoint.\<close>

lemma attempt_through:
  assumes "duplex_ok c crc r0 p (r :: 'b dongle_scheme) sent got queued inbox" "tx_queue p = [x]" "on_radio_disabled p = OnDisabledTx"
    and "rx_queue p = []" "0 < ESB_RX_FIFO_SIZE c" "rx_queue r = []" "exchange c crc True True rssi ack_rssi p r = (p', r')"
  shows "tx_ok c p'" "tx_queue p' = []" "m_esb_state p' = ESB_STATE_IDLE" "send_view p' = send_view p"
    "\<exists>y w. queued (unat (pl_pipe x)) = on_pipe (unat (pl_pipe x)) inbox @ w \<and>
       rx_queue p' = (if w = [] then [] else [y]) \<and> (w \<noteq> [] \<longrightarrow> pl_data y = hd w)"
proof -
  let ?b = "unat (pl_pipe x)"
  obtain k where i: "air_inv c crc r0 p r sent got k" using assms(1) by (auto simp: duplex_ok_def)
  then have tx: "tx_ok c p" and rx: "rx_ok c r" by (simp_all add: air_inv_def)
  have buf: "tx_payload_buffer p = pdu_of x" and adr: "radio_txaddress p = pl_pipe x" and x: "packet_ok c x"
    using tx assms(2,3) by (auto simp: tx_ok_def)
  have pipe: "?b < ESB_PIPE_COUNT" using x by (simp add: packet_ok_def)
  have room: "rcount (rx_fifo p) < ESB_RX_FIFO_SIZE c" "rcount (rx_fifo r) < ESB_RX_FIFO_SIZE c"
    using assms(4-6) rcount_0_iff [of "rx_fifo p"] rcount_0_iff [of "rx_fifo r"] by simp_all
  define r1 where "r1 = radio_irq_handler c (Some (pdu_of x)) rssi ?b (crc (pl_pipe x) (pdu_of x)) r"
  define r2 where "r2 = (if m_esb_state r1 = ESB_STATE_PRX_SEND_ACK then radio_irq_handler c None 0 0 0 r1 else r1)"
  have st: "m_esb_state r1 = ESB_STATE_PRX_SEND_ACK" using rx_hears(1) [OF rx pipe x r1_def r2_def refl refl] room(2) by simp
  have "p' = radio_irq_handler c (Some (tx_payload_buffer r1)) ack_rssi 0 0 (radio_irq_handler c None 0 0 0 p)"
    using assms(7) st by (auto simp: exchange_def buf adr Let_def simp flip: r1_def)
  then have p': "p' = on_radio_disabled_tx_wait_for_ack c (Some (tx_payload_buffer r1)) ack_rssi (on_radio_disabled_tx p)"
    using assms(3) by (simp add: radio_irq_handler_def on_radio_disabled_tx_def)
  have h: "heard_ok p r queued (inbox @ rx_queue p) ?b" "reply_ok c r" using assms(1) pipe by (simp_all add: duplex_ok_def)
  from taken_packet [OF h(1) i h(2) pipe assms(2) room(2) r1_def r2_def] obtain w where
    w: "queued ?b = on_pipe ?b (inbox @ rx_queue p) @ w" "pdu_data (tx_payload_buffer r1) = (if w = [] then [] else hd w)"
      "w \<noteq> [] \<Longrightarrow> hd w \<noteq> []" "length (pdu_data (tx_payload_buffer r1)) \<le> ESB_MAX_PAYLOAD_LENGTH c" by blast
  note a = answer_heard [OF tx assms(2,3) room(1) w(4) p']
  show "tx_ok c p'" "tx_queue p' = []" "m_esb_state p' = ESB_STATE_IDLE" "send_view p' = send_view p" by (rule a(1-3,5))+
  from a(6) obtain y where y: "rx_queue p' = rx_queue p @ (if pdu_data (tx_payload_buffer r1) = [] then [] else [y])"
    "pl_data y = pdu_data (tx_payload_buffer r1)" by blast
  show "\<exists>y w. queued ?b = on_pipe ?b inbox @ w \<and> rx_queue p' = (if w = [] then [] else [y]) \<and> (w \<noteq> [] \<longrightarrow> pl_data y = hd w)"
    by (rule exI [of _ y], rule exI [of _ w]) (use w y assms(4) in auto)
qed

text \<open>At the dongle: the request is heard, nothing else changes, and the answer is queued.\<close>

lemma request_heard:
  assumes "rx_ok c (r :: 'b dongle_scheme)" "tx_ok c p" "tx_queue p = [x]" "on_radio_disabled p = OnDisabledTx" "rx_queue r = []"
    and "0 < ESB_RX_FIFO_SIZE c" "exchange c crc True True rssi ack_rssi p r = (p', r')"
    and "crc (pl_pipe x) (pdu_of x) \<noteq> pi_crc (rx_pipe_info r ! unat (pl_pipe x))" "ack_pl_wrap_pipe r = [[], []]"
  shows "rx_ok c r'" "\<exists>y. rx_queue r' = [y] \<and> seen y = seen x" "app_of r' = app_of r" "ack_in_use r' = ack_in_use r"
    "tx_fifo r' = tx_fifo r" "m_my_device_id r' = m_my_device_id r"
proof -
  have buf: "tx_payload_buffer p = pdu_of x" and adr: "radio_txaddress p = pl_pipe x" and x: "packet_ok c x"
    using assms(2-4) by (auto simp: tx_ok_def)
  have pipe: "unat (pl_pipe x) < ESB_PIPE_COUNT" using x by (simp add: packet_ok_def)
  define r1 where "r1 = radio_irq_handler c (Some (pdu_of x)) rssi (unat (pl_pipe x)) (crc (pl_pipe x) (pdu_of x)) r"
  define r2 where "r2 = (if m_esb_state r1 = ESB_STATE_PRX_SEND_ACK then radio_irq_handler c None 0 0 0 r1 else r1)"
  have room: "rcount (rx_fifo r) < ESB_RX_FIFO_SIZE c" using assms(5,6) rcount_0_iff [of "rx_fifo r"] by simp
  note h = rx_hears [OF assms(1) pipe x r1_def r2_def refl refl]
  have r': "r' = r2" using assms(7) by (auto simp: exchange_def buf adr r2_def Let_def simp flip: r1_def)
  show "rx_ok c r'" "app_of r' = app_of r" using h(2,3) by (simp_all add: r')
  show "\<exists>y. rx_queue r' = [y] \<and> seen y = seen x" using h(4) room assms(5,8) by (simp add: r' seen_def)
  show "m_my_device_id r' = m_my_device_id r" by (rule exchange_me [OF assms(7)])
  have od: "on_radio_disabled r = OnDisabledRx" using assms(1) by (simp add: rx_ok_def)
  have "unat (pl_pipe x) = 0 \<or> unat (pl_pipe x) = 1" using pipe by (auto simp: ESB_PIPE_COUNT_def)
  then have n: "ack_pl_wrap_pipe r ! unat (pl_pipe x) = []" using assms(9) by auto
  have "ack_in_use r1 = ack_in_use r \<and> tx_fifo r1 = tx_fifo r"
    using n by (simp add: r1_def radio_irq_handler_def on_radio_disabled_rx_def od answer_packet_def
        on_radio_disabled_rx_dpl_def deliver_packet_def rx_fifo_push_rfbuf_def Let_def)
  moreover have "ack_in_use r2 = ack_in_use r1 \<and> tx_fifo r2 = tx_fifo r1"
    by (cases "on_radio_disabled r1") (simp_all add: r2_def radio_irq_handler_def on_radio_disabled_rx_ack_def
        on_radio_disabled_tx_def on_radio_disabled_tx_wait_for_ack_def on_radio_disabled_rx_def Let_def)
  ultimately show "ack_in_use r' = ack_in_use r" "tx_fifo r' = tx_fifo r" by (simp_all add: r')
qed

lemma ack_counts:
  assumes "esb_initialized s" "cfg_mode (esb_cfg s) = ESB_MODE_PRX" "find_free 0 (ack_in_use s) \<noteq> None"
    and "rcount (tx_fifo s) < ESB_TX_FIFO_SIZE c" "encode pkt \<noteq> []" "length (encode pkt) \<le> ESB_MAX_PAYLOAD_LENGTH c"
    and "unat pipe < ESB_PIPE_COUNT"
  shows "rcount (tx_fifo (dongle_ack c pipe pkt s)) = Suc (rcount (tx_fifo s))"
  using assms by (auto simp: dongle_ack_def esb_write_payload_def find_free_payload_cont_def Let_def)

lemma request_answered:
  assumes "rx_ok c (r :: 'b dongle_scheme)" "reply_ok c r" "replies r 0 = []" "replies r 1 = []" "rx_queue r = [y]"
    and "seen y = (ESB_PIPE_DATA, verify_of me)" "length me = 6" "length (m_my_device_id r) = 6" "7 \<le> ESB_MAX_PAYLOAD_LENGTH c"
    and "find_free 0 (ack_in_use r) \<noteq> None" "0 < ESB_TX_FIFO_SIZE c" "r' = esb_evt_irq_handler (dongle_evt_handler c) r"
  shows "replies r' 1 = [verdict (knows me (app_of r)) (m_my_device_id r)]"
proof -
  let ?v = "verdict (knows me (app_of r)) (m_my_device_id r)"
  have ws: "length (ack_pl_wrap_pipe s) = ESB_PIPE_COUNT \<Longrightarrow>
      length (concat (ack_pl_wrap_pipe s)) = length (replies s 0) + length (replies s 1)" for s :: "'b dongle_scheme"
    by (elim reply_queues) (simp add: replies_def)
  have cnt: "rcount (tx_fifo s) = length (replies s 0) + length (replies s 1)" if "reply_ok c s" for s :: "'b dongle_scheme"
    using that ws [of s] by (simp add: reply_ok_def)
  have y: "pl_pipe y = 1" "pl_data y = verify_of me" using assms(6) by (simp_all add: seen_def ESB_PIPE_DATA_def)
  let ?u = "r\<lparr>int_tx_success := False, int_tx_failed := False, int_rx_received := False\<rparr>"
  let ?t = "?u\<lparr>rx_fifo := ring_pop (ESB_RX_FIFO_SIZE c) (rx_fifo ?u)\<rparr>"
  have r: "esb_initialized r" "cfg_mode (esb_cfg r) = ESB_MODE_PRX" "int_rx_received r" "rcount (rx_fifo r) = 1"
    "ring_wf (ESB_RX_FIFO_SIZE c) (rx_fifo r)"
    using assms(1,5) length_ring_list [of "rx_fifo r"] by (simp_all add: rx_ok_def)
  have "ring_head (rx_fifo r) = y" using ring_head_list [OF r(5)] r(4) assms(5) by simp
  moreover have "r' = dongle_rx_loop c 2 ?u"
    using r(3,4) by (simp add: assms(12) esb_evt_irq_handler_def get_and_clear_irqs_def dongle_evt_handler_def Let_def numeral_2_eq_2
        del: dongle_rx_loop.simps)
  ultimately have r': "r' = dongle_packet c y ?t" using one_packet_loop [of ?u c] r(1,2,4) by simp
  have e: "encode (PktVerifyResp (m_my_device_id r)) \<noteq> []" "encode PktDisconnect \<noteq> []"
    "length (encode (PktVerifyResp (m_my_device_id r))) \<le> ESB_MAX_PAYLOAD_LENGTH c"
    "length (encode PktDisconnect) \<le> ESB_MAX_PAYLOAD_LENGTH c" using assms(8,9) by simp_all
  have "rcount (tx_fifo ?t) = 0" using cnt [OF assms(2)] assms(3,4) by simp
  then have a: "rcount (tx_fifo (dongle_ack c (pl_pipe y) pkt ?t)) = 1"
    if "pkt = PktVerifyResp (m_my_device_id r) \<or> pkt = PktDisconnect" for pkt
    using ack_counts [of ?t c pkt "pl_pipe y"] r(1,2) assms(10,11) e that y(1) by (auto simp: ESB_PIPE_COUNT_def)
  have "rcount (tx_fifo r') = 1"
    using a assms(7) unfolding r' by (simp add: dongle_packet_def on_verify_req_def y(2) verify_of_def pkt_type_def pkt_consts
        sizeof_id_pkt_def Let_def del: encode.simps(5))
  moreover have gr: "grows c (\<lambda>b. answers (m_my_device_id r) b (app_of r) [(ESB_PIPE_DATA, verify_of me)]) r r'"
    using event_replies(1) [OF assms(1,2,12)] by (simp add: assms(5,6))
  then have g: "reply_ok c r'" "\<exists>xs. replies r' b = replies r b @ xs \<and>
      subseq xs (answers (m_my_device_id r) b (app_of r) [(ESB_PIPE_DATA, verify_of me)])" if "b < ESB_PIPE_COUNT" for b
    using that unfolding grows_def by blast+
  moreover have "0 < ESB_PIPE_COUNT" "1 < ESB_PIPE_COUNT" by (simp_all add: ESB_PIPE_COUNT_def)
  ultimately obtain xs ys where g: "reply_ok c r'" "replies r' 0 = replies r 0 @ xs" "replies r' 1 = replies r 1 @ ys"
    "subseq xs (answers (m_my_device_id r) 0 (app_of r) [(ESB_PIPE_DATA, verify_of me)])"
    "subseq ys (answers (m_my_device_id r) 1 (app_of r) [(ESB_PIPE_DATA, verify_of me)])" "rcount (tx_fifo r') = 1" by metis
  from g(4-6) have "xs = []" "subseq ys [?v]" "length xs + length ys = 1"
    using cnt [OF g(1)] g(2,3) assms(3,4) by (simp_all add: verify_means(2) [OF assms(7)] ESB_PIPE_DATA_def)
  then show ?thesis using g(3) assms(4) subseq_of_one [of ys ?v] by auto
qed

lemma check_goes_out:
  assumes "tx_ok c p" "tx_queue p = []" "m_esb_state p = ESB_STATE_IDLE" "loud c p" "m_state p = PAIRING_STATE_VERIFYING"
    and "length (m_device_id p) = 6" "7 \<le> ESB_MAX_PAYLOAD_LENGTH c" "0 < ESB_TX_FIFO_SIZE c" "p' = verify_work_fn c p"
  shows "tx_ok c p'" "\<exists>x. tx_queue p' = [x] \<and> seen x = (ESB_PIPE_DATA, verify_of (m_device_id p))" "on_radio_disabled p' = OnDisabledTx"
    "rx_queue p' = rx_queue p" "loud c p'"
proof -
  obtain err q where s: "esb_transport_send c ESB_PIPE_DATA (verify_of (m_device_id p)) p = (err, q)" by fastforce
  have p': "p' = k_work_reschedule VerifyWork (VERIFY_INTERVAL_MS c) q"
    using assms(5,9) s by (simp add: verify_work_fn_def verify_of_def)
  have "length (verify_of (m_device_id p)) \<le> ESB_MAX_PAYLOAD_LENGTH c" using assms(6,7) by (simp add: verify_facts)
  note g = packet_goes_out [OF assms(1-4,8) s verify_facts(1,2,4) this _ refl]
  have q: "same_radio p' q" "loud c p' = loud c q" by (simp_all add: p' same_radio_set(4) reschedule_sends)
  show "tx_ok c p'" "\<exists>x. tx_queue p' = [x] \<and> seen x = (ESB_PIPE_DATA, verify_of (m_device_id p))" "on_radio_disabled p' = OnDisabledTx"
    "rx_queue p' = rx_queue p" "loud c p'"
    using g(1-3,5,8) tx_ok_same_radio [OF q(1)] q by (simp_all add: ESB_PIPE_DATA_def ESB_PIPE_COUNT_def same_radio_def seen_def)
qed

text \<open>An endpoint that has the dongle stored, and the dongle with and without the endpoint in memory.\<close>

definition verifying :: pair where
  "verifying = unpaired\<lparr>m_state := PAIRING_STATE_VERIFYING, m_has_stored_peer := True, m_peer_device_id := [9, 8, 7, 6, 5, 4]\<rparr>"

definition dongle_knowing :: "bool \<Rightarrow> dongle" where
  "dongle_knowing known = dongle_listening\<lparr>d_peer_id := [1, 2, 3, 4, 5, 6], d_has_peer := known\<rparr>"

lemma check_start:
  "air_ready default_kcfg verifying (dongle_knowing known)" "reply_ok default_kcfg (dongle_knowing known)"
  "replies (dongle_knowing known) 0 = []" "replies (dongle_knowing known) 1 = []" "rx_queue verifying = []"
  "m_state verifying = PAIRING_STATE_VERIFYING" "m_has_stored_peer verifying" "length (m_device_id verifying) = 6"
  "length (m_my_device_id (dongle_knowing known)) = 6"
  "tx_queue verifying = []" "m_esb_state verifying = ESB_STATE_IDLE" "loud default_kcfg verifying"
  "knows (m_device_id verifying) (app_of (dongle_knowing known)) = known" "m_my_device_id (dongle_knowing known) = m_peer_device_id verifying"
proof -
  have v: "rx_view (dongle_knowing known) = rx_view dongle_listening" "rx_queue (dongle_knowing known) = rx_queue dongle_listening"
    by (simp_all add: rx_view_def dongle_knowing_def)
  have t: "tx_ok default_kcfg verifying = tx_ok default_kcfg unpaired"
    by (simp add: verifying_def tx_ok_def ptx_inv_def)
  show "air_ready default_kcfg verifying (dongle_knowing known)"
    using unpaired(1) t v by (simp add: air_ready_def rx_ok_def rx_view_def verifying_def)
  have "esb_transport_is_quiet default_kcfg verifying = esb_transport_is_quiet default_kcfg unpaired"
    by (simp add: verifying_def esb_transport_is_quiet_def k_uptime_get_32_def)
  then show "loud default_kcfg verifying" using unpaired(7) by (simp add: loud_def verifying_def)
  show "knows (m_device_id verifying) (app_of (dongle_knowing known)) = known"
    by (simp add: knows_def app_of_def dongle_knowing_def verifying_def unpaired(5))
  have k: "reply_ok default_kcfg (dongle_knowing known) = reply_ok default_kcfg dongle_listening"
    "replies (dongle_knowing known) = replies dongle_listening"
    by (rule reply_view_cong; simp add: dongle_knowing_def)+
  then show "reply_ok default_kcfg (dongle_knowing known)" "replies (dongle_knowing known) 0 = []" "replies (dongle_knowing known) 1 = []"
    using beacon_ready(2-4) by simp_all
  show "rx_queue verifying = []" "tx_queue verifying = []" "m_esb_state verifying = ESB_STATE_IDLE"
    "length (m_device_id verifying) = 6" using unpaired(2,3,5,6) by (simp_all add: verifying_def)
  show "m_state verifying = PAIRING_STATE_VERIFYING" "m_has_stored_peer verifying"
    "length (m_my_device_id (dongle_knowing known)) = 6" "m_my_device_id (dongle_knowing known) = m_peer_device_id verifying"
    by (simp_all add: verifying_def dongle_knowing_def dongle_listening_def)
qed

lemma no_room_needed: "tx_queue p = [] \<Longrightarrow> \<not> esb_tx_full default_kcfg p" "rx_queue p = [] \<Longrightarrow> rcount (rx_fifo p) < ESB_RX_FIFO_SIZE default_kcfg"
  using rcount_0_iff [of "tx_fifo p"] rcount_0_iff [of "rx_fifo p"] by (simp_all add: esb_tx_full_def ring_full_def)

text \<open>The first request gets through, and the dongle's answer is queued for the next.\<close>

lemma asked_dongle:
  obtains p r sent got queued where "verify_run default_kcfg (\<lambda>_ _. 7) verifying (dongle_knowing known) p r"
    "duplex_ok default_kcfg (\<lambda>_ _. 7) (dongle_knowing known) p r sent got queued []"
    "queued 1 = [verdict known (m_peer_device_id verifying)]"
    "tx_ok default_kcfg p" "tx_queue p = []" "m_esb_state p = ESB_STATE_IDLE" "rx_queue p = []" "rx_queue r = []"
    "loud default_kcfg p" "pair_view p = pair_view verifying"
proof -
  let ?run = "verify_run default_kcfg (\<lambda>_ _. 7) verifying (dongle_knowing known)"
  let ?ok = "duplex_ok default_kcfg (\<lambda>_ _. 7) (dongle_knowing known)"
  note s = check_start
  have tx: "tx_ok default_kcfg verifying" and rx: "rx_ok default_kcfg (dongle_knowing known)" using s(1) [of known] by (simp_all add: air_ready_def)
  have "\<forall>b < ESB_PIPE_COUNT. replies (dongle_knowing known) b = []" using s(3,4) by (auto simp: pipe_cases)
  note d0 = duplex_ok_start [OF s(1,2) this s(5), of "\<lambda>_ _. 7"]
  define p1 where "p1 = verify_work_fn default_kcfg verifying"
  have run1: "?run p1 (dongle_knowing known)"
    unfolding p1_def by (rule verify_run.verify [OF verify_run.start no_room_needed(1) [OF s(10)]])
  note g = check_goes_out [OF tx s(10-12,6,8) _ _ p1_def, simplified]
  obtain x where x: "tx_queue p1 = [x]" "seen x = (ESB_PIPE_DATA, verify_of (m_device_id verifying))" using g(2) by blast
  obtain sent where d1: "?ok p1 (dongle_knowing known) sent [] (\<lambda>_. []) []"
    using duplex_ok_verify [OF d0 no_room_needed(1) [OF s(10)]] unfolding p1_def by blast
  have q1: "rx_queue p1 = []" "rx_queue (dongle_knowing known) = []"
    using g(4) s(5) by (simp_all add: dongle_knowing_def dongle_listening_def dongle_connected_def ring_list_def)
  obtain p2 r2 where e: "exchange default_kcfg (\<lambda>_ _. 7) True True 0 0 p1 (dongle_knowing known) = (p2, r2)" by fastforce
  note att = duplex_run.attempt [OF duplex_run.start g(3) no_room_needed(2) [OF q1(1)] e]
  note d2 = duplex_ok_attempt [OF d1 g(3) no_room_needed(2) [OF q1(1)] e]
  have run2: "?run p2 r2" by (rule verify_run.air [OF run1 att])
  note a = attempt_through [OF d1 x(1) g(3) q1(1) _ q1(2) e]
  have p2: "tx_ok default_kcfg p2" "tx_queue p2 = []" "m_esb_state p2 = ESB_STATE_IDLE" "send_view p2 = send_view p1"
    "rx_queue p2 = []" using a by (auto split: if_splits)
  have k: "ack_pl_wrap_pipe (dongle_knowing known) = [[], []]" "pi_crc (rx_pipe_info (dongle_knowing known) ! unat (pl_pipe x)) = 0"
    "ack_in_use (dongle_knowing known) = replicate 8 False"
    using x(2) by (simp_all add: seen_def dongle_knowing_def dongle_listening_def dongle_connected_def dongle_boot_def
        ESB_PIPE_DATA_def numeral_2_eq_2)
  note h = request_heard [OF rx g(1) x(1) g(3) q1(2) _ e _ k(1)]
  obtain y where y: "rx_queue r2 = [y]" "seen y = (ESB_PIPE_DATA, verify_of (m_device_id verifying))"
    using h(2) k(2) x(2) by auto
  have r2: "rx_ok default_kcfg r2" "app_of r2 = app_of (dongle_knowing known)" "ack_in_use r2 = replicate 8 False"
    "m_my_device_id r2 = m_my_device_id (dongle_knowing known)" using h(1,3,4,6) k(2,3) by simp_all
  have rep: "reply_ok default_kcfg r2" "replies r2 0 = []" "replies r2 1 = []"
    using d2 by (auto simp: duplex_ok_def heard_ok_def pipe_cases)
  define r3 where "r3 = esb_evt_irq_handler (dongle_evt_handler default_kcfg) r2"
  have run3: "?run p2 r3" by (rule verify_run.air [OF run2 duplex_run.event [OF duplex_run.start r3_def]])
  note d3 = duplex_ok_event [OF d2 r3_def]
  have "replies r3 1 = [verdict (knows (m_device_id verifying) (app_of r2)) (m_my_device_id r2)]"
    by (rule request_answered [OF r2(1) rep y s(8) _ _ _ _ r3_def]) (simp_all add: r2(3,4) s(9) beacon_free)
  then have q: "[] @ drop (length (replies r2 1)) (replies r3 1) = [verdict known (m_peer_device_id verifying)]"
    using rep(3) by (simp add: r2(2,4) s(13,14))
  have "pair_view p1 = pair_view verifying" unfolding p1_def by (rule verify_keeps_pair)
  then have v: "loud default_kcfg p2" "pair_view p2 = pair_view verifying"
    using send_view_loud [OF p2(4)] p2(4) g(5) by (simp_all add: send_view_def)
  have "rx_queue r3 = []" by (rule rx_event(2) [OF r2(1) r3_def])
  from that [OF run3 d3 q p2(1-3,5) this v] show ?thesis .
qed

text \<open>The second request brings the answer back.\<close>

lemma checked_run:
  "\<exists>p r. verify_run default_kcfg (\<lambda>_ _. 7) verifying (dongle_knowing known) p r \<and>
     m_state p = (if known then PAIRING_STATE_CONNECTED else PAIRING_STATE_UNPAIRED)"
proof (rule asked_dongle [of known])
  let ?run = "verify_run default_kcfg (\<lambda>_ _. 7) verifying (dongle_knowing known)"
  let ?ok = "duplex_ok default_kcfg (\<lambda>_ _. 7) (dongle_knowing known)"
  fix p r sent got queued assume run: "?run p r" and d: "?ok p r sent got queued []"
    and q: "queued 1 = [verdict known (m_peer_device_id verifying)]" and p: "tx_ok default_kcfg p" "tx_queue p = []"
      "m_esb_state p = ESB_STATE_IDLE" "rx_queue p = []" "rx_queue r = []" "loud default_kcfg p" and v: "pair_view p = pair_view verifying"
  note s = check_start
  have me: "m_state p = PAIRING_STATE_VERIFYING" "length (m_device_id p) = 6" using pair_view_fields [OF v] s(6,8) by simp_all
  define p1 where "p1 = verify_work_fn default_kcfg p"
  have run1: "?run p1 r" unfolding p1_def by (rule verify_run.verify [OF run no_room_needed(1) [OF p(2)]])
  note g = check_goes_out [OF p(1-3,6) me _ _ p1_def, simplified]
  obtain x where x: "tx_queue p1 = [x]" "seen x = (ESB_PIPE_DATA, verify_of (m_device_id p))" using g(2) by blast
  obtain sent' where d1: "?ok p1 r sent' got queued []"
    using duplex_ok_verify [OF d no_room_needed(1) [OF p(2)]] unfolding p1_def by blast
  have q1: "rx_queue p1 = []" using g(4) p(4) by simp
  obtain p2 r2 where e: "exchange default_kcfg (\<lambda>_ _. 7) True True 0 0 p1 r = (p2, r2)" by fastforce
  note att = duplex_run.attempt [OF duplex_run.start g(3) no_room_needed(2) [OF q1] e]
  have run2: "?run p2 r2" by (rule verify_run.air [OF run1 att])
  note a = attempt_through [OF d1 x(1) g(3) q1 _ p(5) e, simplified]
  have pipe: "unat (pl_pipe x) = 1" using x(2) by (simp add: seen_def ESB_PIPE_DATA_def)
  obtain y where y: "rx_queue p2 = [y]" "pl_data y = verdict known (m_peer_device_id verifying)"
    using a(5) q unfolding pipe by (auto simp: on_pipe_def)
  have "pair_view p1 = pair_view verifying" using verify_keeps_pair [of default_kcfg p] v unfolding p1_def by simp
  then have v2: "pair_view p2 = pair_view verifying" "loud default_kcfg p2"
    using a(4) send_view_loud [OF a(4)] g(5) by (simp_all add: send_view_def)
  have "esb_initialized p2" using v2(2) by (simp add: loud_def)
  from reading [OF a(1) this y(1)] obtain t where t: "esb_read_rx_payload default_kcfg p2 = (Inr y, t)" by blast
  have vt: "pair_view t = pair_view verifying" using radio_keeps_pair(6) [of default_kcfg p2] t v2(1) by simp
  have "verdict_ok known (m_peer_device_id verifying) verifying t"
    unfolding verdict_ok_view [OF vt] using s(6,7) by (simp add: verdict_ok_def)
  from verdict_taken(3) [OF _ y(2) _ this refl] have
    "m_state (pairing_on_rx default_kcfg (pl_data y) (length (pl_data y)) t) =
      (if known then PAIRING_STATE_CONNECTED else PAIRING_STATE_UNPAIRED)" using s(9,14) by simp
  moreover have "?run (pairing_on_rx default_kcfg (pl_data y) (length (pl_data y)) t) r2"
    by (rule verify_run.receives [OF run2 t]) simp
  ultimately show ?thesis by blast
qed

theorem check_decides_witness:
  "(\<exists>p r. verify_run default_kcfg (\<lambda>_ _. 7) verifying (dongle_knowing True) p r \<and> m_state p = PAIRING_STATE_CONNECTED \<and>
      m_has_stored_peer p \<and> d_state r = DONGLE_VERIFYING) \<and>
   (\<exists>p r. verify_run default_kcfg (\<lambda>_ _. 7) verifying (dongle_knowing False) p r \<and> m_state p = PAIRING_STATE_UNPAIRED \<and>
      \<not> m_has_stored_peer p \<and> settings_paired p = Some [0, 0, 0, 0, 0, 0, 0])"
proof -
  have k: "d_has_peer (dongle_knowing known) = known" "d_peer_id (dongle_knowing known) = m_device_id verifying" for known
    by (simp_all add: dongle_knowing_def verifying_def unpaired(5))
  obtain p r where t: "verify_run default_kcfg (\<lambda>_ _. 7) verifying (dongle_knowing True) p r" "m_state p = PAIRING_STATE_CONNECTED"
    using checked_run [of True] by auto
  obtain p' r' where f: "verify_run default_kcfg (\<lambda>_ _. 7) verifying (dongle_knowing False) p' r'" "m_state p' = PAIRING_STATE_UNPAIRED"
    using checked_run [of False] by auto
  note T = check_decides [OF t(1) check_start(1-9)] and F = check_decides [OF f(1) check_start(1-9)]
  have "m_has_stored_peer p \<and> d_state r = DONGLE_VERIFYING" using T t(2) by (simp add: k)
  moreover have "\<not> m_has_stored_peer p' \<and> settings_paired p' = Some [0, 0, 0, 0, 0, 0, 0]"
    using F f(2) by (simp add: k zero_id_def numeral_eq_Suc)
  ultimately show ?thesis using t f by blast
qed

end
