(* ===== verification/UsbHid.thy ===== *)
theory UsbHid
  imports Air InputProcessor
begin

text \<open>
  The reports the dongle writes to USB against the report descriptor it gives to the host, \<open>hid_report_desc\<close> in
  \<open>dongle/src/main.c\<close>. \<open>hid_fields\<close> reads a descriptor the way the USB HID specification says a host does: short
  items, global items that stay in force, local items that last to the next main item, input fields laid
  out one behind the other for each report ID.
\<close>

section \<open>The descriptor\<close>

definition hid_report_desc :: "u8 list" where
  "hid_report_desc =
   [0x05, 0x01, 0x09, 0x06, 0xA1, 0x01, 0x85, 0x01, 0x05, 0x07, 0x19, 0xE0, 0x29, 0xE7, 0x15, 0x00,
    0x25, 0x01, 0x75, 0x01, 0x95, 0x08, 0x81, 0x02, 0x95, 0x01, 0x75, 0x08, 0x81, 0x01, 0x95, 0x06,
    0x75, 0x08, 0x15, 0x00, 0x25, 0x65, 0x05, 0x07, 0x19, 0x00, 0x29, 0x65, 0x81, 0x00, 0xC0,
    0x05, 0x0C, 0x09, 0x01, 0xA1, 0x01, 0x85, 0x02, 0x15, 0x00, 0x25, 0x01, 0x09, 0xCD,
    0x0A, 0x00, 0x02, 0x0A, 0x01, 0x02, 0x0A, 0x23, 0x02, 0x0A, 0x6F, 0x02, 0x0A, 0x70, 0x02,
    0x0A, 0xEA, 0x01, 0x75, 0x01, 0x95, 0x10, 0x81, 0x02, 0xC0, 0x05, 0x01, 0x09, 0x02, 0xA1, 0x01,
    0x85, 0x03, 0x09, 0x01, 0xA1, 0x00, 0x05, 0x09, 0x19, 0x01, 0x29, 0x05, 0x15, 0x00, 0x25, 0x01,
    0x75, 0x01, 0x95, 0x05, 0x81, 0x02, 0x95, 0x03, 0x81, 0x01, 0x05, 0x01, 0x09, 0x30, 0x09, 0x31,
    0x09, 0x38, 0x15, 0x81, 0x25, 0x7F, 0x75, 0x08, 0x95, 0x03, 0x81, 0x06, 0x05, 0x0C,
    0x0A, 0x38, 0x02, 0x15, 0x81, 0x25, 0x7F, 0x75, 0x08, 0x95, 0x01, 0x81, 0x06, 0xC0, 0xC0]"

section \<open>Reading a descriptor\<close>

text \<open>A short item: the tag and type bits of its prefix, and its data, little endian.\<close>

definition item_length :: "u8 \<Rightarrow> nat" where
  "item_length b = (if b AND 3 = 3 then 4 else unat (b AND 3))"

definition item_value :: "u8 list \<Rightarrow> nat" where
  "item_value bs = foldr (\<lambda>b v. unat b + 256 * v) bs 0"

function hid_items :: "u8 list \<Rightarrow> (u8 \<times> nat) list" where
  "hid_items [] = []"
| "hid_items (b # bs) = (b AND 0xFC, item_value (take (item_length b) bs)) # hid_items (drop (item_length b) bs)"
  by pat_completeness auto
termination by (relation "measure length") auto

text \<open>An input field: report ID, offset in bits behind the ID, size and count, usages, constant or not.\<close>

record hid_field =
  hf_id :: nat
  hf_offset :: nat
  hf_size :: nat
  hf_count :: nat
  hf_usages :: "nat list"
  hf_const :: bool

record hid_parse =
  hp_id :: nat
  hp_size :: nat
  hp_count :: nat
  hp_usages :: "nat list"
  hp_min :: nat
  hp_depth :: int
  hp_fields :: "hid_field list"

definition field_bits :: "nat \<Rightarrow> hid_field list \<Rightarrow> nat" where
  "field_bits i fs = sum_list (map (\<lambda>f. if hf_id f = i then hf_size f * hf_count f else 0) fs)"

definition clear_locals :: "hid_parse \<Rightarrow> hid_parse" where
  "clear_locals p = p\<lparr>hp_usages := [], hp_min := 0\<rparr>"

definition hid_item :: "u8 \<times> nat \<Rightarrow> hid_parse \<Rightarrow> hid_parse" where
  "hid_item it p =
     (case it of (tag, v) \<Rightarrow>
        if tag = 0x74 then p\<lparr>hp_size := v\<rparr>
        else if tag = 0x94 then p\<lparr>hp_count := v\<rparr>
        else if tag = 0x84 then p\<lparr>hp_id := v\<rparr>
        else if tag = 0x08 then p\<lparr>hp_usages := hp_usages p @ [v]\<rparr>
        else if tag = 0x18 then p\<lparr>hp_min := v\<rparr>
        else if tag = 0x28 then p\<lparr>hp_usages := hp_usages p @ [hp_min p..<Suc v]\<rparr>
        else if tag = 0xA0 then clear_locals (p\<lparr>hp_depth := hp_depth p + 1\<rparr>)
        else if tag = 0xC0 then clear_locals (p\<lparr>hp_depth := hp_depth p - 1\<rparr>)
        else if tag = 0x80
        then clear_locals (p\<lparr>hp_fields := hp_fields p @
               [\<lparr>hf_id = hp_id p, hf_offset = field_bits (hp_id p) (hp_fields p), hf_size = hp_size p,
                 hf_count = hp_count p, hf_usages = hp_usages p, hf_const = odd v\<rparr>]\<rparr>)
        else p)"

definition hid_parse_desc :: "u8 list \<Rightarrow> hid_parse" where
  "hid_parse_desc bs = fold hid_item (hid_items bs)
     \<lparr>hp_id = 0, hp_size = 0, hp_count = 0, hp_usages = [], hp_min = 0, hp_depth = 0, hp_fields = []\<rparr>"

definition hid_fields :: "u8 list \<Rightarrow> hid_field list" where
  "hid_fields bs = hp_fields (hid_parse_desc bs)"

text \<open>The bytes a report with ID \<open>i\<close> has behind the ID.\<close>

definition declared_bytes :: "nat \<Rightarrow> nat" where
  "declared_bytes i = field_bits i (hid_fields hid_report_desc) div 8"

lemma desc_items:
  "hid_items hid_report_desc =
     [(0x04, 1), (0x08, 6), (0xA0, 1), (0x84, 1), (0x04, 7), (0x18, 224), (0x28, 231), (0x14, 0),
      (0x24, 1), (0x74, 1), (0x94, 8), (0x80, 2), (0x94, 1), (0x74, 8), (0x80, 1), (0x94, 6),
      (0x74, 8), (0x14, 0), (0x24, 101), (0x04, 7), (0x18, 0), (0x28, 101), (0x80, 0), (0xC0, 0),
      (0x04, 12), (0x08, 1), (0xA0, 1), (0x84, 2), (0x14, 0), (0x24, 1), (0x08, 205), (0x08, 512),
      (0x08, 513), (0x08, 547), (0x08, 623), (0x08, 624), (0x08, 490), (0x74, 1), (0x94, 16),
      (0x80, 2), (0xC0, 0), (0x04, 1), (0x08, 2), (0xA0, 1), (0x84, 3), (0x08, 1), (0xA0, 0),
      (0x04, 9), (0x18, 1), (0x28, 5), (0x14, 0), (0x24, 1), (0x74, 1), (0x94, 5), (0x80, 2),
      (0x94, 3), (0x80, 1), (0x04, 1), (0x08, 48), (0x08, 49), (0x08, 56), (0x14, 129), (0x24, 127),
      (0x74, 8), (0x94, 3), (0x80, 6), (0x04, 12), (0x08, 568), (0x14, 129), (0x24, 127), (0x74, 8),
      (0x94, 1), (0x80, 6), (0xC0, 0), (0xC0, 0)]"
  by (simp add: hid_report_desc_def item_length_def item_value_def)

lemma desc_parsed:
  "map (\<lambda>f. (hf_id f, hf_offset f, hf_size f, hf_count f)) (hid_fields hid_report_desc) =
     [(1, 0, 1, 8), (1, 8, 8, 1), (1, 16, 8, 6), (2, 0, 1, 16), (3, 0, 1, 5), (3, 5, 1, 3), (3, 8, 8, 3), (3, 32, 8, 1)]"
  "map hf_usages (hid_fields hid_report_desc) =
     [[224..<232], [], [0..<102], [0xCD, 0x200, 0x201, 0x223, 0x26F, 0x270, 0x1EA], [1..<6], [], [0x30, 0x31, 0x38], [0x238]]"
  "hp_depth (hid_parse_desc hid_report_desc) = 0"
  by (simp_all add: hid_fields_def hid_parse_desc_def desc_items hid_item_def clear_locals_def field_bits_def
     del: upt_rec_numeral upt_Suc upt.simps)

lemma declared: "declared_bytes 1 = 8" "declared_bytes 2 = 2" "declared_bytes 3 = 5"
  "declared_bytes (Suc 0) = 8"
  using desc_parsed(1) by (auto simp: declared_bytes_def field_bits_def map_eq_Cons_conv)

section \<open>Report types\<close>

text \<open>A report as the descriptor declares it, except that a mouse report has one byte more.\<close>

definition usb_report_ok :: "u8 list \<Rightarrow> bool" where
  "usb_report_ok r \<longleftrightarrow> r \<noteq> [] \<and> hd r \<in> {1, 2, 3} \<and>
     length r = 1 + declared_bytes (unat (hd r)) + (if hd r = 3 then 1 else 0)"

lemma usb_report_lengths: "length (usb_report i n bs) = Suc n" "hd (usb_report i n bs) = i" "usb_report i n bs \<noteq> []"
  by (simp_all add: usb_report_def)

lemma usb_of_typed: "\<forall>r \<in> set (usb_of bs). usb_report_ok r"
  by (simp add: usb_of_def usb_report_ok_def usb_report_lengths declared)

lemma usb_handlers:
  "usb_out (dongle_ack c pipe pkt s) = usb_out s"
  "usb_out (on_beacon c pipe bs s) = usb_out s" "usb_out (on_verify_req c pipe bs s) = usb_out s"
  "usb_out (on_hid_report bs s) =
     usb_out s @ (if d_state s \<in> {DONGLE_CONNECTED, DONGLE_VERIFYING} then usb_of bs else [])"
proof -
  show a: "usb_out (dongle_ack c pipe pkt s) = usb_out s" for pipe pkt and s :: "'a dongle_scheme"
    by (simp add: dongle_ack_def esb_write_payload_def start_tx_transaction_def Let_def split: option.split)
  show "usb_out (on_beacon c pipe bs s) = usb_out s" "usb_out (on_verify_req c pipe bs s) = usb_out s"
    by (simp_all add: on_beacon_def on_verify_req_def a Let_def)
  show "usb_out (on_hid_report bs s) =
     usb_out s @ (if d_state s \<in> {DONGLE_CONNECTED, DONGLE_VERIFYING} then usb_of bs else [])"
    using arg_cong [OF handler_app(1) [of bs s], of da_usb] by (simp add: app_of_def)
qed

lemma usb_packet:
  "usb_out (dongle_packet c x s) = usb_out s \<or> usb_out (dongle_packet c x s) = usb_out s @ usb_of (pl_data x)"
  by (simp add: dongle_packet_def usb_handlers Let_def)

lemma usb_loop:
  "\<forall>r \<in> set (usb_out s). usb_report_ok r \<Longrightarrow> \<forall>r \<in> set (usb_out (dongle_rx_loop c n s)). usb_report_ok r"
proof (induction n arbitrary: s)
  case (Suc n)
  obtain res t where t: "esb_read_rx_payload c s = (res, t)" by fastforce
  have "usb_out t = usb_out s" using t by (auto simp: esb_read_rx_payload_def split: if_splits)
  then have "\<forall>r \<in> set (usb_out t). usb_report_ok r" using Suc.prems by simp
  moreover from this have "\<forall>r \<in> set (usb_out (dongle_packet c x t)). usb_report_ok r" for x
    using usb_packet [of c x t] usb_of_typed [of "pl_data x"] by auto
  ultimately show ?case
  proof (cases res)
    case (Inr x)
    then have "dongle_rx_loop c (Suc n) s = dongle_rx_loop c n (dongle_packet c x t)" by (simp add: t)
    then show ?thesis using Suc.IH [OF \<open>\<And>x. \<forall>r \<in> set (usb_out (dongle_packet c x t)). usb_report_ok r\<close>, of x] by (simp only:)
  qed (simp add: t)
qed simp

text \<open>
  C38. The dongle only writes typed reports to USB: each begins with a report ID of the descriptor and is as
  long as the descriptor declares for that ID, except that a mouse report is always one byte too long.
\<close>

theorem usb_reports_typed:
  assumes "\<forall>r \<in> set (usb_out s). usb_report_ok r"
  shows "\<forall>r \<in> set (usb_out (esb_evt_irq_handler (dongle_evt_handler c) s)). usb_report_ok r"
proof -
  define u where "u = snd (get_and_clear_irqs s)"
  have u: "usb_out u = usb_out s" by (simp add: u_def get_and_clear_irqs_def)
  have "esb_evt_irq_handler (dongle_evt_handler c) s = u \<or>
      esb_evt_irq_handler (dongle_evt_handler c) s = dongle_rx_loop c (Suc (rcount (rx_fifo u))) u"
    by (simp add: u_def esb_evt_irq_handler_def dongle_evt_handler_def get_and_clear_irqs_def Let_def
        del: dongle_rx_loop.simps)
  then show ?thesis
  proof
    assume "esb_evt_irq_handler (dongle_evt_handler c) s = u"
    then show ?thesis using assms by (simp only: u)
  next
    assume e: "esb_evt_irq_handler (dongle_evt_handler c) s = dongle_rx_loop c (Suc (rcount (rx_fifo u))) u"
    show ?thesis unfolding e by (rule usb_loop) (use assms in \<open>simp only: u\<close>)
  qed
qed

theorem usb_reports_typed_witness: "list_all usb_report_ok (usb_out key_a_handled)"
proof -
  have "\<forall>r \<in> set (usb_out (snd key_a_acked)). usb_report_ok r" by (simp add: key_a_run(4))
  from usb_reports_typed [OF this, of default_kcfg] show ?thesis by (simp add: list_all_iff key_a_handled_def)
qed

section \<open>The mouse as the host sees it\<close>

text \<open>The value of an eight-bit usage in a report.\<close>

definition host_axis :: "nat \<Rightarrow> u8 list \<Rightarrow> int option" where
  "host_axis u r =
     (case find (\<lambda>f. hf_id f = unat (hd r) \<and> hf_size f = 8 \<and> u \<in> set (hf_usages f)) (hid_fields hid_report_desc) of
        None \<Rightarrow> None
      | Some f \<Rightarrow> Some (sint (tl r ! (hf_offset f div 8 + length (takeWhile (\<lambda>v. v \<noteq> u) (hf_usages f))))))"

lemma host_axes:
  "host_axis 0x30 (3 # bs) = Some (sint (bs ! 1))" "host_axis 0x31 (3 # bs) = Some (sint (bs ! 2))"
  "host_axis 0x38 (3 # bs) = Some (sint (bs ! 3))" "host_axis 0x238 (3 # bs) = Some (sint (bs ! 4))"
  using desc_parsed(1,2) by (auto simp: host_axis_def map_eq_Cons_conv) (simp_all add: numeral_2_eq_2 numeral_3_eq_3)

text \<open>
  C39. A mouse report reaches the host with its axes mixed up: the endpoint sends 16-bit axes, the descriptor
  declares 8-bit ones, and the dongle copies the bytes as they are. The host takes the two bytes of the
  horizontal motion for X and Y, and those of the vertical motion for the wheel and the pan; the scroll
  axes are lost.
\<close>

theorem mouse_axes_mixed:
  assumes "d_state s \<in> {DONGLE_CONNECTED, DONGLE_VERIFYING}"
    and "x = le16 (sat16 dx)" "y = le16 (sat16 dy)"
  shows "\<exists>r. usb_out (on_hid_report (mouse_pkt_bytes c buttons dx dy scroll_x scroll_y) s) = usb_out s @ [r] \<and>
    host_axis 0x30 r = Some (sint (x ! 0)) \<and> host_axis 0x31 r = Some (sint (x ! 1)) \<and>
    host_axis 0x38 r = Some (sint (y ! 0)) \<and> host_axis 0x238 r = Some (sint (y ! 1))"
proof -
  have "length (le16 v) = 2" for v by (simp add: le16_def)
  then obtain x0 x1 y0 y1 where xy: "x = [x0, x1]" "y = [y0, y1]"
    unfolding assms(2,3) by (metis (no_types, lifting) length_0_conv length_Suc_conv numeral_2_eq_2)
  have u: "usb_of (mouse_pkt_bytes c buttons dx dy scroll_x scroll_y) =
      [3 # buttons # x @ y @ [le16 (sat16 scroll_y) ! 0]]"
    using assms(2,3) xy by (simp add: usb_of_def mouse_pkt_bytes_def mouse_body_bytes_def usb_report_def pkt_consts
      le16_def Let_def)
  show ?thesis using assms(1) by (simp add: usb_handlers u host_axes xy)
qed

text \<open>Moving down by three counts scrolls the wheel.\<close>

theorem mouse_axes_mixed_witness:
  "\<exists>r. usb_out (on_hid_report (mouse_pkt_bytes default_kcfg 0 0 3 0 0) dongle_connected) = [r] \<and>
    host_axis 0x31 r = Some 0 \<and> host_axis 0x38 r = Some 3"
proof -
  have "d_state dongle_connected \<in> {DONGLE_CONNECTED, DONGLE_VERIFYING}" "usb_out dongle_connected = []"
    by (simp_all add: dongle_connected_def dongle_boot_def)
  then show ?thesis
    using mouse_axes_mixed [OF _ refl refl, of dongle_connected default_kcfg 0 0 3 0 0]
    by (auto simp: le16_def sat16_def)
qed

end
