(* ===== verification/VectorTable.thy ===== *)
theory VectorTable
  imports Prelude
begin

text \<open>
  The interrupt vectors: \<open>install_ram_vtor\<close> and the vector swap of a radio slot in
  \<open>src/esb/esb_transport.c\<close>, and the dongle's own \<open>install_ram_vtor\<close> in \<open>dongle/src/main.c\<close>.
  Memory and device registers are one map from word addresses to words; \<open>ram\<close> is where the linker put
  \<open>m_ram_vtor\<close>, \<open>handler\<close> the address of \<open>z_arm_irq_direct_dynamic_dispatch_reschedule\<close>. The lock taken
  around a single store and the barriers have no effect on a run of one core.
\<close>

section \<open>Memory\<close>

type_synonym memory = "u32 \<Rightarrow> u32"

definition SCB_VTOR :: u32 where "SCB_VTOR = 0xE000ED08"
definition NVIC_NUM_VECTORS :: nat where "NVIC_NUM_VECTORS = 64"
definition RADIO_IRQn :: nat where "RADIO_IRQn = 1"

lemmas vector_consts = SCB_VTOR_def NVIC_NUM_VECTORS_def RADIO_IRQn_def

text \<open>The \<open>i\<close>-th word behind an address, and \<open>memcpy\<close> of \<open>n\<close> words.\<close>

definition word_at :: "u32 \<Rightarrow> nat \<Rightarrow> u32" where
  "word_at a i = a + 4 * of_nat i"

definition memcpy_words :: "u32 \<Rightarrow> u32 \<Rightarrow> nat \<Rightarrow> memory \<Rightarrow> memory" where
  "memcpy_words dst src n m = fold (\<lambda>i m. m(word_at dst i := m (word_at src i))) [0..<n] m"

text \<open>The handler the processor fetches for exception \<open>n\<close>.\<close>

definition vector :: "memory \<Rightarrow> nat \<Rightarrow> u32" where
  "vector m n = m (word_at (m SCB_VTOR) n)"

section \<open>The endpoint\<close>

record vectors =
  vt_mem :: memory
  vt_installed :: bool
  saved_radio_vector :: u32

definition install_ram_vtor :: "u32 \<Rightarrow> vectors \<Rightarrow> vectors" where
  "install_ram_vtor ram s =
     (if vt_installed s then s
      else
        (let m = memcpy_words ram (vt_mem s SCB_VTOR) NVIC_NUM_VECTORS (vt_mem s)
         in s\<lparr>vt_mem := m(SCB_VTOR := ram), vt_installed := True,
              saved_radio_vector := m (word_at ram (16 + RADIO_IRQn))\<rparr>))"

text \<open>The vector part of \<open>esb_transport_on_slot_start\<close>, which is skipped when the radio does not start, and of
  \<open>esb_transport_on_slot_stop\<close>.\<close>

definition slot_start_vector :: "u32 \<Rightarrow> u32 \<Rightarrow> bool \<Rightarrow> vectors \<Rightarrow> vectors" where
  "slot_start_vector ram handler started s =
     (if started then s\<lparr>vt_mem := (vt_mem s)(word_at ram (16 + RADIO_IRQn) := handler)\<rparr> else s)"

definition slot_stop_vector :: "u32 \<Rightarrow> vectors \<Rightarrow> vectors" where
  "slot_stop_vector ram s =
     (if vt_installed s then s\<lparr>vt_mem := (vt_mem s)(word_at ram (16 + RADIO_IRQn) := saved_radio_vector s)\<rparr> else s)"

datatype vector_step = TransportInit | SlotStart bool | SlotStop

fun vector_do :: "u32 \<Rightarrow> u32 \<Rightarrow> vector_step \<Rightarrow> vectors \<Rightarrow> vectors" where
  "vector_do ram handler TransportInit s = install_ram_vtor ram s"
| "vector_do ram handler (SlotStart started) s = slot_start_vector ram handler started s"
| "vector_do ram handler SlotStop s = slot_stop_vector ram s"

text \<open>Whether the radio belongs to the endpoint after some steps.\<close>

fun radio_owner :: "vector_step \<Rightarrow> bool \<Rightarrow> bool" where
  "radio_owner TransportInit b = b"
| "radio_owner (SlotStart started) b = (started \<or> b)"
| "radio_owner SlotStop b = False"

section \<open>The dongle\<close>

text \<open>Here the address of the register, not its content, is taken for the old table.\<close>

definition dongle_install_ram_vtor :: "u32 \<Rightarrow> u32 \<Rightarrow> memory \<Rightarrow> memory" where
  "dongle_install_ram_vtor ram handler m =
     (let flash_vtor = SCB_VTOR;
          m = memcpy_words ram flash_vtor NVIC_NUM_VECTORS m;
          m = m(word_at ram (16 + RADIO_IRQn) := handler)
      in m(SCB_VTOR := ram))"

section \<open>Copying\<close>

text \<open>The old table below the new one, the new one below the system registers.\<close>

definition memory_map :: "u32 \<Rightarrow> u32 \<Rightarrow> bool" where
  "memory_map table ram \<longleftrightarrow> unat table + 256 \<le> unat ram \<and> unat ram + 256 \<le> unat SCB_VTOR"

lemma unat_word_at:
  assumes "unat a + 256 \<le> 2 ^ 32" "i < 64"
  shows "unat (word_at a i) = unat a + 4 * i"
proof -
  have "unat (of_nat (4 * i) :: u32) = 4 * i" 
    using assms(2) by (simp add: unsigned_of_nat take_bit_nat_eq_self del: of_nat_mult)
  moreover from this have "unat (a + of_nat (4 * i)) = unat a + 4 * i"
    using assms unat_add_lem [of a "of_nat (4 * i)"] by (simp del: of_nat_mult)
  ultimately show ?thesis by (simp add: word_at_def)
qed

lemma memcpy_words_at:
  assumes "\<And>i j. i < n \<Longrightarrow> j < n \<Longrightarrow> word_at dst i \<noteq> word_at src j"
    and "\<And>i j. i < n \<Longrightarrow> j < n \<Longrightarrow> word_at dst i = word_at dst j \<Longrightarrow> i = j"
  shows "i < n \<Longrightarrow> memcpy_words dst src n m (word_at dst i) = m (word_at src i)"
    and "(\<And>i. i < n \<Longrightarrow> a \<noteq> word_at dst i) \<Longrightarrow> memcpy_words dst src n m a = m a"
proof -
  have r: "(\<forall>i < k. memcpy_words dst src k m (word_at dst i) = m (word_at src i)) \<and>
      (\<forall>a. (\<forall>i < k. a \<noteq> word_at dst i) \<longrightarrow> memcpy_words dst src k m a = m a)" if "k \<le> n" for k
    using that
  proof (induction k)
    case (Suc k)
    then have k: "k < n" by simp
    have "\<forall>i < k. word_at src k \<noteq> word_at dst i" using assms(1) [OF less_trans [OF _ k] k] by metis
    with Suc k have "memcpy_words dst src k m (word_at src k) = m (word_at src k)" by simp
    then have s: "memcpy_words dst src (Suc k) m = (memcpy_words dst src k m)(word_at dst k := m (word_at src k))"
      by (simp add: memcpy_words_def)
    have "\<forall>i < k. word_at dst i \<noteq> word_at dst k" using assms(2) [OF less_trans [OF _ k] k] by fastforce
    with Suc k show ?case by (simp add: s less_Suc_eq)
  qed (simp add: memcpy_words_def)
  show "i < n \<Longrightarrow> memcpy_words dst src n m (word_at dst i) = m (word_at src i)"
    "(\<And>i. i < n \<Longrightarrow> a \<noteq> word_at dst i) \<Longrightarrow> memcpy_words dst src n m a = m a"
    using r [OF order_refl] by blast+
qed

text \<open>The table copied to a RAM array that overlaps neither its source nor the register.\<close>

lemma table_copied:
  assumes "unat src + 256 \<le> unat ram \<or> unat ram + 256 \<le> unat src" "unat src + 256 \<le> 2 ^ 32"
    "unat ram + 256 \<le> unat SCB_VTOR" "m' = memcpy_words ram src NVIC_NUM_VECTORS m"
  shows "\<And>n. n < NVIC_NUM_VECTORS \<Longrightarrow> m' (word_at ram n) = m (word_at src n)"
    "\<And>n. n < NVIC_NUM_VECTORS \<Longrightarrow> word_at ram n \<noteq> SCB_VTOR"
    "\<And>n k. n < NVIC_NUM_VECTORS \<Longrightarrow> k < NVIC_NUM_VECTORS \<Longrightarrow> word_at ram n = word_at ram k \<Longrightarrow> n = k"
proof -
  have "unat ram + 256 \<le> 2 ^ 32" using assms(3) by (simp add: SCB_VTOR_def)
  note u = unat_word_at [OF this] unat_word_at [OF assms(2)]
  have a: "word_at ram i \<noteq> word_at src j" if "i < NVIC_NUM_VECTORS" "j < NVIC_NUM_VECTORS" for i j
  proof
    assume "word_at ram i = word_at src j"
    then have "unat ram + 4 * i = unat src + 4 * j" using u(1) [of i] u(2) [of j] that
      by (simp add: NVIC_NUM_VECTORS_def)
    then show False using assms(1) that by (auto simp: NVIC_NUM_VECTORS_def)
  qed
  show b: "n = k" if "n < NVIC_NUM_VECTORS" "k < NVIC_NUM_VECTORS" "word_at ram n = word_at ram k" for n k
    using arg_cong [OF that(3), of unat] u(1) that(1,2) by (simp add: NVIC_NUM_VECTORS_def)
  show "m' (word_at ram n) = m (word_at src n)" if "n < NVIC_NUM_VECTORS" for n
    unfolding assms(4) by (rule memcpy_words_at(1) [OF a b that])
  show "word_at ram n \<noteq> SCB_VTOR" if "n < NVIC_NUM_VECTORS" for n
  proof
    assume "word_at ram n = SCB_VTOR"
    then have "unat ram + 4 * n = unat SCB_VTOR" using u(1) [of n] that by (simp add: NVIC_NUM_VECTORS_def)
    then show False using assms(3) that by (simp add: NVIC_NUM_VECTORS_def)
  qed
qed

section \<open>Properties\<close>

text \<open>After \<open>TransportInit\<close>: the RAM table is in force and holds the old vectors, but for the radio's.\<close>

definition vectors_ok :: "u32 \<Rightarrow> u32 \<Rightarrow> memory \<Rightarrow> bool \<Rightarrow> vectors \<Rightarrow> bool" where
  "vectors_ok ram handler m0 own s \<longleftrightarrow> vt_installed s \<and> vt_mem s SCB_VTOR = ram \<and>
     saved_radio_vector s = vector m0 (16 + RADIO_IRQn) \<and>
     (\<forall>n < NVIC_NUM_VECTORS. vt_mem s (word_at ram n) =
        (if n = 16 + RADIO_IRQn \<and> own then handler else vector m0 n))"

lemma vectors_ok_install:
  assumes "memory_map (vt_mem s SCB_VTOR) ram" "\<not> vt_installed s"
  shows "vectors_ok ram handler (vt_mem s) False (install_ram_vtor ram s)"
proof -
  have m: "unat (vt_mem s SCB_VTOR) + 256 \<le> unat ram" "unat ram + 256 \<le> unat SCB_VTOR"
    using assms(1) by (simp_all add: memory_map_def)
  then have "unat (vt_mem s SCB_VTOR) + 256 \<le> 2 ^ 32" by (simp add: SCB_VTOR_def)
  note t = table_copied [OF disjI1 [OF m(1)] this m(2) refl]
  show ?thesis using assms(2) t(1,2)
    by (simp add: vectors_ok_def install_ram_vtor_def vector_def Let_def NVIC_NUM_VECTORS_def RADIO_IRQn_def)
qed

lemma vectors_ok_step:
  assumes "vectors_ok ram handler m0 own s" "unat ram + 256 \<le> unat SCB_VTOR"
  shows "vectors_ok ram handler m0 (radio_owner st own) (vector_do ram handler st s)"
proof -
  have "unat ram + 256 \<le> 2 ^ 32" using assms(2) by (simp add: SCB_VTOR_def)
  note w = unat_word_at [OF this]
  have r: "word_at ram 17 \<noteq> SCB_VTOR" using w [of 17] assms(2) by auto
  have i: "word_at ram n = word_at ram 17 \<longleftrightarrow> n = 17" if "n < 64" for n
    using w [of 17] w [of n] that by auto
  show ?thesis
  proof (cases st)
    case (SlotStart started)
    then show ?thesis using assms(1) r i
      by (auto simp: vectors_ok_def slot_start_vector_def NVIC_NUM_VECTORS_def RADIO_IRQn_def)
  qed (use assms(1) r i in \<open>auto simp: vectors_ok_def install_ram_vtor_def slot_stop_vector_def
        NVIC_NUM_VECTORS_def RADIO_IRQn_def\<close>)
qed

lemma vectors_ok_steps:
  assumes "vectors_ok ram handler m0 own s" "unat ram + 256 \<le> unat SCB_VTOR"
  shows "vectors_ok ram handler m0 (fold radio_owner sts own) (fold (vector_do ram handler) sts s)"
  using assms(1) by (induction sts arbitrary: own s) (simp_all add: vectors_ok_step [OF _ assms(2)])

text \<open>
  C22. The endpoint shares the interrupt vectors without losing one: from its initialisation on, whatever slots
  start, fail to start and stop, every exception is dispatched to the handler it had before, except that the
  radio's goes to the ESB handler while the endpoint owns the radio.
\<close>

theorem vectors_shared:
  assumes "memory_map (vt_mem s SCB_VTOR) ram" "\<not> vt_installed s"
    and "s' = fold (vector_do ram handler) (TransportInit # sts) s" "n < NVIC_NUM_VECTORS"
  shows "vector (vt_mem s') n =
    (if n = 16 + RADIO_IRQn \<and> fold radio_owner sts False then handler else vector (vt_mem s) n)"
proof -
  have "vectors_ok ram handler (vt_mem s) (fold radio_owner sts False) s'"
    using vectors_ok_steps [OF vectors_ok_install [OF assms(1,2)]] assms(1,3) by (simp add: memory_map_def)
  then show ?thesis using assms(4) by (simp add: vectors_ok_def vector_def)
qed

definition flash_example :: memory where
  "flash_example a = (if a < 256 then 0x1000 + a else 0)"

definition ram_example :: u32 where "ram_example = 0x20000100"

theorem vectors_shared_witness:
  "let s = fold (vector_do ram_example 0x4321) [TransportInit, SlotStart True, SlotStop, SlotStart True]
             \<lparr>vt_mem = flash_example, vt_installed = False, saved_radio_vector = 0\<rparr>
   in vector (vt_mem s) 17 = 0x4321 \<and> vector (vt_mem s) 15 = 0x103C"
proof -
  let ?s = "\<lparr>vt_mem = flash_example, vt_installed = False, saved_radio_vector = 0\<rparr>"
  have "memory_map (vt_mem ?s SCB_VTOR) ram_example" "\<not> vt_installed ?s"
    by (simp_all add: flash_example_def memory_map_def ram_example_def SCB_VTOR_def)
  note v = vectors_shared [OF this refl, where handler = "0x4321" and
      sts = "[SlotStart True, SlotStop, SlotStart True]"]
  have "vector flash_example 15 = 0x103C" by (simp add: flash_example_def SCB_VTOR_def vector_def word_at_def)
  then show ?thesis using v [where n = 17] v [where n = 15] by (simp add: NVIC_NUM_VECTORS_def RADIO_IRQn_def Let_def)
qed

text \<open>
  C23. The dongle loses its interrupt vectors: its version copies the registers of the system control block, from
  the address of \<open>VTOR\<close> on, instead of the table \<open>VTOR\<close> points to. Only the radio's vector is right afterwards;
  the system tick, the USB interrupt and the faults are dispatched to whatever those registers hold.
\<close>

theorem dongle_vectors_lost:
  assumes "unat ram + 256 \<le> unat SCB_VTOR" "m' = dongle_install_ram_vtor ram handler m" "n < NVIC_NUM_VECTORS"
  shows "vector m' n = (if n = 16 + RADIO_IRQn then handler else m (word_at SCB_VTOR n))"
proof -
  have "unat SCB_VTOR + 256 \<le> 2 ^ 32" by (simp add: SCB_VTOR_def)
  note t = table_copied [OF disjI2 [OF assms(1)] this assms(1) refl]
  show ?thesis using t(1,2) t(3) [OF assms(3), of "16 + RADIO_IRQn"] assms(2,3)
    by (auto simp: dongle_install_ram_vtor_def vector_def Let_def NVIC_NUM_VECTORS_def RADIO_IRQn_def)
qed

theorem dongle_vectors_lost_witness:
  "vector flash_example 15 = 0x103C \<and> vector (dongle_install_ram_vtor ram_example 0x4321 flash_example) 15 = 0"
proof -
  have "vector flash_example 15 = 0x103C" "flash_example (word_at SCB_VTOR 15) = 0"
    by (simp_all add: flash_example_def SCB_VTOR_def vector_def word_at_def)
  moreover have "unat ram_example + 256 \<le> unat SCB_VTOR" by (simp add: ram_example_def SCB_VTOR_def)
  from dongle_vectors_lost [OF this refl, where n = 15 and handler = "0x4321" and m = flash_example]
  have "vector (dongle_install_ram_vtor ram_example 0x4321 flash_example) 15 = flash_example (word_at SCB_VTOR 15)"
    by (simp add: NVIC_NUM_VECTORS_def RADIO_IRQn_def)
  ultimately show ?thesis by simp
qed

end
