(* ===== verification/ShellSession.thy ===== *)
theory ShellSession
  imports HopManager ShellRelay
begin

text \<open>
  What a shell session does with its bytes: the output that reaches the transmit FIFO, and the command
  line that reaches the shell.
\<close>

section \<open>Output\<close>

text \<open>Sends are admitted: the radio is up and no quiet window or blocking send mutes them.\<close>

definition sends_admitted :: "kcfg \<Rightarrow> 'a tport_scheme \<Rightarrow> bool" where
  "sends_admitted c s \<longleftrightarrow> esb_initialized s \<and> \<not> esb_transport_is_quiet c s"

definition mute_view where
  "mute_view s = (esb_initialized s, m_sync_tx_in_progress s, m_tx_quiet_until_ms s, uptime s)"

lemma mute_frames:
  "mute_view (snd (jittered_retransmit_delay c s)) = mute_view s"
  "mute_view (snd (esb_set_retransmit_delay d s)) = mute_view s"
  "mute_view (snd (esb_set_retransmit_count k s)) = mute_view s"
  "mute_view (esb_flush_tx_and_reset c s) = mute_view s"
  "mute_view (note_activity s) = mute_view s"
  "mute_view (hid_tx_account bs s) = mute_view s"
  "mute_view (critical_ring_push c bs s) = mute_view s"
  "mute_view (motion_ring_push c body b s) = mute_view s"
  "mute_view (snd (motion_refund_apply c body' s)) = mute_view s"
  "mute_view (snd (esb_write_payload c p s)) = mute_view s"
  "mute_view (s\<lparr>m_recent_noack := r\<rparr>) = mute_view s"
  by (simp_all add: mute_view_def jittered_retransmit_delay_def esb_set_retransmit_delay_def
      esb_set_retransmit_count_def esb_flush_tx_and_reset_def restore_retransmit_count_def
      esb_flush_tx_def clear_ack_wraps_def note_activity_def hid_tx_account_def critical_ring_push_def
      motion_ring_push_def motion_refund_apply_def esb_write_payload_def start_tx_transaction_def Let_def
      split: option.splits)

lemma mute_frames_user: "mute_view (channel_hop_ep_note_user_tx c s) = mute_view s"
  by (simp add: mute_view_def channel_hop_ep_note_user_tx_def enter_active_state_def k_work_submit_def
      k_work_reschedule_def k_work_cancel_def Let_def)

lemma mute_frames_pointer: "mute_view (snd (pointer_prepare c k bs s)) = mute_view s"
  by (simp add: pointer_prepare_def mute_frames case_prod_beta Let_def)

lemma admitted_view: "mute_view s = mute_view t \<Longrightarrow> sends_admitted c s = sends_admitted c t"
  by (simp add: mute_view_def sends_admitted_def esb_transport_is_quiet_def k_uptime_get_32_def)

interpretation admitted: send_invariant c "sends_admitted c" "\<lambda>_. True"
proof
  fix s :: "'b tport_scheme" and d bs k p b assume "sends_admitted c s"
  note inv = admitted_view [THEN iffD2, OF _ this]
  show "sends_admitted c (snd (jittered_retransmit_delay c s))" by (rule inv) (rule mute_frames)
  show "sends_admitted c (snd (esb_set_retransmit_delay d s))" by (rule inv) (rule mute_frames)
  show "sends_admitted c (esb_flush_tx_and_reset c s)" by (rule inv) (rule mute_frames)
  show "sends_admitted c (note_activity s)" by (rule inv) (rule mute_frames)
  show "sends_admitted c (hid_tx_account bs s)" by (rule inv) (rule mute_frames)
  show "sends_admitted c (critical_ring_push c bs s)" by (rule inv) (rule mute_frames)
  show "sends_admitted c (snd (pointer_prepare c k bs s))" by (rule inv) (rule mute_frames_pointer)
  show "sends_admitted c (snd (esb_write_payload c p s))" by (rule inv) (rule mute_frames)
  show "sends_admitted c (s\<lparr>m_recent_noack := er_push (NOACK_RING_SIZE c) b (m_recent_noack s)\<rparr>)"
    by (rule inv) (rule mute_frames)
  show "sends_admitted c (channel_hop_ep_note_user_tx c s)" by (rule inv) (rule mute_frames_user)
  show "sends_admitted c (s\<lparr>m_tx_quiet_until_ms := 0\<rparr>)"
    using \<open>sends_admitted c s\<close> by (auto simp: sends_admitted_def esb_transport_is_quiet_def split: if_splits)
qed

lemma quiet_send_stays:
  assumes "esb_transport_is_quiet c s" "esb_transport_send c pipe bs s = (err, t)"
  shows "esb_transport_is_quiet c t"
  using assms
  by (auto simp: esb_transport_send_def esb_transport_is_quiet_def jittered_retransmit_delay_def
      esb_set_retransmit_delay_def k_uptime_get_32_def Let_def split: if_splits)

text \<open>The chunks of a drain, as packets.\<close>

definition shell_packets :: "kcfg \<Rightarrow> u8 list list \<Rightarrow> esb_payload list \<Rightarrow> bool" where
  "shell_packets c chunks ps \<longleftrightarrow> map pl_data ps = map (shell_data_bytes c) chunks \<and>
     (\<forall>p \<in> set ps. pl_pipe p = ESB_PIPE_DATA) \<and>
     (\<forall>ch \<in> set chunks. ch \<noteq> [] \<and> length ch \<le> ESB_PKT_DATA_MAX c)"

lemma shell_data_length:
  "length ch \<le> ESB_PKT_DATA_MAX c \<Longrightarrow> ch \<noteq> [] \<Longrightarrow> length (shell_data_bytes c ch) = ESB_MAX_PAYLOAD_LEN c"
  "shell_data_bytes c ch \<noteq> []" "is_shell_send (shell_data_bytes c ch)" "\<not> is_mouse_report (shell_data_bytes c ch)"
  by (cases ch; simp add: shell_data_bytes_def ESB_MAX_PAYLOAD_LEN_def ESB_PKT_DATA_MAX_def)
    (simp_all add: shell_data_bytes_def is_shell_send_def is_mouse_report_def first_is_def pkt_consts)

lemma drain_muted:
  assumes "esb_transport_is_quiet c s" "ptx_inv c s" "\<And>n. 0 < n \<Longrightarrow> 0 < claim n" "2 < ESB_MAX_PAYLOAD_LEN c"
    "out_drain_loop c claim rb s = (rb', t)"
  shows "rb' = [] \<and> tx_queue t = tx_queue s"
  using assms(1,2,5)
proof (induction "length rb" arbitrary: rb s rule: less_induct)
  case less
  define got where "got = min (claim (length rb)) (min (length rb) (ESB_PKT_DATA_MAX c))"
  show ?case
  proof (cases "rb = []")
    case True
    then show ?thesis using less.prems(3) by (simp add: out_drain_loop.simps [of c claim "[]"])
  next
    case False
    then have got: "0 < got" "got \<le> length rb" "got \<le> ESB_PKT_DATA_MAX c"
      using assms(3) [of "length rb"] assms(4) by (auto simp: got_def ESB_PKT_DATA_MAX_def ESB_MAX_PAYLOAD_LEN_def)
    then have "length (shell_data_bytes c (take got rb)) \<le> ESB_MAX_PAYLOAD_LEN c"
      using shell_data_length(1) [of "take got rb" c] by (cases rb) auto
    from quiet_send [OF less.prems(1) this, of ESB_PIPE_DATA] obtain u
      where u: "esb_transport_send c ESB_PIPE_DATA (shell_data_bytes c (take got rb)) s = (None, u)" "same_radio u s"
      by blast
    have "out_drain_loop c claim (drop got rb) u = (rb', t)"
      using less.prems(3) u(1) got(1) by (simp add: out_drain_loop.simps [of c claim rb] Let_def flip: got_def)
    moreover have "ptx_inv c u" using less.prems(2) same_radio_inv [OF u(2)] by simp
    ultimately have "rb' = [] \<and> tx_queue t = tx_queue u"
      using less.hyps [of "drop got rb" u] got quiet_send_stays [OF less.prems(1) u(1)] by simp
    then show ?thesis using u(2) by (simp add: same_radio_def)
  qed
qed

lemma queue_full: "tx_queue s = tx_queue t \<Longrightarrow> esb_tx_full c s \<Longrightarrow> esb_tx_full c t"
  by (drule arg_cong [where f = length]) (simp add: esb_tx_full_def ring_full_def)

lemma drain_admitted:
  assumes "sends_admitted c s" "ptx_inv c s" "\<And>n. 0 < n \<Longrightarrow> 0 < claim n" "2 < ESB_MAX_PAYLOAD_LEN c"
    "out_drain_loop c claim rb s = (rb', t)"
  shows "\<exists>chunks ps. tx_queue t = tx_queue s @ ps \<and> shell_packets c chunks ps \<and> concat chunks @ rb' = rb \<and>
    (rb' = [] \<or> esb_tx_full c t)"
  using assms(1,2,5)
proof (induction "length rb" arbitrary: rb s rule: less_induct)
  case less
  define got where "got = min (claim (length rb)) (min (length rb) (ESB_PKT_DATA_MAX c))"
  show ?case
  proof (cases "rb = []")
    case True
    then have "rb' = []" "t = s" using less.prems(3) by (simp_all add: out_drain_loop.simps [of c claim "[]"])
    then show ?thesis using True by (intro exI [of _ "[]"]) (simp add: shell_packets_def)
  next
    case False
    let ?bs = "shell_data_bytes c (take got rb)"
    have got: "0 < got" "got \<le> length rb" "got \<le> ESB_PKT_DATA_MAX c" using False
      using assms(3) [of "length rb"] assms(4) by (auto simp: got_def ESB_PKT_DATA_MAX_def ESB_MAX_PAYLOAD_LEN_def)
    then have ch: "take got rb \<noteq> []" "length (take got rb) \<le> ESB_PKT_DATA_MAX c" using False by auto
    obtain err u where u: "esb_transport_send c ESB_PIPE_DATA ?bs s = (err, u)" by fastforce
    have inv: "sends_admitted c u" "ptx_inv c u"
      using admitted.keep_send [OF less.prems(1) TrueI, of ESB_PIPE_DATA ?bs]
        send_ptx_inv.keep_send [OF less.prems(2) TrueI, of ESB_PIPE_DATA ?bs] u by simp_all
    have pipe: "unat ESB_PIPE_DATA < ESB_PIPE_COUNT" by (simp add: pipe_consts ESB_PIPE_COUNT_def)
    have a: "esb_initialized s" "\<not> esb_transport_is_quiet c s" using less.prems(1) by (simp_all add: sends_admitted_def)
    have o: "if esb_tx_full c s then err = Some ENOMEM \<and> tx_queue u = tx_queue s
      else err = None \<and> (\<exists>p. tx_queue u = tx_queue s @ [p] \<and> pl_pipe p = ESB_PIPE_DATA \<and> pl_data p = ?bs)"
      using send_outcome [OF less.prems(2) a(1) shell_data_length(2) pipe u] a(2) shell_data_length(1,3,4) ch
      by (auto split: if_splits)
    show ?thesis
    proof (cases "esb_tx_full c s")
      case True
      then have "rb' = rb" "t = u"
        using o u less.prems(3) got(1) by (simp_all add: out_drain_loop.simps [of c claim rb] Let_def flip: got_def)
      moreover have "tx_queue u = tx_queue s" using True o by simp
      moreover from this [symmetric] have "esb_tx_full c u"
        using True by (rule queue_full)
      ultimately show ?thesis by (intro exI [of _ "[]"]) (simp add: shell_packets_def)
    next
      case False
      then obtain p where p: "err = None" "tx_queue u = tx_queue s @ [p]" "pl_pipe p = ESB_PIPE_DATA" "pl_data p = ?bs"
        using o by auto
      have "out_drain_loop c claim (drop got rb) u = (rb', t)"
        using less.prems(3) u p(1) got(1) by (simp add: out_drain_loop.simps [of c claim rb] Let_def flip: got_def)
      moreover have "length (drop got rb) < length rb" using got by simp
      ultimately obtain chunks ps where
        i: "tx_queue t = tx_queue u @ ps" "shell_packets c chunks ps" "concat chunks @ rb' = drop got rb"
          "rb' = [] \<or> esb_tx_full c t" using less.hyps [OF _ inv] by blast
      have "shell_packets c (take got rb # chunks) (p # ps)"
        using i(2) p(3,4) ch by (simp add: shell_packets_def)
      moreover have "concat (take got rb # chunks) @ rb' = rb" using i(3) by simp
      ultimately show ?thesis using i(1,4) p(2) by (intro exI [of _ "take got rb # chunks"] exI [of _ "p # ps"]) simp
    qed
  qed
qed

text \<open>
  C29. Shell output is sent byte for byte while sends are admitted: one run of the drain work puts
  consecutive pieces of the output buffer into the transmit FIFO, each in a packet of its own with its length,
  leaves the rest in the buffer and stops only when everything is sent or the FIFO is full. While sends are muted
  the same work empties the buffer and sends nothing: that output is lost.
\<close>

theorem shell_output_drained:
  assumes "ptx_inv c s" "esb_initialized s" "m_shell_active s" "2 < ESB_MAX_PAYLOAD_LEN c"
    and "\<And>n. 0 < n \<Longrightarrow> 0 < claim n" and "t = out_drain_work_fn c claim s"
  shows "if esb_transport_is_quiet c s then out_rb t = [] \<and> tx_queue t = tx_queue s
    else \<exists>chunks ps. tx_queue t = tx_queue s @ ps \<and> shell_packets c chunks ps \<and>
      concat chunks @ out_rb t = out_rb s \<and> (out_rb t = [] \<or> esb_tx_full c t)"
proof -
  obtain rb u where l: "out_drain_loop c claim (out_rb s) s = (rb, u)" by fastforce
  have t: "t = u\<lparr>out_rb := rb\<rparr>" using assms(3,6) l by (simp add: out_drain_work_fn_def)
  have f: "esb_tx_full c t = esb_tx_full c u" by (simp add: t esb_tx_full_def)
  show ?thesis
  proof (cases "esb_transport_is_quiet c s")
    case True
    then show ?thesis using drain_muted [OF True assms(1,5,4) l] by (simp add: t)
  next
    case False
    have "sends_admitted c s" using False assms(2) by (simp add: sends_admitted_def)
    from drain_admitted [OF this assms(1,5,4) l] show ?thesis using False f by (simp add: t)
  qed
qed

text \<open>A session with output waiting, on the example transport.\<close>

definition shell_example :: shell where
  "shell_example = tport_at \<lparr>m_shell_active = True, cmd_buf = replicate 16 0, cmd_len = 0, out_rb = [104, 105],
     stdout_buf = [], m_at_line_start = False, in_log_emit = False, last_nudge_ms = 0, stdout_hook_installed = True,
     shell_prompt = [36]\<rparr>"

theorem shell_output_drained_witness:
  "\<exists>chunks ps. tx_queue (out_drain_work_fn default_kcfg id shell_example) = ps \<and>
     shell_packets default_kcfg chunks ps \<and>
     concat chunks @ out_rb (out_drain_work_fn default_kcfg id shell_example) = [104, 105]"
proof -
  have "ptx_inv default_kcfg shell_example" "esb_initialized shell_example" "m_shell_active shell_example"
    "2 < ESB_MAX_PAYLOAD_LEN default_kcfg" "\<not> esb_transport_is_quiet default_kcfg shell_example"
    "tx_queue shell_example = []" "out_rb shell_example = [104, 105]"
    using tport_example_simps by (simp_all add: shell_example_def ESB_MAX_PAYLOAD_LEN_def) (simp_all add: tport_at_def)
  then show ?thesis using shell_output_drained [of default_kcfg shell_example id, OF _ _ _ _ _ refl] by auto
qed

section \<open>The command line\<close>

text \<open>What editing means: a line of at most \<open>n\<close> characters, where a line end submits a line that is not
  empty and starts the next one.\<close>

definition edit_char :: "nat \<Rightarrow> u8 \<Rightarrow> u8 list \<Rightarrow> u8 list" where
  "edit_char n b line =
     (if b = LF \<or> b = CR then []
      else if b = DEL \<or> b = BS then butlast line
      else if length line < n then line @ [b] else line)"

definition line_view where
  "line_view s = (m_shell_active s, cmd_buf s, cmd_len s)"

definition is_line_end :: "u8 \<Rightarrow> bool" where
  "is_line_end b \<longleftrightarrow> b = LF \<or> b = CR"

text \<open>One character on the view.\<close>

definition line_step :: "nat \<Rightarrow> u8 \<Rightarrow> u8 list \<times> nat \<Rightarrow> u8 list \<times> nat" where
  "line_step n b d =
     (case d of (buf, len) \<Rightarrow>
        if is_line_end b then (if 0 < len then (buf[len := 0], 0) else (buf, len))
        else if b = DEL \<or> b = BS then (buf, len - 1)
        else if len < n then (buf[len := b], len + 1) else (buf, len))"

lemma out_enqueue_line: "line_view (out_enqueue c bs s) = line_view s" "sched (out_enqueue c bs s) = sched s"
  by (simp_all add: out_enqueue_def line_view_def Let_def)

lemma data_byte_line:
  "line_view (snd (on_data_byte c b (nd, s))) =
     (m_shell_active s, line_step (SHELL_CMD_BUF_SIZE c - 1) b (cmd_buf s, cmd_len s))"
  using out_enqueue_line(1) [of c str_erase "s\<lparr>cmd_len := cmd_len s - 1\<rparr>"]
  by (simp add: on_data_byte_def line_step_def is_line_end_def line_view_def k_work_submit_def k_work_reschedule_def
      split: prod.splits)

lemma data_bytes_line:
  "line_view (snd (fold (on_data_byte c) bs d)) =
     (m_shell_active (snd d), fold (line_step (SHELL_CMD_BUF_SIZE c - 1)) bs (cmd_buf (snd d), cmd_len (snd d)))"
proof (induction bs arbitrary: d)
  case (Cons b bs)
  show ?case using Cons.IH [of "on_data_byte c b d"] data_byte_line [of c b "fst d" "snd d"]
    by (simp add: line_view_def)
qed (simp add: line_view_def)

lemma on_data_line:
  assumes "m_shell_active s" "t = esb_shell_relay_on_data c bs s"
  shows "line_view t = (True, fold (line_step (SHELL_CMD_BUF_SIZE c - 1)) bs (cmd_buf s, cmd_len s))"
proof -
  let ?s = "if 0 < SHELL_INACTIVITY_S c
    then k_work_reschedule InactivityWork (1000 * SHELL_INACTIVITY_S c) s else s"
  obtain nd u where u: "fold (on_data_byte c) bs (False, ?s) = (nd, u)" by fastforce
  have v: "line_view (k_work_submit w x) = line_view x" for w and x :: "'a shell_scheme"
    by (simp add: line_view_def k_work_submit_def)
  have "m_shell_active ?s" "cmd_buf ?s = cmd_buf s" "cmd_len ?s = cmd_len s"
    using assms(1) by (simp_all add: k_work_reschedule_def)
  with data_bytes_line [of c bs "(False, ?s)"] u
  have "line_view u = (True, fold (line_step (SHELL_CMD_BUF_SIZE c - 1)) bs (cmd_buf s, cmd_len s))" by simp
  moreover have "bs \<noteq> [] \<Longrightarrow> t = (if nd then k_work_submit OutDrainWork u else u)"
    using assms u by (simp add: esb_shell_relay_on_data_def Let_def)
  moreover have "bs = [] \<Longrightarrow> t = s" using assms by (simp add: esb_shell_relay_on_data_def)
  ultimately show ?thesis using assms(1) v by (cases bs) (auto simp: line_view_def)
qed

lemma packets_line:
  assumes "m_shell_active s"
  shows "line_view (fold (esb_shell_relay_on_data c) pkts s) =
    (True, fold (line_step (SHELL_CMD_BUF_SIZE c - 1)) (concat pkts) (cmd_buf s, cmd_len s))"
  using assms
proof (induction pkts arbitrary: s)
  case (Cons p pkts)
  let ?t = "esb_shell_relay_on_data c p s"
  have t: "line_view ?t = (True, fold (line_step (SHELL_CMD_BUF_SIZE c - 1)) p (cmd_buf s, cmd_len s))"
    by (rule on_data_line [OF Cons.prems refl])
  then have "m_shell_active ?t" by (simp add: line_view_def)
  from Cons.IH [OF this] t show ?case by (simp add: line_view_def)
qed (simp add: line_view_def)

text \<open>The editing steps on the buffer follow the editing of the line.\<close>

definition edits :: "nat \<Rightarrow> u8 list \<times> nat \<Rightarrow> u8 list \<Rightarrow> bool" where
  "edits n d line \<longleftrightarrow> n < length (fst d) \<and> snd d \<le> n \<and> line = take (snd d) (fst d)"

lemma line_step_edits:
  assumes "edits n d line" "\<not> is_line_end b"
  shows "edits n (line_step n b d) (edit_char n b line)"
proof -
  obtain buf len where d: "d = (buf, len)" by fastforce
  have l: "n < length buf" "len \<le> n" "line = take len buf" using assms(1) by (simp_all add: edits_def d)
  have "take (len - 1) buf = butlast (take len buf)" using l(1,2) by (simp add: butlast_take)
  moreover have "len < n \<Longrightarrow> take (Suc len) (buf[len := b]) = take len buf @ [b]"
    using l(1) by (simp add: take_Suc_conv_app_nth)
  ultimately show ?thesis
    using assms(2) l by (auto simp: d edits_def line_step_def edit_char_def is_line_end_def)
qed

lemma line_steps_edits:
  assumes "edits n d line" "\<forall>b \<in> set bs. \<not> is_line_end b"
  shows "edits n (fold (line_step n) bs d) (fold (edit_char n) bs line)"
  using assms by (induction bs arbitrary: d line) (simp_all add: line_step_edits)

text \<open>Characters typed over a buffer.\<close>

lemma line_steps_typed:
  assumes "\<forall>b \<in> set bs. \<not> is_line_end b \<and> b \<noteq> DEL \<and> b \<noteq> BS" "len + length bs \<le> n" "n \<le> length buf"
  shows "fold (line_step n) bs (buf, len) = (take len buf @ bs @ drop (len + length bs) buf, len + length bs)"
  using assms
proof (induction bs arbitrary: buf len)
  case (Cons b bs)
  have "line_step n b (buf, len) = (buf[len := b], Suc len)" using Cons.prems by (simp add: line_step_def)
  moreover have "take (Suc len) (buf[len := b]) = take len buf @ [b]"
    using Cons.prems by (simp add: take_Suc_conv_app_nth)
  ultimately show ?case using Cons.IH [of "Suc len" "buf[len := b]"] Cons.prems by simp
qed simp

lemma edited_length: "length line \<le> n \<Longrightarrow> length (fold (edit_char n) bs line) \<le> n"
  by (induction bs arbitrary: line) (simp_all add: edit_char_def)

lemma edited_chars: "set (fold (edit_char n) bs line) \<subseteq> set bs \<union> set line"
proof (induction bs arbitrary: line)
  case (Cons b bs)
  have "set (edit_char n b line) \<subseteq> insert b (set line)" by (auto simp: edit_char_def dest: in_set_butlastD)
  then show ?case using Cons.IH [of "edit_char n b line"] by auto
qed simp

text \<open>The shell's worker on the command \<open>start\<close>.\<close>

definition shell_run ::
    "kcfg \<Rightarrow> (u8 list \<Rightarrow> 'a shell_scheme \<Rightarrow> bool \<times> u8 list \<times> 'a shell_scheme) \<Rightarrow> u8 list \<Rightarrow>
     'a shell_scheme \<Rightarrow> 'a shell_scheme" where
  "shell_run c exec start s =
     (let (found, out, s) = exec start s;
          s = (if \<not> found
               then out_enqueue c (str_newline @ str_red @ start @ str_not_found @ str_reset) s
               else if out \<noteq> [] then out_enqueue c out s else s)
      in send_prompt c s)"

text \<open>
  C30. The shell executes the line that was typed, edited as the abstract line editor says, when its worker runs
  before the next character arrives, however the characters were split into packets. Characters that arrive earlier
  are written over the submitted line: the command executed begins with them and ends with the
  rest of the line.
\<close>

theorem shell_command_executed:
  assumes "m_shell_active s" "cmd_len s = 0" "length (cmd_buf s) = SHELL_CMD_BUF_SIZE c" "0 < SHELL_CMD_BUF_SIZE c"
    and "concat pkts = pre @ e # post" "is_line_end e" "\<forall>b \<in> set pre. \<not> is_line_end b \<and> b \<noteq> 0"
    and "line = fold (edit_char (SHELL_CMD_BUF_SIZE c - 1)) pre []" "line \<noteq> []"
    and "\<forall>b \<in> set post. \<not> is_line_end b \<and> b \<noteq> DEL \<and> b \<noteq> BS \<and> b \<noteq> 0" "length post \<le> length line"
    and "s' = fold (esb_shell_relay_on_data c) pkts s"
  shows "shell_exec_work_fn c exec s' = shell_run c exec (trim (post @ drop (length post) line)) s'"
proof -
  let ?n = "SHELL_CMD_BUF_SIZE c - 1"
  define d where "d = fold (line_step ?n) pre (cmd_buf s, 0)"
  obtain buf len where d': "d = (buf, len)" by fastforce
  have "edits ?n (cmd_buf s, 0) []" using assms(3,4) by (simp add: edits_def)
  then have "edits ?n d line" unfolding d_def assms(8) using assms(7) by (intro line_steps_edits) auto
  then have l: "?n < length buf" "len \<le> ?n" "line = take len buf" by (simp_all add: edits_def d')
  then have len: "length line = len" "0 < len" using assms(9) by auto
  have e: "line_step ?n e d = (buf[len := 0], 0)" using assms(6) len(2) by (simp add: line_step_def d')
  have b0: "buf[len := 0] = line @ 0 # drop (Suc len) buf"
    using l by (simp add: upd_conv_take_nth_drop)
  let ?b = "post @ drop (length post) (buf[len := 0])"
  have "fold (line_step ?n) post (buf[len := 0], 0) = (?b, length post)"
    using line_steps_typed [of post 0 ?n "buf[len := 0]"] assms(10,11) l len(1) by simp
  then have "fold (line_step ?n) (concat pkts) (cmd_buf s, cmd_len s) = (?b, length post)"
    unfolding assms(2,5) using e by (simp add: d_def)
  then have buf': "cmd_buf s' = ?b"
    using packets_line [OF assms(1), of c pkts] unfolding assms(12) by (simp add: line_view_def)
  have z: "0 \<notin> set line" using edited_chars [of ?n pre "[]"] assms(7,8) by auto
  have "drop (length post) (buf[len := 0]) = drop (length post) line @ 0 # drop (Suc len) buf"
    using assms(11) by (simp add: b0)
  then have b: "?b = (post @ drop (length post) line) @ 0 # drop (Suc len) buf" by simp
  have "length (post @ drop (length post) line) = len" using assms(11) len(1) by simp
  then have "take ?n ?b = (post @ drop (length post) line) @ take (?n - len) (0 # drop (Suc len) buf)"
    unfolding b using l(2) by simp
  moreover have "\<forall>x \<in> set (post @ drop (length post) line). x \<noteq> 0"
    using z assms(10) by (auto dest: in_set_dropD)
  moreover have "takeWhile (\<lambda>x. x \<noteq> 0) (take k (0 # r)) = []" for k and r :: "u8 list" by (cases k) simp_all
  ultimately have "c_string (take ?n (cmd_buf s')) = post @ drop (length post) line"
    by (simp add: c_string_def buf' takeWhile_append2)
  then show ?thesis by (simp add: shell_exec_work_fn_def shell_run_def Let_def)
qed

text \<open>The line \<open>ls\<close>, and an \<open>x\<close> that comes in before the worker has copied it: \<open>xs\<close> is executed.\<close>

theorem shell_command_executed_witness:
  "shell_exec_work_fn default_kcfg (\<lambda>start s. (True, start, s))
       (fold (esb_shell_relay_on_data default_kcfg) [[108], [115, LF, 120]]
          (shell_example\<lparr>cmd_buf := replicate (SHELL_CMD_BUF_SIZE default_kcfg) 0\<rparr>)) =
   shell_run default_kcfg (\<lambda>start s. (True, start, s)) [120, 115]
       (fold (esb_shell_relay_on_data default_kcfg) [[108], [115, LF, 120]]
          (shell_example\<lparr>cmd_buf := replicate (SHELL_CMD_BUF_SIZE default_kcfg) 0\<rparr>))"
proof -
  let ?s = "shell_example\<lparr>cmd_buf := replicate (SHELL_CMD_BUF_SIZE default_kcfg) 0\<rparr>"
  have 1: "m_shell_active ?s" "cmd_len ?s = 0" "length (cmd_buf ?s) = SHELL_CMD_BUF_SIZE default_kcfg"
    "0 < SHELL_CMD_BUF_SIZE default_kcfg"
    by (simp_all add: shell_example_def tport_at_def)
  have 2: "concat [[108], [115, LF, 120]] = [108, 115] @ LF # [120 :: u8]" "is_line_end LF"
    "\<forall>b \<in> set [108, 115 :: u8]. \<not> is_line_end b \<and> b \<noteq> 0"
    "\<forall>b \<in> set [120 :: u8]. \<not> is_line_end b \<and> b \<noteq> DEL \<and> b \<noteq> BS \<and> b \<noteq> 0"
    by (simp_all add: is_line_end_def char_consts)
  have 3: "fold (edit_char (SHELL_CMD_BUF_SIZE default_kcfg - 1)) [108, 115] [] = [108, 115 :: u8]"
    by (simp add: edit_char_def char_consts)
  have 4: "trim ([120] @ drop (length [120 :: u8]) [108, 115]) = [120, 115]"
    by (simp add: trim_def is_blank_def char_consts)
  show ?thesis
    using shell_command_executed [OF 1 2(1,2,3) 3 [symmetric] _ 2(4) _ refl, of "\<lambda>start s. (True, start, s)"] 4 by simp
qed

end
