(* ===== verification/EndpointControl.thy ===== *)
theory EndpointControl
  imports Endpoint
begin

text \<open>
  Who has the radio: what the control thread of \<open>src/esb/esb_endpoint.c\<close> makes of the profile changes the
  listener sees. The endpoint belongs on the air while the last profile is selected.
\<close>

section \<open>The thread and the listener together\<close>

text \<open>Profile changes, one after the other, with the thread not running in between.\<close>

definition profile_events :: "kcfg \<Rightarrow> nat \<Rightarrow> nat list \<Rightarrow> 'a ctl_scheme \<Rightarrow> 'a ctl_scheme" where
  "profile_events c profiles is s = fold (\<lambda>i s. snd (profile_listener_cb c profiles (Some i) s)) is s"

text \<open>Up to \<open>n\<close> turns of the thread; \<open>q\<close> is what the rest of the firmware does while it sleeps.\<close>

fun ctrl_turns ::
    "kcfg \<Rightarrow> esb_dts \<Rightarrow> rc \<Rightarrow> rc \<Rightarrow> ('a ctl_scheme \<Rightarrow> 'a ctl_scheme) \<Rightarrow> nat \<Rightarrow> 'a ctl_scheme \<Rightarrow> 'a ctl_scheme" where
  "ctrl_turns c d hf hw q 0 s = s"
| "ctrl_turns c d hf hw q (Suc n) s =
     (case esb_ctrl_thread_step c d hf hw q s of None \<Rightarrow> s | Some t \<Rightarrow> ctrl_turns c d hf hw q n t)"

text \<open>The thread serves its queue: the profile changes \<open>es\<close> come while its first turn sleeps.\<close>

definition ctrl_serve ::
    "kcfg \<Rightarrow> esb_dts \<Rightarrow> rc \<Rightarrow> rc \<Rightarrow> nat \<Rightarrow> ('a ctl_scheme \<Rightarrow> 'a ctl_scheme) \<Rightarrow> nat list \<Rightarrow> 'a ctl_scheme \<Rightarrow>
     'a ctl_scheme" where
  "ctrl_serve c d hf hw profiles q es s =
     (case esb_ctrl_thread_step c d hf hw (\<lambda>s. profile_events c profiles es (q s)) s of
        None \<Rightarrow> s
      | Some t \<Rightarrow> ctrl_turns c d hf hw q (length (esb_ctrl_msgq t)) t)"

section \<open>What the commands leave of the thread's own state\<close>

definition ctl_view where "ctl_view s = (esb_active s, esb_ctrl_msgq s)"

lemma ctl_work [simp]:
  "ctl_view (k_work_reschedule w ms s) = ctl_view s" "ctl_view (k_work_cancel w s) = ctl_view s"
  "ctl_view (k_work_submit w s) = ctl_view s"
  by (simp_all add: ctl_view_def k_work_reschedule_def k_work_submit_def k_work_cancel_def)

lemma ctl_start:
  "ctl_view (configure_esb_addresses d s) = ctl_view s"
  "ctl_view (pairing_start c s) = ctl_view s"
  "ctl_view (esb_shell_relay_on_activate b s) = ctl_view s"
  "ctl_view (esb_shell_relay_on_deactivate s) = ctl_view s"
  "ctl_view (esb_transport_deinit s) = ctl_view s"
  by (simp_all add: ctl_view_def configure_esb_addresses_def esb_transport_set_addresses_def pairing_start_def
      esb_shell_relay_on_activate_def esb_shell_relay_on_deactivate_def esb_transport_deinit_def
      k_work_reschedule_def Let_def)

lemma ctl_init: "ctl_view (snd (esb_init_and_configure c hw s)) = ctl_view s"
  by (simp add: ctl_view_def esb_init_and_configure_def esb_init_def esb_disable_def initialize_fifos_def
      reset_fifos_def clear_ack_wraps_def esb_set_base_address_0_def esb_set_base_address_1_def
      esb_set_prefixes_def esb_set_rf_channel_def Let_def split: option.split)

lemma ctl_slot:
  "ctl_view (esb_transport_on_slot_start c hf hw s) = ctl_view s"
  "ctl_view (esb_transport_on_slot_stop c s) = ctl_view s"
proof -
  show "ctl_view (esb_transport_on_slot_stop c s) = ctl_view s"
    by (simp add: ctl_view_def esb_transport_on_slot_stop_def esb_disable_def reset_fifos_def bt_ll_resume_def
        hfxo_release_def k_work_cancel_def Let_def)
  have h: "ctl_view (snd (hfxo_request hf (bt_ll_suspend s))) = ctl_view s"
    by (simp add: ctl_view_def hfxo_request_def bt_ll_suspend_def)
  obtain e t where t: "esb_init_and_configure c hw (snd (hfxo_request hf (bt_ll_suspend s))) = (e, t)" by fastforce
  have "ctl_view t = ctl_view s" using ctl_init [of c hw "snd (hfxo_request hf (bt_ll_suspend s))"] t h by simp
  then show "ctl_view (esb_transport_on_slot_start c hf hw s) = ctl_view s"
    using t by (simp add: esb_transport_on_slot_start_def ctl_view_def k_work_reschedule_def Let_def split: option.split)
qed

lemma ctl_updates [simp]:
  "ctl_view (s\<lparr>m_link_up := x0\<rparr>) = ctl_view s"
  "ctl_view (s\<lparr>m_active := x1\<rparr>) = ctl_view s"
  "ctl_view (s\<lparr>m_committed_next := x2\<rparr>) = ctl_view s"
  "ctl_view (s\<lparr>m_committed_synced := x3\<rparr>) = ctl_view s"
  "ctl_view (s\<lparr>m_prev_channel := x4\<rparr>) = ctl_view s"
  "ctl_view (s\<lparr>m_post_hop_burst_remaining := x5\<rparr>) = ctl_view s"
  "ctl_view (s\<lparr>m_hop_cooldown_until := x6\<rparr>) = ctl_view s"
  "ctl_view (s\<lparr>m_last_link_event_ms := x7\<rparr>) = ctl_view s"
  "ctl_view (s\<lparr>m_rendezvous_fallback_pending := x8\<rparr>) = ctl_view s"
  "ctl_view (s\<lparr>m_request_burst_remaining := x9\<rparr>) = ctl_view s"
  "ctl_view (s\<lparr>m_coop_hop_cooldown_until := x10\<rparr>) = ctl_view s"
  "ctl_view (s\<lparr>m_coop_hop_state := x11\<rparr>) = ctl_view s"
  "ctl_view (s\<lparr>m_last_tx_was_offer := x12\<rparr>) = ctl_view s"
  "ctl_view (s\<lparr>m_shell_active := x13\<rparr>) = ctl_view s"
  "ctl_view (s\<lparr>out_rb := x14\<rparr>) = ctl_view s"
  "ctl_view (s\<lparr>stdout_buf := x15\<rparr>) = ctl_view s"
  "ctl_view (s\<lparr>m_state := x16\<rparr>) = ctl_view s"
  by (simp_all add: ctl_view_def)

lemma ctl_stop: "ctl_view (pairing_stop c s) = ctl_view s"
proof -
  have "ctl_view (coop_hop_abort u) = ctl_view u" "ctl_view (channel_hop_ep_on_disconnected c u) = ctl_view u"
    "ctl_view (esb_shell_relay_on_disconnected c u) = ctl_view u" for u :: "'a ctl_scheme"
    by (simp_all add: coop_hop_abort_def channel_hop_ep_on_disconnected_def esb_shell_relay_on_disconnected_def
        stdout_buf_reset_def Let_def)
  then show ?thesis by (simp add: pairing_stop_def notify_disconnected_def Let_def)
qed

section \<open>What commands do\<close>

lemma ctl_activate:
  "ctl_view (ctrl_activate c d hf hw quiesce s) = (True, esb_ctrl_msgq (quiesce s))"
proof -
  have a: "ctl_view (u\<lparr>esb_active := True\<rparr>) = (True, snd (ctl_view u))" for u :: "'a ctl_scheme"
    by (simp add: ctl_view_def)
  show ?thesis by (simp add: ctrl_activate_def ctl_start ctl_slot a Let_def) (simp add: ctl_view_def)
qed

lemma ctl_deactivate: "ctl_view (ctrl_deactivate c s) = (False, esb_ctrl_msgq s)"
proof -
  have a: "ctl_view (u\<lparr>esb_active := False\<rparr>) = (False, snd (ctl_view u))" for u :: "'a ctl_scheme"
    by (simp add: ctl_view_def)
  show ?thesis by (simp add: ctrl_deactivate_def ctl_start ctl_slot ctl_stop a Let_def) (simp add: ctl_view_def)
qed

text \<open>The command that changes the activity \<open>b\<close>, and what the listener queues.\<close>

definition cmd_from :: "bool \<Rightarrow> esb_cmd" where
  "cmd_from b = (if b then ESB_CMD_DEACTIVATE else ESB_CMD_ACTIVATE)"

lemma listener_queues:
  "ctl_view (snd (profile_listener_cb c profiles (Some i) s)) =
     (esb_active s, esb_ctrl_msgq s @ (if (i = profiles - 1) \<noteq> esb_active s \<and> length (esb_ctrl_msgq s) < CTRL_MSGQ_DEPTH c
        then [cmd_from (esb_active s)] else []))"
  by (auto simp: ctl_view_def profile_listener_cb_def k_msgq_put_def cmd_from_def Let_def)

lemma events_queue:
  "\<exists>k. ctl_view (profile_events c profiles is s) = (esb_active s, esb_ctrl_msgq s @ replicate k (cmd_from (esb_active s))) \<and>
     (0 < k \<longleftrightarrow> length (esb_ctrl_msgq s) < CTRL_MSGQ_DEPTH c \<and> (\<exists>i \<in> set is. (i = profiles - 1) \<noteq> esb_active s))"
proof (induction "is" arbitrary: s)
  case Nil
  then show ?case by (intro exI [of _ 0]) (simp add: profile_events_def ctl_view_def)
next
  case (Cons i "is")
  let ?t = "snd (profile_listener_cb c profiles (Some i) s)"
  let ?n = "if (i = profiles - 1) \<noteq> esb_active s \<and> length (esb_ctrl_msgq s) < CTRL_MSGQ_DEPTH c then 1 else 0 :: nat"
  have t: "esb_active ?t = esb_active s" "esb_ctrl_msgq ?t = esb_ctrl_msgq s @ replicate ?n (cmd_from (esb_active s))"
    using listener_queues [of c profiles i s] by (auto simp: ctl_view_def)
  obtain k where k: "ctl_view (profile_events c profiles is ?t) =
      (esb_active ?t, esb_ctrl_msgq ?t @ replicate k (cmd_from (esb_active ?t)))"
    "0 < k \<longleftrightarrow> length (esb_ctrl_msgq ?t) < CTRL_MSGQ_DEPTH c \<and> (\<exists>i \<in> set is. (i = profiles - 1) \<noteq> esb_active ?t)"
    using Cons.IH by blast
  have "profile_events c profiles (i # is) s = profile_events c profiles is ?t" by (simp add: profile_events_def)
  then show ?case using k t by (intro exI [of _ "?n + k"]) (auto simp: replicate_add split: if_splits)
qed

text \<open>Turns over a queue of equal commands.\<close>

lemma step_view:
  assumes "ctl_view s = (a, cmd_from b # cs)" "\<And>u. ctl_view (q u) = ctl_view u"
  obtains t where "esb_ctrl_thread_step c d hf hw q s = Some t" "ctl_view t = (\<not> b, cs)"
proof -
  have m: "esb_ctrl_msgq s = cmd_from b # cs" using assms(1) by (simp add: ctl_view_def)
  have "esb_ctrl_msgq (q (s\<lparr>esb_ctrl_msgq := cs\<rparr>)) = cs" using assms(2) [of "s\<lparr>esb_ctrl_msgq := cs\<rparr>"] by (simp add: ctl_view_def)
  then show ?thesis using that m
    by (cases b) (auto simp: esb_ctrl_thread_step_def cmd_from_def ctl_activate ctl_deactivate Let_def)
qed

lemma turns_view:
  assumes "\<And>u. ctl_view (q u) = ctl_view u" "ctl_view s = (a, replicate n (cmd_from b))"
  shows "ctl_view (ctrl_turns c d hf hw q n s) = (if n = 0 then a else \<not> b, [])"
  using assms(2)
proof (induction n arbitrary: s a)
  case (Suc n)
  from Suc.prems have "ctl_view s = (a, cmd_from b # replicate n (cmd_from b))" by simp
  from step_view [OF this assms(1), of c d hf hw] obtain t where
    "esb_ctrl_thread_step c d hf hw q s = Some t" "ctl_view t = (\<not> b, replicate n (cmd_from b))" .
  then show ?case using Suc.IH [of t "\<not> b"] by simp
qed simp

lemma serve_view:
  assumes "\<And>u. ctl_view (q u) = ctl_view u" "ctl_view s = (b, replicate k (cmd_from b))"
  shows "ctl_view (ctrl_serve c d hf hw profiles q es s) = (if k = 0 then b else \<not> b, [])"
proof (cases k)
  case 0
  then show ?thesis using assms(2) by (simp add: ctrl_serve_def esb_ctrl_thread_step_def ctl_view_def)
next
  case (Suc n)
  let ?u = "s\<lparr>esb_ctrl_msgq := replicate n (cmd_from b)\<rparr>"
  let ?Q = "\<lambda>s. profile_events c profiles es (q s)"
  have m: "esb_ctrl_msgq s = cmd_from b # replicate n (cmd_from b)" using assms(2) Suc by (simp add: ctl_view_def)
  have q: "esb_active (q ?u) = b" "esb_ctrl_msgq (q ?u) = replicate n (cmd_from b)"
    using assms(1) [of ?u] assms(2) by (simp_all add: ctl_view_def)
  obtain j where "esb_ctrl_msgq (?Q ?u) = replicate n (cmd_from b) @ replicate j (cmd_from b)"
    using events_queue [of c profiles es "q ?u"] q by (auto simp: ctl_view_def)
  then obtain t n' where t: "esb_ctrl_thread_step c d hf hw ?Q s = Some t" "ctl_view t = (\<not> b, replicate n' (cmd_from b))"
    using m by (cases b) (auto simp: esb_ctrl_thread_step_def cmd_from_def ctl_activate ctl_deactivate Let_def
        simp flip: replicate_add)
  then have "length (esb_ctrl_msgq t) = n'" by (simp add: ctl_view_def)
  then show ?thesis using t turns_view [OF assms(1) t(2), of c d hf hw] Suc by (simp add: ctrl_serve_def)
qed

section \<open>Properties\<close>

lemma served:
  assumes "esb_ctrl_msgq s = []" "0 < CTRL_MSGQ_DEPTH c" "\<And>u. ctl_view (q u) = ctl_view u"
  shows "ctl_view (ctrl_serve c d hf hw profiles q es (profile_events c profiles is s)) =
    (if \<exists>i \<in> set is. (i = profiles - 1) \<noteq> esb_active s then \<not> esb_active s else esb_active s, [])"
proof -
  obtain k where k: "ctl_view (profile_events c profiles is s) = (esb_active s, replicate k (cmd_from (esb_active s)))"
    "0 < k \<longleftrightarrow> (\<exists>i \<in> set is. (i = profiles - 1) \<noteq> esb_active s)"
    using events_queue [of c profiles "is" s] assms(1,2) by auto
  from serve_view [OF assms(3) k(1), of c d hf hw profiles es] show ?thesis using k(2) by auto
qed

text \<open>
  C35. When the control thread has served each profile change before the next one comes, the endpoint owns the radio
  exactly while the last profile is selected, its queue is empty, and the wrapped Bluetooth calls do nothing just then.
\<close>

theorem control_follows_profile:
  assumes "esb_ctrl_msgq s = []" "0 < CTRL_MSGQ_DEPTH c" "\<And>u. ctl_view (q u) = ctl_view u" "is \<noteq> []"
    and "t = fold (\<lambda>i u. ctrl_serve c d hf hw profiles q [] (profile_events c profiles [i] u)) is s"
  shows "(esb_active t \<longleftrightarrow> last is = profiles - 1) \<and> esb_ctrl_msgq t = [] \<and>
    wrap_ble real t b = (if last is = profiles - 1 then (0, b) else real b)"
proof -
  have "ctl_view t = (last is = profiles - 1, [])"
    using assms(4,5)
  proof (induction "is" arbitrary: t rule: rev_induct)
    case (snoc i "is")
    let ?u = "fold (\<lambda>i u. ctrl_serve c d hf hw profiles q [] (profile_events c profiles [i] u)) is s"
    have "esb_ctrl_msgq ?u = []" using snoc.IH [OF _ refl] assms(1) by (cases "is = []") (auto simp: ctl_view_def)
    from served [OF this assms(2,3), of d hf hw profiles "[]" "[i]"] show ?case using snoc.prems(2) by auto
  qed simp
  then show ?thesis by (simp add: ctl_view_def wrap_ble_def)
qed

text \<open>
  C36. Profile changes that come faster than the thread serves them are lost: of any number of changes, together with
  those that come while the thread sleeps in its first turn, the first that asks for a different owner of the radio
  decides, whatever profile is selected in the end. So a user who passes over the endpoint's profile is left with
  the endpoint on the air and Bluetooth silenced on a Bluetooth profile, and one who passes over another profile
  with the endpoint off on its own.
\<close>

theorem first_change_wins:
  assumes "esb_ctrl_msgq s = []" "0 < CTRL_MSGQ_DEPTH c" "\<And>u. ctl_view (q u) = ctl_view u"
    and "t = ctrl_serve c d hf hw profiles q es (profile_events c profiles is s)"
  shows "esb_ctrl_msgq t = [] \<and>
    (esb_active t \<longleftrightarrow> (if \<exists>i \<in> set is. (i = profiles - 1) \<noteq> esb_active s then \<not> esb_active s else esb_active s))"
  using served [OF assms(1-3), of d hf hw profiles es "is"] by (simp add: assms(4) ctl_view_def)

section \<open>Concrete profile changes\<close>

definition ctl_off :: ctl where
  "ctl_off = ip_at \<lparr>esb_active = False, esb_ctrl_msgq = []\<rparr>"

definition dts_example :: esb_dts where
  "dts_example = \<lparr>pairing_base_address = [1, 2, 3, 4], data_base_address = [5, 6, 7, 8], pairing_prefix = 0xC1,
     data_prefix = 0xC2, dts_esb_channel = 78\<rparr>"

lemma ctl_off: "\<not> esb_active ctl_off" "esb_ctrl_msgq ctl_off = []"
  by (simp_all add: ctl_off_def ip_at_def hid_at_def pair_at_def bench_at_def tport_at_def)

theorem control_follows_profile_witness:
  "\<not> esb_active (fold (\<lambda>i u. ctrl_serve default_kcfg dts_example None None 5 (\<lambda>u. u) [] (profile_events default_kcfg 5 [i] u))
     [4, 2] ctl_off)"
proof -
  have "0 < CTRL_MSGQ_DEPTH default_kcfg" "[4, 2] \<noteq> ([] :: nat list)" by simp_all
  from control_follows_profile [where q = "\<lambda>u. u" and profiles = 5 and d = dts_example and hf = None and hw = None
      and real = "\<lambda>b. (1, b)" and b = "()", OF ctl_off(2) this(1) refl this(2) refl] show ?thesis by simp
qed

theorem first_change_wins_witness:
  "esb_active (ctrl_serve default_kcfg dts_example None None 5 (\<lambda>u. u) [2] (profile_events default_kcfg 5 [4, 3] ctl_off))"
proof -
  have "0 < CTRL_MSGQ_DEPTH default_kcfg" by simp
  from first_change_wins [where q = "\<lambda>u. u" and profiles = 5, OF ctl_off(2) this refl refl, of dts_example None None "[2]" "[4, 3]"]
  show ?thesis using ctl_off(1) by simp
qed

end
