(* ===== verification/BenchFlood.thy ===== *)
theory BenchFlood
  imports Bench
begin

text \<open>
  The flood of the radio benchmark: what one run of \<open>bench_tx_fn\<close> (\<open>src/esb/bench.c\<close>) leaves in the radio's
  queue, and that its loop ends.
\<close>

definition ping_data :: "kcfg \<Rightarrow> u8 \<Rightarrow> u8 list" where
  "ping_data c seq = encode (PktBenchPing seq (replicate (ESB_PKT_DATA_MAX c) 0))"

lemma bench_ping_fields:
  "pl_data (bench_ping c seq) = ping_data c seq" "pl_pipe (bench_ping c seq) = 1" "\<not> pl_noack (bench_ping c seq)"
  "length (ping_data c seq) = ESB_PKT_DATA_MAX c + 2" "ping_data c seq \<noteq> []"
  by (simp_all add: bench_ping_def ping_data_def)

lemma write_keeps_seq: "m_seq (snd (esb_write_payload c p s)) = m_seq s"
  by (simp add: esb_write_payload_def start_tx_transaction_def Let_def split: option.split)

lemma ping_written:
  assumes "ptx_inv c s" "ESB_PKT_DATA_MAX c + 2 \<le> ESB_MAX_PAYLOAD_LENGTH c"
    and "esb_write_payload c (bench_ping c (m_seq s)) (s\<lparr>m_seq := m_seq s + 1\<rparr>) = (err, t)"
  shows "err = None \<longleftrightarrow> esb_initialized s \<and> length (tx_queue s) < ESB_TX_FIFO_SIZE c"
    "ptx_inv c t" "m_seq t = m_seq s + 1" "esb_initialized t = esb_initialized s"
    "err \<noteq> None \<Longrightarrow> tx_queue t = tx_queue s"
    "err = None \<Longrightarrow> \<exists>x. tx_queue t = tx_queue s @ [x] \<and> pl_data x = ping_data c (m_seq s) \<and> pl_pipe x = 1"
proof -
  have inv: "ptx_inv c (s\<lparr>m_seq := m_seq s + 1\<rparr>)" using assms(1) by (simp add: ptx_inv_def)
  note w = write_ptx [OF inv assms(3)]
  have "length (tx_queue s) \<le> ESB_TX_FIFO_SIZE c"
    using assms(1) by (simp add: ptx_inv_def ring_wf_def ring_list_def)
  then show "err = None \<longleftrightarrow> esb_initialized s \<and> length (tx_queue s) < ESB_TX_FIFO_SIZE c"
    using w(1) assms(2) by (simp add: bench_ping_fields ESB_PIPE_COUNT_def del: length_ring_list)
  show "ptx_inv c t" "m_seq t = m_seq s + 1" "esb_initialized t = esb_initialized s"
    using w(2,8) write_keeps_seq [of c "bench_ping c (m_seq s)" "s\<lparr>m_seq := m_seq s + 1\<rparr>"] assms(3) by simp_all
  show "err \<noteq> None \<Longrightarrow> tx_queue t = tx_queue s"
    "err = None \<Longrightarrow> \<exists>x. tx_queue t = tx_queue s @ [x] \<and> pl_data x = ping_data c (m_seq s) \<and> pl_pipe x = 1"
    using w(3) by (auto simp: bench_ping_fields)
qed

lemma upt_pings: "map (\<lambda>i. f (s + of_nat i)) [0..<Suc n] = f s # map (\<lambda>i. f (s + 1 + of_nat i)) [0..<n]"
  for s :: u8
  by (simp add: upt_conv_Cons map_Suc_upt [symmetric] add.assoc del: upt_Suc)

lemma bench_fill_spec:
  assumes "ptx_inv c s" "ESB_PKT_DATA_MAX c + 2 \<le> ESB_MAX_PAYLOAD_LENGTH c"
    and "n = (if esb_initialized s then ESB_TX_FIFO_SIZE c - length (tx_queue s) else 0)"
  shows "\<exists>t xs. bench_fill c s = Some t \<and> ptx_inv c t \<and> tx_queue t = tx_queue s @ xs \<and>
    map pl_data xs = map (\<lambda>i. ping_data c (m_seq s + of_nat i)) [0..<n] \<and> (\<forall>x \<in> set xs. pl_pipe x = 1) \<and>
    m_seq t = m_seq s + of_nat n + 1"
  using assms
proof (induction n arbitrary: s)
  case 0
  obtain err t where w: "esb_write_payload c (bench_ping c (m_seq s)) (s\<lparr>m_seq := m_seq s + 1\<rparr>) = (err, t)" by fastforce
  note p = ping_written [OF 0(1,2) w]
  have "err \<noteq> None" using p(1) 0(3) by (auto split: if_splits)
  then obtain e where "err = Some e" by blast
  then have "bench_fill c s = Some t" by (subst bench_fill.simps) (simp add: w)
  then show ?case using p(2,3) p(5) [OF \<open>err \<noteq> None\<close>] by simp
next
  case (Suc n)
  obtain err u where w: "esb_write_payload c (bench_ping c (m_seq s)) (s\<lparr>m_seq := m_seq s + 1\<rparr>) = (err, u)" by fastforce
  note p = ping_written [OF Suc.prems(1,2) w]
  have i: "esb_initialized s" and n: "Suc n = ESB_TX_FIFO_SIZE c - length (tx_queue s)"
    using Suc.prems(3) by (simp_all split: if_splits)
  then have err: "err = None" using p(1) by simp
  then obtain x where x: "tx_queue u = tx_queue s @ [x]" "pl_data x = ping_data c (m_seq s)" "pl_pipe x = 1"
    using p(6) by blast
  have "n = (if esb_initialized u then ESB_TX_FIFO_SIZE c - length (tx_queue u) else 0)"
    using n i p(4) x(1) by (simp del: length_ring_list)
  from Suc.IH [OF p(2) Suc.prems(2) this] obtain t xs where t: "bench_fill c u = Some t" "ptx_inv c t"
    "tx_queue t = tx_queue u @ xs" "map pl_data xs = map (\<lambda>i. ping_data c (m_seq u + of_nat i)) [0..<n]"
    "\<forall>x \<in> set xs. pl_pipe x = 1" "m_seq t = m_seq u + of_nat n + 1" by blast
  have "bench_fill c s = Some t" using t(1) err by (subst bench_fill.simps) (simp add: w)
  moreover have "map pl_data (x # xs) = map (\<lambda>i. ping_data c (m_seq s + of_nat i)) [0..<Suc n]"
    unfolding upt_pings using t(4) x(2) p(3) by simp
  ultimately show ?case
    using t(2,3,5,6) x(1,3) p(3) by (intro exI [of _ t] exI [of _ "x # xs"]) (simp add: add_ac del: upt_Suc)
qed

text \<open>
  C37. One run of the benchmark's flood ends: its loop, which the source leaves only when the radio refuses a
  packet, fills the transmit FIFO to the last slot with pings on the data pipe whose sequence numbers count up, after
  what was queued before, and with the radio off it writes nothing. The ping that is refused has used up a number: the
  first ping of the next run is not the successor of the last one sent.
\<close>

theorem bench_flood_fills:
  assumes "ptx_inv c s" "m_bench_state s = BENCH_RUNNING" "ESB_PKT_DATA_MAX c + 2 \<le> ESB_MAX_PAYLOAD_LENGTH c"
    and "n = (if esb_initialized s then ESB_TX_FIFO_SIZE c - length (tx_queue s) else 0)"
  shows "\<exists>t xs. bench_tx_fn c s = Some t \<and> ptx_inv c t \<and> tx_queue t = tx_queue s @ xs \<and>
    map pl_data xs = map (\<lambda>i. encode (PktBenchPing (m_seq s + of_nat i) (replicate (ESB_PKT_DATA_MAX c) 0))) [0..<n] \<and>
    list_all (\<lambda>x. pl_pipe x = 1) xs \<and> m_seq t = m_seq s + of_nat n + 1"
  using bench_fill_spec [OF assms(1,3,4)] assms(2) by (simp add: bench_tx_fn_def ping_data_def list_all_iff)

theorem bench_flood_fills_witness:
  "\<exists>t. bench_tx_fn default_kcfg (bench_example\<lparr>m_bench_state := BENCH_RUNNING\<rparr>) = Some t \<and> length (tx_queue t) = 8 \<and>
    m_seq t = 9"
proof -
  let ?s = "bench_example\<lparr>m_bench_state := BENCH_RUNNING\<rparr>"
  have "ptx_inv c (u\<lparr>m_bench_state := x\<rparr>) = ptx_inv c u" for c x and u :: bench by (simp add: ptx_inv_def)
  then have s: "ptx_inv default_kcfg ?s" "m_bench_state ?s = BENCH_RUNNING" "esb_initialized ?s" "tx_queue ?s = []" "m_seq ?s = 0"
    by simp_all (simp add: bench_at_def tport_at_def)
  have "(8 :: nat) = (if esb_initialized ?s then ESB_TX_FIFO_SIZE default_kcfg - length (tx_queue ?s) else 0)"
    unfolding s(4) using s(3) by simp
  moreover have "ESB_PKT_DATA_MAX default_kcfg + 2 \<le> ESB_MAX_PAYLOAD_LENGTH default_kcfg" by (simp add: ESB_PKT_DATA_MAX_def)
  ultimately obtain t xs where t: "bench_tx_fn default_kcfg ?s = Some t" "tx_queue t = tx_queue ?s @ xs"
    "map pl_data xs = map (\<lambda>i. encode (PktBenchPing (m_seq ?s + of_nat i) (replicate (ESB_PKT_DATA_MAX default_kcfg) 0))) [0..<8]"
    "m_seq t = m_seq ?s + of_nat 8 + 1"
    using bench_flood_fills [OF s(1,2)] by blast
  have "length xs = 8" using arg_cong [OF t(3), of length] by simp
  then show ?thesis using t s(4,5) by (simp del: length_ring_list)
qed

end
