(* ===== verification/Spec2Isabelle.thy ===== *)
theory Spec2Isabelle
  imports Firmware Dongle EsbAddr EsbProgress KeyPath VerifyPath UsbHid VectorTable ShellSession EndpointControl BenchFlood
begin

text \<open>
  A verification development of the ESB endpoint firmware: a keyboard that speaks Nordic's
  Enhanced ShockBurst protocol to a USB dongle in place of Bluetooth.

  \<^bold>\<open>The program and its model.\<close> All mutable memory of the endpoint is one record, extended
  theory by theory in the order the components call each other, so that an operation of a lower
  component (written over \<open>'a xxx_scheme\<close>) runs unchanged on the state of a higher one. The
  names are the source's. Paths are relative to the repository.

  \<^item> \<open>Prelude\<close>: machine integers (\<open>u8\<close>, \<open>u16\<close>, \<open>u32\<close>, \<open>i16\<close>, \<open>i32\<close> as words of that width),
    the kernel (\<open>kern\<close>: uptime, cycle counter, the delayed work items with their due times),
    rings of the shape \<open>back / front / count\<close> with their list view, byte lists.
  \<^item> \<open>Config\<close>: the \<open>Kconfig\<close> options (\<open>src/Kconfig\<close>, \<open>src/shell/Kconfig\<close>) as the record \<open>kcfg\<close>, their
    ranges and dependencies (\<open>valid_kcfg\<close>) and their defaults. Every \<open>IS_ENABLED\<close> is a condition
    of the model, so a theorem holds for all builds unless it says which.
  \<^item> \<open>ChannelHop\<close> (record \<open>chop\<close>): \<open>src/esb/channel_hop.c\<close>, the generator, the quarantine table and
    the channel picker.
  \<^item> \<open>Esb\<close>, \<open>EsbProgress\<close>, \<open>EsbAddr\<close> (record \<open>esb\<close>): \<open>vendor/nrf-esb/subsys/esb.c\<close>, the repository's
    patched copy of the radio library. The library is a state machine driven by the
    \<open>RADIO\<close> and timer interrupts; \<open>radio_irq_handler\<close> takes what the hardware delivered (a decoded
    PDU or none, its CRC, the RSSI, the pipe) as its argument and dispatches on
    the installed \<open>on_radio_disabled\<close> handler, as the source does through its function pointer. The
    FIFOs, packet identifiers, acknowledgement payloads, retransmission counters and interrupt
    flags are its state.
  \<^item> \<open>Protocol\<close>: \<open>include/zmk_esb/protocol.h\<close>, the packets as a datatype with their bytes, and
    the fields as the receivers read them.
  \<^item> \<open>HopEp\<close>, \<open>HopWork\<close>, \<open>HopManager\<close> (record \<open>hop\<close>): \<open>src/esb/channel_hop_ep.c\<close>, the hop manager: hooks
    called from the transport (\<open>HopEp\<close>), the work functions that negotiate, hop, revert,
    offer and commit (\<open>HopWork\<close>), and what they promise (\<open>HopManager\<close>).
  \<^item> \<open>EventRing\<close>, \<open>Transport\<close>, \<open>TransportEvt\<close> (record \<open>tport\<close>): \<open>src/esb/esb_transport.c\<close>, sending (quiet
    window, backpressure, motion refund in 32-bit words, the bookkeeping rings), channel switching, flushing,
    link quality (\<open>Transport\<close>), and the event callback with both kinds of report (\<open>TransportEvt\<close>).
  \<^item> \<open>ShellRelay\<close> (\<open>shell\<close>): \<open>src/shell/shell_relay.c\<close>; \<open>Bench\<close> (\<open>bench\<close>): \<open>src/esb/bench.c\<close>;
    \<open>Pairing\<close> (\<open>pair\<close>): \<open>src/esb/pairing.c\<close>; \<open>HidRelay\<close> (\<open>hid\<close>): \<open>src/esb/hid_relay.c\<close>;
    \<open>InputProcessor\<close> (\<open>ip\<close>): \<open>src/esb/input_processor_esb.c\<close>; \<open>Endpoint\<close> (\<open>ctl\<close>):
    \<open>src/esb/esb_endpoint.c\<close>; \<open>Behaviors\<close>: the two keymap behaviors of \<open>src/behaviors\<close>.
  \<^item> \<open>Duties\<close>, \<open>Keeps\<close>, \<open>KeepsApp\<close>, \<open>Firmware\<close>: the endpoint as one running system. \<open>Firmware\<close> has the
    memory it boots with (\<open>boot_memory\<close>), the function of every work item (\<open>fw_work\<close>, the bindings of the
    \<open>k_work_init\<close> calls and \<open>K_WORK_DEFINE\<close>s), the events that reach it (\<open>fw_do\<close>: interrupts, keys, pointer
    events, log lines, profile changes, the passing of time) and the control thread; \<open>fw_run\<close> is any
    interleaving of them. \<open>Duties\<close> has the invariant \<open>fw_inv\<close> and its rules, \<open>Keeps\<close> (radio events, hop manager, shell,
    benchmark) and \<open>KeepsApp\<close> (pairing, HID, pointer, endpoint) that every operation keeps it.
  \<^item> \<open>Dongle\<close> (\<open>dongle\<close>, over \<open>esb\<close>): \<open>dongle/src/main.c\<close>, the receiver's program; \<open>UsbHid\<close>: its report
    descriptor and what the host makes of its reports.
  \<^item> \<open>Air\<close>: endpoint and dongle together. One attempt of a transmission (\<open>exchange\<close>) runs the radio interrupts of
    both ends, with the packet or the acknowledgement lost or not; \<open>air_run\<close> is any sequence of writes, attempts and
    event interrupts. \<open>app_step\<close> is the abstract dongle program: what one packet means to it.
  \<^item> \<open>ReplyQueues\<close>, \<open>AirReplies\<close>: the way back. The dongle's queues of acknowledgement payloads per pipe and the
    answers its program owes (\<open>answer\<close>); \<open>duplex_run\<close>, a run that also records the replies queued and the packets the
    endpoint reads, which reads early enough to have room for one more.
  \<^item> \<open>AirSend\<close>, \<open>KeyPath\<close>, \<open>PairPath\<close>, \<open>VerifyPath\<close>: the firmware over the radio. \<open>AirSend\<close> has the transport's send as a step of such
    a run; \<open>keyboard_run\<close> (\<open>KeyPath\<close>) adds the key event listener and the retry work, \<open>pairing_run\<close> (\<open>PairPath\<close>) the
    beacon work and \<open>pairing_on_rx\<close> on each packet read, \<open>verify_run\<close> (\<open>VerifyPath\<close>) the work that checks a stored dongle.
  \<^item> \<open>VectorTable\<close>: \<open>install_ram_vtor\<close> and the vector swaps of both firmwares, on memory as a map of words.
  \<^item> \<open>ShellSession\<close>: the shell relay's promises, over \<open>ShellRelay\<close> and the transport; \<open>BenchFlood\<close>: those of the
    benchmark's flood; \<open>EndpointControl\<close>: the control thread serving what the profile listener queues
    (\<open>ctrl_turns\<close>, \<open>ctrl_serve\<close>), so who owns the radio.

  \<^bold>\<open>How the parts interact.\<close> A key or pointer event reaches \<open>HidRelay\<close> or \<open>InputProcessor\<close>, which
  call \<open>esb_transport_send\<close>; the transport admits it to the radio's FIFO with
  \<open>esb_write_payload\<close>; the interrupts of \<open>Esb\<close> send it and raise success, failure or receive flags;
  \<open>zmk_esb_transport_evt_cb\<close> consumes them, adjusts the transport's books and informs the hop
  manager; received bytes go through the receive work to \<open>pairing_on_rx\<close>, which serves pairing, hop
  packets, bench results and shell data. A work item that is due is run by calling its work
  function: the order in which interrupts and work items run is left open everywhere, so a
  theorem about one step holds in any interleaving. A work function runs to its end or to its next
  sleep before anything else does; an interrupt that preempts it in between is not modelled.

  \<^bold>\<open>Interfaces.\<close> The contracts between components are locales, each interpreted on the model's own
  definitions: \<open>channel_store\<close> and \<open>channel_picker\<close> (in \<open>ChannelHop\<close>: what the hop manager relies
  on from the quarantine and the picker), \<open>bounded_fifo\<close> (in \<open>Esb\<close>: a bounded queue, which the
  radio's FIFOs and the transport's bookkeeping rings both are) and \<open>send_invariant\<close> (in
  \<open>HopWork\<close>: a property every admitted packet keeps is kept by every work function that sends;
  interpreted in \<open>HopManager\<close>, \<open>Pairing\<close>, \<open>ShellSession\<close>, \<open>Duties\<close> and \<open>KeepsApp\<close> on the invariants and views they need).

  \<^bold>\<open>Sleeping code and bounds.\<close> A function that sleeps takes what runs meanwhile as the argument
  \<open>sleep\<close>, about which only that time passes is assumed (\<open>sleeps\<close>), or, in a run of the system, that it is a
  run itself; its loop is
  \<open>while_option\<close>, so that not returning would be \<open>None\<close>, and its return is proved. The receive loops
  and the shell's drain loop recurse on the length of their ring. The dongle's receive loop
  (\<open>dongle_rx_loop\<close>) recurses on the number of queued packets. The benchmark's fill loop, which the
  source leaves only when the radio refuses, is a \<open>partial_function\<close>. No fuel is used.

  \<^bold>\<open>What the lemmas show.\<close> The picker is optimal and complete and the quarantine exact; the transmitter's
  invariant is kept by every call the endpoint makes and by its three interrupts, its queue is sent in turn, its attempts are exact, its
  receiver drops duplicates; a send does exactly one of its specified
  outcomes and keeps the noack ring in step unless the ring is full; the refund conserves motion; hops, reverts, refused
  hops and the idle announcement do what they should; pairing refines an abstract
  specification and survives a restart; modifiers are counted exactly; deferred motion
  accumulates; shell output leaves byte for byte and the shell gets the edited line; the benchmark's flood fills the
  radio's queue and stops; the endpoint owns the radio while its profile is selected, if the control thread keeps up
  with the changes, and otherwise as the first of them asked. Over a medium that loses
  packets and acknowledgements the dongle takes every packet exactly once and in order, and the reports of all key
  events come out of its USB port once and in order, those the quiet window deferred included; both ends of a pairing
  agree on it, and a check of the stored pairing accepts the stored dongle alone; the endpoint receives every reply exactly once and in order, and a beacon is
  answered at most once; the dongle's USB reports have the declared ids and lengths but for the mouse, whose axes
  arrive mixed up. The endpoint shares the interrupt vectors with the Bluetooth stack without losing one, the dongle
  loses them. Of the whole system: from boot on, whatever runs, the fifteen work items of \<open>wanted\<close> (\<open>Duties\<close>) are
  scheduled whenever they are needed: beacon, verify request, proposal, idle check, burst, cooperative commit, adaptive
  retry, HID retry, pointer retry of held button edges, shell poll, inactivity timeout, output flush and the three timers
  of the benchmark. The background poll and pointer motion deferred without a button edge are not among them. The radio and the hop manager stay well formed, and the hop manager believes the link up exactly
  when pairing is connected, except after the steps that drop the pairing without telling it. The theorems that show a flaw are stated as the code behaves, with the
  circumstances as hypotheses.

  \<^bold>\<open>Not modelled.\<close> The PPI / DPPI wiring of radio and timers (\<open>esb_ppi.c\<close>, \<open>esb_dppi.c\<close>), front-end
  modules, transmit power, errata and the register-level CRC and address setup in \<open>esb.c\<close>: hardware
  configuration without control flow of its own, represented by the arguments of
  \<open>radio_irq_handler\<close>. The USB stack of the dongle, \<open>SYS_INIT\<close> order, device-tree and build files. Zephyr, ZMK and the Bluetooth stack are not
  in the repository: what the code relies on is a parameter (results of flash, clock and
  semaphore calls) or the explicit kernel record.
\<close>

end
